(* ===== verification/PDI_Prelude.thy ===== *)
theory PDI_Prelude
  imports Main "HOL-Library.Word" "HOL-Library.Code_Target_Nat"
begin

text \<open>
  Shared vocabulary of the development: the machine types of the C++ code (\<open>size_t\<close>, addresses,
  bytes, memory), the outcome types (an exception, undefined behaviour, or a value) with their
  sequencing operations, the rounding arithmetic of alignments, and the decimal rendering used
  by error messages.
\<close>

unbundle bit_operations_syntax

named_theorems outcome_simps \<open>unfolding of the outcome and state-passing combinators\<close>
named_theorems layout_simps \<open>arithmetic of displacements and alignments\<close>

section \<open>Machine types\<close>

text \<open>
  \<open>size_t\<close> is a 64-bit unsigned integer. It is kept as a natural number and the wrap-around of
  every operation that can overflow is written out. Addresses are natural numbers: pointer
  arithmetic that leaves the address space is not given a meaning by C++ and never wraps here.
\<close>

type_synonym size_t = nat
type_synonym addr = nat
type_synonym byte = "8 word"
type_synonym mem = "addr \<Rightarrow> byte"

abbreviation size_max :: nat where
  "size_max \<equiv> 2 ^ 64"

definition sz_add :: "size_t \<Rightarrow> size_t \<Rightarrow> size_t" where
  "sz_add a b = (a + b) mod size_max"

definition sz_mul :: "size_t \<Rightarrow> size_t \<Rightarrow> size_t" where
  "sz_mul a b = (a * b) mod size_max"

definition sz_sub :: "size_t \<Rightarrow> size_t \<Rightarrow> size_t" where
  "sz_sub a b = (a + (size_max - b mod size_max)) mod size_max"

lemma sz_add_eq [layout_simps]: "a + b < size_max \<Longrightarrow> sz_add a b = a + b"
  by (simp add: sz_add_def)

lemma sz_mul_eq [layout_simps]: "a * b < size_max \<Longrightarrow> sz_mul a b = a * b"
  by (simp add: sz_mul_def)

lemma sz_sub_eq [layout_simps]: "b \<le> a \<Longrightarrow> a < size_max \<Longrightarrow> sz_sub a b = a - b"
proof -
  assume *: "b \<le> a" "a < size_max"
  then have "a + (size_max - b mod size_max) = size_max + (a - b)" by simp
  with * show ?thesis unfolding sz_sub_def by (simp only: mod_add_self1) simp
qed

lemma sz_sub_wraps: "a < b \<Longrightarrow> b < size_max \<Longrightarrow> sz_sub a b = size_max - (b - a)"
  by (simp add: sz_sub_def)

lemma sz_add_less [simp]: "sz_add a b < size_max"
  by (simp add: sz_add_def)

lemma sz_mul_less [simp]: "sz_mul a b < size_max"
  by (simp add: sz_mul_def)

text \<open>\<open>static_cast<size_t>(long)\<close>: reduction modulo \<open>2 ^ 64\<close> of a signed value.\<close>

definition size_of_long :: "int \<Rightarrow> size_t" where
  "size_of_long l = nat (l mod int size_max)"

lemma size_of_long_nonneg: "0 \<le> l \<Longrightarrow> l < int size_max \<Longrightarrow> size_of_long l = nat l"
  by (simp add: size_of_long_def)

section \<open>Outcomes\<close>

text \<open>
  A C++ computation ends with a value, with a thrown exception, or in undefined behaviour
  (division by zero, access outside of a vector, \<dots>), which no handler can catch.
\<close>

datatype 'e fault = Throw 'e | UB

fun rbind :: "'e fault + 'a \<Rightarrow> ('a \<Rightarrow> 'e fault + 'b) \<Rightarrow> 'e fault + 'b" where
  "rbind (Inl f) k = Inl f"
| "rbind (Inr x) k = k x"

lemma rbind_Inr_iff [outcome_simps]: "rbind m k = Inr y \<longleftrightarrow> (\<exists>x. m = Inr x \<and> k x = Inr y)"
  by (cases m) auto

lemma rbind_Inl_iff: "rbind m k = Inl f \<longleftrightarrow> m = Inl f \<or> (\<exists>x. m = Inr x \<and> k x = Inl f)"
  by (cases m) auto

text \<open>State passing with the state kept when an exception is thrown.\<close>

type_synonym ('s, 'e, 'a) sx = "'s \<Rightarrow> ('e fault + 'a) \<times> 's"

definition sx_return :: "'a \<Rightarrow> ('s, 'e, 'a) sx" where
  "sx_return x = (\<lambda>s. (Inr x, s))"

definition sx_fail :: "'e fault \<Rightarrow> ('s, 'e, 'a) sx" where
  "sx_fail f = (\<lambda>s. (Inl f, s))"

definition sx_bind :: "('s, 'e, 'a) sx \<Rightarrow> ('a \<Rightarrow> ('s, 'e, 'b) sx) \<Rightarrow> ('s, 'e, 'b) sx" where
  "sx_bind m k = (\<lambda>s. case m s of (Inl f, s') \<Rightarrow> (Inl f, s') | (Inr x, s') \<Rightarrow> k x s')"

definition sx_lift :: "'e fault + 'a \<Rightarrow> ('s, 'e, 'a) sx" where
  "sx_lift r = (\<lambda>s. (r, s))"

definition sx_modify :: "('s \<Rightarrow> 's) \<Rightarrow> ('s, 'e, unit) sx" where
  "sx_modify f = (\<lambda>s. (Inr (), f s))"

text \<open>\<open>try { m } catch (...) { h }\<close>: the handler sees every exception, never undefined behaviour.\<close>

definition sx_catch :: "('s, 'e, 'a) sx \<Rightarrow> ('e \<Rightarrow> ('s, 'e, 'a) sx) \<Rightarrow> ('s, 'e, 'a) sx" where
  "sx_catch m h = (\<lambda>s. case m s of (Inl (Throw e), s') \<Rightarrow> h e s' | r \<Rightarrow> r)"

definition sx_get :: "('s \<Rightarrow> 'a) \<Rightarrow> ('s, 'e, 'a) sx" where
  "sx_get f s = (Inr (f s), s)"

text \<open>An exception that leaves a \<open>noexcept\<close> function terminates the program.\<close>

definition sx_noexcept :: "('s, 'e, 'a) sx \<Rightarrow> ('s, 'e, 'a) sx" where
  "sx_noexcept f s = (case f s of (Inl _, s') \<Rightarrow> (Inl UB, s') | (Inr x, s') \<Rightarrow> (Inr x, s'))"

lemma sx_return_apply [simp]: "sx_return x s = (Inr x, s)"
  by (simp add: sx_return_def)

lemma sx_fail_apply [simp]: "sx_fail f s = (Inl f, s)"
  by (simp add: sx_fail_def)

lemma sx_lift_apply [simp]: "sx_lift r s = (r, s)"
  by (simp add: sx_lift_def)

lemma sx_modify_apply [simp]: "sx_modify f s = (Inr (), f s)"
  by (simp add: sx_modify_def)

lemma sx_bind_Inr [simp]: "m s = (Inr x, s') \<Longrightarrow> sx_bind m k s = k x s'"
  by (simp add: sx_bind_def)

lemma sx_bind_Inl [simp]: "m s = (Inl f, s') \<Longrightarrow> sx_bind m k s = (Inl f, s')"
  by (simp add: sx_bind_def)

lemma sx_bind_return [simp]: "sx_bind (sx_return x) k = k x"
  by (rule ext) simp

lemma sx_bind_modify [simp]: "sx_bind (sx_modify f) k s = k () (f s)"
  by simp

lemma sx_bind_lift_Inr [simp]: "sx_bind (sx_lift (Inr x)) k = k x"
  by (rule ext) simp

lemma sx_bind_lift_Inl [simp]: "sx_bind (sx_lift (Inl f)) k = sx_fail f"
  by (rule ext) simp

lemma sx_bind_Inr_iff [outcome_simps]:
  "sx_bind m k s = (Inr y, t) \<longleftrightarrow> (\<exists>x s'. m s = (Inr x, s') \<and> k x s' = (Inr y, t))"
  by (auto simp: sx_bind_def split: prod.splits sum.splits)

lemma sx_catch_Inr [simp]: "m s = (Inr x, s') \<Longrightarrow> sx_catch m h s = (Inr x, s')"
  by (simp add: sx_catch_def)

lemma sx_catch_Throw [simp]: "m s = (Inl (Throw e), s') \<Longrightarrow> sx_catch m h s = h e s'"
  by (simp add: sx_catch_def)

lemma sx_catch_UB [simp]: "m s = (Inl UB, s') \<Longrightarrow> sx_catch m h s = (Inl UB, s')"
  by (simp add: sx_catch_def)

lemma sx_get_apply [simp]: "sx_get f s = (Inr (f s), s)"
  by (simp add: sx_get_def)

lemma sx_bind_get [simp]: "sx_bind (sx_get f) k s = k (f s) s"
  by simp

text \<open>A loop over the elements of a list.\<close>

fun sx_each :: "('x \<Rightarrow> ('s, 'e, unit) sx) \<Rightarrow> 'x list \<Rightarrow> ('s, 'e, unit) sx" where
  "sx_each f [] = sx_return ()"
| "sx_each f (x # xs) = sx_bind (f x) (\<lambda>_. sx_each f xs)"

lemma sx_each_cong [fundef_cong]:
  "xs = ys \<Longrightarrow> (\<And>x. x \<in> set ys \<Longrightarrow> f x = g x) \<Longrightarrow> sx_each f xs = sx_each g ys"
  by (induction xs arbitrary: ys) auto

section \<open>Hoare triples\<close>

text \<open>
  \<open>sx_hoare P f Q E\<close>: from a state with \<open>P\<close>, \<open>f\<close> returns with \<open>Q\<close> or throws with \<open>E\<close>; nothing is said of
  undefined behaviour.
\<close>

definition sx_hoare ::
    "('s \<Rightarrow> bool) \<Rightarrow> ('s, 'e, 'a) sx \<Rightarrow> ('a \<Rightarrow> 's \<Rightarrow> bool) \<Rightarrow> ('s \<Rightarrow> bool) \<Rightarrow> bool" where
  "sx_hoare P f Q E \<longleftrightarrow> (\<forall>s. P s \<longrightarrow>
     (case f s of (Inr x, s') \<Rightarrow> Q x s' | (Inl (Throw e), s') \<Rightarrow> E s' | (Inl UB, s') \<Rightarrow> True))"

lemma sx_hoareD:
  "sx_hoare P f Q E \<Longrightarrow> P s \<Longrightarrow> f s = (Inr x, s') \<Longrightarrow> Q x s'"
  "sx_hoare P f Q E \<Longrightarrow> P s \<Longrightarrow> f s = (Inl (Throw e), s') \<Longrightarrow> E s'"
  by (fastforce simp: sx_hoare_def)+

lemma hoare_pre: "sx_hoare P f Q E \<Longrightarrow> (\<And>s. P' s \<Longrightarrow> P s) \<Longrightarrow> sx_hoare P' f Q E"
  by (simp add: sx_hoare_def)

lemma hoare_conseq:
  "sx_hoare P f Q E \<Longrightarrow> (\<And>s. P' s \<Longrightarrow> P s) \<Longrightarrow> (\<And>x s. Q x s \<Longrightarrow> Q' x s) \<Longrightarrow> (\<And>s. E s \<Longrightarrow> E' s) \<Longrightarrow> sx_hoare P' f Q' E'"
  by (fastforce simp: sx_hoare_def split: prod.splits sum.splits fault.splits)

lemma hoare_state: "(\<And>s. P s \<Longrightarrow> sx_hoare (\<lambda>s'. s' = s) f Q E) \<Longrightarrow> sx_hoare P f Q E"
  by (simp add: sx_hoare_def)

lemma hoare_return [intro]: "(\<And>s. P s \<Longrightarrow> Q x s) \<Longrightarrow> sx_hoare P (sx_return x) Q E"
  by (simp add: sx_hoare_def)

lemma hoare_fail [intro]: "(\<And>s. P s \<Longrightarrow> E s) \<Longrightarrow> sx_hoare P (sx_fail f) Q E"
  by (simp add: sx_hoare_def split: fault.splits)

lemma hoare_get [intro]: "(\<And>s. P s \<Longrightarrow> Q (f s) s) \<Longrightarrow> sx_hoare P (sx_get f) Q E"
  by (simp add: sx_hoare_def)

lemma hoare_modify [intro]: "(\<And>s. P s \<Longrightarrow> Q () (f s)) \<Longrightarrow> sx_hoare P (sx_modify f) Q E"
  by (simp add: sx_hoare_def)

lemma hoare_lift [intro]:
  "(\<And>s x. P s \<Longrightarrow> r = Inr x \<Longrightarrow> Q x s) \<Longrightarrow> (\<And>s. P s \<Longrightarrow> E s) \<Longrightarrow> sx_hoare P (sx_lift r) Q E"
  by (auto simp: sx_hoare_def split: sum.splits fault.splits)

lemma hoare_bind:
  "sx_hoare P f R E \<Longrightarrow> (\<And>x. sx_hoare (R x) (g x) Q E) \<Longrightarrow> sx_hoare P (sx_bind f g) Q E"
  by (fastforce simp: sx_hoare_def sx_bind_def split: prod.splits sum.splits fault.splits)

lemma hoare_catch:
  "sx_hoare P f Q E' \<Longrightarrow> (\<And>e. sx_hoare E' (h e) Q E) \<Longrightarrow> sx_hoare P (sx_catch f h) Q E"
  by (fastforce simp: sx_hoare_def sx_catch_def split: prod.splits sum.splits fault.splits)

lemma hoare_noexcept: "sx_hoare P f Q E' \<Longrightarrow> sx_hoare P (sx_noexcept f) Q E"
  by (fastforce simp: sx_hoare_def sx_noexcept_def split: prod.splits sum.splits fault.splits)

lemma hoare_if:
  "(b \<Longrightarrow> sx_hoare P f Q E) \<Longrightarrow> (\<not> b \<Longrightarrow> sx_hoare P g Q E) \<Longrightarrow> sx_hoare P (if b then f else g) Q E"
  by simp

section \<open>Alignment arithmetic\<close>

text \<open>The least multiple of \<open>a\<close> at or above \<open>d\<close>.\<close>

definition round_up :: "nat \<Rightarrow> nat \<Rightarrow> nat" where
  "round_up a d = d + (a - d mod a) mod a"

lemma round_up_ge: "d \<le> round_up a d"
  by (simp add: round_up_def)

lemma round_up_less: "0 < a \<Longrightarrow> round_up a d < d + a"
  by (simp add: round_up_def)

lemma round_up_dvd: "0 < a \<Longrightarrow> a dvd round_up a d"
proof (cases "d mod a = 0")
  case True
  then show ?thesis by (auto simp: round_up_def mod_eq_0_iff_dvd)
next
  case False
  assume "0 < a"
  then have "d mod a < a" by simp
  with False have "(a - d mod a) mod a = a - d mod a" by simp
  with \<open>d mod a < a\<close> have "round_up a d = d div a * a + a"
    using div_mult_mod_eq [of d a] unfolding round_up_def by linarith
  then show ?thesis by simp
qed

lemma round_up_dvd_id [simp]: "a dvd d \<Longrightarrow> round_up a d = d"
  by (auto simp: round_up_def elim: dvdE)

lemma round_up_1 [simp]: "round_up (Suc 0) d = d"
  by (simp add: round_up_def)

lemma round_up_le:
  assumes "a dvd e" and "d \<le> e" and "0 < a"
  shows "round_up a d \<le> e"
proof (rule ccontr)
  assume "\<not> round_up a d \<le> e"
  then have lt: "e < round_up a d" by simp
  from assms(1) round_up_dvd [OF assms(3)] have "a dvd round_up a d - e"
    by (rule dvd_diff_nat [rotated])
  moreover from lt have "0 < round_up a d - e" by simp
  ultimately have "a \<le> round_up a d - e" by (rule dvd_imp_le)
  moreover have "round_up a d < d + a" by (rule round_up_less [OF assms(3)])
  ultimately show False using assms(2) lt by linarith
qed

lemma round_up_mono: "d \<le> e \<Longrightarrow> 0 < a \<Longrightarrow> round_up a d \<le> round_up a e"
  by (rule round_up_le) (auto intro: round_up_dvd order_trans [OF _ round_up_ge])

lemma round_up_idem [simp]: "0 < a \<Longrightarrow> round_up a (round_up a d) = round_up a d"
  by (simp add: round_up_dvd)

lemma round_up_add: "a dvd b \<Longrightarrow> round_up a (b + d) = b + round_up a d"
  by (auto simp: round_up_def elim: dvdE)

text \<open>
  \<open>ispow2\<close> of the source tests \<open>v && !(v & (v - 1))\<close>; it holds exactly for the powers of two.
\<close>

definition ispow2 :: "size_t \<Rightarrow> bool" where
  "ispow2 v \<longleftrightarrow> v \<noteq> 0 \<and> \<not> (v AND (v - 1)) \<noteq> 0"

section \<open>Decimal rendering\<close>

text \<open>The rendering of an unsigned integer by \<open>fmt\<close> and by \<open>operator<<\<close>.\<close>

fun fmt_nat :: "nat \<Rightarrow> string" where
  "fmt_nat n = (if n < 10 then [char_of (48 + n)] else fmt_nat (n div 10) @ [char_of (48 + n mod 10)])"

declare fmt_nat.simps [simp del]

definition fmt_int :: "int \<Rightarrow> string" where
  "fmt_int z = (if z < 0 then ''-'' @ fmt_nat (nat (- z)) else fmt_nat (nat z))"

end
