(* ===== verification/PDI_Error.thy ===== *)
theory PDI_Error
  imports PDI_Prelude
begin

text \<open>
  The error classes of PDI (\<open>pdi.h\<close>, \<open>pdi/error.h\<close>, \<open>error.cxx\<close>): the status codes, the exception
  hierarchy as a datatype, the long messages, and the two functions that rethrow an exception, or
  a set of exceptions, with a context prepended.
\<close>

section \<open>Status codes\<close>

datatype pdi_status =
    PDI_OK
  | PDI_UNAVAILABLE
  | PDI_ERR_SPECTREE
  | PDI_ERR_VALUE
  | PDI_ERR_PLUGIN
  | PDI_ERR_IMPL
  | PDI_ERR_SYSTEM
  | PDI_ERR_STATE
  | PDI_ERR_PERMISSION
  | PDI_ERR_TYPE
  | PDI_ERR_INVALIDACTION
  | PDI_ERR_MULTIPLE

fun PDI_STATUS_MSG :: "pdi_status \<Rightarrow> string" where
  "PDI_STATUS_MSG PDI_OK = ''Not an error''"
| "PDI_STATUS_MSG PDI_UNAVAILABLE = ''Data unavailable''"
| "PDI_STATUS_MSG PDI_ERR_SPECTREE = ''Invalid entry in specification tree''"
| "PDI_STATUS_MSG PDI_ERR_VALUE = ''Invalid value expression''"
| "PDI_STATUS_MSG PDI_ERR_PLUGIN = ''Invalid plugin''"
| "PDI_STATUS_MSG PDI_ERR_IMPL = ''Missing feature''"
| "PDI_STATUS_MSG PDI_ERR_SYSTEM = ''System error''"
| "PDI_STATUS_MSG PDI_ERR_STATE = ''Precondition not respected''"
| "PDI_STATUS_MSG PDI_ERR_PERMISSION = ''Permission issue''"
| "PDI_STATUS_MSG PDI_ERR_TYPE = ''Incorrect type''"
| "PDI_STATUS_MSG PDI_ERR_INVALIDACTION = ''Invalid action requested''"
| "PDI_STATUS_MSG PDI_ERR_MULTIPLE = ''Multiple errors''"

section \<open>Exceptions\<close>

record yaml_location =
  line :: nat
  column :: nat

record yaml_region =
  m_file :: string
  m_start :: yaml_location
  m_end :: yaml_location

text \<open>
  \<open>Error_impl s w\<close> is an instance of \<open>impl::Error_impl<s>\<close>, the class behind \<open>Value_error\<close>,
  \<open>Type_error\<close> and the other one-status errors. \<open>Nested_system_error\<close> is the exception of
  \<open>std::throw_with_nested(System_error(\<dots>))\<close>. The last two constructors are the exceptions that are
  not PDI errors: instances of \<open>std::exception\<close>, and anything else.
\<close>

datatype exn =
    Error_impl pdi_status string
  | Nested_system_error string exn
  | Spectree_error "yaml_region option" string
  | Multiple_errors "exn list" string
  | Std_exception string
  | Unknown_exception

type_synonym 'a res = "exn fault + 'a"

abbreviation Value_error :: "string \<Rightarrow> exn" where
  "Value_error w \<equiv> Error_impl PDI_ERR_VALUE w"

abbreviation Plugin_error :: "string \<Rightarrow> exn" where
  "Plugin_error w \<equiv> Error_impl PDI_ERR_PLUGIN w"

abbreviation Impl_error :: "string \<Rightarrow> exn" where
  "Impl_error w \<equiv> Error_impl PDI_ERR_IMPL w"

abbreviation State_error :: "string \<Rightarrow> exn" where
  "State_error w \<equiv> Error_impl PDI_ERR_STATE w"

abbreviation Permission_error :: "string \<Rightarrow> exn" where
  "Permission_error w \<equiv> Error_impl PDI_ERR_PERMISSION w"

abbreviation System_error :: "string \<Rightarrow> exn" where
  "System_error w \<equiv> Error_impl PDI_ERR_SYSTEM w"

abbreviation Type_error :: "string \<Rightarrow> exn" where
  "Type_error w \<equiv> Error_impl PDI_ERR_TYPE w"

abbreviation throw :: "exn \<Rightarrow> 'a res" where
  "throw e \<equiv> Inl (Throw e)"

text \<open>Whether an exception derives from \<open>PDI::Error\<close>, its \<open>status()\<close> and its \<open>what()\<close>.\<close>

fun is_pdi_error :: "exn \<Rightarrow> bool" where
  "is_pdi_error (Std_exception w) = False"
| "is_pdi_error Unknown_exception = False"
| "is_pdi_error _ = True"

fun error_status :: "exn \<Rightarrow> pdi_status option" where
  "error_status (Error_impl s w) = Some s"
| "error_status (Nested_system_error w e) = Some PDI_ERR_SYSTEM"
| "error_status (Spectree_error l w) = Some PDI_ERR_SPECTREE"
| "error_status (Multiple_errors es w) = Some PDI_ERR_MULTIPLE"
| "error_status (Std_exception w) = None"
| "error_status Unknown_exception = None"

fun what :: "exn \<Rightarrow> string option" where
  "what (Error_impl s w) = Some w"
| "what (Nested_system_error w e) = Some w"
| "what (Spectree_error l w) = Some w"
| "what (Multiple_errors es w) = Some w"
| "what (Std_exception w) = Some w"
| "what Unknown_exception = None"

section \<open>Long messages\<close>

definition Error_impl_full_msg :: "pdi_status \<Rightarrow> string \<Rightarrow> string" where
  "Error_impl_full_msg s w = PDI_STATUS_MSG s @ '': '' @ w"

definition Spectree_error_full_msg :: "yaml_region option \<Rightarrow> string \<Rightarrow> string" where
  "Spectree_error_full_msg location w =
     (case location of
        Some l \<Rightarrow> PDI_STATUS_MSG PDI_ERR_SPECTREE @ '': '' @ m_file l @ ''(''
          @ fmt_nat (line (m_start l)) @ '':'' @ fmt_nat (column (m_start l)) @ '' -> ''
          @ fmt_nat (line (m_end l)) @ '':'' @ fmt_nat (column (m_end l)) @ '') '' @ w
      | None \<Rightarrow> PDI_STATUS_MSG PDI_ERR_SPECTREE @ '': '' @ w)"

text \<open>\<open>fmt::join\<close>: the elements with a separator between any two of them.\<close>

fun fmt_join :: "string list \<Rightarrow> string \<Rightarrow> string" where
  "fmt_join [] sep = []"
| "fmt_join [x] sep = x"
| "fmt_join (x # xs) sep = x @ sep @ fmt_join xs sep"

text \<open>
  \<open>full_msg\<close> of an exception; for exceptions that are not PDI errors, the text the \<open>fmt\<close> formatter
  of \<open>std::exception_ptr\<close> prints for them inside a \<open>Multiple_errors\<close>.
\<close>

fun full_msg :: "exn \<Rightarrow> string" where
  "full_msg (Error_impl s w) = Error_impl_full_msg s w"
| "full_msg (Nested_system_error w e) = Error_impl_full_msg PDI_ERR_SYSTEM w"
| "full_msg (Spectree_error l w) = Spectree_error_full_msg l w"
| "full_msg (Multiple_errors es w) =
     PDI_STATUS_MSG PDI_ERR_MULTIPLE @ '': '' @ w @ [CHR 0x0A] @ '' * ''
       @ fmt_join (map full_msg es) ([CHR 0x0A] @ '' * '')"
| "full_msg (Std_exception w) = w"
| "full_msg Unknown_exception = ''unknown error''"

section \<open>Rethrowing with a context\<close>

definition Error_impl_rethrow_with_context :: "pdi_status \<Rightarrow> string \<Rightarrow> string \<Rightarrow> exn" where
  "Error_impl_rethrow_with_context s w msg = Error_impl s (msg @ w)"

definition Spectree_error_rethrow_with_context ::
    "yaml_region option \<Rightarrow> string \<Rightarrow> string \<Rightarrow> exn" where
  "Spectree_error_rethrow_with_context l w msg = Spectree_error l (msg @ w)"

definition Multiple_errors_rethrow_with_context :: "exn list \<Rightarrow> string \<Rightarrow> string \<Rightarrow> exn" where
  "Multiple_errors_rethrow_with_context es w msg = Multiple_errors es (msg @ w)"

text \<open>The exception that \<open>rethrow_with_simple_context(err, msg)\<close> throws.\<close>

fun rethrow_with_simple_context :: "exn \<Rightarrow> string \<Rightarrow> exn" where
  "rethrow_with_simple_context (Error_impl s w) msg = Error_impl_rethrow_with_context s w msg"
| "rethrow_with_simple_context (Nested_system_error w e) msg =
     Error_impl_rethrow_with_context PDI_ERR_SYSTEM w msg"
| "rethrow_with_simple_context (Spectree_error l w) msg = Spectree_error_rethrow_with_context l w msg"
| "rethrow_with_simple_context (Multiple_errors es w) msg =
     Multiple_errors_rethrow_with_context es w msg"
| "rethrow_with_simple_context (Std_exception w) msg = Nested_system_error msg (Std_exception w)"
| "rethrow_with_simple_context Unknown_exception msg = Nested_system_error msg Unknown_exception"

text \<open>The overload for a set of exceptions: nothing, the only one with its context, or an aggregate.\<close>

definition rethrow_errors :: "exn list \<Rightarrow> string \<Rightarrow> unit res" where
  "rethrow_errors errors msg =
     (case errors of
        [] \<Rightarrow> Inr ()
      | [e] \<Rightarrow> throw (rethrow_with_simple_context e msg)
      | _ \<Rightarrow> throw (Multiple_errors errors msg))"

lemmas rethrow_defs = Error_impl_rethrow_with_context_def Spectree_error_rethrow_with_context_def
  Multiple_errors_rethrow_with_context_def

lemma rethrow_is_pdi_error [simp]: "is_pdi_error (rethrow_with_simple_context e msg)"
  by (cases e) (simp_all add: rethrow_defs)

lemma rethrow_errors_Inr [simp]: "rethrow_errors errors msg = Inr u \<longleftrightarrow> errors = []"
  by (auto simp: rethrow_errors_def split: list.splits)

lemma rethrow_errors_not_UB [simp]: "rethrow_errors errors msg \<noteq> Inl UB"
  by (auto simp: rethrow_errors_def split: list.splits)

lemma is_pdi_error_status: "is_pdi_error e \<longleftrightarrow> (\<exists>s. error_status e = Some s)"
  by (cases e) auto

end
