(* ===== verification/Float_Model.thy ===== *)
theory Float_Model
  imports PDI_Prelude
begin

text \<open>
  The binary floating point formats of C++ on the platforms of PDI (IEEE 754 binary32 and binary64):
  decoding of bit patterns, exact arithmetic followed by one rounding to nearest even, comparisons
  and conversions. A format is given by its precision \<open>p\<close>, hidden bit included, and the width \<open>w\<close> of its
  exponent field. Results that are not a number are the quiet pattern with an empty payload.
\<close>

section \<open>Formats\<close>

text \<open>A sign, true when negative, with an integer significand and a power of two.\<close>

datatype fval = F_nan | F_inf bool | F_fin bool int int

definition emin :: "nat \<Rightarrow> nat \<Rightarrow> int" where
  "emin p w = 3 - 2 ^ (w - 1) - int p"

definition fp_bits :: "nat \<Rightarrow> nat \<Rightarrow> bool \<Rightarrow> int \<Rightarrow> int \<Rightarrow> int" where
  "fp_bits p w s ex fr = (if s then 2 ^ (p + w - 1) else 0) + ex * 2 ^ (p - 1) + fr"

definition fp_decode :: "nat \<Rightarrow> nat \<Rightarrow> int \<Rightarrow> fval" where
  "fp_decode p w b =
     (let s = odd (b div 2 ^ (p + w - 1)); ex = b div 2 ^ (p - 1) mod 2 ^ w; fr = b mod 2 ^ (p - 1) in
      if ex = 2 ^ w - 1 then if fr = 0 then F_inf s else F_nan
      else if ex = 0 then F_fin s fr (emin p w)
      else F_fin s (fr + 2 ^ (p - 1)) (emin p w + ex - 1))"

section \<open>Rounding\<close>

function bit_length :: "int \<Rightarrow> int" where
  "bit_length n = (if n \<le> 0 then 0 else bit_length (n div 2) + 1)"
  by pat_completeness auto
termination
  by (relation "measure nat") auto

declare bit_length.simps [simp del]

text \<open>A positive fraction times a power of two, as a fraction, and the position of its leading bit.\<close>

definition scale :: "int \<Rightarrow> int \<Rightarrow> int \<Rightarrow> int \<times> int" where
  "scale n d e = (if 0 \<le> e then (n * 2 ^ nat e, d) else (n, d * 2 ^ nat (- e)))"

definition floor_log2 :: "int \<Rightarrow> int \<Rightarrow> int" where
  "floor_log2 n d =
     (let k = bit_length n - bit_length d; (n', d') = scale n d (- k) in if d' \<le> n' then k else k - 1)"

definition round_half_even :: "int \<Rightarrow> int \<Rightarrow> int" where
  "round_half_even n d =
     (let q = n div d; r = n mod d in if 2 * r < d \<or> 2 * r = d \<and> even q then q else q + 1)"

text \<open>The bit pattern of the number nearest to a fraction.\<close>

definition fp_round :: "nat \<Rightarrow> nat \<Rightarrow> bool \<Rightarrow> int \<Rightarrow> int \<Rightarrow> int" where
  "fp_round p w s n d =
     (if n = 0 then fp_bits p w s 0 0
      else
        let e = max (emin p w) (floor_log2 n d - int (p - 1));
            (n', d') = scale n d (- e);
            m = round_half_even n' d';
            (m, e) = (if m = 2 ^ p then (2 ^ (p - 1), e + 1) else (m, e))
        in if m < 2 ^ (p - 1) then fp_bits p w s 0 m
           else if 2 ^ w - 1 \<le> e - emin p w + 1 then fp_bits p w s (2 ^ w - 1) 0
           else fp_bits p w s (e - emin p w + 1) (m - 2 ^ (p - 1)))"

definition fp_nan :: "nat \<Rightarrow> nat \<Rightarrow> int" where
  "fp_nan p w = fp_bits p w False (2 ^ w - 1) (2 ^ (p - 2))"

fun fp_encode :: "nat \<Rightarrow> nat \<Rightarrow> fval \<Rightarrow> int" where
  "fp_encode p w F_nan = fp_nan p w"
| "fp_encode p w (F_inf s) = fp_bits p w s (2 ^ w - 1) 0"
| "fp_encode p w (F_fin s m e) = (case scale m 1 e of (n, d) \<Rightarrow> fp_round p w s n d)"

section \<open>Arithmetic\<close>

definition signed_int :: "bool \<Rightarrow> int \<Rightarrow> int" where
  "signed_int s m = (if s then - m else m)"

text \<open>The exact sum; an exact zero is negative only when both operands are.\<close>

fun f_add :: "fval \<Rightarrow> fval \<Rightarrow> fval" where
  "f_add (F_fin s m e) (F_fin t n f) =
     (let g = min e f; x = signed_int s m * 2 ^ nat (e - g) + signed_int t n * 2 ^ nat (f - g) in
      F_fin (if x = 0 then s \<and> t else x < 0) \<bar>x\<bar> g)"
| "f_add (F_inf s) (F_inf t) = (if s = t then F_inf s else F_nan)"
| "f_add (F_inf s) (F_fin _ _ _) = F_inf s"
| "f_add (F_fin _ _ _) (F_inf t) = F_inf t"
| "f_add _ _ = F_nan"

fun f_neg :: "fval \<Rightarrow> fval" where
  "f_neg (F_fin s m e) = F_fin (\<not> s) m e"
| "f_neg (F_inf s) = F_inf (\<not> s)"
| "f_neg F_nan = F_nan"

fun f_mul :: "fval \<Rightarrow> fval \<Rightarrow> fval" where
  "f_mul (F_fin s m e) (F_fin t n f) = F_fin (s \<noteq> t) (m * n) (e + f)"
| "f_mul (F_inf s) (F_inf t) = F_inf (s \<noteq> t)"
| "f_mul (F_inf s) (F_fin t n _) = (if n = 0 then F_nan else F_inf (s \<noteq> t))"
| "f_mul (F_fin s m _) (F_inf t) = (if m = 0 then F_nan else F_inf (s \<noteq> t))"
| "f_mul _ _ = F_nan"

text \<open>Operations on bit patterns of a format.\<close>

definition fp_add :: "nat \<Rightarrow> nat \<Rightarrow> int \<Rightarrow> int \<Rightarrow> int" where
  "fp_add p w a b = fp_encode p w (f_add (fp_decode p w a) (fp_decode p w b))"

definition fp_sub :: "nat \<Rightarrow> nat \<Rightarrow> int \<Rightarrow> int \<Rightarrow> int" where
  "fp_sub p w a b = fp_encode p w (f_add (fp_decode p w a) (f_neg (fp_decode p w b)))"

definition fp_mul :: "nat \<Rightarrow> nat \<Rightarrow> int \<Rightarrow> int \<Rightarrow> int" where
  "fp_mul p w a b = fp_encode p w (f_mul (fp_decode p w a) (fp_decode p w b))"

fun f_div :: "nat \<Rightarrow> nat \<Rightarrow> fval \<Rightarrow> fval \<Rightarrow> int" where
  "f_div p w (F_fin s m e) (F_fin t n f) =
     (if n = 0 then if m = 0 then fp_nan p w else fp_encode p w (F_inf (s \<noteq> t))
      else case scale m n (e - f) of (x, y) \<Rightarrow> fp_round p w (s \<noteq> t) x y)"
| "f_div p w (F_inf s) (F_fin t _ _) = fp_encode p w (F_inf (s \<noteq> t))"
| "f_div p w (F_fin s _ _) (F_inf t) = fp_bits p w (s \<noteq> t) 0 0"
| "f_div p w _ _ = fp_nan p w"

definition fp_div :: "nat \<Rightarrow> nat \<Rightarrow> int \<Rightarrow> int \<Rightarrow> int" where
  "fp_div p w a b = f_div p w (fp_decode p w a) (fp_decode p w b)"

section \<open>Comparison and conversion\<close>

fun f_less :: "fval \<Rightarrow> fval \<Rightarrow> bool" where
  "f_less (F_fin s m e) (F_fin t n f) =
     (let g = min e f in signed_int s m * 2 ^ nat (e - g) < signed_int t n * 2 ^ nat (f - g))"
| "f_less (F_inf s) (F_inf t) = (s \<and> \<not> t)"
| "f_less (F_inf s) (F_fin _ _ _) = s"
| "f_less (F_fin _ _ _) (F_inf t) = (\<not> t)"
| "f_less _ _ = False"

fun f_equal :: "fval \<Rightarrow> fval \<Rightarrow> bool" where
  "f_equal (F_fin s m e) (F_fin t n f) =
     (let g = min e f in signed_int s m * 2 ^ nat (e - g) = signed_int t n * 2 ^ nat (f - g))"
| "f_equal (F_inf s) (F_inf t) = (s = t)"
| "f_equal _ _ = False"

text \<open>The conversion of an integer, and the truncation to one, which a value that is not finite does not have.\<close>

definition f_of_int :: "int \<Rightarrow> fval" where
  "f_of_int z = F_fin (z < 0) \<bar>z\<bar> 0"

fun f_trunc :: "fval \<Rightarrow> int option" where
  "f_trunc (F_fin s m e) = Some (signed_int s (case scale m 1 e of (n, d) \<Rightarrow> n div d))"
| "f_trunc _ = None"

text \<open>A value converts to true unless it is zero.\<close>

fun f_true :: "fval \<Rightarrow> bool" where
  "f_true (F_fin _ m _) = (m \<noteq> 0)"
| "f_true _ = True"

type_synonym f32 = "32 word"
type_synonym f64 = "64 word"

definition val32 :: "f32 \<Rightarrow> fval" where "val32 x = fp_decode 24 8 (uint x)"
definition val64 :: "f64 \<Rightarrow> fval" where "val64 x = fp_decode 53 11 (uint x)"
definition bits32 :: "fval \<Rightarrow> f32" where "bits32 v = of_int (fp_encode 24 8 v)"
definition bits64 :: "fval \<Rightarrow> f64" where "bits64 v = of_int (fp_encode 53 11 v)"

end
