(* ===== verification/Expr_Syntax.thy ===== *)
theory Expr_Syntax
  imports PDI_Error Float_Model
begin

text \<open>
  The abstract syntax of PDI expressions: one constructor per subclass of \<open>Expression::Impl\<close>
  (\<open>expression/impl.h\<close> and the headers of \<open>expression/impl/\<close>). A \<open>double\<close> is its 64-bit pattern.
  An \<open>Expression\<close> object owns an \<open>Impl\<close> or is empty; it is an option of this type.
\<close>

datatype operator =
    PLUS | MINUS | MULT | DIV | MOD | EQUAL | AND_op | OR_op | GT | LT | GET | LET

text \<open>The character behind each enumerator of \<open>Operation::Operator\<close>.\<close>

fun operator_char :: "operator \<Rightarrow> char" where
  "operator_char PLUS = CHR ''+''"
| "operator_char MINUS = CHR ''-''"
| "operator_char MULT = CHR ''*''"
| "operator_char DIV = CHR ''/''"
| "operator_char MOD = CHR ''%''"
| "operator_char EQUAL = CHR ''=''"
| "operator_char AND_op = CHR ''&''"
| "operator_char OR_op = CHR ''|''"
| "operator_char GT = CHR ''>''"
| "operator_char LT = CHR ''<''"
| "operator_char GET = CHR '']''"
| "operator_char LET = CHR ''[''"

datatype 'e accessor = Index_accessor 'e | Member_accessor 'e

datatype expr =
    Int_literal int
  | Float_literal f64
  | String_literal string "(expr \<times> string) list"
  | Operation expr "(operator \<times> expr) list"
  | Reference_expression string "expr accessor list" string
  | Sequence "expr list"
  | Mapping "(string \<times> expr) list"

type_synonym expression = "expr option"

text \<open>\<open>Attributes_map\<close>: attribute names with their values, in iteration order.\<close>

type_synonym attributes_map = "(string \<times> expr) list"

end
