(* ===== verification/Datatype_Model.thy ===== *)
theory Datatype_Model
  imports Expr_Syntax
begin

text \<open>
  The datatypes of PDI: \<open>Scalar_datatype\<close>, \<open>Array_datatype\<close>, \<open>Record_datatype\<close>, \<open>Tuple_datatype\<close> and
  \<open>Pointer_datatype\<close>, and their size, alignment and density queries. A datatype object is
  immutable and shared by reference counting, so a value of type \<open>dt\<close> stands for it. A virtual
  method is a function on \<open>dt\<close>; the method body of each class is its own definition.
\<close>

section \<open>The objects\<close>

datatype scalar_kind = UNKNOWN | SIGNED | UNSIGNED | FLOAT

text \<open>
  The user-provided \<open>m_copy\<close> and \<open>m_destroy\<close> functions act on the memory and may throw.
\<close>

type_synonym copy_fn = "addr \<Rightarrow> addr \<Rightarrow> (mem, exn, addr) sx"
type_synonym destroy_fn = "addr \<Rightarrow> (mem, exn, unit) sx"

record scalar_data =
  sc_size :: size_t
  sc_dense_size :: size_t
  sc_align :: size_t
  sc_kind :: scalar_kind
  sc_copy :: "copy_fn option"
  sc_destroy :: "destroy_fn option"

datatype 't member = Member (displacement: size_t) (mtype: 't) (mname: string)

datatype 't element = Element (offset: size_t) (etype: 't)

datatype dt =
    Scalar scalar_data attributes_map
  | Array dt (dt_size: size_t) (dt_start: size_t) (dt_subsize: size_t) attributes_map
  | Record "dt member list" size_t attributes_map
  | Tuple "dt element list" size_t attributes_map
  | Pointer dt "copy_fn option" "destroy_fn option" attributes_map

text \<open>The members of a record or tuple are smaller than it, for the recursions below.\<close>

lemma size_mtype [termination_simp]:
  "m \<in> set ms \<Longrightarrow> size (mtype m) < Suc (size_list (size_member size) ms)"
proof (induction ms)
  case (Cons a ms)
  then show ?case by (cases a) auto
qed simp

lemma size_etype [termination_simp]:
  "e \<in> set es \<Longrightarrow> size (etype e) < Suc (size_list (size_element size) es)"
proof (induction es)
  case (Cons a es)
  then show ?case by (cases a) auto
qed simp

abbreviation members_size :: "dt member list \<Rightarrow> nat" where
  "members_size ms \<equiv> size_list (size_member size) ms"

abbreviation elements_size :: "dt element list \<Rightarrow> nat" where
  "elements_size es \<equiv> size_list (size_element size) es"

definition attributes :: "dt \<Rightarrow> attributes_map" where
  "attributes t = (case t of Scalar _ a \<Rightarrow> a | Array _ _ _ _ a \<Rightarrow> a | Record _ _ a \<Rightarrow> a
     | Tuple _ _ a \<Rightarrow> a | Pointer _ _ _ a \<Rightarrow> a)"

section \<open>Construction\<close>

definition nulltype :: "scalar_data \<Rightarrow> bool" where
  "nulltype d = (if sc_dense_size d \<noteq> 0 then False
     else if sc_size d \<noteq> 0 then False
     else if sc_align d \<noteq> 0 then False
     else if sc_kind d \<noteq> UNKNOWN then False
     else True)"

text \<open>The constructor with all the members, which the shorter overloads of \<open>make\<close> use.\<close>

definition Scalar_ctor ::
    "scalar_kind \<Rightarrow> size_t \<Rightarrow> size_t \<Rightarrow> size_t \<Rightarrow> copy_fn option \<Rightarrow> destroy_fn option
      \<Rightarrow> attributes_map \<Rightarrow> dt res" where
  "Scalar_ctor kind sz align dense_size copy destroy atts =
     (let d = \<lparr>sc_size = sz, sc_dense_size = dense_size, sc_align = align, sc_kind = kind,
               sc_copy = copy, sc_destroy = destroy\<rparr>
      in if \<not> nulltype d \<and> \<not> ispow2 (sc_align d)
         then throw (Value_error ''alignment should be a power of 2'')
         else Inr (Scalar d atts))"

definition Scalar_make_size :: "scalar_kind \<Rightarrow> size_t \<Rightarrow> attributes_map \<Rightarrow> dt res" where
  "Scalar_make_size kind sz atts = Scalar_ctor kind sz sz sz None None atts"

definition Scalar_make_align :: "scalar_kind \<Rightarrow> size_t \<Rightarrow> size_t \<Rightarrow> attributes_map \<Rightarrow> dt res" where
  "Scalar_make_align kind sz align atts = Scalar_ctor kind sz align sz None None atts"

definition UNDEF_TYPE :: dt where
  "UNDEF_TYPE = Scalar \<lparr>sc_size = 0, sc_dense_size = 0, sc_align = 0, sc_kind = UNKNOWN,
     sc_copy = None, sc_destroy = None\<rparr> []"

definition Array_make :: "dt \<Rightarrow> size_t \<Rightarrow> attributes_map \<Rightarrow> dt" where
  "Array_make subtype sz atts = Array subtype sz 0 sz atts"

section \<open>Sizes and alignment\<close>

definition Scalar_datasize :: "scalar_data \<Rightarrow> size_t" where
  "Scalar_datasize d = sc_size d"

definition Array_datasize :: "size_t \<Rightarrow> size_t \<Rightarrow> size_t" where
  "Array_datasize subsize sub_datasize = sz_mul subsize sub_datasize"

definition Record_datasize :: "size_t list \<Rightarrow> size_t" where
  "Record_datasize sizes = foldl sz_add 0 sizes"

definition Tuple_datasize :: "size_t list \<Rightarrow> size_t" where
  "Tuple_datasize sizes = foldl sz_add 0 sizes"

text \<open>\<open>sizeof(void*)\<close> on a 64-bit platform.\<close>

definition Pointer_datasize :: size_t where
  "Pointer_datasize = 8"

fun datasize :: "dt \<Rightarrow> size_t" where
  "datasize (Scalar d _) = Scalar_datasize d"
| "datasize (Array sub _ _ subsize _) = Array_datasize subsize (datasize sub)"
| "datasize (Record ms _ _) = Record_datasize (map (\<lambda>m. datasize (mtype m)) ms)"
| "datasize (Tuple es _ _) = Tuple_datasize (map (\<lambda>e. datasize (etype e)) es)"
| "datasize (Pointer _ _ _ _) = Pointer_datasize"

definition Scalar_buffersize :: "scalar_data \<Rightarrow> size_t" where
  "Scalar_buffersize d = sc_dense_size d"

definition Array_buffersize :: "size_t \<Rightarrow> size_t \<Rightarrow> size_t" where
  "Array_buffersize sz sub_buffersize = sz_mul sz sub_buffersize"

definition Pointer_buffersize :: size_t where
  "Pointer_buffersize = Pointer_datasize"

fun buffersize :: "dt \<Rightarrow> size_t" where
  "buffersize (Scalar d _) = Scalar_buffersize d"
| "buffersize (Array sub sz _ _ _) = Array_buffersize sz (buffersize sub)"
| "buffersize (Record _ m_buffersize _) = m_buffersize"
| "buffersize (Tuple _ m_buffersize _) = m_buffersize"
| "buffersize (Pointer _ _ _ _) = Pointer_buffersize"

definition Scalar_alignment :: "scalar_data \<Rightarrow> size_t" where
  "Scalar_alignment d = sc_align d"

definition Array_alignment :: "size_t \<Rightarrow> size_t" where
  "Array_alignment sub_alignment = sub_alignment"

definition Record_alignment :: "size_t list \<Rightarrow> size_t" where
  "Record_alignment aligns = foldl max 1 aligns"

definition Tuple_alignment :: "size_t list \<Rightarrow> size_t" where
  "Tuple_alignment aligns = foldl max 1 aligns"

definition Pointer_alignment :: size_t where
  "Pointer_alignment = Pointer_datasize"

fun alignment :: "dt \<Rightarrow> size_t" where
  "alignment (Scalar d _) = Scalar_alignment d"
| "alignment (Array sub _ _ _ _) = Array_alignment (alignment sub)"
| "alignment (Record ms _ _) = Record_alignment (map (\<lambda>m. alignment (mtype m)) ms)"
| "alignment (Tuple es _ _) = Tuple_alignment (map (\<lambda>e. alignment (etype e)) es)"
| "alignment (Pointer _ _ _ _) = Pointer_alignment"

definition Scalar_simple :: "scalar_data \<Rightarrow> bool" where
  "Scalar_simple d \<longleftrightarrow> sc_copy d = None \<and> sc_destroy d = None"

definition Pointer_simple :: "copy_fn option \<Rightarrow> destroy_fn option \<Rightarrow> bool" where
  "Pointer_simple copy destroy \<longleftrightarrow> copy = None \<and> destroy = None"

definition Array_simple :: "bool \<Rightarrow> bool" where
  "Array_simple sub_simple = sub_simple"

definition Record_simple :: "bool list \<Rightarrow> bool" where
  "Record_simple flags = list_all (\<lambda>b. b) flags"

definition Tuple_simple :: "bool list \<Rightarrow> bool" where
  "Tuple_simple flags = list_all (\<lambda>b. b) flags"

fun simple :: "dt \<Rightarrow> bool" where
  "simple (Scalar d _) = Scalar_simple d"
| "simple (Array sub _ _ _ _) = Array_simple (simple sub)"
| "simple (Record ms _ _) = Record_simple (map (\<lambda>m. simple (mtype m)) ms)"
| "simple (Tuple es _ _) = Tuple_simple (map (\<lambda>e. simple (etype e)) es)"
| "simple (Pointer _ copy destroy _) = Pointer_simple copy destroy"

section \<open>Density\<close>

text \<open>
  \<open>displacement += (alignment - (displacement % alignment)) % alignment\<close>, the statement that
  aligns the next field. A zero alignment, which only the null scalar type has, makes the
  remainder undefined.
\<close>

definition align_displacement :: "size_t \<Rightarrow> size_t \<Rightarrow> size_t res" where
  "align_displacement disp al =
     (if al = 0 then Inl UB else Inr (sz_add disp ((al - disp mod al) mod al)))"

definition Scalar_dense :: "scalar_data \<Rightarrow> bool" where
  "Scalar_dense d \<longleftrightarrow> sc_dense_size d = sc_size d"

definition Array_dense :: "size_t \<Rightarrow> size_t \<Rightarrow> bool res \<Rightarrow> bool res" where
  "Array_dense sz subsize sub_dense = (if sz \<noteq> subsize then Inr False else sub_dense)"

text \<open>
  The tail of \<open>dense\<close>: padding at the end of the record, one byte accepted for a unique address.
\<close>

definition dense_tail :: "size_t \<Rightarrow> size_t \<Rightarrow> size_t \<Rightarrow> bool res" where
  "dense_tail disp al bufsize =
     rbind (align_displacement disp al) (\<lambda>disp. Inr (\<not> bufsize > max 1 disp))"

function dense :: "dt \<Rightarrow> bool res"
  and Record_dense :: "size_t \<Rightarrow> dt member list \<Rightarrow> (size_t + bool) res"
  and Tuple_dense :: "size_t \<Rightarrow> dt element list \<Rightarrow> (size_t + bool) res" where
  "dense (Scalar d _) = Inr (Scalar_dense d)"
| "dense (Array sub sz _ subsize _) = Array_dense sz subsize (dense sub)"
| "dense (Record ms bufsize atts) =
     rbind (Record_dense 0 ms) (\<lambda>r. case r of
         Inr b \<Rightarrow> Inr b
       | Inl disp \<Rightarrow> dense_tail disp (alignment (Record ms bufsize atts)) bufsize)"
| "dense (Tuple es bufsize atts) =
     rbind (Tuple_dense 0 es) (\<lambda>r. case r of
         Inr b \<Rightarrow> Inr b
       | Inl disp \<Rightarrow> dense_tail disp (alignment (Tuple es bufsize atts)) bufsize)"
| "dense (Pointer _ _ _ _) = Inr True"
| "Record_dense disp [] = Inr (Inl disp)"
| "Record_dense disp (Member d t n # ms) =
     rbind (dense t) (\<lambda>b. if \<not> b then Inr (Inr False) else
     rbind (align_displacement disp (alignment t)) (\<lambda>disp.
     if d > disp then Inr (Inr False)
     else Record_dense (sz_add disp (buffersize t)) ms))"
| "Tuple_dense disp [] = Inr (Inl disp)"
| "Tuple_dense disp (Element d t # es) =
     rbind (dense t) (\<lambda>b. if \<not> b then Inr (Inr False) else
     rbind (align_displacement disp (alignment t)) (\<lambda>disp.
     if d > disp then Inr (Inr False)
     else Tuple_dense (sz_add disp (buffersize t)) es))"
  by pat_completeness auto
termination
  by (relation "measure (case_sum size (case_sum (\<lambda>(d, ms). members_size ms) (\<lambda>(d, es). elements_size es)))")
    auto

section \<open>Densification\<close>

definition Scalar_densify :: "scalar_data \<Rightarrow> attributes_map \<Rightarrow> dt res" where
  "Scalar_densify d atts =
     Scalar_ctor (sc_kind d) (sc_dense_size d) (sc_align d) (sc_dense_size d) (sc_copy d) (sc_destroy d) atts"

definition Array_densify :: "dt res \<Rightarrow> size_t \<Rightarrow> attributes_map \<Rightarrow> dt res" where
  "Array_densify densified_subtype subsize atts =
     rbind densified_subtype (\<lambda>sub. Inr (Array_make sub subsize atts))"

definition Pointer_densify ::
    "dt res \<Rightarrow> copy_fn option \<Rightarrow> destroy_fn option \<Rightarrow> attributes_map \<Rightarrow> dt res" where
  "Pointer_densify densified_subtype copy destroy atts =
     rbind densified_subtype (\<lambda>sub. Inr (Pointer sub copy destroy atts))"

text \<open>The loop over the members returns the densified members and the displacement reached.\<close>

function densify :: "dt \<Rightarrow> dt res"
  and Record_densify :: "size_t \<Rightarrow> dt member list \<Rightarrow> (dt member list \<times> size_t) res"
  and Tuple_densify :: "size_t \<Rightarrow> dt element list \<Rightarrow> (dt element list \<times> size_t) res" where
  "densify (Scalar d atts) = Scalar_densify d atts"
| "densify (Array sub _ _ subsize atts) = Array_densify (densify sub) subsize atts"
| "densify (Record ms bufsize atts) =
     rbind (Record_densify 0 ms) (\<lambda>(ms', disp).
     rbind (align_displacement disp (alignment (Record ms bufsize atts))) (\<lambda>disp.
     Inr (Record ms' (max 1 disp) [])))"
| "densify (Tuple es bufsize atts) =
     rbind (Tuple_densify 0 es) (\<lambda>(es', disp).
     rbind (align_displacement disp (alignment (Tuple es bufsize atts))) (\<lambda>disp.
     Inr (Tuple es' (max 1 disp) [])))"
| "densify (Pointer sub copy destroy atts) = Pointer_densify (densify sub) copy destroy atts"
| "Record_densify disp [] = Inr ([], disp)"
| "Record_densify disp (Member d t n # ms) =
     rbind (densify t) (\<lambda>t'.
     rbind (align_displacement disp (alignment t')) (\<lambda>disp.
     rbind (Record_densify (sz_add disp (buffersize t')) ms) (\<lambda>(ms', end).
     Inr (Member disp t' n # ms', end))))"
| "Tuple_densify disp [] = Inr ([], disp)"
| "Tuple_densify disp (Element d t # es) =
     rbind (densify t) (\<lambda>t'.
     rbind (align_displacement disp (alignment t')) (\<lambda>disp.
     rbind (Tuple_densify (sz_add disp (buffersize t')) es) (\<lambda>(es', end).
     Inr (Element disp t' # es', end))))"
  by pat_completeness auto
termination
  by (relation "measure (case_sum size (case_sum (\<lambda>(d, ms). members_size ms) (\<lambda>(d, es). elements_size es)))")
    auto

end
