(* ===== verification/Datatype_Access.thy ===== *)
theory Datatype_Access
  imports Datatype_Model
begin

text \<open>
  The methods that look inside a type: the rendering \<open>debug_string\<close>, the comparison \<open>operator==\<close> and the
  accesses to an element, a slice, a member or the target of a pointer, with and without a data
  address. A pointer in memory is 8 bytes, the lowest first.
\<close>

section \<open>Further constructors\<close>

definition Array_make_sub :: "dt \<Rightarrow> size_t \<Rightarrow> size_t \<Rightarrow> size_t \<Rightarrow> attributes_map \<Rightarrow> dt" where
  "Array_make_sub subtype sz start subsize atts = Array subtype sz start subsize atts"

definition Record_make :: "dt member list \<Rightarrow> size_t \<Rightarrow> attributes_map \<Rightarrow> dt" where
  "Record_make members sz atts = Record members sz atts"

definition Tuple_make :: "dt element list \<Rightarrow> size_t \<Rightarrow> attributes_map \<Rightarrow> dt" where
  "Tuple_make elements sz atts = Tuple elements sz atts"

definition Pointer_make :: "dt \<Rightarrow> attributes_map \<Rightarrow> dt" where
  "Pointer_make subtype atts = Pointer subtype None None atts"

definition Pointer_make_copy :: "dt \<Rightarrow> copy_fn option \<Rightarrow> destroy_fn option \<Rightarrow> attributes_map \<Rightarrow> dt" where
  "Pointer_make_copy subtype copy destroy atts = Pointer subtype copy destroy atts"

section \<open>Rendering\<close>

abbreviation newline :: string where
  "newline \<equiv> [CHR 0x0A]"

abbreviation tab :: string where
  "tab \<equiv> [CHR 0x09]"

text \<open>\<open>regex_replace(s, regex("\n"), r)\<close>: every newline replaced.\<close>

definition replace_newlines :: "string \<Rightarrow> string \<Rightarrow> string" where
  "replace_newlines r s = concat (map (\<lambda>c. if c = CHR 0x0A then r else [c]) s)"

fun attribute_names :: "attributes_map \<Rightarrow> string" where
  "attribute_names [] = []"
| "attribute_names [(k, _)] = tab @ k"
| "attribute_names ((k, _) # atts) = tab @ k @ '', '' @ attribute_names atts"

definition attributes_debug :: "attributes_map \<Rightarrow> string" where
  "attributes_debug atts =
     (if atts \<noteq> [] then newline @ ''attributes: '' @ newline @ attribute_names atts else [])"

fun kind_string :: "scalar_kind \<Rightarrow> string" where
  "kind_string UNKNOWN = ''unknown''"
| "kind_string SIGNED = ''signed''"
| "kind_string UNSIGNED = ''unsigned''"
| "kind_string FLOAT = ''float''"

text \<open>The four lines every class prints.\<close>

definition layout_lines :: "bool \<Rightarrow> size_t \<Rightarrow> size_t \<Rightarrow> size_t \<Rightarrow> string" where
  "layout_lines is_dense bufsize datasz al =
     ''dense: '' @ (if is_dense then ''true'' else ''false'') @ newline
     @ ''buffersize: '' @ fmt_nat bufsize @ newline
     @ ''datasize: '' @ fmt_nat datasz @ newline
     @ ''alignment: '' @ fmt_nat al"

definition Scalar_debug_string :: "scalar_data \<Rightarrow> attributes_map \<Rightarrow> string" where
  "Scalar_debug_string d atts =
     ''type: scalar'' @ newline @ ''kind: '' @ kind_string (sc_kind d) @ newline
     @ layout_lines (Scalar_dense d) (Scalar_buffersize d) (Scalar_datasize d) (Scalar_alignment d)
     @ attributes_debug atts"

definition Array_debug_string ::
    "string \<Rightarrow> string \<Rightarrow> size_t \<Rightarrow> size_t \<Rightarrow> size_t \<Rightarrow> attributes_map \<Rightarrow> string" where
  "Array_debug_string subtype_str layout sz start subsize atts =
     ''type: array'' @ newline @ layout @ newline
     @ ''size: '' @ fmt_nat sz @ newline
     @ ''start: '' @ fmt_nat start @ newline
     @ ''subsize: '' @ fmt_nat subsize @ newline
     @ ''subtype: '' @ newline
     @ tab @ replace_newlines (newline @ tab) subtype_str
     @ attributes_debug atts"

definition member_debug_string :: "string \<Rightarrow> size_t \<Rightarrow> string \<Rightarrow> string" where
  "member_debug_string name disp type_str =
     newline @ tab @ '' - name: '' @ name @ newline
     @ tab @ ''   displacement: '' @ fmt_nat disp @ newline
     @ tab @ ''   type: '' @ newline
     @ tab @ tab @ replace_newlines (newline @ tab @ tab) type_str"

definition element_debug_string :: "size_t \<Rightarrow> string \<Rightarrow> string" where
  "element_debug_string off type_str =
     newline @ tab @ ''   displacement: '' @ fmt_nat off @ newline
     @ tab @ ''   type: '' @ newline
     @ tab @ tab @ replace_newlines (newline @ tab @ tab) type_str"

definition Record_debug_string :: "string \<Rightarrow> string \<Rightarrow> attributes_map \<Rightarrow> string" where
  "Record_debug_string layout members_str atts =
     ''type: record'' @ newline @ layout @ newline @ ''members: '' @ members_str @ attributes_debug atts"

definition Tuple_debug_string :: "string \<Rightarrow> string \<Rightarrow> attributes_map \<Rightarrow> string" where
  "Tuple_debug_string layout elements_str atts =
     ''type: tuple'' @ newline @ layout @ newline @ ''elements: '' @ elements_str @ attributes_debug atts"

definition Pointer_debug_string :: "string \<Rightarrow> string \<Rightarrow> attributes_map \<Rightarrow> string" where
  "Pointer_debug_string layout subtype_str atts =
     ''type: pointer'' @ newline @ layout @ newline
     @ ''subtype: '' @ newline @ subtype_str @ attributes_debug atts"

definition dt_layout_lines :: "dt \<Rightarrow> string res" where
  "dt_layout_lines t = rbind (dense t) (\<lambda>b. Inr (layout_lines b (buffersize t) (datasize t) (alignment t)))"

function debug_string :: "dt \<Rightarrow> string res"
  and Record_members_debug :: "dt member list \<Rightarrow> string res"
  and Tuple_elements_debug :: "dt element list \<Rightarrow> string res" where
  "debug_string (Scalar d atts) = Inr (Scalar_debug_string d atts)"
| "debug_string (Array sub sz start subsize atts) =
     rbind (debug_string sub) (\<lambda>s.
     rbind (dt_layout_lines (Array sub sz start subsize atts)) (\<lambda>l.
     Inr (Array_debug_string s l sz start subsize atts)))"
| "debug_string (Record ms b atts) =
     rbind (dt_layout_lines (Record ms b atts)) (\<lambda>l.
     rbind (Record_members_debug ms) (\<lambda>s.
     Inr (Record_debug_string l s atts)))"
| "debug_string (Tuple es b atts) =
     rbind (dt_layout_lines (Tuple es b atts)) (\<lambda>l.
     rbind (Tuple_elements_debug es) (\<lambda>s.
     Inr (Tuple_debug_string l s atts)))"
| "debug_string (Pointer sub copy destroy atts) =
     rbind (dt_layout_lines (Pointer sub copy destroy atts)) (\<lambda>l.
     rbind (debug_string sub) (\<lambda>s.
     Inr (Pointer_debug_string l s atts)))"
| "Record_members_debug [] = Inr []"
| "Record_members_debug (Member d t n # ms) =
     rbind (debug_string t) (\<lambda>s.
     rbind (Record_members_debug ms) (\<lambda>rest. Inr (member_debug_string n d s @ rest)))"
| "Tuple_elements_debug [] = Inr []"
| "Tuple_elements_debug (Element d t # es) =
     rbind (debug_string t) (\<lambda>s.
     rbind (Tuple_elements_debug es) (\<lambda>rest. Inr (element_debug_string d s @ rest)))"
  by pat_completeness auto
termination
  by (relation "measure (case_sum size (case_sum members_size elements_size))") auto

section \<open>Comparison\<close>

definition Scalar_eq :: "scalar_data \<Rightarrow> scalar_data \<Rightarrow> bool" where
  "Scalar_eq d e \<longleftrightarrow> sc_size d = sc_size e \<and> sc_align d = sc_align e \<and> sc_kind d = sc_kind e"

definition Array_eq :: "bool \<Rightarrow> size_t \<times> size_t \<times> size_t \<Rightarrow> size_t \<times> size_t \<times> size_t \<Rightarrow> bool" where
  "Array_eq same_subtype dims rhs_dims \<longleftrightarrow> same_subtype \<and> dims = rhs_dims"

definition Record_eq :: "size_t \<Rightarrow> size_t \<Rightarrow> bool \<Rightarrow> bool" where
  "Record_eq bufsize rhs_bufsize same_members \<longleftrightarrow> bufsize = rhs_bufsize \<and> same_members"

definition Tuple_eq :: "size_t \<Rightarrow> size_t \<Rightarrow> bool \<Rightarrow> bool" where
  "Tuple_eq bufsize rhs_bufsize same_elements \<longleftrightarrow> bufsize = rhs_bufsize \<and> same_elements"

definition Pointer_eq :: "bool \<Rightarrow> bool" where
  "Pointer_eq same_subtype \<longleftrightarrow> same_subtype"

function (sequential) datatype_eq :: "dt \<Rightarrow> dt \<Rightarrow> bool"
  and Members_eq :: "dt member list \<Rightarrow> dt member list \<Rightarrow> bool"
  and Elements_eq :: "dt element list \<Rightarrow> dt element list \<Rightarrow> bool" where
  "datatype_eq (Scalar d _) (Scalar e _) \<longleftrightarrow> Scalar_eq d e"
| "datatype_eq (Array sub sz st n _) (Array sub' sz' st' n' _) \<longleftrightarrow>
     Array_eq (datatype_eq sub sub') (sz, st, n) (sz', st', n')"
| "datatype_eq (Record ms b _) (Record ms' b' _) \<longleftrightarrow> Record_eq b b' (Members_eq ms ms')"
| "datatype_eq (Tuple es b _) (Tuple es' b' _) \<longleftrightarrow> Tuple_eq b b' (Elements_eq es es')"
| "datatype_eq (Pointer sub _ _ _) (Pointer sub' _ _ _) \<longleftrightarrow> Pointer_eq (datatype_eq sub sub')"
| "datatype_eq _ _ \<longleftrightarrow> False"
| "Members_eq [] [] \<longleftrightarrow> True"
| "Members_eq (Member d t n # ms) (Member d' t' n' # ms') \<longleftrightarrow>
     d = d' \<and> n = n' \<and> datatype_eq t t' \<and> Members_eq ms ms'"
| "Members_eq _ _ \<longleftrightarrow> False"
| "Elements_eq [] [] \<longleftrightarrow> True"
| "Elements_eq (Element d t # es) (Element d' t' # es') \<longleftrightarrow>
     d = d' \<and> datatype_eq t t' \<and> Elements_eq es es'"
| "Elements_eq _ _ \<longleftrightarrow> False"
  by pat_completeness auto
termination
  by (relation "measure (case_sum (\<lambda>(t, u). size t)
        (case_sum (\<lambda>(ms, ms'). members_size ms) (\<lambda>(es, es'). elements_size es)))") auto

section \<open>Accesses\<close>

text \<open>\<open>*static_cast<void**>(data)\<close>.\<close>

definition read_ptr :: "mem \<Rightarrow> addr \<Rightarrow> addr" where
  "read_ptr m a = foldr (\<lambda>i v. unat (m (a + i)) + 256 * v) [0 ..< 8] 0"

text \<open>A pointer type forwards an access to its subtype, at the address the pointer holds.\<close>

definition Pointer_access :: "(addr \<Rightarrow> (addr \<times> dt) res) \<Rightarrow> mem \<Rightarrow> addr \<Rightarrow> (addr \<times> dt) res" where
  "Pointer_access sub_access m data = sub_access (read_ptr m data)"

definition Pointer_dereference :: "dt \<Rightarrow> dt res" where
  "Pointer_dereference sub = Inr sub"

definition Pointer_dereference_data :: "dt \<Rightarrow> mem \<Rightarrow> addr \<Rightarrow> (addr \<times> dt) res" where
  "Pointer_dereference_data sub m data = Inr (read_ptr m data, sub)"

text \<open>The implementations of the base class: the access does not apply to the type.\<close>

definition Datatype_index :: "dt \<Rightarrow> 'a res" where
  "Datatype_index t = rbind (debug_string t) (\<lambda>s.
     throw (Type_error (''unable to access element by index in '' @ s)))"

definition Datatype_slice :: "dt \<Rightarrow> 'a res" where
  "Datatype_slice t = rbind (debug_string t) (\<lambda>s. throw (Type_error (''unable to access slice in '' @ s)))"

definition Datatype_member :: "dt \<Rightarrow> 'a res" where
  "Datatype_member t = rbind (debug_string t) (\<lambda>s. throw (Type_error (''unable to access member in '' @ s)))"

definition Datatype_dereference :: "dt \<Rightarrow> 'a res" where
  "Datatype_dereference t = rbind (debug_string t) (\<lambda>s. throw (Type_error (''unable to dereference '' @ s)))"

subsection \<open>Elements\<close>

definition out_of_range :: "string \<Rightarrow> size_t \<Rightarrow> size_t \<Rightarrow> exn" where
  "out_of_range container i n =
     Value_error (''Subaccess '' @ container @ '' index out of range: '' @ fmt_nat i @ '' >= '' @ fmt_nat n)"

definition Array_index :: "dt \<Rightarrow> size_t \<Rightarrow> size_t \<Rightarrow> dt res" where
  "Array_index sub subsize i =
     (if i < subsize then Inr sub else throw (out_of_range ''array'' i subsize))"

definition Array_index_data :: "dt \<Rightarrow> size_t \<Rightarrow> size_t \<Rightarrow> size_t \<Rightarrow> addr \<Rightarrow> (addr \<times> dt) res" where
  "Array_index_data sub start subsize i data =
     (if i < subsize then Inr (data + sz_mul (buffersize sub) (sz_add start i), sub)
      else throw (out_of_range ''array'' i subsize))"

definition Tuple_index :: "dt element list \<Rightarrow> size_t \<Rightarrow> dt res" where
  "Tuple_index es i =
     (if i < length es then Inr (etype (es ! i)) else throw (out_of_range ''tuple'' i (length es)))"

definition Tuple_index_data :: "dt element list \<Rightarrow> size_t \<Rightarrow> addr \<Rightarrow> (addr \<times> dt) res" where
  "Tuple_index_data es i data =
     (if i < length es then Inr (data + offset (es ! i), etype (es ! i))
      else throw (out_of_range ''tuple'' i (length es)))"

fun index :: "dt \<Rightarrow> size_t \<Rightarrow> dt res" where
  "index (Array sub _ _ subsize _) i = Array_index sub subsize i"
| "index (Tuple es _ _) i = Tuple_index es i"
| "index (Pointer sub _ _ _) i = index sub i"
| "index (Scalar d a) i = Datatype_index (Scalar d a)"
| "index (Record ms b a) i = Datatype_index (Record ms b a)"

fun index_data :: "dt \<Rightarrow> size_t \<Rightarrow> mem \<Rightarrow> addr \<Rightarrow> (addr \<times> dt) res" where
  "index_data (Array sub _ start subsize _) i m data = Array_index_data sub start subsize i data"
| "index_data (Tuple es _ _) i m data = Tuple_index_data es i data"
| "index_data (Pointer sub _ _ _) i m data = Pointer_access (\<lambda>p. index_data sub i m p) m data"
| "index_data (Scalar d a) i m data = Datatype_index (Scalar d a)"
| "index_data (Record ms b a) i m data = Datatype_index (Record ms b a)"

subsection \<open>Slices\<close>

definition slice_out_of_range :: "string \<Rightarrow> size_t \<Rightarrow> size_t \<Rightarrow> size_t \<Rightarrow> exn" where
  "slice_out_of_range container s e n = Value_error (''Subaccess '' @ container @ '' slice out of range: ['' @ fmt_nat s
     @ '':'' @ fmt_nat e @ ''] > '' @ fmt_nat n)"

definition Array_slice :: "dt \<Rightarrow> size_t \<Rightarrow> size_t \<Rightarrow> size_t \<Rightarrow> dt res" where
  "Array_slice sub subsize start_index end_index =
     (if end_index \<le> subsize then Inr (Array_make sub (sz_sub end_index start_index) [])
      else throw (slice_out_of_range ''array'' start_index end_index subsize))"

definition Array_slice_data ::
    "dt \<Rightarrow> size_t \<Rightarrow> size_t \<Rightarrow> size_t \<Rightarrow> size_t \<Rightarrow> addr \<Rightarrow> (addr \<times> dt) res" where
  "Array_slice_data sub start subsize start_index end_index data =
     rbind (Array_slice sub subsize start_index end_index) (\<lambda>t.
     Inr (data + sz_mul (buffersize sub) (sz_add start start_index), t))"

text \<open>\<open>elements()[i]\<close> on a vector: undefined outside it.\<close>

definition element_at :: "dt element list \<Rightarrow> size_t \<Rightarrow> dt element res" where
  "element_at es i = (if i < length es then Inr (es ! i) else Inl UB)"

definition Tuple_slice :: "dt element list \<Rightarrow> size_t \<Rightarrow> size_t \<Rightarrow> size_t \<Rightarrow> dt res" where
  "Tuple_slice es bufsize start_index end_index =
     (if end_index \<le> length es then
        let new_elements = map (\<lambda>i. Element (sz_sub (offset (es ! i)) (offset (es ! start_index))) (etype (es ! i)))
              [start_index ..< end_index]
        in rbind (if end_index = length es
                  then rbind (element_at es start_index) (\<lambda>s. Inr (sz_sub bufsize (offset s)))
                  else rbind (element_at es (end_index + 1)) (\<lambda>e.
                       rbind (element_at es start_index) (\<lambda>s. Inr (sz_sub (offset e) (offset s)))))
             (\<lambda>new_buffersize. Inr (Tuple_make new_elements new_buffersize []))
      else throw (slice_out_of_range ''tuple'' start_index end_index (length es)))"

definition Tuple_slice_data ::
    "dt element list \<Rightarrow> size_t \<Rightarrow> size_t \<Rightarrow> size_t \<Rightarrow> addr \<Rightarrow> (addr \<times> dt) res" where
  "Tuple_slice_data es bufsize start_index end_index data =
     rbind (element_at es start_index) (\<lambda>s.
     rbind (Tuple_slice es bufsize start_index end_index) (\<lambda>t. Inr (data + offset s, t)))"

fun slice :: "dt \<Rightarrow> size_t \<Rightarrow> size_t \<Rightarrow> dt res" where
  "slice (Array sub _ _ subsize _) s e = Array_slice sub subsize s e"
| "slice (Tuple es b _) s e = Tuple_slice es b s e"
| "slice (Pointer sub _ _ _) s e = slice sub s e"
| "slice (Scalar d a) s e = Datatype_slice (Scalar d a)"
| "slice (Record ms b a) s e = Datatype_slice (Record ms b a)"

fun slice_data :: "dt \<Rightarrow> size_t \<Rightarrow> size_t \<Rightarrow> mem \<Rightarrow> addr \<Rightarrow> (addr \<times> dt) res" where
  "slice_data (Array sub _ start subsize _) s e m data = Array_slice_data sub start subsize s e data"
| "slice_data (Tuple es b _) s e m data = Tuple_slice_data es b s e data"
| "slice_data (Pointer sub _ _ _) s e m data = Pointer_access (\<lambda>p. slice_data sub s e m p) m data"
| "slice_data (Scalar d a) s e m data = Datatype_slice (Scalar d a)"
| "slice_data (Record ms b a) s e m data = Datatype_slice (Record ms b a)"

subsection \<open>Members and pointer targets\<close>

definition no_member :: "string \<Rightarrow> exn" where
  "no_member name = Value_error (''Record subaccess error: no member named '' @ name)"

definition Record_member :: "dt member list \<Rightarrow> string \<Rightarrow> dt res" where
  "Record_member ms name =
     (case find (\<lambda>f. name = mname f) ms of Some f \<Rightarrow> Inr (mtype f) | None \<Rightarrow> throw (no_member name))"

definition Record_member_data :: "dt member list \<Rightarrow> string \<Rightarrow> addr \<Rightarrow> (addr \<times> dt) res" where
  "Record_member_data ms name data =
     (case find (\<lambda>f. name = mname f) ms of
        Some f \<Rightarrow> Inr (data + displacement f, mtype f)
      | None \<Rightarrow> throw (no_member name))"

fun member_type :: "dt \<Rightarrow> string \<Rightarrow> dt res" where
  "member_type (Record ms _ _) name = Record_member ms name"
| "member_type (Pointer sub _ _ _) name = member_type sub name"
| "member_type (Scalar d a) name = Datatype_member (Scalar d a)"
| "member_type (Array sub sz st n a) name = Datatype_member (Array sub sz st n a)"
| "member_type (Tuple es b a) name = Datatype_member (Tuple es b a)"

fun member_data :: "dt \<Rightarrow> string \<Rightarrow> mem \<Rightarrow> addr \<Rightarrow> (addr \<times> dt) res" where
  "member_data (Record ms _ _) name m data = Record_member_data ms name data"
| "member_data (Pointer sub _ _ _) name m data = Pointer_access (\<lambda>p. member_data sub name m p) m data"
| "member_data (Scalar d a) name m data = Datatype_member (Scalar d a)"
| "member_data (Array sub sz st n a) name m data = Datatype_member (Array sub sz st n a)"
| "member_data (Tuple es b a) name m data = Datatype_member (Tuple es b a)"

fun dereference :: "dt \<Rightarrow> dt res" where
  "dereference (Pointer sub _ _ _) = Pointer_dereference sub"
| "dereference (Scalar d a) = Datatype_dereference (Scalar d a)"
| "dereference (Array sub sz st n a) = Datatype_dereference (Array sub sz st n a)"
| "dereference (Record ms b a) = Datatype_dereference (Record ms b a)"
| "dereference (Tuple es b a) = Datatype_dereference (Tuple es b a)"

fun dereference_data :: "dt \<Rightarrow> mem \<Rightarrow> addr \<Rightarrow> (addr \<times> dt) res" where
  "dereference_data (Pointer sub _ _ _) m data = Pointer_dereference_data sub m data"
| "dereference_data (Scalar d a) m data = Datatype_dereference (Scalar d a)"
| "dereference_data (Array sub sz st n a) m data = Datatype_dereference (Array sub sz st n a)"
| "dereference_data (Record ms b a) m data = Datatype_dereference (Record ms b a)"
| "dereference_data (Tuple es b a) m data = Datatype_dereference (Tuple es b a)"

end
