(* ===== verification/Datatype_Layout.thy ===== *)
theory Datatype_Layout
  imports Datatype_Model
begin

text \<open>
  Correctness of densification: the layout that \<open>densify\<close> computes against a specification of the
  packed layout over the natural numbers, the agreement of \<open>densify\<close> with \<open>dense\<close>, and the layout
  guarantees of a densified record or tuple.
\<close>

lemmas size_query_defs = Scalar_datasize_def Array_datasize_def Record_datasize_def
  Tuple_datasize_def Pointer_datasize_def Scalar_buffersize_def Array_buffersize_def
  Pointer_buffersize_def Scalar_alignment_def Array_alignment_def Record_alignment_def
  Tuple_alignment_def Pointer_alignment_def Scalar_simple_def Pointer_simple_def
  Array_simple_def Record_simple_def Tuple_simple_def Scalar_dense_def Array_dense_def
  Scalar_densify_def Array_densify_def Pointer_densify_def Scalar_ctor_def Array_make_def

section \<open>Densified types are fixed points and dense\<close>

lemma densify_stable:
  "densify t = Inr t' \<Longrightarrow>
     alignment t' = alignment t \<and> simple t' = simple t \<and> densify t' = Inr t' \<and> dense t' = Inr True"
  "Record_densify d ms = Inr (ms', e) \<Longrightarrow>
     map (\<lambda>m. alignment (mtype m)) ms' = map (\<lambda>m. alignment (mtype m)) ms
     \<and> map (\<lambda>m. simple (mtype m)) ms' = map (\<lambda>m. simple (mtype m)) ms
     \<and> Record_densify d ms' = Inr (ms', e) \<and> Record_dense d ms' = Inr (Inl e)"
  "Tuple_densify d es = Inr (es', e) \<Longrightarrow>
     map (\<lambda>m. alignment (etype m)) es' = map (\<lambda>m. alignment (etype m)) es
     \<and> map (\<lambda>m. simple (etype m)) es' = map (\<lambda>m. simple (etype m)) es
     \<and> Tuple_densify d es' = Inr (es', e) \<and> Tuple_dense d es' = Inr (Inl e)"
proof (induction t and d ms and d es arbitrary: t' and ms' e and es' e
    rule: densify_Record_densify_Tuple_densify.induct)
  case (1 d atts)
  then show ?case by (auto simp: size_query_defs Let_def nulltype_def split: if_splits)
next
  case (2 sub uu uv subsize atts)
  then show ?case by (auto simp: size_query_defs rbind_Inr_iff)
next
  case (3 ms bufsize atts)
  from "3.prems" obtain ms' d1 d2 where
    l: "Record_densify 0 ms = Inr (ms', d1)"
    and a: "align_displacement d1 (alignment (Record ms bufsize atts)) = Inr d2"
    and t': "t' = Record ms' (max 1 d2) []"
    by (auto simp: rbind_Inr_iff)
  from "3.IH"(1) [OF l] a t' show ?case
    by (auto simp: dense_tail_def size_query_defs)
next
  case (4 es bufsize atts)
  from "4.prems" obtain es' d1 d2 where
    l: "Tuple_densify 0 es = Inr (es', d1)"
    and a: "align_displacement d1 (alignment (Tuple es bufsize atts)) = Inr d2"
    and t': "t' = Tuple es' (max 1 d2) []"
    by (auto simp: rbind_Inr_iff)
  from "4.IH"(1) [OF l] a t' show ?case
    by (auto simp: dense_tail_def size_query_defs)
next
  case (5 sub copy destroy atts)
  then show ?case by (auto simp: size_query_defs rbind_Inr_iff)
next
  case (6 disp)
  then show ?case by simp
next
  case (7 disp d t n ms)
  from "7.prems" obtain t1 d1 ms1 where
    t1: "densify t = Inr t1" and d1: "align_displacement disp (alignment t1) = Inr d1"
    and ms1: "Record_densify (sz_add d1 (buffersize t1)) ms = Inr (ms1, e)"
    and ms': "ms' = Member d1 t1 n # ms1"
    by (auto simp: rbind_Inr_iff)
  from "7.IH"(1) [OF t1] "7.IH"(2) [OF ms1] d1 ms' show ?case by simp
next
  case (8 disp)
  then show ?case by simp
next
  case (9 disp d t es)
  from "9.prems" obtain t1 d1 es1 where
    t1: "densify t = Inr t1" and d1: "align_displacement disp (alignment t1) = Inr d1"
    and es1: "Tuple_densify (sz_add d1 (buffersize t1)) es = Inr (es1, e)"
    and es': "es' = Element d1 t1 # es1"
    by (auto simp: rbind_Inr_iff)
  from "9.IH"(1) [OF t1] "9.IH"(2) [OF es1] d1 es' show ?case by simp
qed

section \<open>The packed layout\<close>

text \<open>
  The specification of a densified layout, on natural numbers: fields one after the other, each at
  the next multiple of its alignment, the total rounded up to the alignment of the whole and at
  least one byte.
\<close>

function packed_size :: "dt \<Rightarrow> nat"
  and packed_members :: "nat \<Rightarrow> dt member list \<Rightarrow> nat"
  and packed_elements :: "nat \<Rightarrow> dt element list \<Rightarrow> nat" where
  "packed_size (Scalar d _) = sc_dense_size d"
| "packed_size (Array sub _ _ subsize _) = subsize * packed_size sub"
| "packed_size (Record ms b a) =
     max 1 (round_up (alignment (Record ms b a)) (packed_members 0 ms))"
| "packed_size (Tuple es b a) =
     max 1 (round_up (alignment (Tuple es b a)) (packed_elements 0 es))"
| "packed_size (Pointer _ _ _ _) = 8"
| "packed_members d [] = d"
| "packed_members d (Member _ t _ # ms) =
     packed_members (round_up (alignment t) d + packed_size t) ms"
| "packed_elements d [] = d"
| "packed_elements d (Element _ t # es) =
     packed_elements (round_up (alignment t) d + packed_size t) es"
  by pat_completeness auto
termination
  by (relation "measure (case_sum size (case_sum (\<lambda>(d, ms). members_size ms) (\<lambda>(d, es). elements_size es)))")
    auto

text \<open>
  What the constructors establish (a scalar is the null type or has a power of two as its
  alignment) and what the layout code relies on: no field of the null type, whose alignment is zero.
\<close>

fun wf_dt :: "dt \<Rightarrow> bool" where
  "wf_dt (Scalar d _) \<longleftrightarrow> nulltype d \<or> ispow2 (sc_align d)"
| "wf_dt (Array sub _ _ _ _) \<longleftrightarrow> wf_dt sub"
| "wf_dt (Record ms _ _) \<longleftrightarrow> (\<forall>m \<in> set ms. wf_dt (mtype m) \<and> alignment (mtype m) \<noteq> 0)"
| "wf_dt (Tuple es _ _) \<longleftrightarrow> (\<forall>e \<in> set es. wf_dt (etype e) \<and> alignment (etype e) \<noteq> 0)"
| "wf_dt (Pointer sub _ _ _) \<longleftrightarrow> wf_dt sub"

text \<open>No packed size overflows a \<open>size_t\<close>.\<close>

fun packed_fits :: "dt \<Rightarrow> bool" where
  "packed_fits (Scalar d a) \<longleftrightarrow> packed_size (Scalar d a) < size_max"
| "packed_fits (Array sub sz st n a) \<longleftrightarrow> packed_fits sub \<and> packed_size (Array sub sz st n a) < size_max"
| "packed_fits (Record ms b a) \<longleftrightarrow>
     (\<forall>m \<in> set ms. packed_fits (mtype m)) \<and> packed_size (Record ms b a) < size_max"
| "packed_fits (Tuple es b a) \<longleftrightarrow>
     (\<forall>e \<in> set es. packed_fits (etype e)) \<and> packed_size (Tuple es b a) < size_max"
| "packed_fits (Pointer sub c d a) \<longleftrightarrow> packed_fits sub"

lemma foldl_max_ge: "(x::nat) \<le> foldl max x xs"
proof (induction xs arbitrary: x)
  case (Cons y ys)
  have "x \<le> max x y" by simp
  also have "\<dots> \<le> foldl max (max x y) ys" by (rule Cons.IH)
  finally show ?case by simp
qed simp

lemma composite_alignment_pos [simp]: "0 < Record_alignment als" "0 < Tuple_alignment als"
  using foldl_max_ge [of 1 als] by (simp_all add: Record_alignment_def Tuple_alignment_def)

lemma align_displacement_eq [layout_simps]:
  "al \<noteq> 0 \<Longrightarrow> round_up al d < size_max \<Longrightarrow> align_displacement d al = Inr (round_up al d)"
  by (simp add: align_displacement_def round_up_def sz_add_def)

lemma packed_members_ge: "d \<le> packed_members d ms"
proof (induction ms arbitrary: d)
  case (Cons m ms)
  obtain e t n where m: "m = Member e t n" by (cases m)
  have "d \<le> round_up (alignment t) d + packed_size t" by (simp add: round_up_ge trans_le_add1)
  also have "\<dots> \<le> packed_members (round_up (alignment t) d + packed_size t) ms" by (rule Cons.IH)
  finally show ?case by (simp add: m)
qed simp

lemma packed_elements_ge: "d \<le> packed_elements d es"
proof (induction es arbitrary: d)
  case (Cons m es)
  obtain e t where m: "m = Element e t" by (cases m)
  have "d \<le> round_up (alignment t) d + packed_size t" by (simp add: round_up_ge trans_le_add1)
  also have "\<dots> \<le> packed_elements (round_up (alignment t) d + packed_size t) es" by (rule Cons.IH)
  finally show ?case by (simp add: m)
qed simp

text \<open>On well-formed types, \<open>densify\<close> succeeds and computes the packed layout.\<close>

lemma densify_packed:
  "wf_dt t \<Longrightarrow> packed_fits t \<Longrightarrow> \<exists>t'. densify t = Inr t' \<and> buffersize t' = packed_size t"
  "(\<And>m. m \<in> set ms \<Longrightarrow> wf_dt (mtype m) \<and> alignment (mtype m) \<noteq> 0 \<and> packed_fits (mtype m)) \<Longrightarrow>
     packed_members d ms < size_max \<Longrightarrow> \<exists>ms'. Record_densify d ms = Inr (ms', packed_members d ms)"
  "(\<And>m. m \<in> set es \<Longrightarrow> wf_dt (etype m) \<and> alignment (etype m) \<noteq> 0 \<and> packed_fits (etype m)) \<Longrightarrow>
     packed_elements d es < size_max \<Longrightarrow> \<exists>es'. Tuple_densify d es = Inr (es', packed_elements d es)"
proof (induction t and d ms and d es rule: densify_Record_densify_Tuple_densify.induct)
  case (1 d atts)
  then show ?case by (auto simp: size_query_defs Let_def nulltype_def split: if_splits)
next
  case (2 sub uu uv subsize atts)
  then show ?case by (auto simp: size_query_defs sz_mul_eq)
next
  case (3 ms bufsize atts)
  let ?al = "alignment (Record ms bufsize atts)"
  from "3.prems" have fits: "round_up ?al (packed_members 0 ms) < size_max" by simp
  with round_up_ge [of "packed_members 0 ms" ?al] have "packed_members 0 ms < size_max" by simp
  with "3.IH" "3.prems" obtain ms' where "Record_densify 0 ms = Inr (ms', packed_members 0 ms)"
    by auto
  with fits show ?case by (simp add: align_displacement_eq)
next
  case (4 es bufsize atts)
  let ?al = "alignment (Tuple es bufsize atts)"
  from "4.prems" have fits: "round_up ?al (packed_elements 0 es) < size_max" by simp
  with round_up_ge [of "packed_elements 0 es" ?al] have "packed_elements 0 es < size_max" by simp
  with "4.IH" "4.prems" obtain es' where "Tuple_densify 0 es = Inr (es', packed_elements 0 es)"
    by auto
  with fits show ?case by (simp add: align_displacement_eq)
next
  case (5 sub copy destroy atts)
  then show ?case by (auto simp: size_query_defs)
next
  case (6 disp)
  then show ?case by simp
next
  case (7 disp d t n ms)
  from "7.prems"(1) [of "Member d t n"] "7.IH"(1) obtain t' where
    t': "densify t = Inr t'" "buffersize t' = packed_size t" by auto
  let ?d = "round_up (alignment t) disp"
  from "7.prems"(2) packed_members_ge [of "?d + packed_size t" ms]
  have lt: "?d + packed_size t < size_max" by simp
  have al: "alignment t' = alignment t" using densify_stable(1) [OF t'(1)] by simp
  with "7.prems"(1) [of "Member d t n"] lt
  have d': "align_displacement disp (alignment t') = Inr ?d" by (simp add: align_displacement_eq)
  have "\<exists>ms'. Record_densify (sz_add ?d (buffersize t')) ms = Inr (ms', packed_members (sz_add ?d (buffersize t')) ms)"
    using "7.prems" lt t'(2) by (intro "7.IH"(2)) (auto simp: sz_add_eq)
  with t' d' lt show ?case by (auto simp: sz_add_eq)
next
  case (8 disp)
  then show ?case by simp
next
  case (9 disp d t es)
  from "9.prems"(1) [of "Element d t"] "9.IH"(1) obtain t' where
    t': "densify t = Inr t'" "buffersize t' = packed_size t" by auto
  let ?d = "round_up (alignment t) disp"
  from "9.prems"(2) packed_elements_ge [of "?d + packed_size t" es]
  have lt: "?d + packed_size t < size_max" by simp
  have al: "alignment t' = alignment t" using densify_stable(1) [OF t'(1)] by simp
  with "9.prems"(1) [of "Element d t"] lt
  have d': "align_displacement disp (alignment t') = Inr ?d" by (simp add: align_displacement_eq)
  have "\<exists>es'. Tuple_densify (sz_add ?d (buffersize t')) es = Inr (es', packed_elements (sz_add ?d (buffersize t')) es)"
    using "9.prems" lt t'(2) by (intro "9.IH"(2)) (auto simp: sz_add_eq)
  with t' d' lt show ?case by (auto simp: sz_add_eq)
qed

section \<open>Layout guarantees\<close>

text \<open>
  Fields laid out in increasing order from \<open>lo\<close> to \<open>hi\<close>: each aligned, none overlapping the next,
  all inside.
\<close>

fun members_laid_out :: "nat \<Rightarrow> dt member list \<Rightarrow> nat \<Rightarrow> bool" where
  "members_laid_out lo [] hi \<longleftrightarrow> lo \<le> hi"
| "members_laid_out lo (Member d t n # ms) hi \<longleftrightarrow>
     lo \<le> d \<and> alignment t dvd d \<and> members_laid_out (d + buffersize t) ms hi"

fun elements_laid_out :: "nat \<Rightarrow> dt element list \<Rightarrow> nat \<Rightarrow> bool" where
  "elements_laid_out lo [] hi \<longleftrightarrow> lo \<le> hi"
| "elements_laid_out lo (Element d t # es) hi \<longleftrightarrow>
     lo \<le> d \<and> alignment t dvd d \<and> elements_laid_out (d + buffersize t) es hi"

lemma members_laid_out_mono: "members_laid_out lo ms hi \<Longrightarrow> hi \<le> hi' \<Longrightarrow> members_laid_out lo ms hi'"
  by (induction lo ms hi rule: members_laid_out.induct) auto

lemma elements_laid_out_mono: "elements_laid_out lo es hi \<Longrightarrow> hi \<le> hi' \<Longrightarrow> elements_laid_out lo es hi'"
  by (induction lo es hi rule: elements_laid_out.induct) auto

lemma members_laid_out_le: "members_laid_out lo ms hi \<Longrightarrow> lo \<le> hi"
  by (induction lo ms hi rule: members_laid_out.induct) auto

lemma elements_laid_out_le: "elements_laid_out lo es hi \<Longrightarrow> lo \<le> hi"
  by (induction lo es hi rule: elements_laid_out.induct) auto

lemma members_laid_out_in:
  "members_laid_out lo ms hi \<Longrightarrow> Member d t n \<in> set ms \<Longrightarrow>
     lo \<le> d \<and> alignment t dvd d \<and> d + buffersize t \<le> hi"
  by (induction lo ms hi rule: members_laid_out.induct)
    (auto dest: members_laid_out_le)

lemma elements_laid_out_in:
  "elements_laid_out lo es hi \<Longrightarrow> Element d t \<in> set es \<Longrightarrow>
     lo \<le> d \<and> alignment t dvd d \<and> d + buffersize t \<le> hi"
  by (induction lo es hi rule: elements_laid_out.induct)
    (auto dest: elements_laid_out_le)

lemma Record_densify_laid_out:
  assumes "\<And>m. m \<in> set ms \<Longrightarrow> wf_dt (mtype m) \<and> alignment (mtype m) \<noteq> 0 \<and> packed_fits (mtype m)"
    and "packed_members d ms < size_max" and "Record_densify d ms = Inr (ms', e)"
  shows "members_laid_out d ms' e \<and> map mname ms' = map mname ms"
  using assms
proof (induction ms arbitrary: d ms')
  case (Cons m ms)
  obtain x t n where m: "m = Member x t n" by (cases m)
  from Cons.prems(1) [of m] m have wf: "wf_dt t" "alignment t \<noteq> 0" "packed_fits t" by auto
  with densify_packed(1) obtain t' where t': "densify t = Inr t'" "buffersize t' = packed_size t"
    by blast
  let ?d = "round_up (alignment t) d"
  from Cons.prems(2) m packed_members_ge [of "?d + packed_size t" ms]
  have lt: "?d + packed_size t < size_max" by simp
  have al: "alignment t' = alignment t" using densify_stable(1) [OF t'(1)] by simp
  with wf lt have d': "align_displacement d (alignment t') = Inr ?d"
    by (simp add: align_displacement_eq)
  from Cons.prems(3) m t' d' lt obtain ms1 where
    ms1: "Record_densify (?d + packed_size t) ms = Inr (ms1, e)" and ms': "ms' = Member ?d t' n # ms1"
    by (auto simp: rbind_Inr_iff sz_add_eq)
  have "members_laid_out (?d + packed_size t) ms1 e \<and> map mname ms1 = map mname ms"
    using Cons.prems m ms1 by (intro Cons.IH) auto
  with ms' m t' al wf(2) show ?case by (simp add: round_up_ge round_up_dvd)
qed simp

lemma Tuple_densify_laid_out:
  assumes "\<And>m. m \<in> set es \<Longrightarrow> wf_dt (etype m) \<and> alignment (etype m) \<noteq> 0 \<and> packed_fits (etype m)"
    and "packed_elements d es < size_max" and "Tuple_densify d es = Inr (es', e)"
  shows "elements_laid_out d es' e \<and> length es' = length es"
  using assms
proof (induction es arbitrary: d es')
  case (Cons m es)
  obtain x t where m: "m = Element x t" by (cases m)
  from Cons.prems(1) [of m] m have wf: "wf_dt t" "alignment t \<noteq> 0" "packed_fits t" by auto
  with densify_packed(1) obtain t' where t': "densify t = Inr t'" "buffersize t' = packed_size t"
    by blast
  let ?d = "round_up (alignment t) d"
  from Cons.prems(2) m packed_elements_ge [of "?d + packed_size t" es]
  have lt: "?d + packed_size t < size_max" by simp
  have al: "alignment t' = alignment t" using densify_stable(1) [OF t'(1)] by simp
  with wf lt have d': "align_displacement d (alignment t') = Inr ?d"
    by (simp add: align_displacement_eq)
  from Cons.prems(3) m t' d' lt obtain es1 where
    es1: "Tuple_densify (?d + packed_size t) es = Inr (es1, e)" and es': "es' = Element ?d t' # es1"
    by (auto simp: rbind_Inr_iff sz_add_eq)
  have "elements_laid_out (?d + packed_size t) es1 e \<and> length es1 = length es"
    using Cons.prems m es1 by (intro Cons.IH) auto
  with es' m t' al wf(2) show ?case by (simp add: round_up_ge round_up_dvd)
qed simp

text \<open>
  A naturally laid out type: what a C compiler produces, with any amount of extra room. Packing
  such a type never makes it larger.
\<close>

fun natural :: "dt \<Rightarrow> bool" where
  "natural (Scalar d a) \<longleftrightarrow> sc_dense_size d < size_max"
| "natural (Array sub sz st n a) \<longleftrightarrow>
     natural sub \<and> st + n \<le> sz \<and> sz * buffersize sub < size_max"
| "natural (Record ms b a) \<longleftrightarrow> (\<forall>m \<in> set ms. natural (mtype m)) \<and> members_laid_out 0 ms b
     \<and> alignment (Record ms b a) dvd b \<and> 0 < b \<and> b < size_max"
| "natural (Tuple es b a) \<longleftrightarrow> (\<forall>e \<in> set es. natural (etype e)) \<and> elements_laid_out 0 es b
     \<and> alignment (Tuple es b a) dvd b \<and> 0 < b \<and> b < size_max"
| "natural (Pointer sub c d a) \<longleftrightarrow> natural sub"

lemma packed_members_le:
  assumes "members_laid_out lo ms hi" and "d \<le> lo"
    and "\<And>m. m \<in> set ms \<Longrightarrow> alignment (mtype m) \<noteq> 0 \<and> packed_size (mtype m) \<le> buffersize (mtype m)"
  shows "packed_members d ms \<le> hi"
  using assms
proof (induction lo ms hi arbitrary: d rule: members_laid_out.induct)
  case (2 lo x t n ms hi)
  from "2.prems"(3) [of "Member x t n"] have t: "alignment t \<noteq> 0" "packed_size t \<le> buffersize t"
    by auto
  have "round_up (alignment t) d \<le> x"
    using "2.prems"(1,2) t by (intro round_up_le) auto
  with t "2.prems"(1,3) "2.IH" show ?case by (simp add: add_mono)
qed simp

lemma packed_elements_le:
  assumes "elements_laid_out lo es hi" and "d \<le> lo"
    and "\<And>m. m \<in> set es \<Longrightarrow> alignment (etype m) \<noteq> 0 \<and> packed_size (etype m) \<le> buffersize (etype m)"
  shows "packed_elements d es \<le> hi"
  using assms
proof (induction lo es hi arbitrary: d rule: elements_laid_out.induct)
  case (2 lo x t es hi)
  from "2.prems"(3) [of "Element x t"] have t: "alignment t \<noteq> 0" "packed_size t \<le> buffersize t"
    by auto
  have "round_up (alignment t) d \<le> x"
    using "2.prems"(1,2) t by (intro round_up_le) auto
  with t "2.prems"(1,3) "2.IH" show ?case by (simp add: add_mono)
qed simp

lemma natural_packed:
  "natural t \<Longrightarrow> wf_dt t \<Longrightarrow> packed_size t \<le> buffersize t \<and> buffersize t < size_max \<and> packed_fits t"
proof (induction t rule: natural.induct)
  case (1 d a)
  then show ?case by (simp add: size_query_defs)
next
  case (2 sub sz st n a)
  then have sub: "packed_size sub \<le> buffersize sub" "packed_fits sub" and n: "n \<le> sz"
    and fits: "sz * buffersize sub < size_max" by auto
  from n sub(1) have "n * packed_size sub \<le> sz * buffersize sub" by (rule mult_le_mono)
  with fits sub(2) show ?case by (simp add: size_query_defs sz_mul_eq)
next
  case (3 ms b a)
  have "packed_members 0 ms \<le> b"
    using 3 by (intro packed_members_le [of 0 ms b]) auto
  then have "round_up (alignment (Record ms b a)) (packed_members 0 ms) \<le> b"
    using "3.prems" by (intro round_up_le) auto
  with 3 show ?case by auto
next
  case (4 es b a)
  have "packed_elements 0 es \<le> b"
    using 4 by (intro packed_elements_le [of 0 es b]) auto
  then have "round_up (alignment (Tuple es b a)) (packed_elements 0 es) \<le> b"
    using "4.prems" by (intro round_up_le) auto
  with 4 show ?case by auto
next
  case (5 sub c d a)
  then show ?case by (simp add: size_query_defs)
qed

section \<open>Properties of densification\<close>

text \<open>
  (C28) Whatever \<open>densify\<close> returns is dense: \<open>dense\<close> accepts it, \<open>densify\<close> returns it unchanged, and it has
  the alignment and the simplicity of the original type.
\<close>

theorem densify_yields_dense:
  "densify t = Inr t' \<Longrightarrow>
     dense t' = Inr True \<and> densify t' = Inr t' \<and> alignment t' = alignment t \<and> simple t' = simple t"
  using densify_stable(1) by blast

text \<open>
  (C29) On a well-formed type whose fields are laid out in order, aligned and without overlap,
  \<open>densify\<close> succeeds; the buffer of the result has the packed size, at most the original one.
\<close>

theorem densify_packed_layout:
  assumes "wf_dt t" and "natural t"
  shows "\<exists>t'. densify t = Inr t' \<and> buffersize t' = packed_size t \<and> buffersize t' \<le> buffersize t"
  using assms densify_packed(1) [of t] natural_packed [of t] by auto

text \<open>
  (C30) Densifying a record keeps its member names in order and puts the members one after the
  other, each aligned, none overlapping the next, all inside the new buffer.
\<close>

theorem densify_record_layout:
  assumes "wf_dt (Record ms b a)" and "packed_fits (Record ms b a)"
  shows "\<exists>ms'. densify (Record ms b a) = Inr (Record ms' (packed_size (Record ms b a)) [])
    \<and> members_laid_out 0 ms' (packed_size (Record ms b a)) \<and> map mname ms' = map mname ms"
proof -
  let ?al = "alignment (Record ms b a)" and ?e = "packed_members 0 ms"
  have ms: "wf_dt (mtype m) \<and> alignment (mtype m) \<noteq> 0 \<and> packed_fits (mtype m)" if "m \<in> set ms" for m
    using assms that by auto
  have fits: "round_up ?al ?e < size_max" using assms(2) by simp
  have e: "?e \<le> round_up ?al ?e" by (rule round_up_ge)
  with fits obtain ms' where ms': "Record_densify 0 ms = Inr (ms', ?e)"
    using densify_packed(2) [OF ms] by fastforce
  with Record_densify_laid_out [OF ms _ ms'] e fits
  have "members_laid_out 0 ms' ?e \<and> map mname ms' = map mname ms" by simp
  moreover have "?e \<le> packed_size (Record ms b a)" using e by simp
  ultimately have "members_laid_out 0 ms' (packed_size (Record ms b a)) \<and> map mname ms' = map mname ms"
    using members_laid_out_mono by blast
  with ms' fits show ?thesis by (simp add: align_displacement_eq)
qed

text \<open>A character and an integer with a hole between them.\<close>

definition sample_gap :: dt where
  "sample_gap = Record
     [Member 0 (Scalar \<lparr>sc_size = 1, sc_dense_size = 1, sc_align = 1, sc_kind = UNSIGNED, sc_copy = None, sc_destroy = None\<rparr> []) ''c'',
      Member 8 (Scalar \<lparr>sc_size = 4, sc_dense_size = 4, sc_align = 4, sc_kind = SIGNED, sc_copy = None, sc_destroy = None\<rparr> []) ''i'']
     16 []"

definition sample_gap_densified :: dt where
  "sample_gap_densified = Record
     [Member 0 (Scalar \<lparr>sc_size = 1, sc_dense_size = 1, sc_align = 1, sc_kind = UNSIGNED, sc_copy = None, sc_destroy = None\<rparr> []) ''c'',
      Member 4 (Scalar \<lparr>sc_size = 4, sc_dense_size = 4, sc_align = 4, sc_kind = SIGNED, sc_copy = None, sc_destroy = None\<rparr> []) ''i'']
     8 []"

lemma sample_gap_densify: "densify sample_gap = Inr sample_gap_densified"
  by (simp add: sample_gap_def sample_gap_densified_def size_query_defs nulltype_def Record_alignment_def
      align_displacement_def sz_add_def ispow2_def)

lemma sample_gap_wf: "wf_dt sample_gap" "natural sample_gap" "packed_size sample_gap = 8" "packed_fits sample_gap"
  by (simp_all add: sample_gap_def size_query_defs Record_alignment_def ispow2_def round_up_def)

theorem densify_yields_dense_witness:
  "densify sample_gap = Inr sample_gap_densified \<and> dense sample_gap_densified = Inr True
     \<and> densify sample_gap_densified = Inr sample_gap_densified"
  using densify_yields_dense [OF sample_gap_densify] sample_gap_densify by simp

theorem densify_packed_layout_witness:
  "\<exists>t'. densify sample_gap = Inr t' \<and> buffersize t' = 8 \<and> buffersize t' \<le> buffersize sample_gap"
  using densify_packed_layout [OF sample_gap_wf(1,2)] sample_gap_wf(3) by simp

theorem densify_record_layout_witness:
  "\<exists>ms'. densify sample_gap = Inr (Record ms' 8 []) \<and> members_laid_out 0 ms' 8 \<and> map mname ms' = [''c'', ''i'']"
  using densify_record_layout [OF sample_gap_wf(1,4) [unfolded sample_gap_def]]
    sample_gap_wf(3) unfolding sample_gap_def by simp

end
