(* ===== verification/Datatype_Copy.thy ===== *)
theory Datatype_Copy
  imports Datatype_Model
begin

text \<open>
  The methods of the datatypes that act on memory: \<open>data_to_dense_copy\<close>, \<open>data_from_dense_copy\<close> and
  \<open>destroy_data\<close>. A pointer is an address; a copy returns the pointer behind the last byte it
  handled, in the memory it leaves.
\<close>

type_synonym 'a memory_op = "(mem, exn, 'a) sx"

section \<open>Primitives\<close>

definition memcpy :: "addr \<Rightarrow> addr \<Rightarrow> size_t \<Rightarrow> mem \<Rightarrow> mem" where
  "memcpy dst src n m = (\<lambda>a. if dst \<le> a \<and> a < dst + n then m (src + (a - dst)) else m a)"

text \<open>
  \<open>std::align(alignment, size, ptr, space)\<close>: the next multiple of the alignment if the request fits
  in the space, the null pointer otherwise; the alignment has to be a power of two.
\<close>

definition std_align :: "size_t \<Rightarrow> size_t \<Rightarrow> addr \<Rightarrow> size_t \<Rightarrow> addr res" where
  "std_align al sz p space =
     (if \<not> ispow2 al then Inl UB
      else if space < sz + (round_up al p - p) then Inr 0
      else Inr (round_up al p))"

text \<open>
  \<open>int padding = (align - ((uintptr_t) from % align)) % align; from += padding\<close>: the unsigned
  padding goes through a 32-bit signed integer.
\<close>

definition int32_of_size :: "size_t \<Rightarrow> int" where
  "int32_of_size n = (int n + 2 ^ 31) mod 2 ^ 32 - 2 ^ 31"

definition skip_padding :: "size_t \<Rightarrow> addr \<Rightarrow> addr res" where
  "skip_padding al from =
     (if al = 0 then Inl UB
      else Inr (nat (int from + int32_of_size ((al - from mod al) mod al))))"

abbreviation int_max :: nat where
  "int_max \<equiv> 2147483647"

section \<open>Copies to the dense layout\<close>

definition Scalar_data_to_dense_copy :: "scalar_data \<Rightarrow> addr \<Rightarrow> addr \<Rightarrow> addr memory_op" where
  "Scalar_data_to_dense_copy d to from =
     (case sc_copy d of
        None \<Rightarrow> sx_bind (sx_modify (memcpy to from (Scalar_datasize d)))
                  (\<lambda>_. sx_return (to + Scalar_datasize d))
      | Some copy \<Rightarrow> copy to from)"

definition Pointer_data_to_dense_copy :: "copy_fn option \<Rightarrow> addr \<Rightarrow> addr \<Rightarrow> addr memory_op" where
  "Pointer_data_to_dense_copy m_copy to from =
     (case m_copy of
        None \<Rightarrow> sx_bind (sx_modify (memcpy to from Pointer_datasize))
                  (\<lambda>_. sx_return (to + Pointer_datasize))
      | Some copy \<Rightarrow> copy to from)"

text \<open>\<open>simple() && dense()\<close>, with the short circuit of \<open>&&\<close>.\<close>

definition simple_and_dense :: "dt \<Rightarrow> bool res" where
  "simple_and_dense t = (if simple t then dense t else Inr False)"

fun Array_to_dense_loop ::
    "(addr \<Rightarrow> addr \<Rightarrow> addr memory_op) \<Rightarrow> size_t \<Rightarrow> size_t \<Rightarrow> nat \<Rightarrow> addr \<Rightarrow> addr \<Rightarrow> addr memory_op" where
  "Array_to_dense_loop sub_copy al sub_bufsize 0 to from = sx_return to"
| "Array_to_dense_loop sub_copy al sub_bufsize (Suc n) to from =
     sx_bind (sx_lift (std_align al 0 to al)) (\<lambda>to.
     sx_bind (sub_copy to from) (\<lambda>to.
     Array_to_dense_loop sub_copy al sub_bufsize n to (from + sub_bufsize)))"

definition Array_data_to_dense_copy ::
    "(addr \<Rightarrow> addr \<Rightarrow> addr memory_op) \<Rightarrow> dt \<Rightarrow> size_t \<Rightarrow> size_t \<Rightarrow> addr \<Rightarrow> addr \<Rightarrow> addr memory_op" where
  "Array_data_to_dense_copy sub_copy sub start subsize to from =
     (let from = from + sz_mul start (buffersize sub);
          datasz = Array_datasize subsize (datasize sub)
      in sx_bind (sx_lift (simple_and_dense sub)) (\<lambda>b.
         if b then sx_bind (sx_modify (memcpy to from datasz)) (\<lambda>_. sx_return (to + datasz))
         else Array_to_dense_loop sub_copy (alignment sub) (buffersize sub) subsize to from))"

text \<open>The bodies of the record and the tuple; the loop over the fields is the first argument.\<close>

definition Record_data_to_dense_copy ::
    "(addr \<Rightarrow> addr \<Rightarrow> addr memory_op) \<Rightarrow> dt \<Rightarrow> addr \<Rightarrow> addr \<Rightarrow> addr memory_op" where
  "Record_data_to_dense_copy members_loop this to from =
     sx_bind (sx_lift (simple_and_dense this)) (\<lambda>b.
       if b then sx_bind (sx_modify (memcpy to from (buffersize this)))
                   (\<lambda>_. sx_return (to + buffersize this))
       else members_loop to from)"

definition Tuple_data_to_dense_copy ::
    "(addr \<Rightarrow> addr \<Rightarrow> addr memory_op) \<Rightarrow> dt \<Rightarrow> addr \<Rightarrow> addr \<Rightarrow> addr memory_op" where
  "Tuple_data_to_dense_copy elements_loop this to from =
     sx_bind (sx_lift (simple_and_dense this)) (\<lambda>b.
       if b then sx_bind (sx_modify (memcpy to from (buffersize this)))
                   (\<lambda>_. sx_return (to + buffersize this))
       else elements_loop to from)"

function data_to_dense_copy :: "dt \<Rightarrow> addr \<Rightarrow> addr \<Rightarrow> addr memory_op"
  and Record_to_dense_members :: "dt member list \<Rightarrow> addr \<Rightarrow> addr \<Rightarrow> addr memory_op"
  and Tuple_to_dense_elements :: "dt element list \<Rightarrow> addr \<Rightarrow> addr \<Rightarrow> addr memory_op" where
  "data_to_dense_copy (Scalar d _) to from = Scalar_data_to_dense_copy d to from"
| "data_to_dense_copy (Array sub _ start subsize _) to from =
     Array_data_to_dense_copy (\<lambda>to from. data_to_dense_copy sub to from) sub start subsize to from"
| "data_to_dense_copy (Record ms b a) to from =
     Record_data_to_dense_copy (\<lambda>to from. Record_to_dense_members ms to from) (Record ms b a) to from"
| "data_to_dense_copy (Tuple es b a) to from =
     Tuple_data_to_dense_copy (\<lambda>to from. Tuple_to_dense_elements es to from) (Tuple es b a) to from"
| "data_to_dense_copy (Pointer _ copy _ _) to from = Pointer_data_to_dense_copy copy to from"
| "Record_to_dense_members [] to from = sx_return to"
| "Record_to_dense_members (Member d t n # ms) to from =
     sx_bind (sx_lift (std_align (alignment t) 0 to (alignment t))) (\<lambda>to.
     sx_bind (data_to_dense_copy t to (from + d)) (\<lambda>to.
     Record_to_dense_members ms to from))"
| "Tuple_to_dense_elements [] to from = sx_return to"
| "Tuple_to_dense_elements (Element d t # es) to from =
     sx_bind (sx_lift (std_align (alignment t) 0 to (alignment t))) (\<lambda>to.
     sx_bind (data_to_dense_copy t to (from + d)) (\<lambda>to.
     Tuple_to_dense_elements es to from))"
  by pat_completeness auto
termination
  by (relation "measure (case_sum (\<lambda>(t, to, from). size t)
        (case_sum (\<lambda>(ms, to, from). members_size ms) (\<lambda>(es, to, from). elements_size es)))") auto

section \<open>Copies from the dense layout\<close>

definition Scalar_data_from_dense_copy :: "scalar_data \<Rightarrow> addr \<Rightarrow> addr \<Rightarrow> addr memory_op" where
  "Scalar_data_from_dense_copy d to from = Scalar_data_to_dense_copy d to from"

definition Pointer_data_from_dense_copy :: "copy_fn option \<Rightarrow> addr \<Rightarrow> addr \<Rightarrow> addr memory_op" where
  "Pointer_data_from_dense_copy m_copy to from = Pointer_data_to_dense_copy m_copy to from"

fun Array_from_dense_loop ::
    "(addr \<Rightarrow> addr \<Rightarrow> addr memory_op) \<Rightarrow> size_t \<Rightarrow> size_t \<Rightarrow> nat \<Rightarrow> addr \<Rightarrow> addr \<Rightarrow> unit memory_op" where
  "Array_from_dense_loop sub_copy al sub_datasize 0 to from = sx_return ()"
| "Array_from_dense_loop sub_copy al sub_datasize (Suc n) to from =
     sx_bind (sx_lift (std_align al 0 to al)) (\<lambda>to.
     sx_bind (sx_lift (skip_padding al from)) (\<lambda>from.
     sx_bind (sub_copy to from) (\<lambda>to.
     Array_from_dense_loop sub_copy al sub_datasize n to (from + sub_datasize))))"

text \<open>
  The loop counter of the source is an \<open>int\<close>: counting past its range is undefined.
\<close>

definition Array_data_from_dense_copy ::
    "(addr \<Rightarrow> addr \<Rightarrow> addr memory_op) \<Rightarrow> dt \<Rightarrow> size_t \<Rightarrow> size_t \<Rightarrow> size_t \<Rightarrow> addr \<Rightarrow> addr \<Rightarrow> addr memory_op" where
  "Array_data_from_dense_copy sub_copy sub sz start subsize original_to from =
     (let to = original_to + sz_mul start (buffersize sub);
          bufsize = Array_buffersize sz (buffersize sub)
      in sx_bind (sx_lift (simple_and_dense sub)) (\<lambda>b.
         if b then sx_bind (sx_modify (memcpy to from (Array_datasize subsize (datasize sub))))
                     (\<lambda>_. sx_return (original_to + bufsize))
         else if subsize > int_max then sx_fail UB
         else sx_bind (Array_from_dense_loop sub_copy (alignment sub) (datasize sub) subsize to from)
                (\<lambda>_. sx_return (original_to + bufsize))))"

definition Record_data_from_dense_copy ::
    "(addr \<Rightarrow> addr \<Rightarrow> unit memory_op) \<Rightarrow> dt \<Rightarrow> addr \<Rightarrow> addr \<Rightarrow> addr memory_op" where
  "Record_data_from_dense_copy members_loop this original_to from =
     sx_bind (sx_lift (simple_and_dense this)) (\<lambda>b.
       if b then sx_bind (sx_modify (memcpy original_to from (buffersize this)))
                   (\<lambda>_. sx_return (original_to + buffersize this))
       else sx_bind (members_loop original_to from) (\<lambda>_. sx_return (original_to + buffersize this)))"

definition Tuple_data_from_dense_copy ::
    "(addr \<Rightarrow> addr \<Rightarrow> unit memory_op) \<Rightarrow> dt \<Rightarrow> addr \<Rightarrow> addr \<Rightarrow> addr memory_op" where
  "Tuple_data_from_dense_copy elements_loop this original_to from =
     sx_bind (sx_lift (simple_and_dense this)) (\<lambda>b.
       if b then sx_bind (sx_modify (memcpy original_to from (buffersize this)))
                   (\<lambda>_. sx_return (original_to + buffersize this))
       else sx_bind (elements_loop original_to from) (\<lambda>_. sx_return (original_to + buffersize this)))"

function data_from_dense_copy :: "dt \<Rightarrow> addr \<Rightarrow> addr \<Rightarrow> addr memory_op"
  and Record_from_dense_members :: "dt member list \<Rightarrow> addr \<Rightarrow> addr \<Rightarrow> unit memory_op"
  and Tuple_from_dense_elements :: "dt element list \<Rightarrow> addr \<Rightarrow> addr \<Rightarrow> unit memory_op" where
  "data_from_dense_copy (Scalar d _) to from = Scalar_data_from_dense_copy d to from"
| "data_from_dense_copy (Array sub sz start subsize _) to from =
     Array_data_from_dense_copy (\<lambda>to from. data_from_dense_copy sub to from) sub sz start subsize to from"
| "data_from_dense_copy (Record ms b a) to from =
     Record_data_from_dense_copy (\<lambda>to from. Record_from_dense_members ms to from) (Record ms b a) to from"
| "data_from_dense_copy (Tuple es b a) to from =
     Tuple_data_from_dense_copy (\<lambda>to from. Tuple_from_dense_elements es to from) (Tuple es b a) to from"
| "data_from_dense_copy (Pointer _ copy _ _) to from = Pointer_data_from_dense_copy copy to from"
| "Record_from_dense_members [] original_to from = sx_return ()"
| "Record_from_dense_members (Member d t n # ms) original_to from =
     sx_bind (sx_lift (skip_padding (alignment t) from)) (\<lambda>from.
     sx_bind (data_from_dense_copy t (original_to + d) from) (\<lambda>_.
     Record_from_dense_members ms original_to (from + datasize t)))"
| "Tuple_from_dense_elements [] original_to from = sx_return ()"
| "Tuple_from_dense_elements (Element d t # es) original_to from =
     sx_bind (sx_lift (skip_padding (alignment t) from)) (\<lambda>from.
     sx_bind (data_from_dense_copy t (original_to + d) from) (\<lambda>_.
     Tuple_from_dense_elements es original_to (from + datasize t)))"
  by pat_completeness auto
termination
  by (relation "measure (case_sum (\<lambda>(t, to, from). size t)
        (case_sum (\<lambda>(ms, to, from). members_size ms) (\<lambda>(es, to, from). elements_size es)))") auto

section \<open>Destruction\<close>

definition Scalar_destroy_data :: "scalar_data \<Rightarrow> addr \<Rightarrow> unit memory_op" where
  "Scalar_destroy_data d p = (case sc_destroy d of Some f \<Rightarrow> f p | None \<Rightarrow> sx_return ())"

definition Pointer_destroy_data :: "destroy_fn option \<Rightarrow> addr \<Rightarrow> unit memory_op" where
  "Pointer_destroy_data m_destroy p = (case m_destroy of Some f \<Rightarrow> f p | None \<Rightarrow> sx_return ())"

definition Array_destroy_data ::
    "(addr \<Rightarrow> unit memory_op) \<Rightarrow> dt \<Rightarrow> size_t \<Rightarrow> size_t \<Rightarrow> addr \<Rightarrow> unit memory_op" where
  "Array_destroy_data sub_destroy sub start subsize p =
     (if \<not> simple sub
      then sx_each (\<lambda>i. sub_destroy (p + sz_mul i (buffersize sub))) [start ..< sz_add start subsize]
      else sx_return ())"

definition Record_destroy_data :: "bool \<Rightarrow> unit memory_op \<Rightarrow> unit memory_op" where
  "Record_destroy_data is_simple members_loop = (if is_simple then sx_return () else members_loop)"

definition Tuple_destroy_data :: "bool \<Rightarrow> unit memory_op \<Rightarrow> unit memory_op" where
  "Tuple_destroy_data is_simple elements_loop = (if is_simple then sx_return () else elements_loop)"

fun destroy_data :: "dt \<Rightarrow> addr \<Rightarrow> unit memory_op" where
  "destroy_data (Scalar d _) p = Scalar_destroy_data d p"
| "destroy_data (Array sub _ start subsize _) p =
     Array_destroy_data (\<lambda>q. destroy_data sub q) sub start subsize p"
| "destroy_data (Record ms b a) p = Record_destroy_data (simple (Record ms b a))
     (sx_each (\<lambda>m. destroy_data (mtype m) (p + displacement m)) ms)"
| "destroy_data (Tuple es b a) p = Tuple_destroy_data (simple (Tuple es b a))
     (sx_each (\<lambda>e. destroy_data (etype e) (p + offset e)) es)"
| "destroy_data (Pointer _ _ destroy _) p = Pointer_destroy_data destroy p"

text \<open>A simple type has nothing to destroy.\<close>

lemma destroy_data_simple: "simple t \<Longrightarrow> destroy_data t p = sx_return ()"
  by (cases t) (simp_all add: Scalar_destroy_data_def Scalar_simple_def Array_destroy_data_def
      Array_simple_def Record_destroy_data_def Tuple_destroy_data_def Pointer_destroy_data_def
      Pointer_simple_def)

end
