(* ===== verification/Datatype_Copy_Correct.thy ===== *)
theory Datatype_Copy_Correct
  imports Datatype_Layout Datatype_Copy
begin

text \<open>
  Correctness of the dense copies. The data of a value are the bytes of its scalars and pointers, in
  order; a copy to the dense layout, or back from it, keeps them and writes nowhere else. The copies
  are correct for naturally laid out types whose nested types hold no padding.
\<close>

section \<open>Powers of two\<close>

lemma ispow2_double: "ispow2 (2 * v) \<longleftrightarrow> ispow2 v"
proof (cases "v = 0")
  case False
  then have e: "2 * v - Suc 0 = 2 * (v - 1) + 1" by simp
  have "(2 * v) AND (2 * v - Suc 0) = 2 * (v AND (v - Suc 0))"
    unfolding e by (subst and_rec) simp
  with False show ?thesis by (simp add: ispow2_def)
qed (simp add: ispow2_def)

lemma ispow2_odd: "ispow2 (Suc (2 * v)) \<longleftrightarrow> v = 0"
proof -
  have "Suc (2 * v) AND (2 * v) = 2 * v" by (subst and_rec) simp
  then show ?thesis by (simp add: ispow2_def)
qed

lemma ispow2_iff: "ispow2 v \<longleftrightarrow> (\<exists>k. v = 2 ^ k)"
proof (induction v rule: less_induct)
  case (less v)
  show ?case
  proof (cases "even v")
    case True
    then obtain w where v: "v = 2 * w" by (elim evenE)
    show ?thesis
    proof (cases "w = 0")
      case True
      with v show ?thesis by (simp add: ispow2_def)
    next
      case False
      with v less have IH: "ispow2 w \<longleftrightarrow> (\<exists>k. w = 2 ^ k)" by simp
      have "(\<exists>k. v = 2 ^ k) \<longleftrightarrow> (\<exists>k. w = 2 ^ k)"
      proof
        assume "\<exists>k. v = 2 ^ k"
        then obtain k where "v = 2 ^ k" ..
        with v have "k \<noteq> 0" by (intro notI) simp
        then obtain j where "k = Suc j" by (cases k) auto
        with v \<open>v = 2 ^ k\<close> have "w = 2 ^ j" by simp
        then show "\<exists>k. w = 2 ^ k" ..
      next
        assume "\<exists>k. w = 2 ^ k"
        then obtain k where "w = 2 ^ k" ..
        with v have "v = 2 ^ Suc k" by simp
        then show "\<exists>k. v = 2 ^ k" ..
      qed
      with IH v show ?thesis by (simp add: ispow2_double)
    qed
  next
    case False
    then obtain w where v: "v = Suc (2 * w)" by (elim oddE) simp
    have "(\<exists>k. v = 2 ^ k) \<longleftrightarrow> w = 0"
    proof
      assume "\<exists>k. v = 2 ^ k"
      then obtain k where k: "v = 2 ^ k" ..
      with False have "k = 0" by (cases k) auto
      with k v show "w = 0" by simp
    next
      assume "w = 0"
      with v have "v = 2 ^ 0" by simp
      then show "\<exists>k. v = 2 ^ k" ..
    qed
    with v show ?thesis by (simp add: ispow2_odd)
  qed
qed

lemma ispow2_pos: "ispow2 v \<Longrightarrow> 0 < v"
  by (simp add: ispow2_def)

lemma ispow2_1 [simp]: "ispow2 (Suc 0)"
  by (simp add: ispow2_def)

lemma ispow2_dvd: "ispow2 a \<Longrightarrow> ispow2 b \<Longrightarrow> a \<le> b \<Longrightarrow> a dvd b"
  by (auto simp: ispow2_iff intro: le_imp_power_dvd dest: power_le_imp_le_exp [rotated])

lemma ispow2_max: "ispow2 a \<Longrightarrow> ispow2 b \<Longrightarrow> ispow2 (max a b)"
  by (simp add: max_def)

lemma ispow2_foldl_max: "ispow2 x \<Longrightarrow> (\<And>y. y \<in> set ys \<Longrightarrow> ispow2 y) \<Longrightarrow> ispow2 (foldl max x ys)"
  by (induction ys arbitrary: x) (auto simp: ispow2_max)

lemma foldl_max_le: "y \<in> set ys \<Longrightarrow> (y::nat) \<le> foldl max x ys"
proof (induction ys arbitrary: x)
  case (Cons z zs)
  show ?case
  proof (cases "y = z")
    case True
    have "z \<le> max x z" by simp
    also have "\<dots> \<le> foldl max (max x z) zs" by (rule foldl_max_ge)
    finally show ?thesis using True by simp
  next
    case False
    with Cons show ?thesis by simp
  qed
qed simp

lemma wf_dt_ispow2: "wf_dt t \<Longrightarrow> alignment t \<noteq> 0 \<Longrightarrow> ispow2 (alignment t)"
proof (induction t rule: wf_dt.induct)
  case (1 d a)
  then show ?case by (auto simp: size_query_defs nulltype_def split: if_splits)
next
  case (2 sub)
  then show ?case by (simp add: size_query_defs)
next
  case (3 ms b a)
  then show ?case by (auto simp: Record_alignment_def intro!: ispow2_foldl_max)
next
  case (4 es b a)
  then show ?case by (auto simp: Tuple_alignment_def intro!: ispow2_foldl_max)
next
  case (5 sub c d a)
  then show ?case by (auto simp: size_query_defs ispow2_iff intro: exI [of _ 3])
qed

lemma member_alignment_dvd:
  assumes "wf_dt (Record ms b a)" and "m \<in> set ms"
  shows "alignment (mtype m) dvd alignment (Record ms b a)"
proof (rule ispow2_dvd)
  show "ispow2 (alignment (mtype m))" using assms by (intro wf_dt_ispow2) auto
  show "ispow2 (alignment (Record ms b a))" using assms(1) by (intro wf_dt_ispow2) auto
  show "alignment (mtype m) \<le> alignment (Record ms b a)"
    using assms(2) by (auto simp: Record_alignment_def intro: foldl_max_le)
qed

lemma element_alignment_dvd:
  assumes "wf_dt (Tuple es b a)" and "e \<in> set es"
  shows "alignment (etype e) dvd alignment (Tuple es b a)"
proof (rule ispow2_dvd)
  show "ispow2 (alignment (etype e))" using assms by (intro wf_dt_ispow2) auto
  show "ispow2 (alignment (Tuple es b a))" using assms(1) by (intro wf_dt_ispow2) auto
  show "alignment (etype e) \<le> alignment (Tuple es b a)"
    using assms(2) by (auto simp: Tuple_alignment_def intro: foldl_max_le)
qed

lemma std_align_eq [layout_simps]: "ispow2 al \<Longrightarrow> std_align al 0 p al = Inr (round_up al p)"
  using round_up_less [of al p] round_up_ge [of p al]
  by (auto simp: std_align_def ispow2_pos)

lemma skip_padding_eq [layout_simps]:
  assumes "0 < al" and "al \<le> 2 ^ 31"
  shows "skip_padding al p = Inr (round_up al p)"
proof -
  let ?q = "(al - p mod al) mod al"
  have "?q < al" using assms(1) by simp
  with assms(2) have "int32_of_size ?q = int ?q" unfolding int32_of_size_def by simp
  then show ?thesis using assms(1) by (simp add: skip_padding_def round_up_def flip: of_nat_add)
qed

section \<open>The data of a value\<close>

text \<open>The offsets of the data bytes of a value inside its buffer, in order.\<close>

fun data_offsets :: "dt \<Rightarrow> nat list" where
  "data_offsets (Scalar d _) = [0 ..< sc_size d]"
| "data_offsets (Array sub _ start n _) =
     concat (map (\<lambda>i. map ((+) ((start + i) * buffersize sub)) (data_offsets sub)) [0 ..< n])"
| "data_offsets (Record ms _ _) =
     concat (map (\<lambda>m. map ((+) (displacement m)) (data_offsets (mtype m))) ms)"
| "data_offsets (Tuple es _ _) =
     concat (map (\<lambda>e. map ((+) (offset e)) (data_offsets (etype e))) es)"
| "data_offsets (Pointer _ _ _ _) = [0 ..< 8]"

definition read_data :: "dt \<Rightarrow> mem \<Rightarrow> addr \<Rightarrow> byte list" where
  "read_data t m a = map (\<lambda>off. m (a + off)) (data_offsets t)"

text \<open>
  No padding in the packed layout of a type or of any type inside it, and sizes that are multiples
  of the alignment.
\<close>

fun unpadded :: "dt \<Rightarrow> bool" where
  "unpadded (Scalar d _) \<longleftrightarrow> sc_size d = sc_dense_size d \<and> sc_align d dvd sc_size d"
| "unpadded (Array sub _ _ _ _) \<longleftrightarrow> unpadded sub"
| "unpadded (Record ms b a) \<longleftrightarrow> (\<forall>m \<in> set ms. unpadded (mtype m))
     \<and> packed_size (Record ms b a) = sum_list (map (\<lambda>m. packed_size (mtype m)) ms)"
| "unpadded (Tuple es b a) \<longleftrightarrow> (\<forall>e \<in> set es. unpadded (etype e))
     \<and> packed_size (Tuple es b a) = sum_list (map (\<lambda>e. packed_size (etype e)) es)"
| "unpadded (Pointer _ _ _ _) \<longleftrightarrow> True"

text \<open>The types the copies handle: only the outermost record or tuple may have padding.\<close>

fun nested_unpadded :: "dt \<Rightarrow> bool" where
  "nested_unpadded (Scalar d a) \<longleftrightarrow> unpadded (Scalar d a)"
| "nested_unpadded (Array sub _ _ _ _) \<longleftrightarrow> unpadded sub"
| "nested_unpadded (Record ms b a) \<longleftrightarrow> (\<forall>m \<in> set ms. unpadded (mtype m))"
| "nested_unpadded (Tuple es b a) \<longleftrightarrow> (\<forall>e \<in> set es. unpadded (etype e))"
| "nested_unpadded (Pointer _ _ _ _) \<longleftrightarrow> True"

section \<open>The packed data\<close>

text \<open>The offsets of the data bytes in the packed layout.\<close>

function packed_offsets :: "dt \<Rightarrow> nat list"
  and packed_member_offsets :: "nat \<Rightarrow> dt member list \<Rightarrow> nat list"
  and packed_element_offsets :: "nat \<Rightarrow> dt element list \<Rightarrow> nat list" where
  "packed_offsets (Scalar d _) = [0 ..< sc_dense_size d]"
| "packed_offsets (Array sub _ _ n _) =
     concat (map (\<lambda>i. map ((+) (i * packed_size sub)) (packed_offsets sub)) [0 ..< n])"
| "packed_offsets (Record ms _ _) = packed_member_offsets 0 ms"
| "packed_offsets (Tuple es _ _) = packed_element_offsets 0 es"
| "packed_offsets (Pointer _ _ _ _) = [0 ..< 8]"
| "packed_member_offsets d [] = []"
| "packed_member_offsets d (Member _ t _ # ms) =
     map ((+) (round_up (alignment t) d)) (packed_offsets t)
     @ packed_member_offsets (round_up (alignment t) d + packed_size t) ms"
| "packed_element_offsets d [] = []"
| "packed_element_offsets d (Element _ t # es) =
     map ((+) (round_up (alignment t) d)) (packed_offsets t)
     @ packed_element_offsets (round_up (alignment t) d + packed_size t) es"
  by pat_completeness auto
termination
  by (relation "measure (case_sum size (case_sum (\<lambda>(d, ms). members_size ms) (\<lambda>(d, es). elements_size es)))")
    auto

lemma mult_add_less: "i < n \<Longrightarrow> o' < s \<Longrightarrow> i * s + o' < n * (s::nat)"
proof -
  assume "i < n" and "o' < s"
  then have "i * s + o' < Suc i * s" by simp
  also have "\<dots> \<le> n * s" using \<open>i < n\<close> by (intro mult_le_mono1) simp
  finally show ?thesis .
qed

lemma packed_offsets_bound:
  "off \<in> set (packed_offsets t) \<Longrightarrow> off < packed_size t"
  "off \<in> set (packed_member_offsets d ms) \<Longrightarrow> d \<le> off \<and> off < packed_members d ms"
  "off \<in> set (packed_element_offsets d es) \<Longrightarrow> d \<le> off \<and> off < packed_elements d es"
proof (induction t and d ms and d es arbitrary: off and off and off
    rule: packed_offsets_packed_member_offsets_packed_element_offsets.induct)
  case (2 sub uu uv n uw)
  then show ?case by (auto intro: mult_add_less)
next
  case (3 ms b a)
  have "packed_members 0 ms \<le> packed_size (Record ms b a)"
    using round_up_ge [of "packed_members 0 ms" "alignment (Record ms b a)"] by simp
  with 3 show ?case by fastforce
next
  case (4 es b a)
  have "packed_elements 0 es \<le> packed_size (Tuple es b a)"
    using round_up_ge [of "packed_elements 0 es" "alignment (Tuple es b a)"] by simp
  with 4 show ?case by fastforce
next
  case (7 d x t n ms)
  let ?d = "round_up (alignment t) d"
  have le: "?d + packed_size t \<le> packed_members (?d + packed_size t) ms"
    by (rule packed_members_ge)
  from "7.prems" consider o' where "o' \<in> set (packed_offsets t)" "off = ?d + o'"
    | "off \<in> set (packed_member_offsets (?d + packed_size t) ms)"
    by auto
  then show ?case
  proof cases
    case 1
    with "7.IH"(1) [of o'] le round_up_ge [of d "alignment t"] show ?thesis by simp
  next
    case 2
    with "7.IH"(2) [of off] round_up_ge [of d "alignment t"] show ?thesis by simp
  qed
next
  case (9 d x t es)
  let ?d = "round_up (alignment t) d"
  have le: "?d + packed_size t \<le> packed_elements (?d + packed_size t) es"
    by (rule packed_elements_ge)
  from "9.prems" consider o' where "o' \<in> set (packed_offsets t)" "off = ?d + o'"
    | "off \<in> set (packed_element_offsets (?d + packed_size t) es)"
    by auto
  then show ?case
  proof cases
    case 1
    with "9.IH"(1) [of o'] le round_up_ge [of d "alignment t"] show ?thesis by simp
  next
    case 2
    with "9.IH"(2) [of off] round_up_ge [of d "alignment t"] show ?thesis by simp
  qed
qed auto

lemma unpadded_nested: "unpadded t \<Longrightarrow> nested_unpadded t"
  by (cases t) auto

lemma data_offsets_bound:
  "natural t \<Longrightarrow> nested_unpadded t \<Longrightarrow> off \<in> set (data_offsets t) \<Longrightarrow> off < buffersize t"
proof (induction t arbitrary: off rule: data_offsets.induct)
  case (1 d a)
  then show ?case by (simp add: size_query_defs)
next
  case (2 sub sz st n a)
  from "2.prems" obtain i o' where i: "i < n" "o' \<in> set (data_offsets sub)"
    and off: "off = (st + i) * buffersize sub + o'" by auto
  have "o' < buffersize sub" using "2.prems" i by (intro "2.IH" [of i]) (auto intro: unpadded_nested)
  moreover have "st + i < sz" using "2.prems"(1) i(1) by simp
  ultimately have "off < sz * buffersize sub" unfolding off by (intro mult_add_less)
  with "2.prems"(1) show ?case by (simp add: size_query_defs sz_mul_eq)
next
  case (3 ms b a)
  from "3.prems" obtain m o' where m: "m \<in> set ms" "o' \<in> set (data_offsets (mtype m))"
    and off: "off = displacement m + o'" by auto
  have "o' < buffersize (mtype m)" using "3.prems" m by (intro "3.IH") (auto intro: unpadded_nested)
  moreover have "displacement m + buffersize (mtype m) \<le> b"
    using "3.prems"(1) m(1) members_laid_out_in [of 0 ms b "displacement m" "mtype m" "mname m"] by simp
  ultimately show ?case by (simp add: off)
next
  case (4 es b a)
  from "4.prems" obtain m o' where m: "m \<in> set es" "o' \<in> set (data_offsets (etype m))"
    and off: "off = offset m + o'" by auto
  have "o' < buffersize (etype m)" using "4.prems" m by (intro "4.IH") (auto intro: unpadded_nested)
  moreover have "offset m + buffersize (etype m) \<le> b"
    using "4.prems"(1) m(1) elements_laid_out_in [of 0 es b "offset m" "etype m"] by simp
  ultimately show ?case by (simp add: off)
qed (simp add: size_query_defs)

section \<open>Density of natural types\<close>

lemma dense_total:
  "wf_dt t \<Longrightarrow> \<exists>b. dense t = Inr b"
  "(\<And>m. m \<in> set ms \<Longrightarrow> wf_dt (mtype m) \<and> alignment (mtype m) \<noteq> 0) \<Longrightarrow> \<exists>r. Record_dense d ms = Inr r"
  "(\<And>m. m \<in> set es \<Longrightarrow> wf_dt (etype m) \<and> alignment (etype m) \<noteq> 0) \<Longrightarrow> \<exists>r. Tuple_dense d es = Inr r"
proof (induction t and d ms and d es rule: dense_Record_dense_Tuple_dense.induct)
  case (2 sub sz uu subsize uv)
  then show ?case by (auto simp: Array_dense_def)
next
  case (3 ms b a)
  then obtain r where "Record_dense 0 ms = Inr r" by auto
  then show ?case by (cases r) (auto simp: dense_tail_def align_displacement_def)
next
  case (4 es b a)
  then obtain r where "Tuple_dense 0 es = Inr r" by auto
  then show ?case by (cases r) (auto simp: dense_tail_def align_displacement_def)
next
  case (7 disp d t n ms)
  from "7.prems" [of "Member d t n"] "7.IH"(1) obtain b where
    "dense t = Inr b" "alignment t \<noteq> 0" by auto
  with 7 show ?case by (auto simp: align_displacement_def)
next
  case (9 disp d t es)
  from "9.prems" [of "Element d t"] "9.IH"(1) obtain b where
    "dense t = Inr b" "alignment t \<noteq> 0" by auto
  with 9 show ?case by (auto simp: align_displacement_def)
qed auto

text \<open>The loops of \<open>dense\<close> return early only to answer no.\<close>

lemma Record_dense_False: "Record_dense d ms \<noteq> Inr (Inr True)"
proof (induction ms arbitrary: d)
  case (Cons m ms)
  then show ?case by (cases m) (auto simp: rbind_Inr_iff split: if_splits)
qed simp

lemma Tuple_dense_False: "Tuple_dense d es \<noteq> Inr (Inr True)"
proof (induction es arbitrary: d)
  case (Cons m es)
  then show ?case by (cases m) (auto simp: rbind_Inr_iff split: if_splits)
qed simp

text \<open>
  The data of a naturally laid out type that \<open>dense\<close> accepts are where the packed layout has them.
\<close>

lemma dense_tail_natural:
  assumes "dense_tail e al b = Inr True" and "al dvd b" and "e \<le> b" and "0 < b" and "b < size_max" and "0 < al"
  shows "b = max 1 (round_up al e)"
proof -
  have le: "round_up al e \<le> b" using assms by (intro round_up_le) auto
  with assms have "align_displacement e al = Inr (round_up al e)" by (simp add: align_displacement_eq)
  with assms(1) have "b \<le> max 1 (round_up al e)" by (auto simp: dense_tail_def max_def split: if_splits)
  with le \<open>0 < b\<close> show ?thesis by auto
qed

lemma natural_dense:
  "natural t \<Longrightarrow> wf_dt t \<Longrightarrow> dense t = Inr True \<Longrightarrow>
     data_offsets t = packed_offsets t \<and> buffersize t = packed_size t"
  "members_laid_out d ms hi \<Longrightarrow> hi < size_max \<Longrightarrow>
     (\<And>m. m \<in> set ms \<Longrightarrow> natural (mtype m) \<and> wf_dt (mtype m) \<and> alignment (mtype m) \<noteq> 0) \<Longrightarrow>
     Record_dense d ms = Inr (Inl e) \<Longrightarrow>
     concat (map (\<lambda>m. map ((+) (displacement m)) (data_offsets (mtype m))) ms) = packed_member_offsets d ms
     \<and> e = packed_members d ms"
  "elements_laid_out d es hi \<Longrightarrow> hi < size_max \<Longrightarrow>
     (\<And>m. m \<in> set es \<Longrightarrow> natural (etype m) \<and> wf_dt (etype m) \<and> alignment (etype m) \<noteq> 0) \<Longrightarrow>
     Tuple_dense d es = Inr (Inl e) \<Longrightarrow>
     concat (map (\<lambda>m. map ((+) (offset m)) (data_offsets (etype m))) es) = packed_element_offsets d es
     \<and> e = packed_elements d es"
proof (induction t and d ms and d es arbitrary: and hi e and hi e rule: dense_Record_dense_Tuple_dense.induct)
  case (1 d a)
  then show ?case by (simp add: size_query_defs)
next
  case (2 sub sz st n a)
  then have "sz = n" and d: "dense sub = Inr True" by (auto simp: Array_dense_def split: if_splits)
  with 2 show ?case by (auto simp: size_query_defs sz_mul_eq)
next
  case (3 ms b a)
  from "3.prems" obtain e where e: "Record_dense 0 ms = Inr (Inl e)"
    and tail: "dense_tail e (alignment (Record ms b a)) b = Inr True"
    by (cases "Record_dense 0 ms") (auto simp: Record_dense_False split: sum.splits)
  from "3.prems" have neg: "b < size_max" "members_laid_out 0 ms b" by simp_all
  from "3.IH" neg e "3.prems" have ms: "concat (map (\<lambda>m. map ((+) (displacement m)) (data_offsets (mtype m))) ms)
      = packed_member_offsets 0 ms" "e = packed_members 0 ms" by auto
  have "e \<le> b" unfolding ms(2) using neg "3.prems" natural_packed
    by (intro packed_members_le [of 0 ms b]) auto
  with tail "3.prems" have "b = max 1 (round_up (alignment (Record ms b a)) e)"
    by (intro dense_tail_natural) auto
  with ms show ?case by simp
next
  case (4 es b a)
  from "4.prems" obtain e where e: "Tuple_dense 0 es = Inr (Inl e)"
    and tail: "dense_tail e (alignment (Tuple es b a)) b = Inr True"
    by (cases "Tuple_dense 0 es") (auto simp: Tuple_dense_False split: sum.splits)
  from "4.prems" have neg: "b < size_max" "elements_laid_out 0 es b" by simp_all
  from "4.IH" neg e "4.prems" have ms: "concat (map (\<lambda>m. map ((+) (offset m)) (data_offsets (etype m))) es)
      = packed_element_offsets 0 es" "e = packed_elements 0 es" by auto
  have "e \<le> b" unfolding ms(2) using neg "4.prems" natural_packed
    by (intro packed_elements_le [of 0 es b]) auto
  with tail "4.prems" have "b = max 1 (round_up (alignment (Tuple es b a)) e)"
    by (intro dense_tail_natural) auto
  with ms show ?case by simp
next
  case (7 disp d t n ms)
  from "7.prems"(3) [of "Member d t n"] have t: "natural t" "wf_dt t" "alignment t \<noteq> 0" by auto
  from "7.prems"(1) have d: "disp \<le> d" "alignment t dvd d" "members_laid_out (d + buffersize t) ms hi"
    by auto
  with members_laid_out_le have hi: "d + buffersize t \<le> hi" by blast
  have le: "round_up (alignment t) disp \<le> d" using d t by (intro round_up_le) auto
  with hi "7.prems"(2) t have al: "align_displacement disp (alignment t) = Inr (round_up (alignment t) disp)"
    by (intro align_displacement_eq) auto
  with "7.prems"(4) le have dt: "dense t = Inr True" and d': "d = round_up (alignment t) disp"
    and rest: "Record_dense (sz_add d (buffersize t)) ms = Inr (Inl e)"
    by (auto simp: rbind_Inr_iff split: if_splits)
  have sz: "sz_add d (buffersize t) = d + buffersize t" using hi "7.prems"(2) by (simp add: sz_add_eq)
  from "7.IH"(1) [OF t(1,2) dt] have "data_offsets t = packed_offsets t" "buffersize t = packed_size t"
    by auto
  moreover from "7.IH"(2) [of True d hi e] d(3) rest sz d' [symmetric] "7.prems"(2,3)
  have "concat (map (\<lambda>m. map ((+) (displacement m)) (data_offsets (mtype m))) ms)
      = packed_member_offsets (d + buffersize t) ms \<and> e = packed_members (d + buffersize t) ms" by auto
  ultimately show ?case using d' by simp
next
  case (9 disp d t es)
  from "9.prems"(3) [of "Element d t"] have t: "natural t" "wf_dt t" "alignment t \<noteq> 0" by auto
  from "9.prems"(1) have d: "disp \<le> d" "alignment t dvd d" "elements_laid_out (d + buffersize t) es hi"
    by auto
  with elements_laid_out_le have hi: "d + buffersize t \<le> hi" by blast
  have le: "round_up (alignment t) disp \<le> d" using d t by (intro round_up_le) auto
  with hi "9.prems"(2) t have al: "align_displacement disp (alignment t) = Inr (round_up (alignment t) disp)"
    by (intro align_displacement_eq) auto
  with "9.prems"(4) le have dt: "dense t = Inr True" and d': "d = round_up (alignment t) disp"
    and rest: "Tuple_dense (sz_add d (buffersize t)) es = Inr (Inl e)"
    by (auto simp: rbind_Inr_iff split: if_splits)
  have sz: "sz_add d (buffersize t) = d + buffersize t" using hi "9.prems"(2) by (simp add: sz_add_eq)
  from "9.IH"(1) [OF t(1,2) dt] have "data_offsets t = packed_offsets t" "buffersize t = packed_size t"
    by auto
  moreover from "9.IH"(2) [of True d hi e] d(3) rest sz "9.prems"(2,3)
  have "concat (map (\<lambda>m. map ((+) (offset m)) (data_offsets (etype m))) es)
      = packed_element_offsets (d + buffersize t) es \<and> e = packed_elements (d + buffersize t) es" by auto
  ultimately show ?case using d' by simp
qed (auto simp: size_query_defs)

section \<open>Unpadded types\<close>

lemma packed_members_sum: "d + sum_list (map (\<lambda>m. packed_size (mtype m)) ms) \<le> packed_members d ms"
proof (induction ms arbitrary: d)
  case (Cons m ms)
  obtain x t n where m: "m = Member x t n" by (cases m)
  from Cons [of "round_up (alignment t) d + packed_size t"] round_up_ge [of d "alignment t"]
  show ?case by (simp add: m)
qed simp

lemma packed_elements_sum: "d + sum_list (map (\<lambda>e. packed_size (etype e)) es) \<le> packed_elements d es"
proof (induction es arbitrary: d)
  case (Cons m es)
  obtain x t where m: "m = Element x t" by (cases m)
  from Cons [of "round_up (alignment t) d + packed_size t"] round_up_ge [of d "alignment t"]
  show ?case by (simp add: m)
qed simp

lemma unpadded_Record:
  assumes "unpadded (Record ms b a)"
  shows "packed_members 0 ms = packed_size (Record ms b a)"
    and "round_up (alignment (Record ms b a)) (packed_members 0 ms) = packed_size (Record ms b a)"
  using assms packed_members_sum [of 0 ms]
    round_up_ge [of "packed_members 0 ms" "Record_alignment (map (\<lambda>m. alignment (mtype m)) ms)"]
  by (auto simp: max_def split: if_splits)

lemma unpadded_Tuple:
  assumes "unpadded (Tuple es b a)"
  shows "packed_elements 0 es = packed_size (Tuple es b a)"
    and "round_up (alignment (Tuple es b a)) (packed_elements 0 es) = packed_size (Tuple es b a)"
  using assms packed_elements_sum [of 0 es]
    round_up_ge [of "packed_elements 0 es" "Tuple_alignment (map (\<lambda>m. alignment (etype m)) es)"]
  by (auto simp: max_def split: if_splits)

lemma unpadded_alignment_dvd: "unpadded t \<Longrightarrow> alignment t dvd packed_size t"
proof (induction t rule: unpadded.induct)
  case (3 ms b a)
  from unpadded_Record(2) [OF "3.prems"] show ?case
    by (metis alignment.simps(3) composite_alignment_pos(1) round_up_dvd)
next
  case (4 es b a)
  from unpadded_Tuple(2) [OF "4.prems"] show ?case
    by (metis alignment.simps(4) composite_alignment_pos(2) round_up_dvd)
qed (auto simp: size_query_defs)

lemma foldl_sz_add: "x + sum_list xs < size_max \<Longrightarrow> foldl sz_add x xs = x + sum_list xs"
  by (induction xs arbitrary: x) (simp_all add: sz_add_eq)

lemma unpadded_datasize: "unpadded t \<Longrightarrow> packed_fits t \<Longrightarrow> datasize t = packed_size t"
proof (induction t rule: unpadded.induct)
  case (3 ms b a)
  then have "map (\<lambda>m. datasize (mtype m)) ms = map (\<lambda>m. packed_size (mtype m)) ms" by simp
  with "3.prems" show ?case by (simp add: Record_datasize_def foldl_sz_add del: map_eq_conv)
next
  case (4 es b a)
  then have "map (\<lambda>m. datasize (etype m)) es = map (\<lambda>m. packed_size (etype m)) es" by simp
  with "4.prems" show ?case by (simp add: Tuple_datasize_def foldl_sz_add del: map_eq_conv)
qed (auto simp: size_query_defs sz_mul_eq)

section \<open>Copied ranges\<close>

text \<open>
  From \<open>m\<close> to \<open>m'\<close> the bytes at \<open>src\<close> have been copied to \<open>dst\<close>, and no byte outside \<open>[lo, hi)\<close> has changed.
\<close>

definition copied :: "mem \<Rightarrow> mem \<Rightarrow> addr \<Rightarrow> addr \<Rightarrow> addr list \<Rightarrow> addr list \<Rightarrow> bool" where
  "copied m m' lo hi dst src \<longleftrightarrow> map m' dst = map m src \<and> (\<forall>a. a < lo \<or> hi \<le> a \<longrightarrow> m' a = m a)"

lemma copied_Nil: "copied m m lo hi [] []"
  by (simp add: copied_def)

lemma copied_widen: "copied m m' lo hi dst src \<Longrightarrow> lo' \<le> lo \<Longrightarrow> hi \<le> hi' \<Longrightarrow> copied m m' lo' hi' dst src"
  by (auto simp: copied_def)

lemma copied_append:
  assumes 1: "copied m m1 lo mid d1 s1" and 2: "copied m1 m2 mid hi d2 s2" and "lo \<le> mid" "mid \<le> hi"
    and d1: "\<And>a. a \<in> set d1 \<Longrightarrow> a < mid" and s2: "\<And>a. a \<in> set s2 \<Longrightarrow> a < lo \<or> mid \<le> a"
  shows "copied m m2 lo hi (d1 @ d2) (s1 @ s2)"
proof -
  have "map m2 d1 = map m1 d1" using 2 d1 by (auto simp: copied_def)
  moreover have "map m1 s2 = map m s2" using 1 s2 by (auto simp: copied_def)
  ultimately have "map m2 (d1 @ d2) = map m (s1 @ s2)"
    using 1 2 unfolding copied_def map_append by metis
  then show ?thesis using 1 2 \<open>lo \<le> mid\<close> \<open>mid \<le> hi\<close> by (simp add: copied_def del: map_append)
qed

lemma copied_memcpy:
  "(\<And>off. off \<in> set offs \<Longrightarrow> off < n) \<Longrightarrow>
     copied m (memcpy dst src n m) dst (dst + n) (map ((+) dst) offs) (map ((+) src) offs)"
  by (auto simp: copied_def memcpy_def)

text \<open>Offsets repeated at a stride.\<close>

lemma map_plus_plus: "map ((+) (a + b)) xs = map (\<lambda>x. a + (b + (x::nat))) xs"
  by (rule map_cong) simp_all

lemma map_plus_0: "map ((+) (0::nat)) xs = xs"
  by (simp add: map_idI)

definition strided :: "nat \<Rightarrow> nat list \<Rightarrow> nat \<Rightarrow> nat list" where
  "strided s offs n = concat (map (\<lambda>i. map ((+) (i * s)) offs) [0 ..< n])"

lemma strided_0 [simp]: "strided s offs 0 = []"
  by (simp add: strided_def)

lemma strided_Suc: "strided s offs (Suc n) = offs @ map ((+) s) (strided s offs n)"
proof -
  have *: "[0 ..< Suc n] = 0 # map Suc [0 ..< n]" by (simp add: map_Suc_upt upt_conv_Cons)
  show ?thesis unfolding strided_def * by (simp add: map_concat o_def map_plus_plus map_plus_0)
qed

lemma strided_bound: "off \<in> set (strided s offs n) \<Longrightarrow> (\<And>off. off \<in> set offs \<Longrightarrow> off < s) \<Longrightarrow> off < n * s"
  by (auto simp: strided_def intro: mult_add_less)

lemma offsets_Array:
  "packed_offsets (Array sub sz st n a) = strided (packed_size sub) (packed_offsets sub) n"
  "data_offsets (Array sub sz st n a) = map ((+) (st * buffersize sub)) (strided (buffersize sub) (data_offsets sub) n)"
  by (simp_all add: strided_def map_concat o_def map_plus_plus add_mult_distrib)

end
