(* ===== verification/Datatype_To_Dense.thy ===== *)
theory Datatype_To_Dense
  imports Datatype_Copy_Correct
begin

text \<open>
  Correctness of \<open>data_to_dense_copy\<close>: the copy of a naturally laid out simple type puts the data where
  the densified type expects it, and writes nowhere else.
\<close>

section \<open>The contract of a copy\<close>

text \<open>
  Called on an aligned destination that does not overlap the source, a copy returns the end of the
  \<open>dn\<close> bytes it owns and has copied the data offsets \<open>soffs\<close> of the source to \<open>doffs\<close>.
\<close>

definition dense_copier ::
    "(addr \<Rightarrow> addr \<Rightarrow> addr memory_op) \<Rightarrow> nat \<Rightarrow> nat \<Rightarrow> nat list \<Rightarrow> nat \<Rightarrow> nat list \<Rightarrow> bool" where
  "dense_copier copy al dn doffs sn soffs \<longleftrightarrow>
     (\<forall>to from m. al dvd to \<longrightarrow> to + dn \<le> from \<or> from + sn \<le> to \<longrightarrow>
        (\<exists>m'. copy to from m = (Inr (to + dn), m')
           \<and> copied m m' to (to + dn) (map ((+) to) doffs) (map ((+) from) soffs)))"

lemma dense_copierI:
  assumes "\<And>dst src m. al dvd dst \<Longrightarrow> dst + dn \<le> src \<or> src + sn \<le> dst \<Longrightarrow>
    \<exists>m'. copy dst src m = (Inr (dst + dn), m')
       \<and> copied m m' dst (dst + dn) (map ((+) dst) doffs) (map ((+) src) soffs)"
  shows "dense_copier copy al dn doffs sn soffs"
  using assms by (simp add: dense_copier_def)

lemma dense_copierE:
  assumes "dense_copier copy al dn doffs sn soffs" and "al dvd dst" and "dst + dn \<le> src \<or> src + sn \<le> dst"
  obtains m' where "copy dst src m = (Inr (dst + dn), m')"
    and "copied m m' dst (dst + dn) (map ((+) dst) doffs) (map ((+) src) soffs)"
  using assms unfolding dense_copier_def by blast

lemma dense_copier_memcpy:
  assumes "\<And>off. off \<in> set offs \<Longrightarrow> off < n"
  shows "dense_copier (\<lambda>dst src m. (Inr (dst + n), memcpy dst src n m)) al n offs sn offs"
  using assms by (auto intro!: dense_copierI copied_memcpy)

lemma dense_copier_loop:
  assumes copy: "dense_copier copy al ps doffs bs soffs" and "ispow2 al" and "al dvd ps"
    and doffs: "\<And>off. off \<in> set doffs \<Longrightarrow> off < ps" and soffs: "\<And>off. off \<in> set soffs \<Longrightarrow> off < bs"
  shows "dense_copier (\<lambda>dst src. Array_to_dense_loop copy al bs n dst src) al
           (n * ps) (strided ps doffs n) (n * bs) (strided bs soffs n)"
proof (rule dense_copierI)
  fix dst src m
  assume "al dvd dst" and "dst + n * ps \<le> src \<or> src + n * bs \<le> dst"
  then show "\<exists>m'. Array_to_dense_loop copy al bs n dst src m = (Inr (dst + n * ps), m')
      \<and> copied m m' dst (dst + n * ps) (map ((+) dst) (strided ps doffs n)) (map ((+) src) (strided bs soffs n))"
  proof (induction n arbitrary: dst src m)
    case 0
    then show ?case by (simp add: copied_Nil)
  next
    case (Suc n)
    from Suc.prems obtain m1 where
      m1: "copy dst src m = (Inr (dst + ps), m1)"
        "copied m m1 dst (dst + ps) (map ((+) dst) doffs) (map ((+) src) soffs)"
      by (elim dense_copierE [OF copy, of dst src m]) auto
    from Suc.IH [of "dst + ps" "src + bs" m1] Suc.prems \<open>al dvd ps\<close> obtain m2 where
      m2: "Array_to_dense_loop copy al bs n (dst + ps) (src + bs) m1 = (Inr (dst + ps + n * ps), m2)"
        "copied m1 m2 (dst + ps) (dst + ps + n * ps) (map ((+) (dst + ps)) (strided ps doffs n))
           (map ((+) (src + bs)) (strided bs soffs n))"
      by auto
    have "copied m m2 dst (dst + ps + n * ps)
        (map ((+) dst) doffs @ map ((+) (dst + ps)) (strided ps doffs n))
        (map ((+) src) soffs @ map ((+) (src + bs)) (strided bs soffs n))"
      using Suc.prems(2) doffs strided_bound [OF _ soffs, where n = n]
      by (intro copied_append [OF m1(2) m2(2)]) fastforce+
    moreover have "Array_to_dense_loop copy al bs (Suc n) dst src m = (Inr (dst + ps + n * ps), m2)"
      using m1(1) m2(1) Suc.prems(1) \<open>ispow2 al\<close> by (simp add: std_align_eq)
    ultimately show ?case by (auto simp: strided_Suc o_def map_plus_plus add.assoc)
  qed
qed

section \<open>Records and tuples\<close>

text \<open>The whole copy of a record, from the behaviour of its loop over the members.\<close>

lemma Record_to_dense_step:
  assumes nat: "natural (Record ms b a)" and wf: "wf_dt (Record ms b a)" and "simple (Record ms b a)"
    and loop: "\<exists>m'. Record_to_dense_members ms dst src m = (Inr (dst + packed_members 0 ms), m')
      \<and> copied m m' dst (dst + packed_members 0 ms) (map ((+) dst) (packed_member_offsets 0 ms))
           (map ((+) src) (data_offsets (Record ms b a)))"
  obtains p m' where "data_to_dense_copy (Record ms b a) dst src m = (Inr p, m')"
    and "p = dst + packed_size (Record ms b a) \<or> p = dst + packed_members 0 ms"
    and "copied m m' dst (dst + packed_size (Record ms b a)) (map ((+) dst) (packed_offsets (Record ms b a)))
           (map ((+) src) (data_offsets (Record ms b a)))"
proof -
  let ?t = "Record ms b a"
  from dense_total(1) [OF wf] obtain d where d: "dense ?t = Inr d" by blast
  show thesis
  proof (cases d)
    case True
    with d natural_dense(1) [OF nat wf] have eq: "data_offsets ?t = packed_offsets ?t" "b = packed_size ?t"
      by (auto simp: size_query_defs)
    have "copied m (memcpy dst src (packed_size ?t) m) dst (dst + packed_size ?t)
        (map ((+) dst) (packed_offsets ?t)) (map ((+) src) (packed_offsets ?t))"
      by (rule copied_memcpy) (rule packed_offsets_bound)
    with eq d True \<open>simple ?t\<close> show thesis
      by (intro that [of "dst + packed_size ?t" "memcpy dst src (packed_size ?t) m"])
        (simp_all add: Record_data_to_dense_copy_def simple_and_dense_def
           del: simple.simps dense.simps packed_size.simps packed_offsets.simps data_offsets.simps)
  next
    case False
    from loop obtain m' where m': "Record_to_dense_members ms dst src m = (Inr (dst + packed_members 0 ms), m')"
      "copied m m' dst (dst + packed_members 0 ms) (map ((+) dst) (packed_offsets ?t))
         (map ((+) src) (data_offsets ?t))" by auto
    have "packed_members 0 ms \<le> packed_size ?t"
      using round_up_ge [of "packed_members 0 ms" "alignment ?t"] by simp
    with m' d False show thesis
      by (intro that [of "dst + packed_members 0 ms" m'])
        (auto simp: Record_data_to_dense_copy_def simple_and_dense_def elim!: copied_widen
           simp del: simple.simps dense.simps packed_size.simps packed_offsets.simps data_offsets.simps)
  qed
qed

lemma Tuple_to_dense_step:
  assumes nat: "natural (Tuple es b a)" and wf: "wf_dt (Tuple es b a)" and "simple (Tuple es b a)"
    and loop: "\<exists>m'. Tuple_to_dense_elements es dst src m = (Inr (dst + packed_elements 0 es), m')
      \<and> copied m m' dst (dst + packed_elements 0 es) (map ((+) dst) (packed_element_offsets 0 es))
           (map ((+) src) (data_offsets (Tuple es b a)))"
  obtains p m' where "data_to_dense_copy (Tuple es b a) dst src m = (Inr p, m')"
    and "p = dst + packed_size (Tuple es b a) \<or> p = dst + packed_elements 0 es"
    and "copied m m' dst (dst + packed_size (Tuple es b a)) (map ((+) dst) (packed_offsets (Tuple es b a)))
           (map ((+) src) (data_offsets (Tuple es b a)))"
proof -
  let ?t = "Tuple es b a"
  from dense_total(1) [OF wf] obtain d where d: "dense ?t = Inr d" by blast
  show thesis
  proof (cases d)
    case True
    with d natural_dense(1) [OF nat wf] have eq: "data_offsets ?t = packed_offsets ?t" "b = packed_size ?t"
      by (auto simp: size_query_defs)
    have "copied m (memcpy dst src (packed_size ?t) m) dst (dst + packed_size ?t)
        (map ((+) dst) (packed_offsets ?t)) (map ((+) src) (packed_offsets ?t))"
      by (rule copied_memcpy) (rule packed_offsets_bound)
    with eq d True \<open>simple ?t\<close> show thesis
      by (intro that [of "dst + packed_size ?t" "memcpy dst src (packed_size ?t) m"])
        (simp_all add: Tuple_data_to_dense_copy_def simple_and_dense_def
           del: simple.simps dense.simps packed_size.simps packed_offsets.simps data_offsets.simps)
  next
    case False
    from loop obtain m' where m': "Tuple_to_dense_elements es dst src m = (Inr (dst + packed_elements 0 es), m')"
      "copied m m' dst (dst + packed_elements 0 es) (map ((+) dst) (packed_offsets ?t))
         (map ((+) src) (data_offsets ?t))" by auto
    have "packed_elements 0 es \<le> packed_size ?t"
      using round_up_ge [of "packed_elements 0 es" "alignment ?t"] by simp
    with m' d False show thesis
      by (intro that [of "dst + packed_elements 0 es" m'])
        (auto simp: Tuple_data_to_dense_copy_def simple_and_dense_def elim!: copied_widen
           simp del: simple.simps dense.simps packed_size.simps packed_offsets.simps data_offsets.simps)
  qed
qed

section \<open>Unpadded types\<close>

text \<open>What the copy of a nested type relies on.\<close>

definition copyable :: "dt \<Rightarrow> bool" where
  "copyable t \<longleftrightarrow> natural t \<and> wf_dt t \<and> simple t \<and> unpadded t \<and> alignment t \<noteq> 0"

lemma copyable_offset: "copyable t \<Longrightarrow> off \<in> set (data_offsets t) \<Longrightarrow> off < buffersize t"
  by (auto simp: copyable_def intro: data_offsets_bound unpadded_nested)

lemma Array_to_dense_step:
  assumes sub: "dense_copier (data_to_dense_copy sub) (alignment sub) (packed_size sub) (packed_offsets sub)
      (buffersize sub) (data_offsets sub)"
    and t: "copyable sub" "natural (Array sub sz st n a)"
  shows "dense_copier (data_to_dense_copy (Array sub sz st n a)) (alignment sub) (n * packed_size sub)
      (packed_offsets (Array sub sz st n a)) (buffersize (Array sub sz st n a)) (data_offsets (Array sub sz st n a))"
proof (rule dense_copierI)
  fix dst src m
  let ?bs = "buffersize sub"
  let ?src = "src + st * ?bs"
  assume dst: "alignment sub dvd dst"
    and "dst + n * packed_size sub \<le> src \<or> src + buffersize (Array sub sz st n a) \<le> dst"
  with t(2) have disj: "dst + n * packed_size sub \<le> src \<or> src + sz * ?bs \<le> dst" and sz: "sz * ?bs < size_max"
    by (auto simp: size_query_defs sz_mul_eq)
  have "(st + n) * ?bs \<le> sz * ?bs" using t(2) by (intro mult_le_mono1) simp
  with disj sz have disj': "dst + n * packed_size sub \<le> ?src \<or> ?src + n * ?bs \<le> dst"
    and st: "st * ?bs < size_max" by (auto simp: algebra_simps)
  from t(1) have sub': "natural sub" "wf_dt sub" "unpadded sub" "simple sub" "alignment sub \<noteq> 0"
    by (auto simp: copyable_def)
  from dense_total(1) [OF sub'(2)] obtain d where d: "dense sub = Inr d" by blast
  have "\<exists>m'. data_to_dense_copy (Array sub sz st n a) dst src m = (Inr (dst + n * packed_size sub), m')
      \<and> copied m m' dst (dst + n * packed_size sub) (map ((+) dst) (strided (packed_size sub) (packed_offsets sub) n))
           (map ((+) ?src) (strided ?bs (data_offsets sub) n))"
  proof (cases d)
    case True
    with d natural_dense(1) [OF sub'(1,2)] have eq: "data_offsets sub = packed_offsets sub" "?bs = packed_size sub"
      by auto
    have "n * packed_size sub < size_max" "packed_fits sub"
      using sz \<open>(st + n) * ?bs \<le> sz * ?bs\<close> natural_packed [OF sub'(1,2)] eq by (auto simp: algebra_simps)
    then have "Array_datasize n (datasize sub) = n * packed_size sub"
      by (simp add: Array_datasize_def unpadded_datasize [OF sub'(3)] sz_mul_eq)
    with eq d True st sub' show ?thesis
      using copied_memcpy [of "strided (packed_size sub) (packed_offsets sub) n" "n * packed_size sub" m dst ?src]
      by (simp add: Array_data_to_dense_copy_def simple_and_dense_def sz_mul_eq Let_def strided_bound packed_offsets_bound)
  next
    case False
    have "dense_copier (\<lambda>dst src. Array_to_dense_loop (data_to_dense_copy sub) (alignment sub) ?bs n dst src)
        (alignment sub) (n * packed_size sub) (strided (packed_size sub) (packed_offsets sub) n)
        (n * ?bs) (strided ?bs (data_offsets sub) n)"
      using sub' t(1) by (intro dense_copier_loop [OF sub])
        (auto intro: wf_dt_ispow2 unpadded_alignment_dvd packed_offsets_bound copyable_offset)
    from this dst disj' obtain m' where
      "Array_to_dense_loop (data_to_dense_copy sub) (alignment sub) ?bs n dst ?src m = (Inr (dst + n * packed_size sub), m')"
      "copied m m' dst (dst + n * packed_size sub) (map ((+) dst) (strided (packed_size sub) (packed_offsets sub) n))
           (map ((+) ?src) (strided ?bs (data_offsets sub) n))" by (rule dense_copierE)
    moreover from d False st have "data_to_dense_copy (Array sub sz st n a) dst src m
        = Array_to_dense_loop (data_to_dense_copy sub) (alignment sub) ?bs n dst ?src m"
      by (simp add: Array_data_to_dense_copy_def simple_and_dense_def sz_mul_eq)
    ultimately show ?thesis by metis
  qed
  then show "\<exists>m'. data_to_dense_copy (Array sub sz st n a) dst src m = (Inr (dst + n * packed_size sub), m')
      \<and> copied m m' dst (dst + n * packed_size sub) (map ((+) dst) (packed_offsets (Array sub sz st n a)))
           (map ((+) src) (data_offsets (Array sub sz st n a)))"
    by (simp add: offsets_Array map_plus_plus o_def del: packed_offsets.simps data_offsets.simps)
qed

text \<open>One round of the loop of the record, from the copy of the field and the rest of the loop.\<close>

definition Record_loop_copies :: "dt member list \<Rightarrow> nat \<Rightarrow> nat \<Rightarrow> bool" where
  "Record_loop_copies ms d b \<longleftrightarrow> (\<forall>dst src m.
     (\<forall>f \<in> set ms. alignment (mtype f) dvd dst) \<longrightarrow>
     dst + packed_members d ms \<le> src \<or> src + b \<le> dst + d \<longrightarrow>
     (\<exists>m'. Record_to_dense_members ms (dst + d) src m = (Inr (dst + packed_members d ms), m')
        \<and> copied m m' (dst + d) (dst + packed_members d ms) (map ((+) dst) (packed_member_offsets d ms))
             (map ((+) src) (concat (map (\<lambda>m. map ((+) (displacement m)) (data_offsets (mtype m))) ms)))))"

lemma Record_loop_step:
  fixes t x d
  defines "e \<equiv> round_up (alignment t) d"
  assumes t: "dense_copier (data_to_dense_copy t) (alignment t) (packed_size t) (packed_offsets t)
      (buffersize t) (data_offsets t)" and al: "ispow2 (alignment t)" and x: "x + buffersize t \<le> b"
    and rest: "Record_loop_copies ms (e + packed_size t) b"
    and offs: "\<And>off. off \<in> set (concat (map (\<lambda>m. map ((+) (displacement m)) (data_offsets (mtype m))) ms)) \<Longrightarrow> off < b"
  shows "Record_loop_copies (Member x t n # ms) d b"
  unfolding Record_loop_copies_def
proof (intro allI impI)
  fix dst src m
  assume als: "\<forall>f \<in> set (Member x t n # ms). alignment (mtype f) dvd dst"
    and disj: "dst + packed_members d (Member x t n # ms) \<le> src \<or> src + b \<le> dst + d"
  have e: "d \<le> e" "e + packed_size t \<le> packed_members (e + packed_size t) ms"
    "alignment t dvd dst + e" "round_up (alignment t) (dst + d) = dst + e"
    "packed_members d (Member x t n # ms) = packed_members (e + packed_size t) ms"
    using als ispow2_pos [OF al]
    by (simp_all add: e_def round_up_ge packed_members_ge round_up_dvd round_up_add)
  from disj e x have "dst + e + packed_size t \<le> src + x \<or> src + x + buffersize t \<le> dst + e" by linarith
  with t e(3) obtain m1 where
    m1: "data_to_dense_copy t (dst + e) (src + x) m = (Inr (dst + e + packed_size t), m1)"
      "copied m m1 (dst + e) (dst + e + packed_size t) (map ((+) (dst + e)) (packed_offsets t))
         (map ((+) (src + x)) (data_offsets t))" by (rule dense_copierE)
  from disj e have "dst + packed_members (e + packed_size t) ms \<le> src \<or> src + b \<le> dst + (e + packed_size t)"
    by linarith
  with rest als obtain m2 where
    m2: "Record_to_dense_members ms (dst + (e + packed_size t)) src m1
          = (Inr (dst + packed_members (e + packed_size t) ms), m2)"
      "copied m1 m2 (dst + (e + packed_size t)) (dst + packed_members (e + packed_size t) ms)
         (map ((+) dst) (packed_member_offsets (e + packed_size t) ms)) (map ((+) src) (concat (map (\<lambda>m. map ((+) (displacement m)) (data_offsets (mtype m))) ms)))"
    unfolding Record_loop_copies_def by (meson list.set_intros(2))
  have "copied m m1 (dst + d) (dst + (e + packed_size t)) (map ((+) (dst + e)) (packed_offsets t))
         (map ((+) (src + x)) (data_offsets t))"
    using m1(2) by (rule copied_widen) (use e(1) in auto)
  from this m2(2) have "copied m m2 (dst + d) (dst + packed_members (e + packed_size t) ms)
      (map ((+) (dst + e)) (packed_offsets t) @ map ((+) dst) (packed_member_offsets (e + packed_size t) ms))
      (map ((+) (src + x)) (data_offsets t) @ map ((+) src) (concat (map (\<lambda>m. map ((+) (displacement m)) (data_offsets (mtype m))) ms)))"
  proof (rule copied_append)
    fix a
    show "a < dst + (e + packed_size t)" if "a \<in> set (map ((+) (dst + e)) (packed_offsets t))"
      using that packed_offsets_bound(1) by auto
    show "a < dst + d \<or> dst + (e + packed_size t) \<le> a" if "a \<in> set (map ((+) src) (concat (map (\<lambda>m. map ((+) (displacement m)) (data_offsets (mtype m))) ms)))"
    proof -
      from that obtain off where "off \<in> set (concat (map (\<lambda>m. map ((+) (displacement m)) (data_offsets (mtype m))) ms))" "a = src + off" by auto
      with offs [of off] disj e(2,5) show ?thesis by linarith
    qed
  qed (use e in auto)
  moreover have "Record_to_dense_members (Member x t n # ms) (dst + d) src m
      = (Inr (dst + packed_members (e + packed_size t) ms), m2)"
    using m1(1) m2(1) al by (simp add: std_align_eq e(4) add.assoc)
  ultimately show "\<exists>m'. Record_to_dense_members (Member x t n # ms) (dst + d) src m
        = (Inr (dst + packed_members d (Member x t n # ms)), m')
      \<and> copied m m' (dst + d) (dst + packed_members d (Member x t n # ms))
          (map ((+) dst) (packed_member_offsets d (Member x t n # ms)))
          (map ((+) src) (concat (map (\<lambda>m. map ((+) (displacement m)) (data_offsets (mtype m))) (Member x t n # ms))))"
    by (simp add: map_plus_plus o_def flip: e_def)
qed

text \<open>One round of the loop of the tuple, from the copy of the field and the rest of the loop.\<close>

definition Tuple_loop_copies :: "dt element list \<Rightarrow> nat \<Rightarrow> nat \<Rightarrow> bool" where
  "Tuple_loop_copies es d b \<longleftrightarrow> (\<forall>dst src m.
     (\<forall>f \<in> set es. alignment (etype f) dvd dst) \<longrightarrow>
     dst + packed_elements d es \<le> src \<or> src + b \<le> dst + d \<longrightarrow>
     (\<exists>m'. Tuple_to_dense_elements es (dst + d) src m = (Inr (dst + packed_elements d es), m')
        \<and> copied m m' (dst + d) (dst + packed_elements d es) (map ((+) dst) (packed_element_offsets d es))
             (map ((+) src) (concat (map (\<lambda>m. map ((+) (offset m)) (data_offsets (etype m))) es)))))"

lemma Tuple_loop_step:
  fixes t x d
  defines "e \<equiv> round_up (alignment t) d"
  assumes t: "dense_copier (data_to_dense_copy t) (alignment t) (packed_size t) (packed_offsets t)
      (buffersize t) (data_offsets t)" and al: "ispow2 (alignment t)" and x: "x + buffersize t \<le> b"
    and rest: "Tuple_loop_copies es (e + packed_size t) b"
    and offs: "\<And>off. off \<in> set (concat (map (\<lambda>m. map ((+) (offset m)) (data_offsets (etype m))) es)) \<Longrightarrow> off < b"
  shows "Tuple_loop_copies (Element x t # es) d b"
  unfolding Tuple_loop_copies_def
proof (intro allI impI)
  fix dst src m
  assume als: "\<forall>f \<in> set (Element x t # es). alignment (etype f) dvd dst"
    and disj: "dst + packed_elements d (Element x t # es) \<le> src \<or> src + b \<le> dst + d"
  have e: "d \<le> e" "e + packed_size t \<le> packed_elements (e + packed_size t) es"
    "alignment t dvd dst + e" "round_up (alignment t) (dst + d) = dst + e"
    "packed_elements d (Element x t # es) = packed_elements (e + packed_size t) es"
    using als ispow2_pos [OF al]
    by (simp_all add: e_def round_up_ge packed_elements_ge round_up_dvd round_up_add)
  from disj e x have "dst + e + packed_size t \<le> src + x \<or> src + x + buffersize t \<le> dst + e" by linarith
  with t e(3) obtain m1 where
    m1: "data_to_dense_copy t (dst + e) (src + x) m = (Inr (dst + e + packed_size t), m1)"
      "copied m m1 (dst + e) (dst + e + packed_size t) (map ((+) (dst + e)) (packed_offsets t))
         (map ((+) (src + x)) (data_offsets t))" by (rule dense_copierE)
  from disj e have "dst + packed_elements (e + packed_size t) es \<le> src \<or> src + b \<le> dst + (e + packed_size t)"
    by linarith
  with rest als obtain m2 where
    m2: "Tuple_to_dense_elements es (dst + (e + packed_size t)) src m1
          = (Inr (dst + packed_elements (e + packed_size t) es), m2)"
      "copied m1 m2 (dst + (e + packed_size t)) (dst + packed_elements (e + packed_size t) es)
         (map ((+) dst) (packed_element_offsets (e + packed_size t) es)) (map ((+) src) (concat (map (\<lambda>m. map ((+) (offset m)) (data_offsets (etype m))) es)))"
    unfolding Tuple_loop_copies_def by (meson list.set_intros(2))
  have "copied m m1 (dst + d) (dst + (e + packed_size t)) (map ((+) (dst + e)) (packed_offsets t))
         (map ((+) (src + x)) (data_offsets t))"
    using m1(2) by (rule copied_widen) (use e(1) in auto)
  from this m2(2) have "copied m m2 (dst + d) (dst + packed_elements (e + packed_size t) es)
      (map ((+) (dst + e)) (packed_offsets t) @ map ((+) dst) (packed_element_offsets (e + packed_size t) es))
      (map ((+) (src + x)) (data_offsets t) @ map ((+) src) (concat (map (\<lambda>m. map ((+) (offset m)) (data_offsets (etype m))) es)))"
  proof (rule copied_append)
    fix a
    show "a < dst + (e + packed_size t)" if "a \<in> set (map ((+) (dst + e)) (packed_offsets t))"
      using that packed_offsets_bound(1) by auto
    show "a < dst + d \<or> dst + (e + packed_size t) \<le> a" if "a \<in> set (map ((+) src) (concat (map (\<lambda>m. map ((+) (offset m)) (data_offsets (etype m))) es)))"
    proof -
      from that obtain off where "off \<in> set (concat (map (\<lambda>m. map ((+) (offset m)) (data_offsets (etype m))) es))" "a = src + off" by auto
      with offs [of off] disj e(2,5) show ?thesis by linarith
    qed
  qed (use e in auto)
  moreover have "Tuple_to_dense_elements (Element x t # es) (dst + d) src m
      = (Inr (dst + packed_elements (e + packed_size t) es), m2)"
    using m1(1) m2(1) al by (simp add: std_align_eq e(4) add.assoc)
  ultimately show "\<exists>m'. Tuple_to_dense_elements (Element x t # es) (dst + d) src m
        = (Inr (dst + packed_elements d (Element x t # es)), m')
      \<and> copied m m' (dst + d) (dst + packed_elements d (Element x t # es))
          (map ((+) dst) (packed_element_offsets d (Element x t # es)))
          (map ((+) src) (concat (map (\<lambda>m. map ((+) (offset m)) (data_offsets (etype m))) (Element x t # es))))"
    by (simp add: map_plus_plus o_def flip: e_def)
qed

lemma copyable_members_offset:
  assumes "\<And>f. f \<in> set ms \<Longrightarrow> copyable (mtype f) \<and> displacement f + buffersize (mtype f) \<le> b"
    and "off \<in> set (concat (map (\<lambda>m. map ((+) (displacement m)) (data_offsets (mtype m))) ms))"
  shows "off < b"
proof -
  from assms(2) obtain f o' where f: "f \<in> set ms" "o' \<in> set (data_offsets (mtype f))" "off = displacement f + o'"
    by auto
  with assms(1) [OF f(1)] copyable_offset [of "mtype f" o'] show ?thesis by simp
qed

lemma natural_members_in: "natural (Record ms b a) \<Longrightarrow> f \<in> set ms \<Longrightarrow> displacement f + buffersize (mtype f) \<le> b"
  using members_laid_out_in [of 0 ms b "displacement f" "mtype f" "mname f"] by simp

lemma Record_to_dense_copies:
  assumes t: "natural (Record ms b a)" "wf_dt (Record ms b a)" "simple (Record ms b a)"
    and loop: "Record_loop_copies ms 0 b" and dst: "alignment (Record ms b a) dvd dst"
    and disj: "dst + packed_members 0 ms \<le> src \<or> src + b \<le> dst"
  obtains p m' where "data_to_dense_copy (Record ms b a) dst src m = (Inr p, m')"
    and "p = dst + packed_size (Record ms b a) \<or> p = dst + packed_members 0 ms"
    and "copied m m' dst (dst + packed_size (Record ms b a)) (map ((+) dst) (packed_offsets (Record ms b a)))
           (map ((+) src) (data_offsets (Record ms b a)))"
proof -
  have "\<forall>f \<in> set ms. alignment (mtype f) dvd dst"
    using member_alignment_dvd [OF t(2)] dst by (blast intro: dvd_trans)
  with loop [unfolded Record_loop_copies_def, rule_format, of dst src m] disj
  have "\<exists>m'. Record_to_dense_members ms dst src m = (Inr (dst + packed_members 0 ms), m')
      \<and> copied m m' dst (dst + packed_members 0 ms) (map ((+) dst) (packed_member_offsets 0 ms))
           (map ((+) src) (data_offsets (Record ms b a)))"
    by (simp only: add_0_right data_offsets.simps)
  from Record_to_dense_step [OF t this] that show thesis by blast
qed

lemma copyable_elements_offset:
  assumes "\<And>f. f \<in> set es \<Longrightarrow> copyable (etype f) \<and> offset f + buffersize (etype f) \<le> b"
    and "off \<in> set (concat (map (\<lambda>m. map ((+) (offset m)) (data_offsets (etype m))) es))"
  shows "off < b"
proof -
  from assms(2) obtain f o' where f: "f \<in> set es" "o' \<in> set (data_offsets (etype f))" "off = offset f + o'"
    by auto
  with assms(1) [OF f(1)] copyable_offset [of "etype f" o'] show ?thesis by simp
qed

lemma natural_elements_in: "natural (Tuple es b a) \<Longrightarrow> f \<in> set es \<Longrightarrow> offset f + buffersize (etype f) \<le> b"
  using elements_laid_out_in [of 0 es b "offset f" "etype f"] by simp

lemma Tuple_to_dense_copies:
  assumes t: "natural (Tuple es b a)" "wf_dt (Tuple es b a)" "simple (Tuple es b a)"
    and loop: "Tuple_loop_copies es 0 b" and dst: "alignment (Tuple es b a) dvd dst"
    and disj: "dst + packed_elements 0 es \<le> src \<or> src + b \<le> dst"
  obtains p m' where "data_to_dense_copy (Tuple es b a) dst src m = (Inr p, m')"
    and "p = dst + packed_size (Tuple es b a) \<or> p = dst + packed_elements 0 es"
    and "copied m m' dst (dst + packed_size (Tuple es b a)) (map ((+) dst) (packed_offsets (Tuple es b a)))
           (map ((+) src) (data_offsets (Tuple es b a)))"
proof -
  have "\<forall>f \<in> set es. alignment (etype f) dvd dst"
    using element_alignment_dvd [OF t(2)] dst by (blast intro: dvd_trans)
  with loop [unfolded Tuple_loop_copies_def, rule_format, of dst src m] disj
  have "\<exists>m'. Tuple_to_dense_elements es dst src m = (Inr (dst + packed_elements 0 es), m')
      \<and> copied m m' dst (dst + packed_elements 0 es) (map ((+) dst) (packed_element_offsets 0 es))
           (map ((+) src) (data_offsets (Tuple es b a)))"
    by (simp only: add_0_right data_offsets.simps)
  from Tuple_to_dense_step [OF t this] that show thesis by blast
qed

text \<open>The copy of an unpadded type fulfils the contract.\<close>

lemma data_to_dense_copyable:
  "copyable t \<Longrightarrow> dense_copier (data_to_dense_copy t) (alignment t) (packed_size t) (packed_offsets t)
     (buffersize t) (data_offsets t)"
  "(\<And>f. f \<in> set ms \<Longrightarrow> copyable (mtype f) \<and> displacement f + buffersize (mtype f) \<le> b) \<Longrightarrow>
     Record_loop_copies ms d b"
  "(\<And>f. f \<in> set es \<Longrightarrow> copyable (etype f) \<and> offset f + buffersize (etype f) \<le> b) \<Longrightarrow>
     Tuple_loop_copies es d b"
proof (induction t and d ms and d es arbitrary: and b and b
    rule: packed_size_packed_members_packed_elements.induct)
  case (1 d a)
  then show ?case
    using dense_copier_memcpy [of "[0 ..< sc_size d]" "sc_size d" "sc_align d" "sc_size d"]
    by (simp add: copyable_def Scalar_data_to_dense_copy_def Scalar_simple_def size_query_defs)
next
  case (2 sub sz st n a)
  then have t: "copyable sub" "natural (Array sub sz st n a)"
    by (auto simp: copyable_def size_query_defs Array_simple_def)
  from Array_to_dense_step [OF "2.IH" t] t show ?case by (simp add: Array_alignment_def del: data_to_dense_copy.simps)
next
  case (3 ms b a)
  then have t: "natural (Record ms b a)" "wf_dt (Record ms b a)" "simple (Record ms b a)" "unpadded (Record ms b a)"
    by (simp_all only: copyable_def)
  have "copyable (mtype f) \<and> displacement f + buffersize (mtype f) \<le> b" if "f \<in> set ms" for f
    using t that natural_members_in [OF t(1) that] by (auto simp: copyable_def Record_simple_def list_all_iff)
  with "3.IH" have loop: "Record_loop_copies ms 0 b" by blast
  show ?case
  proof (rule dense_copierI, goal_cases)
    case (1 dst src m)
    then have "dst + packed_members 0 ms \<le> src \<or> src + b \<le> dst"
      by (simp only: unpadded_Record(1) [OF t(4)] buffersize.simps)
    from Record_to_dense_copies [OF t(1-3) loop 1(1) this] unpadded_Record(1) [OF t(4)] show ?case by metis
  qed
next
  case (4 es b a)
  then have t: "natural (Tuple es b a)" "wf_dt (Tuple es b a)" "simple (Tuple es b a)" "unpadded (Tuple es b a)"
    by (simp_all only: copyable_def)
  have "copyable (etype f) \<and> offset f + buffersize (etype f) \<le> b" if "f \<in> set es" for f
    using t that natural_elements_in [OF t(1) that] by (auto simp: copyable_def Tuple_simple_def list_all_iff)
  with "4.IH" have loop: "Tuple_loop_copies es 0 b" by blast
  show ?case
  proof (rule dense_copierI, goal_cases)
    case (1 dst src m)
    then have "dst + packed_elements 0 es \<le> src \<or> src + b \<le> dst"
      by (simp only: unpadded_Tuple(1) [OF t(4)] buffersize.simps)
    from Tuple_to_dense_copies [OF t(1-3) loop 1(1) this] unpadded_Tuple(1) [OF t(4)] show ?case by metis
  qed
next
  case (5 sub c d a)
  then show ?case
    using dense_copier_memcpy [of "[0 ..< 8]" 8 8 8]
    by (simp add: copyable_def Pointer_data_to_dense_copy_def Pointer_simple_def size_query_defs)
next
  case (7 d x t n ms)
  from "7.prems" [of "Member x t n"] have t: "copyable t" "x + buffersize t \<le> b" by auto
  then have "ispow2 (alignment t)" by (auto simp: copyable_def intro: wf_dt_ispow2)
  then show ?case using "7.IH" "7.prems" t
    by (intro Record_loop_step copyable_members_offset [of ms b]) auto
next
  case (9 d x t es)
  from "9.prems" [of "Element x t"] have t: "copyable t" "x + buffersize t \<le> b" by auto
  then have "ispow2 (alignment t)" by (auto simp: copyable_def intro: wf_dt_ispow2)
  then show ?case using "9.IH" "9.prems" t
    by (intro Tuple_loop_step copyable_elements_offset [of es b]) auto
qed (simp_all add: Record_loop_copies_def Tuple_loop_copies_def copied_Nil)

section \<open>The copy and the densified type\<close>

text \<open>A densified type has its data at the packed offsets.\<close>

lemma densify_offsets:
  "wf_dt t \<Longrightarrow> packed_fits t \<Longrightarrow> densify t = Inr t' \<Longrightarrow> data_offsets t' = packed_offsets t"
  "(\<And>m. m \<in> set ms \<Longrightarrow> wf_dt (mtype m) \<and> alignment (mtype m) \<noteq> 0 \<and> packed_fits (mtype m)) \<Longrightarrow>
     packed_members d ms < size_max \<Longrightarrow> Record_densify d ms = Inr (ms', e) \<Longrightarrow>
     concat (map (\<lambda>m. map ((+) (displacement m)) (data_offsets (mtype m))) ms') = packed_member_offsets d ms"
  "(\<And>m. m \<in> set es \<Longrightarrow> wf_dt (etype m) \<and> alignment (etype m) \<noteq> 0 \<and> packed_fits (etype m)) \<Longrightarrow>
     packed_elements d es < size_max \<Longrightarrow> Tuple_densify d es = Inr (es', e) \<Longrightarrow>
     concat (map (\<lambda>m. map ((+) (offset m)) (data_offsets (etype m))) es') = packed_element_offsets d es"
proof (induction t and d ms and d es arbitrary: t' and ms' e and es' e
    rule: densify_Record_densify_Tuple_densify.induct)
  case (1 d atts)
  then show ?case by (auto simp: size_query_defs Let_def nulltype_def split: if_splits)
next
  case (2 sub sz st n a)
  then obtain sub' where sub': "densify sub = Inr sub'" "t' = Array_make sub' n a"
    by (auto simp: Array_densify_def rbind_Inr_iff)
  moreover from this "2.prems" densify_packed(1) [of sub] have "buffersize sub' = packed_size sub" by auto
  ultimately show ?case using 2 by (simp add: Array_make_def)
next
  case (3 ms b a)
  have "packed_members 0 ms < size_max"
    using "3.prems"(2) round_up_ge [of "packed_members 0 ms" "alignment (Record ms b a)"] by simp
  with 3 show ?case by (fastforce simp: rbind_Inr_iff)
next
  case (4 es b a)
  have "packed_elements 0 es < size_max"
    using "4.prems"(2) round_up_ge [of "packed_elements 0 es" "alignment (Tuple es b a)"] by simp
  with 4 show ?case by (fastforce simp: rbind_Inr_iff)
next
  case (5 sub copy destroy atts)
  then show ?case by (auto simp: Pointer_densify_def rbind_Inr_iff)
next
  case (7 disp d t n ms)
  let ?d = "round_up (alignment t) disp"
  from "7.prems"(1) [of "Member d t n"] have t: "wf_dt t" "alignment t \<noteq> 0" "packed_fits t" by auto
  have lt: "?d + packed_size t < size_max"
    using "7.prems"(2) packed_members_ge [of "?d + packed_size t" ms] by simp
  obtain t' where t': "densify t = Inr t'" "buffersize t' = packed_size t" using densify_packed(1) t by blast
  then have al: "align_displacement disp (alignment t') = Inr ?d"
    using densify_stable(1) [OF t'(1)] t lt by (simp add: align_displacement_eq)
  with "7.prems"(3) t' lt obtain fs e where fs: "Record_densify (?d + packed_size t) ms = Inr (fs, e)"
    "ms' = Member ?d t' n # fs" by (auto simp: rbind_Inr_iff sz_add_eq)
  have "concat (map (\<lambda>m. map ((+) (displacement m)) (data_offsets (mtype m))) fs)
      = packed_member_offsets (?d + packed_size t) ms"
    using "7.IH"(2) [of ?d t' fs e] "7.prems"(1,2) fs(1) t' lt by (simp add: sz_add_eq)
  with "7.IH"(1) [OF t(1,3) t'(1)] show ?case by (simp add: fs(2))
next
  case (9 disp d t es)
  let ?d = "round_up (alignment t) disp"
  from "9.prems"(1) [of "Element d t"] have t: "wf_dt t" "alignment t \<noteq> 0" "packed_fits t" by auto
  have lt: "?d + packed_size t < size_max"
    using "9.prems"(2) packed_elements_ge [of "?d + packed_size t" es] by simp
  obtain t' where t': "densify t = Inr t'" "buffersize t' = packed_size t" using densify_packed(1) t by blast
  then have al: "align_displacement disp (alignment t') = Inr ?d"
    using densify_stable(1) [OF t'(1)] t lt by (simp add: align_displacement_eq)
  with "9.prems"(3) t' lt obtain fs e where fs: "Tuple_densify (?d + packed_size t) es = Inr (fs, e)"
    "es' = Element ?d t' # fs" by (auto simp: rbind_Inr_iff sz_add_eq)
  have "concat (map (\<lambda>m. map ((+) (offset m)) (data_offsets (etype m))) fs)
      = packed_element_offsets (?d + packed_size t) es"
    using "9.IH"(2) [of ?d t' fs e] "9.prems"(1,2) fs(1) t' lt by (simp add: sz_add_eq)
  with "9.IH"(1) [OF t(1,3) t'(1)] show ?case by (simp add: fs(2))
qed auto

text \<open>
  The copy of a type of which only the outermost record or tuple may have padding: it succeeds, the
  data are at the packed offsets, and nothing outside the packed buffer is written.
\<close>

lemma data_to_dense_nested:
  assumes "natural t" "wf_dt t" "simple t" "nested_unpadded t" "alignment t \<noteq> 0"
    and "alignment t dvd dst" and "dst + packed_size t \<le> src \<or> src + buffersize t \<le> dst"
  shows "\<exists>p m'. data_to_dense_copy t dst src m = (Inr p, m')
    \<and> copied m m' dst (dst + packed_size t) (map ((+) dst) (packed_offsets t)) (map ((+) src) (data_offsets t))"
proof -
  have unpadded: ?thesis if "unpadded t"
    using data_to_dense_copyable(1) [of t] assms that unfolding dense_copier_def copyable_def by blast
  show ?thesis
  proof (cases t)
    case (Record ms b a)
    have "copyable (mtype f) \<and> displacement f + buffersize (mtype f) \<le> b" if "f \<in> set ms" for f
      using assms that natural_members_in [of ms b a f]
      by (auto simp: Record copyable_def Record_simple_def list_all_iff)
    then have loop: "Record_loop_copies ms 0 b" by (rule data_to_dense_copyable(2))
    have "packed_members 0 ms \<le> packed_size t"
      using round_up_ge [of "packed_members 0 ms" "alignment t"] by (simp add: Record)
    with assms(7) have "dst + packed_members 0 ms \<le> src \<or> src + b \<le> dst" by (auto simp: Record)
    with assms loop show ?thesis unfolding Record by (metis Record_to_dense_copies)
  next
    case (Tuple es b a)
    have "copyable (etype f) \<and> offset f + buffersize (etype f) \<le> b" if "f \<in> set es" for f
      using assms that natural_elements_in [of es b a f]
      by (auto simp: Tuple copyable_def Tuple_simple_def list_all_iff)
    then have loop: "Tuple_loop_copies es 0 b" by (rule data_to_dense_copyable(3))
    have "packed_elements 0 es \<le> packed_size t"
      using round_up_ge [of "packed_elements 0 es" "alignment t"] by (simp add: Tuple)
    with assms(7) have "dst + packed_elements 0 es \<le> src \<or> src + b \<le> dst" by (auto simp: Tuple)
    with assms loop show ?thesis unfolding Tuple by (metis Tuple_to_dense_copies)
  qed (use unpadded assms(4) in auto)
qed

end
