(* ===== verification/Datatype_From_Dense.thy ===== *)
theory Datatype_From_Dense
  imports Datatype_To_Dense
begin

text \<open>
  Correctness of \<open>data_from_dense_copy\<close>: the copy of a packed buffer into a value of a naturally laid
  out simple type fills the data of the value and writes nowhere else; together with the other
  direction, the round trip of a value through its dense copy.
\<close>

section \<open>The contract of a copy\<close>

text \<open>
  Between aligned buffers that do not overlap, a copy returns the end of the destination buffer of
  \<open>dn\<close> bytes and has copied the offsets \<open>soffs\<close> of the source to \<open>doffs\<close>.
\<close>

definition sparse_copier ::
    "(addr \<Rightarrow> addr \<Rightarrow> addr memory_op) \<Rightarrow> nat \<Rightarrow> nat \<Rightarrow> nat list \<Rightarrow> nat \<Rightarrow> nat list \<Rightarrow> bool" where
  "sparse_copier copy al dn doffs sn soffs \<longleftrightarrow>
     (\<forall>to from m. al dvd to \<longrightarrow> al dvd from \<longrightarrow> to + dn \<le> from \<or> from + sn \<le> to \<longrightarrow>
        (\<exists>m'. copy to from m = (Inr (to + dn), m')
           \<and> copied m m' to (to + dn) (map ((+) to) doffs) (map ((+) from) soffs)))"

lemma sparse_copierI:
  assumes "\<And>dst src m. al dvd dst \<Longrightarrow> al dvd src \<Longrightarrow> dst + dn \<le> src \<or> src + sn \<le> dst \<Longrightarrow>
    \<exists>m'. copy dst src m = (Inr (dst + dn), m')
       \<and> copied m m' dst (dst + dn) (map ((+) dst) doffs) (map ((+) src) soffs)"
  shows "sparse_copier copy al dn doffs sn soffs"
  using assms by (simp add: sparse_copier_def)

lemma sparse_copierE:
  assumes "sparse_copier copy al dn doffs sn soffs" and "al dvd dst" and "al dvd src"
    and "dst + dn \<le> src \<or> src + sn \<le> dst"
  obtains m' where "copy dst src m = (Inr (dst + dn), m')"
    and "copied m m' dst (dst + dn) (map ((+) dst) doffs) (map ((+) src) soffs)"
  using assms unfolding sparse_copier_def by blast

lemma sparse_copier_dense: "dense_copier copy al dn doffs sn soffs \<Longrightarrow> sparse_copier copy al dn doffs sn soffs"
  by (simp add: dense_copier_def sparse_copier_def)

lemma sparse_copier_loop:
  assumes copy: "sparse_copier copy al bs doffs ps soffs" and al: "ispow2 al" "al \<le> 2 ^ 31"
    and dvd: "al dvd ps" "al dvd bs"
    and doffs: "\<And>off. off \<in> set doffs \<Longrightarrow> off < bs" and soffs: "\<And>off. off \<in> set soffs \<Longrightarrow> off < ps"
    and "al dvd dst" and "al dvd src" and "dst + n * bs \<le> src \<or> src + n * ps \<le> dst"
  shows "\<exists>m'. Array_from_dense_loop copy al ps n dst src m = (Inr (), m')
      \<and> copied m m' dst (dst + n * bs) (map ((+) dst) (strided bs doffs n)) (map ((+) src) (strided ps soffs n))"
  using assms(8-)
proof (induction n arbitrary: dst src m)
  case 0
  then show ?case by (simp add: copied_Nil)
next
  case (Suc n)
  from Suc.prems obtain m1 where
    m1: "copy dst src m = (Inr (dst + bs), m1)"
      "copied m m1 dst (dst + bs) (map ((+) dst) doffs) (map ((+) src) soffs)"
    by (elim sparse_copierE [OF copy, of dst src m]) auto
  from Suc.IH [of "dst + bs" "src + ps" m1] Suc.prems dvd obtain m2 where
    m2: "Array_from_dense_loop copy al ps n (dst + bs) (src + ps) m1 = (Inr (), m2)"
      "copied m1 m2 (dst + bs) (dst + bs + n * bs) (map ((+) (dst + bs)) (strided bs doffs n))
         (map ((+) (src + ps)) (strided ps soffs n))"
    by auto
  have "copied m m2 dst (dst + bs + n * bs)
      (map ((+) dst) doffs @ map ((+) (dst + bs)) (strided bs doffs n))
      (map ((+) src) soffs @ map ((+) (src + ps)) (strided ps soffs n))"
    using Suc.prems(3) doffs strided_bound [OF _ soffs, where n = n]
    by (intro copied_append [OF m1(2) m2(2)]) fastforce+
  moreover have "Array_from_dense_loop copy al ps (Suc n) dst src m = (Inr (), m2)"
    using m1(1) m2(1) Suc.prems(1,2) al by (simp add: std_align_eq skip_padding_eq ispow2_pos)
  ultimately show ?case by (auto simp: strided_Suc o_def map_plus_plus add.assoc)
qed

section \<open>The types a copy from the dense layout handles\<close>

text \<open>Array lengths in the range of the loop counter, alignments in the range of the padding variable.\<close>

fun int_sized :: "dt \<Rightarrow> bool" where
  "int_sized (Scalar d _) \<longleftrightarrow> sc_align d \<le> 2 ^ 31"
| "int_sized (Array sub _ _ n _) \<longleftrightarrow> int_sized sub \<and> n \<le> int_max"
| "int_sized (Record ms _ _) \<longleftrightarrow> (\<forall>m \<in> set ms. int_sized (mtype m))"
| "int_sized (Tuple es _ _) \<longleftrightarrow> (\<forall>e \<in> set es. int_sized (etype e))"
| "int_sized (Pointer _ _ _ _) \<longleftrightarrow> True"

lemma foldl_max_bound: "x \<le> k \<Longrightarrow> (\<And>y. y \<in> set ys \<Longrightarrow> y \<le> k) \<Longrightarrow> foldl max x ys \<le> (k::nat)"
  by (induction ys arbitrary: x) auto

lemma int_sized_alignment: "int_sized t \<Longrightarrow> alignment t \<le> 2 ^ 31"
  by (induction t rule: int_sized.induct)
    (auto simp: size_query_defs Record_alignment_def Tuple_alignment_def intro!: foldl_max_bound)

lemma unpadded_alignment_dvd_buffersize: "unpadded t \<Longrightarrow> natural t \<Longrightarrow> alignment t dvd buffersize t"
  by (induction t rule: unpadded.induct) (auto simp: size_query_defs sz_mul_eq)

section \<open>Records and tuples\<close>

text \<open>One round of the loop over the fields, from the copy of the field and the rest of the loop.\<close>

definition Record_from_loop_copies :: "dt member list \<Rightarrow> nat \<Rightarrow> nat \<Rightarrow> nat \<Rightarrow> bool" where
  "Record_from_loop_copies ms lo b d \<longleftrightarrow> (\<forall>dst src m.
     (\<forall>f \<in> set ms. alignment (mtype f) dvd dst \<and> alignment (mtype f) dvd src) \<longrightarrow>
     dst + b \<le> src + d \<or> src + packed_members d ms \<le> dst + lo \<longrightarrow>
     (\<exists>m'. Record_from_dense_members ms dst (src + d) m = (Inr (), m')
        \<and> copied m m' (dst + lo) (dst + b) (map ((+) dst) (concat (map (\<lambda>m. map ((+) (displacement m)) (data_offsets (mtype m))) ms)))
             (map ((+) src) (packed_member_offsets d ms))))"

lemma Record_from_loop_step:
  fixes t x d
  defines "e \<equiv> round_up (alignment t) d"
  assumes copy: "sparse_copier (data_from_dense_copy t) (alignment t) (buffersize t) (data_offsets t)
      (packed_size t) (packed_offsets t)" and t: "copyable t" "int_sized t"
    and x: "lo \<le> x" "alignment t dvd x" "x + buffersize t \<le> b"
    and rest: "Record_from_loop_copies ms (x + buffersize t) b (e + packed_size t)"
  shows "Record_from_loop_copies (Member x t n # ms) lo b d"
  unfolding Record_from_loop_copies_def
proof (intro allI impI)
  fix dst src m
  assume als: "\<forall>f \<in> set (Member x t n # ms). alignment (mtype f) dvd dst \<and> alignment (mtype f) dvd src"
    and disj: "dst + b \<le> src + d \<or> src + packed_members d (Member x t n # ms) \<le> dst + lo"
  from t have al: "0 < alignment t" "alignment t \<le> 2 ^ 31" and sz: "datasize t = packed_size t"
    using int_sized_alignment natural_packed by (auto simp: copyable_def unpadded_datasize)
  have e: "d \<le> e" "e + packed_size t \<le> packed_members (e + packed_size t) ms"
    "alignment t dvd src + e" "round_up (alignment t) (src + d) = src + e" "alignment t dvd dst + x"
    "packed_members d (Member x t n # ms) = packed_members (e + packed_size t) ms"
    using als al(1) x(2)
    by (simp_all add: e_def round_up_ge packed_members_ge round_up_dvd round_up_add)
  from disj e x have "dst + x + buffersize t \<le> src + e \<or> src + e + packed_size t \<le> dst + x" by linarith
  with copy e(5,3) obtain m1 where
    m1: "data_from_dense_copy t (dst + x) (src + e) m = (Inr (dst + x + buffersize t), m1)"
      "copied m m1 (dst + x) (dst + x + buffersize t) (map ((+) (dst + x)) (data_offsets t))
         (map ((+) (src + e)) (packed_offsets t))" by (rule sparse_copierE)
  from disj e x have "dst + b \<le> src + (e + packed_size t)
      \<or> src + packed_members (e + packed_size t) ms \<le> dst + (x + buffersize t)" by linarith
  with rest als obtain m2 where
    m2: "Record_from_dense_members ms dst (src + (e + packed_size t)) m1 = (Inr (), m2)"
      "copied m1 m2 (dst + (x + buffersize t)) (dst + b) (map ((+) dst) (concat (map (\<lambda>m. map ((+) (displacement m)) (data_offsets (mtype m))) ms)))
         (map ((+) src) (packed_member_offsets (e + packed_size t) ms))"
    unfolding Record_from_loop_copies_def by (meson list.set_intros(2))
  have "copied m m1 (dst + lo) (dst + (x + buffersize t)) (map ((+) (dst + x)) (data_offsets t))
         (map ((+) (src + e)) (packed_offsets t))"
    using m1(2) by (rule copied_widen) (use x in auto)
  from this m2(2) have "copied m m2 (dst + lo) (dst + b)
      (map ((+) (dst + x)) (data_offsets t) @ map ((+) dst) (concat (map (\<lambda>m. map ((+) (displacement m)) (data_offsets (mtype m))) ms)))
      (map ((+) (src + e)) (packed_offsets t) @ map ((+) src) (packed_member_offsets (e + packed_size t) ms))"
  proof (rule copied_append)
    fix a
    show "a < dst + (x + buffersize t)" if "a \<in> set (map ((+) (dst + x)) (data_offsets t))"
      using that copyable_offset [OF t(1)] by auto
    show "a < dst + lo \<or> dst + (x + buffersize t) \<le> a"
      if "a \<in> set (map ((+) src) (packed_member_offsets (e + packed_size t) ms))"
    proof -
      from that obtain off where "off \<in> set (packed_member_offsets (e + packed_size t) ms)" "a = src + off" by auto
      with packed_offsets_bound(2) [of off "e + packed_size t" ms] disj e(1,2,6) x
      show ?thesis by linarith
    qed
  qed (use x in auto)
  moreover have "Record_from_dense_members (Member x t n # ms) dst (src + d) m = (Inr (), m2)"
    using m1(1) m2(1) al sz by (simp add: skip_padding_eq e(4) add.assoc)
  ultimately show "\<exists>m'. Record_from_dense_members (Member x t n # ms) dst (src + d) m = (Inr (), m')
      \<and> copied m m' (dst + lo) (dst + b)
          (map ((+) dst) (concat (map (\<lambda>m. map ((+) (displacement m)) (data_offsets (mtype m))) (Member x t n # ms))))
          (map ((+) src) (packed_member_offsets d (Member x t n # ms)))"
    by (simp add: map_plus_plus o_def flip: e_def)
qed

definition Tuple_from_loop_copies :: "dt element list \<Rightarrow> nat \<Rightarrow> nat \<Rightarrow> nat \<Rightarrow> bool" where
  "Tuple_from_loop_copies es lo b d \<longleftrightarrow> (\<forall>dst src m.
     (\<forall>f \<in> set es. alignment (etype f) dvd dst \<and> alignment (etype f) dvd src) \<longrightarrow>
     dst + b \<le> src + d \<or> src + packed_elements d es \<le> dst + lo \<longrightarrow>
     (\<exists>m'. Tuple_from_dense_elements es dst (src + d) m = (Inr (), m')
        \<and> copied m m' (dst + lo) (dst + b) (map ((+) dst) (concat (map (\<lambda>m. map ((+) (offset m)) (data_offsets (etype m))) es)))
             (map ((+) src) (packed_element_offsets d es))))"

lemma Tuple_from_loop_step:
  fixes t x d
  defines "e \<equiv> round_up (alignment t) d"
  assumes copy: "sparse_copier (data_from_dense_copy t) (alignment t) (buffersize t) (data_offsets t)
      (packed_size t) (packed_offsets t)" and t: "copyable t" "int_sized t"
    and x: "lo \<le> x" "alignment t dvd x" "x + buffersize t \<le> b"
    and rest: "Tuple_from_loop_copies es (x + buffersize t) b (e + packed_size t)"
  shows "Tuple_from_loop_copies (Element x t # es) lo b d"
  unfolding Tuple_from_loop_copies_def
proof (intro allI impI)
  fix dst src m
  assume als: "\<forall>f \<in> set (Element x t # es). alignment (etype f) dvd dst \<and> alignment (etype f) dvd src"
    and disj: "dst + b \<le> src + d \<or> src + packed_elements d (Element x t # es) \<le> dst + lo"
  from t have al: "0 < alignment t" "alignment t \<le> 2 ^ 31" and sz: "datasize t = packed_size t"
    using int_sized_alignment natural_packed by (auto simp: copyable_def unpadded_datasize)
  have e: "d \<le> e" "e + packed_size t \<le> packed_elements (e + packed_size t) es"
    "alignment t dvd src + e" "round_up (alignment t) (src + d) = src + e" "alignment t dvd dst + x"
    "packed_elements d (Element x t # es) = packed_elements (e + packed_size t) es"
    using als al(1) x(2)
    by (simp_all add: e_def round_up_ge packed_elements_ge round_up_dvd round_up_add)
  from disj e x have "dst + x + buffersize t \<le> src + e \<or> src + e + packed_size t \<le> dst + x" by linarith
  with copy e(5,3) obtain m1 where
    m1: "data_from_dense_copy t (dst + x) (src + e) m = (Inr (dst + x + buffersize t), m1)"
      "copied m m1 (dst + x) (dst + x + buffersize t) (map ((+) (dst + x)) (data_offsets t))
         (map ((+) (src + e)) (packed_offsets t))" by (rule sparse_copierE)
  from disj e x have "dst + b \<le> src + (e + packed_size t)
      \<or> src + packed_elements (e + packed_size t) es \<le> dst + (x + buffersize t)" by linarith
  with rest als obtain m2 where
    m2: "Tuple_from_dense_elements es dst (src + (e + packed_size t)) m1 = (Inr (), m2)"
      "copied m1 m2 (dst + (x + buffersize t)) (dst + b) (map ((+) dst) (concat (map (\<lambda>m. map ((+) (offset m)) (data_offsets (etype m))) es)))
         (map ((+) src) (packed_element_offsets (e + packed_size t) es))"
    unfolding Tuple_from_loop_copies_def by (meson list.set_intros(2))
  have "copied m m1 (dst + lo) (dst + (x + buffersize t)) (map ((+) (dst + x)) (data_offsets t))
         (map ((+) (src + e)) (packed_offsets t))"
    using m1(2) by (rule copied_widen) (use x in auto)
  from this m2(2) have "copied m m2 (dst + lo) (dst + b)
      (map ((+) (dst + x)) (data_offsets t) @ map ((+) dst) (concat (map (\<lambda>m. map ((+) (offset m)) (data_offsets (etype m))) es)))
      (map ((+) (src + e)) (packed_offsets t) @ map ((+) src) (packed_element_offsets (e + packed_size t) es))"
  proof (rule copied_append)
    fix a
    show "a < dst + (x + buffersize t)" if "a \<in> set (map ((+) (dst + x)) (data_offsets t))"
      using that copyable_offset [OF t(1)] by auto
    show "a < dst + lo \<or> dst + (x + buffersize t) \<le> a"
      if "a \<in> set (map ((+) src) (packed_element_offsets (e + packed_size t) es))"
    proof -
      from that obtain off where "off \<in> set (packed_element_offsets (e + packed_size t) es)" "a = src + off" by auto
      with packed_offsets_bound(3) [of off "e + packed_size t" es] disj e(1,2,6) x
      show ?thesis by linarith
    qed
  qed (use x in auto)
  moreover have "Tuple_from_dense_elements (Element x t # es) dst (src + d) m = (Inr (), m2)"
    using m1(1) m2(1) al sz by (simp add: skip_padding_eq e(4) add.assoc)
  ultimately show "\<exists>m'. Tuple_from_dense_elements (Element x t # es) dst (src + d) m = (Inr (), m')
      \<and> copied m m' (dst + lo) (dst + b)
          (map ((+) dst) (concat (map (\<lambda>m. map ((+) (offset m)) (data_offsets (etype m))) (Element x t # es))))
          (map ((+) src) (packed_element_offsets d (Element x t # es)))"
    by (simp add: map_plus_plus o_def flip: e_def)
qed

lemma Record_from_dense_copies:
  assumes t: "natural (Record ms b a)" "wf_dt (Record ms b a)" "simple (Record ms b a)"
    and loop: "Record_from_loop_copies ms 0 b 0"
  shows "sparse_copier (data_from_dense_copy (Record ms b a)) (alignment (Record ms b a)) b
      (data_offsets (Record ms b a)) (packed_size (Record ms b a)) (packed_offsets (Record ms b a))"
proof (rule sparse_copierI)
  fix dst src m
  let ?t = "Record ms b a"
  assume dst: "alignment ?t dvd dst" and src: "alignment ?t dvd src" and disj: "dst + b \<le> src \<or> src + packed_size ?t \<le> dst"
  from dense_total(1) [OF t(2)] obtain d where d: "dense ?t = Inr d" by blast
  show "\<exists>m'. data_from_dense_copy ?t dst src m = (Inr (dst + b), m')
      \<and> copied m m' dst (dst + b) (map ((+) dst) (data_offsets ?t)) (map ((+) src) (packed_offsets ?t))"
  proof (cases d)
    case True
    with d natural_dense(1) [OF t(1,2)] have eq: "data_offsets ?t = packed_offsets ?t" "b = packed_size ?t"
      by (auto simp: size_query_defs)
    have "data_from_dense_copy ?t dst src m = (Inr (dst + b), memcpy dst src b m)"
      using d True t(3) by (simp add: Record_data_from_dense_copy_def simple_and_dense_def del: simple.simps dense.simps)
    moreover have "copied m (memcpy dst src b m) dst (dst + b) (map ((+) dst) (packed_offsets ?t)) (map ((+) src) (packed_offsets ?t))"
    proof (rule copied_memcpy)
      show "off < b" if "off \<in> set (packed_offsets ?t)" for off
        using packed_offsets_bound(1) [OF that] eq(2) by linarith
    qed
    ultimately show ?thesis unfolding eq(1) by blast
  next
    case False
    have "packed_members 0 ms \<le> packed_size ?t"
      using round_up_ge [of "packed_members 0 ms" "alignment ?t"] by simp
    with disj have "dst + b \<le> src + 0 \<or> src + packed_members 0 ms \<le> dst + 0" by linarith
    moreover have "\<forall>f \<in> set ms. alignment (mtype f) dvd dst \<and> alignment (mtype f) dvd src"
      using member_alignment_dvd [OF t(2)] dst src by (blast intro: dvd_trans)
    ultimately obtain m' where m': "Record_from_dense_members ms dst src m = (Inr (), m')"
      "copied m m' dst (dst + b) (map ((+) dst) (data_offsets ?t)) (map ((+) src) (packed_offsets ?t))"
      using loop [unfolded Record_from_loop_copies_def, rule_format, of dst src m] by auto
    have "data_from_dense_copy ?t dst src m = (Inr (dst + b), m')"
      using d False m'(1) by (simp add: Record_data_from_dense_copy_def simple_and_dense_def del: simple.simps dense.simps)
    with m'(2) show ?thesis by blast
  qed
qed

lemma natural_members_fields:
  assumes "natural (Record ms b a)" "wf_dt (Record ms b a)" "simple (Record ms b a)" "int_sized (Record ms b a)"
    and "\<forall>f \<in> set ms. unpadded (mtype f)" and "f \<in> set ms"
  shows "copyable (mtype f) \<and> int_sized (mtype f)"
  using assms by (auto simp: copyable_def Record_simple_def list_all_iff)

lemma Tuple_from_dense_copies:
  assumes t: "natural (Tuple es b a)" "wf_dt (Tuple es b a)" "simple (Tuple es b a)"
    and loop: "Tuple_from_loop_copies es 0 b 0"
  shows "sparse_copier (data_from_dense_copy (Tuple es b a)) (alignment (Tuple es b a)) b
      (data_offsets (Tuple es b a)) (packed_size (Tuple es b a)) (packed_offsets (Tuple es b a))"
proof (rule sparse_copierI)
  fix dst src m
  let ?t = "Tuple es b a"
  assume dst: "alignment ?t dvd dst" and src: "alignment ?t dvd src" and disj: "dst + b \<le> src \<or> src + packed_size ?t \<le> dst"
  from dense_total(1) [OF t(2)] obtain d where d: "dense ?t = Inr d" by blast
  show "\<exists>m'. data_from_dense_copy ?t dst src m = (Inr (dst + b), m')
      \<and> copied m m' dst (dst + b) (map ((+) dst) (data_offsets ?t)) (map ((+) src) (packed_offsets ?t))"
  proof (cases d)
    case True
    with d natural_dense(1) [OF t(1,2)] have eq: "data_offsets ?t = packed_offsets ?t" "b = packed_size ?t"
      by (auto simp: size_query_defs)
    have "data_from_dense_copy ?t dst src m = (Inr (dst + b), memcpy dst src b m)"
      using d True t(3) by (simp add: Tuple_data_from_dense_copy_def simple_and_dense_def del: simple.simps dense.simps)
    moreover have "copied m (memcpy dst src b m) dst (dst + b) (map ((+) dst) (packed_offsets ?t)) (map ((+) src) (packed_offsets ?t))"
    proof (rule copied_memcpy)
      show "off < b" if "off \<in> set (packed_offsets ?t)" for off
        using packed_offsets_bound(1) [OF that] eq(2) by linarith
    qed
    ultimately show ?thesis unfolding eq(1) by blast
  next
    case False
    have "packed_elements 0 es \<le> packed_size ?t"
      using round_up_ge [of "packed_elements 0 es" "alignment ?t"] by simp
    with disj have "dst + b \<le> src + 0 \<or> src + packed_elements 0 es \<le> dst + 0" by linarith
    moreover have "\<forall>f \<in> set es. alignment (etype f) dvd dst \<and> alignment (etype f) dvd src"
      using element_alignment_dvd [OF t(2)] dst src by (blast intro: dvd_trans)
    ultimately obtain m' where m': "Tuple_from_dense_elements es dst src m = (Inr (), m')"
      "copied m m' dst (dst + b) (map ((+) dst) (data_offsets ?t)) (map ((+) src) (packed_offsets ?t))"
      using loop [unfolded Tuple_from_loop_copies_def, rule_format, of dst src m] by auto
    have "data_from_dense_copy ?t dst src m = (Inr (dst + b), m')"
      using d False m'(1) by (simp add: Tuple_data_from_dense_copy_def simple_and_dense_def del: simple.simps dense.simps)
    with m'(2) show ?thesis by blast
  qed
qed

lemma natural_elements_fields:
  assumes "natural (Tuple es b a)" "wf_dt (Tuple es b a)" "simple (Tuple es b a)" "int_sized (Tuple es b a)"
    and "\<forall>f \<in> set es. unpadded (etype f)" and "f \<in> set es"
  shows "copyable (etype f) \<and> int_sized (etype f)"
  using assms by (auto simp: copyable_def Tuple_simple_def list_all_iff)

section \<open>Arrays\<close>

lemma Array_from_dense_copies:
  assumes sub: "sparse_copier (data_from_dense_copy sub) (alignment sub) (buffersize sub) (data_offsets sub)
      (packed_size sub) (packed_offsets sub)"
    and t: "copyable sub" "int_sized sub" "n \<le> int_max" "natural (Array sub sz st n a)"
  shows "sparse_copier (data_from_dense_copy (Array sub sz st n a)) (alignment sub) (buffersize (Array sub sz st n a))
      (data_offsets (Array sub sz st n a)) (n * packed_size sub) (packed_offsets (Array sub sz st n a))"
proof (rule sparse_copierI)
  fix dst src m
  let ?bs = "buffersize sub"
  let ?dst = "dst + st * ?bs"
  let ?stop = "dst + buffersize (Array sub sz st n a)"
  assume dst: "alignment sub dvd dst" and src: "alignment sub dvd src"
    and disj0: "?stop \<le> src \<or> src + n * packed_size sub \<le> dst"
  from t(4) have sz: "buffersize (Array sub sz st n a) = sz * ?bs" "sz * ?bs < size_max"
    by (auto simp: size_query_defs sz_mul_eq)
  have le: "(st + n) * ?bs \<le> sz * ?bs" using t(4) by (intro mult_le_mono1) simp
  with disj0 sz have disj: "?dst + n * ?bs \<le> src \<or> src + n * packed_size sub \<le> ?dst"
    and st: "st * ?bs < size_max" and fin: "?dst + n * ?bs \<le> ?stop" by (auto simp: algebra_simps)
  from t(1) have sub': "natural sub" "wf_dt sub" "unpadded sub" "simple sub" "alignment sub \<noteq> 0"
    by (auto simp: copyable_def)
  have fits: "packed_fits sub" using natural_packed [OF sub'(1,2)] by simp
  have sz_sub: "datasize sub = packed_size sub" using unpadded_datasize [OF sub'(3) fits] .
  from dense_total(1) [OF sub'(2)] obtain d where d: "dense sub = Inr d" by blast
  have "\<exists>m'. data_from_dense_copy (Array sub sz st n a) dst src m = (Inr ?stop, m')
      \<and> copied m m' ?dst (?dst + n * ?bs) (map ((+) ?dst) (strided ?bs (data_offsets sub) n))
           (map ((+) src) (strided (packed_size sub) (packed_offsets sub) n))"
  proof (cases d)
    case True
    with d natural_dense(1) [OF sub'(1,2)] have eq: "data_offsets sub = packed_offsets sub" "?bs = packed_size sub"
      by auto
    have "n * packed_size sub < size_max" using sz(2) le eq by (auto simp: algebra_simps)
    then have "Array_datasize n (datasize sub) = n * packed_size sub"
      by (simp add: Array_datasize_def sz_sub sz_mul_eq)
    with eq d True st sub' show ?thesis
      using copied_memcpy [of "strided (packed_size sub) (packed_offsets sub) n" "n * packed_size sub" m ?dst src]
      by (simp add: Array_data_from_dense_copy_def simple_and_dense_def sz_mul_eq Let_def strided_bound packed_offsets_bound)
  next
    case False
    have dvd: "alignment sub dvd ?bs" using unpadded_alignment_dvd_buffersize [OF sub'(3,1)] .
    then have "alignment sub dvd ?dst" using dst by simp
    then obtain m' where m': "Array_from_dense_loop (data_from_dense_copy sub) (alignment sub) (packed_size sub) n ?dst src m = (Inr (), m')"
      "copied m m' ?dst (?dst + n * ?bs) (map ((+) ?dst) (strided ?bs (data_offsets sub) n))
           (map ((+) src) (strided (packed_size sub) (packed_offsets sub) n))"
      using sparse_copier_loop [OF sub wf_dt_ispow2 [OF sub'(2,5)] int_sized_alignment [OF t(2)]
          unpadded_alignment_dvd [OF sub'(3)] dvd copyable_offset [OF t(1)] packed_offsets_bound(1) _ src disj] by blast
    have "data_from_dense_copy (Array sub sz st n a) dst src m = (Inr ?stop, m')"
      using d False st t(3) m'(1) by (simp add: Array_data_from_dense_copy_def simple_and_dense_def sz_mul_eq sz_sub)
    with m'(2) show ?thesis by blast
  qed
  then obtain m' where m': "data_from_dense_copy (Array sub sz st n a) dst src m = (Inr ?stop, m')"
    "copied m m' ?dst (?dst + n * ?bs) (map ((+) ?dst) (strided ?bs (data_offsets sub) n))
           (map ((+) src) (strided (packed_size sub) (packed_offsets sub) n))" by blast
  have "copied m m' dst ?stop (map ((+) ?dst) (strided ?bs (data_offsets sub) n))
           (map ((+) src) (strided (packed_size sub) (packed_offsets sub) n))"
    using m'(2) by (rule copied_widen) (use fin in auto)
  with m'(1) show "\<exists>m'. data_from_dense_copy (Array sub sz st n a) dst src m = (Inr ?stop, m')
      \<and> copied m m' dst ?stop (map ((+) dst) (data_offsets (Array sub sz st n a)))
           (map ((+) src) (packed_offsets (Array sub sz st n a)))"
    by (simp add: offsets_Array map_plus_plus o_def del: packed_offsets.simps data_offsets.simps data_from_dense_copy.simps)
qed

section \<open>All types\<close>

lemma data_from_dense_copyable:
  "copyable t \<Longrightarrow> int_sized t \<Longrightarrow>
     sparse_copier (data_from_dense_copy t) (alignment t) (buffersize t) (data_offsets t) (packed_size t) (packed_offsets t)"
  "(\<And>f. f \<in> set ms \<Longrightarrow> copyable (mtype f) \<and> int_sized (mtype f)) \<Longrightarrow>
     members_laid_out lo ms b \<Longrightarrow> Record_from_loop_copies ms lo b d"
  "(\<And>f. f \<in> set es \<Longrightarrow> copyable (etype f) \<and> int_sized (etype f)) \<Longrightarrow>
     elements_laid_out lo es b \<Longrightarrow> Tuple_from_loop_copies es lo b d"
proof (induction t and d ms and d es arbitrary: and b lo and b lo
    rule: packed_size_packed_members_packed_elements.induct)
  case (1 d a)
  then show ?case
    using sparse_copier_dense [OF dense_copier_memcpy, of "[0 ..< sc_size d]" "sc_size d" "sc_align d" "sc_size d"]
    by (simp add: copyable_def Scalar_data_from_dense_copy_def Scalar_data_to_dense_copy_def Scalar_simple_def size_query_defs)
next
  case (2 sub sz st n a)
  then have t: "copyable sub" "int_sized sub" "n \<le> int_max" "natural (Array sub sz st n a)"
    by (auto simp: copyable_def size_query_defs Array_simple_def)
  from Array_from_dense_copies [OF "2.IH" [OF t(1,2)] t] show ?case
    by (simp add: Array_alignment_def del: data_from_dense_copy.simps)
next
  case (3 ms b a)
  then have t: "natural (Record ms b a)" "wf_dt (Record ms b a)" "simple (Record ms b a)"
    by (simp_all only: copyable_def)
  have "Record_from_loop_copies ms 0 b 0"
    using "3.prems" t by (intro "3.IH" natural_members_fields [OF t]) (auto simp: copyable_def)
  then show ?case using Record_from_dense_copies [OF t] by (simp only: buffersize.simps)
next
  case (4 es b a)
  then have t: "natural (Tuple es b a)" "wf_dt (Tuple es b a)" "simple (Tuple es b a)"
    by (simp_all only: copyable_def)
  have "Tuple_from_loop_copies es 0 b 0"
    using "4.prems" t by (intro "4.IH" natural_elements_fields [OF t]) (auto simp: copyable_def)
  then show ?case using Tuple_from_dense_copies [OF t] by (simp only: buffersize.simps)
next
  case (5 sub c d a)
  then show ?case
    using sparse_copier_dense [OF dense_copier_memcpy, of "[0 ..< 8]" 8 8 8]
    by (simp add: copyable_def Pointer_data_from_dense_copy_def Pointer_data_to_dense_copy_def Pointer_simple_def size_query_defs)
next
  case (7 d x t n ms)
  from "7.prems"(1) [of "Member x t n"] have t: "copyable t" "int_sized t" by auto
  from "7.prems"(2) have x: "lo \<le> x" "alignment t dvd x" "members_laid_out (x + buffersize t) ms b" by auto
  with members_laid_out_le have le: "x + buffersize t \<le> b" by blast
  from "7.prems"(1) x(3) have "Record_from_loop_copies ms (x + buffersize t) b (round_up (alignment t) d + packed_size t)"
    by (intro "7.IH"(2)) auto
  with "7.IH"(1) [OF t] t x(1,2) le show ?case by (rule Record_from_loop_step)
next
  case (9 d x t es)
  from "9.prems"(1) [of "Element x t"] have t: "copyable t" "int_sized t" by auto
  from "9.prems"(2) have x: "lo \<le> x" "alignment t dvd x" "elements_laid_out (x + buffersize t) es b" by auto
  with elements_laid_out_le have le: "x + buffersize t \<le> b" by blast
  from "9.prems"(1) x(3) have "Tuple_from_loop_copies es (x + buffersize t) b (round_up (alignment t) d + packed_size t)"
    by (intro "9.IH"(2)) auto
  with "9.IH"(1) [OF t] t x(1,2) le show ?case by (rule Tuple_from_loop_step)
qed (simp_all add: Record_from_loop_copies_def Tuple_from_loop_copies_def copied_Nil)

lemma data_from_dense_nested:
  assumes "natural t" "wf_dt t" "simple t" "nested_unpadded t" "alignment t \<noteq> 0" "int_sized t"
    and "alignment t dvd dst" "alignment t dvd src" and "dst + buffersize t \<le> src \<or> src + packed_size t \<le> dst"
  shows "\<exists>m'. data_from_dense_copy t dst src m = (Inr (dst + buffersize t), m')
    \<and> copied m m' dst (dst + buffersize t) (map ((+) dst) (data_offsets t)) (map ((+) src) (packed_offsets t))"
proof -
  let ?contract = "sparse_copier (data_from_dense_copy t) (alignment t) (buffersize t) (data_offsets t) (packed_size t) (packed_offsets t)"
  have unpadded: ?contract if "unpadded t"
    using data_from_dense_copyable(1) [of t] assms that unfolding copyable_def by blast
  have ?contract
  proof (cases t)
    case (Record ms b a)
    have "Record_from_loop_copies ms 0 b 0"
      using assms unfolding Record by (intro data_from_dense_copyable(2) natural_members_fields) auto
    then show ?thesis using Record_from_dense_copies assms(1-3) unfolding Record buffersize.simps by blast
  next
    case (Tuple es b a)
    have "Tuple_from_loop_copies es 0 b 0"
      using assms unfolding Tuple by (intro data_from_dense_copyable(3) natural_elements_fields) auto
    then show ?thesis using Tuple_from_dense_copies assms(1-3) unfolding Tuple buffersize.simps by blast
  qed (use unpadded assms(4) in auto)
  from sparse_copierE [OF this assms(7-9)] show ?thesis by blast
qed

section \<open>The copies of a value\<close>

lemma read_data_copied:
  "copied m m' lo hi (map ((+) dst) (data_offsets t)) (map ((+) src) (data_offsets u)) \<Longrightarrow>
     read_data t m' dst = read_data u m src"
  by (simp add: copied_def read_data_def o_def)

lemma natural_densify:
  assumes "natural t" and "wf_dt t"
  obtains t' where "densify t = Inr t'" "buffersize t' = packed_size t" "data_offsets t' = packed_offsets t"
  using assms densify_packed(1) densify_offsets(1) natural_packed by metis

text \<open>
  (C3) A naturally laid out simple value of which only the outermost record or tuple has padding can be
  copied to a dense buffer: the type has a densified version, the copy succeeds, the value read in
  the buffer with the densified type is the original value, and no byte outside the buffer of the
  densified type changes.
\<close>

theorem data_to_dense_copy_correct:
  assumes "natural t" "wf_dt t" "simple t" "nested_unpadded t" "alignment t \<noteq> 0"
    and "alignment t dvd dst" and "dst + packed_size t \<le> src \<or> src + buffersize t \<le> dst"
  shows "\<exists>t' p m'. densify t = Inr t' \<and> data_to_dense_copy t dst src m = (Inr p, m')
    \<and> read_data t' m' dst = read_data t m src
    \<and> (\<forall>a. a < dst \<or> dst + buffersize t' \<le> a \<longrightarrow> m' a = m a)"
proof -
  obtain t' where t': "densify t = Inr t'" "buffersize t' = packed_size t" "data_offsets t' = packed_offsets t"
    using natural_densify assms(1,2) by blast
  obtain p m' where m': "data_to_dense_copy t dst src m = (Inr p, m')"
    "copied m m' dst (dst + packed_size t) (map ((+) dst) (data_offsets t')) (map ((+) src) (data_offsets t))"
    using data_to_dense_nested [OF assms, of m] t'(3) by auto
  from m'(2) have "read_data t' m' dst = read_data t m src" by (rule read_data_copied)
  moreover have "\<forall>a. a < dst \<or> dst + buffersize t' \<le> a \<longrightarrow> m' a = m a" using m'(2) t'(2) by (simp add: copied_def)
  ultimately show ?thesis using t'(1) m'(1) by blast
qed



section \<open>Examples\<close>

text \<open>A record with a hole before its second member, and a record with trailing padding.\<close>

definition sample_scalar :: "nat \<Rightarrow> dt" where
  "sample_scalar n = Scalar \<lparr>sc_size = n, sc_dense_size = n, sc_align = n, sc_kind = SIGNED,
     sc_copy = None, sc_destroy = None\<rparr> []"

definition sample_sparse :: dt where
  "sample_sparse = Record [Member 0 (sample_scalar 1) ''c'', Member 8 (sample_scalar 4) ''i''] 16 []"

definition sample_padded :: dt where
  "sample_padded = Record [Member 0 (sample_scalar 8) ''d'', Member 8 (sample_scalar 1) ''c''] 16 []"

definition sample_memory :: mem where
  "sample_memory a = of_nat a"

lemmas sample_defs = sample_scalar_def sample_sparse_def sample_padded_def size_query_defs
  Scalar_simple_def Record_simple_def Record_alignment_def round_up_def ispow2_def nulltype_def

lemma sample_sparse_hyps:
  "natural sample_sparse" "wf_dt sample_sparse" "simple sample_sparse" "nested_unpadded sample_sparse"
  "alignment sample_sparse = 4" "int_sized sample_sparse" "packed_size sample_sparse = 8" "buffersize sample_sparse = 16"
  by (simp_all add: sample_defs)

lemma sample_sparse_data: "read_data sample_sparse sample_memory 16 = [16, 24, 25, 26, 27]"
  by code_simp

theorem data_to_dense_copy_correct_witness:
  "\<exists>t' p m'. densify sample_sparse = Inr t' \<and> data_to_dense_copy sample_sparse 64 16 sample_memory = (Inr p, m')
    \<and> read_data t' m' 64 = [16, 24, 25, 26, 27] \<and> m' 63 = 63"
proof -
  obtain t' p m' where "densify sample_sparse = Inr t'" "data_to_dense_copy sample_sparse 64 16 sample_memory = (Inr p, m')"
    "read_data t' m' 64 = read_data sample_sparse sample_memory 16"
    "\<forall>a. a < 64 \<or> 64 + buffersize t' \<le> a \<longrightarrow> m' a = sample_memory a"
    using data_to_dense_copy_correct [OF sample_sparse_hyps(1-4), of 64 16 sample_memory]
    unfolding sample_sparse_hyps(5-) by auto
  then show ?thesis by (simp add: sample_sparse_data) (simp add: sample_memory_def)
qed



text \<open>
  Without the assumption on nested padding the round trip fails: the padded record is followed by a
  character, \<open>data_to_dense_copy\<close> writes it behind the 16 bytes of the record,
  \<open>data_from_dense_copy\<close> reads it behind the 9 bytes of its data.
\<close>

definition sample_nested :: dt where
  "sample_nested = Record [Member 0 sample_padded ''r'', Member 24 (sample_scalar 1) ''c''] 32 []"

lemma sample_padded_facts:
  "dense sample_padded = Inr True" "simple sample_padded" "alignment sample_padded = 8"
  "buffersize sample_padded = 16" "datasize sample_padded = 9"
  by (simp_all add: sample_defs dense_tail_def align_displacement_def sz_add_def)

lemma sample_nested_sparse: "dense sample_nested = Inr False"
  by (simp add: sample_nested_def sample_padded_facts)
    (simp add: sample_defs dense_tail_def align_displacement_def sz_add_def)

lemma sample_padded_copies:
  "data_to_dense_copy sample_padded dst src m = (Inr (dst + 16), memcpy dst src 16 m)"
  "data_from_dense_copy sample_padded dst src m = (Inr (dst + 16), memcpy dst src 16 m)"
  using sample_padded_facts
  by (simp_all add: sample_padded_def Record_data_to_dense_copy_def Record_data_from_dense_copy_def simple_and_dense_def
        del: dense.simps simple.simps)

lemma sample_scalar_copies:
  "data_to_dense_copy (sample_scalar n) dst src m = (Inr (dst + n), memcpy dst src n m)"
  "data_from_dense_copy (sample_scalar n) dst src m = (Inr (dst + n), memcpy dst src n m)"
  by (simp_all add: sample_scalar_def Scalar_data_to_dense_copy_def Scalar_data_from_dense_copy_def Scalar_datasize_def)

lemma sample_scalar_layout [simp]: "alignment (sample_scalar n) = n" "datasize (sample_scalar n) = n"
  by (simp_all add: sample_scalar_def size_query_defs)

lemma nested_padding_breaks_round_trip:
  "\<exists>p q m1 m2. data_to_dense_copy sample_nested 64 0 sample_memory = (Inr p, m1)
    \<and> data_from_dense_copy sample_nested 128 64 m1 = (Inr q, m2)
    \<and> natural sample_nested \<and> wf_dt sample_nested \<and> simple sample_nested
    \<and> m2 (128 + 24) \<noteq> sample_memory 24"
proof -
  have "natural sample_nested" "wf_dt sample_nested" "simple sample_nested"
    by (simp_all add: sample_nested_def sample_defs)
  moreover have "data_to_dense_copy sample_nested 64 0 sample_memory
      = (Inr 81, memcpy 80 24 1 (memcpy 64 0 16 sample_memory))"
    using sample_nested_sparse \<open>simple sample_nested\<close>
    by (simp add: sample_nested_def Record_data_to_dense_copy_def simple_and_dense_def sample_padded_facts
        sample_padded_copies sample_scalar_copies std_align_def round_up_def ispow2_def del: dense.simps simple.simps)
  moreover have "data_from_dense_copy sample_nested 128 64 m
      = (Inr 160, memcpy 152 73 1 (memcpy 128 64 16 m))" for m
    using sample_nested_sparse \<open>simple sample_nested\<close>
    by (simp add: sample_nested_def Record_data_from_dense_copy_def simple_and_dense_def sample_padded_facts
        sample_padded_copies sample_scalar_copies skip_padding_def int32_of_size_def del: dense.simps simple.simps)
  ultimately show ?thesis by (simp add: memcpy_def sample_memory_def)
qed

text \<open>
  An array of padded records is copied by its data size, not by its buffer size: of two records of
  16 bytes only the first 18 bytes are copied, and the second record is lost.
\<close>

lemma array_of_padded_truncated:
  "data_to_dense_copy (Array sample_padded 2 0 2 []) dst src m = (Inr (dst + 18), memcpy dst src 18 m)"
  "buffersize (Array sample_padded 2 0 2 []) = 32"
  by (simp_all add: Array_data_to_dense_copy_def simple_and_dense_def sample_padded_facts size_query_defs sz_mul_def)

end
