(* ===== verification/Datatype_Access_Correct.thy ===== *)
theory Datatype_Access_Correct
  imports Datatype_Access Datatype_From_Dense
begin

text \<open>
  The comparison of types is an equivalence that respects the layout; accesses stay inside the
  buffer of the value, return the type the typed access announces, and reach the data of the value.
\<close>

section \<open>Comparison\<close>

lemmas type_eq_defs = Scalar_eq_def Array_eq_def Record_eq_def Tuple_eq_def Pointer_eq_def

lemma eq_refl:
  "datatype_eq t t"
  "Members_eq ms ms"
  "Elements_eq es es"
  by (induction t and ms and es rule: debug_string_Record_members_debug_Tuple_elements_debug.induct)
    (auto simp: type_eq_defs)

lemma eq_sym:
  "datatype_eq t u \<Longrightarrow> datatype_eq u t"
  "Members_eq ms ms' \<Longrightarrow> Members_eq ms' ms"
  "Elements_eq es es' \<Longrightarrow> Elements_eq es' es"
  by (induction t u and ms ms' and es es' rule: datatype_eq_Members_eq_Elements_eq.induct)
    (auto simp: type_eq_defs)

fun_cases datatype_eqE: "datatype_eq (Scalar d a) v" "datatype_eq (Array sub sz st n a) v"
  "datatype_eq (Record ms b a) v" "datatype_eq (Tuple es b a) v" "datatype_eq (Pointer sub c d a) v"

fun_cases Members_eqE: "Members_eq [] ms" "Members_eq (Member d t n # ms) ms'"

fun_cases Elements_eqE: "Elements_eq [] es" "Elements_eq (Element d t # es) es'"

lemma eq_trans:
  "datatype_eq t u \<Longrightarrow> datatype_eq u v \<Longrightarrow> datatype_eq t v"
  "Members_eq ms ms' \<Longrightarrow> Members_eq ms' ms'' \<Longrightarrow> Members_eq ms ms''"
  "Elements_eq es es' \<Longrightarrow> Elements_eq es' es'' \<Longrightarrow> Elements_eq es es''"
  by (induction t u and ms ms' and es es' arbitrary: v and ms'' and es''
      rule: datatype_eq_Members_eq_Elements_eq.induct)
    (auto simp: type_eq_defs elim!: datatype_eqE Members_eqE Elements_eqE)

text \<open>Scalars that compare equal agree on the dense size only where it is the size.\<close>

fun dense_scalars :: "dt \<Rightarrow> bool" where
  "dense_scalars (Scalar d _) \<longleftrightarrow> sc_dense_size d = sc_size d"
| "dense_scalars (Array sub _ _ _ _) \<longleftrightarrow> dense_scalars sub"
| "dense_scalars (Record ms _ _) \<longleftrightarrow> (\<forall>m \<in> set ms. dense_scalars (mtype m))"
| "dense_scalars (Tuple es _ _) \<longleftrightarrow> (\<forall>e \<in> set es. dense_scalars (etype e))"
| "dense_scalars (Pointer sub _ _ _) \<longleftrightarrow> dense_scalars sub"

lemma eq_sizes:
  "datatype_eq t u \<Longrightarrow> alignment t = alignment u \<and> datasize t = datasize u"
  "Members_eq ms ms' \<Longrightarrow> map (\<lambda>m. alignment (mtype m)) ms = map (\<lambda>m. alignment (mtype m)) ms'
     \<and> map (\<lambda>m. datasize (mtype m)) ms = map (\<lambda>m. datasize (mtype m)) ms'"
  "Elements_eq es es' \<Longrightarrow> map (\<lambda>m. alignment (etype m)) es = map (\<lambda>m. alignment (etype m)) es'
     \<and> map (\<lambda>m. datasize (etype m)) es = map (\<lambda>m. datasize (etype m)) es'"
  by (induction t u and ms ms' and es es' rule: datatype_eq_Members_eq_Elements_eq.induct)
    (auto simp: type_eq_defs size_query_defs Record_datasize_def Tuple_datasize_def Record_alignment_def
      Tuple_alignment_def simp del: map_eq_conv)

lemma eq_offsets:
  "datatype_eq t u \<Longrightarrow> dense_scalars t \<Longrightarrow> dense_scalars u \<Longrightarrow>
     buffersize t = buffersize u \<and> data_offsets t = data_offsets u"
  "Members_eq ms ms' \<Longrightarrow> (\<forall>m \<in> set ms. dense_scalars (mtype m)) \<Longrightarrow> (\<forall>m \<in> set ms'. dense_scalars (mtype m)) \<Longrightarrow>
     map (\<lambda>m. map ((+) (displacement m)) (data_offsets (mtype m))) ms
       = map (\<lambda>m. map ((+) (displacement m)) (data_offsets (mtype m))) ms'"
  "Elements_eq es es' \<Longrightarrow> (\<forall>m \<in> set es. dense_scalars (etype m)) \<Longrightarrow> (\<forall>m \<in> set es'. dense_scalars (etype m)) \<Longrightarrow>
     map (\<lambda>m. map ((+) (offset m)) (data_offsets (etype m))) es
       = map (\<lambda>m. map ((+) (offset m)) (data_offsets (etype m))) es'"
  by (induction t u and ms ms' and es es' rule: datatype_eq_Members_eq_Elements_eq.induct)
    (auto simp: type_eq_defs size_query_defs simp del: map_eq_conv)


text \<open>
  (C35) Types that compare equal have the same alignment and data size, and where their scalars are
  dense, the same buffer size and the same bytes of a value as data.
\<close>

theorem datatype_eq_same_data:
  assumes "datatype_eq t u"
  shows "alignment t = alignment u \<and> datasize t = datasize u
    \<and> (dense_scalars t \<and> dense_scalars u \<longrightarrow> buffersize t = buffersize u \<and> read_data t m p = read_data u m p)"
  using eq_sizes(1) [OF assms] eq_offsets(1) [OF assms] by (simp add: read_data_def)

section \<open>Accesses\<close>

lemmas access_defs = Array_index_def Array_index_data_def Tuple_index_def Tuple_index_data_def Record_member_def
  Record_member_data_def Pointer_access_def Pointer_dereference_def Pointer_dereference_data_def

lemma base_class_errors [simp]:
  "rbind (Datatype_index t) k = Datatype_index t" "rbind (Datatype_slice t) k = Datatype_slice t"
  "rbind (Datatype_member t) k = Datatype_member t" "rbind (Datatype_dereference t) k = Datatype_dereference t"
  "Datatype_index t \<noteq> Inr x" "Datatype_slice t \<noteq> Inr x" "Datatype_member t \<noteq> Inr x" "Datatype_dereference t \<noteq> Inr x"
  by (cases "debug_string t"; simp add: Datatype_index_def Datatype_slice_def Datatype_member_def Datatype_dereference_def)+

lemma index_data_type: "rbind (index_data t i m p) (\<lambda>(q, u). Inr u) = index t i"
  by (induction t i m p rule: index_data.induct) (auto simp: access_defs split: sum.splits)

lemma member_data_type: "rbind (member_data t n m p) (\<lambda>(q, u). Inr u) = member_type t n"
  by (induction t n m p rule: member_data.induct) (auto simp: access_defs split: option.splits sum.splits)

lemma dereference_data_type: "rbind (dereference_data t m p) (\<lambda>(q, u). Inr u) = dereference t"
  by (cases t) (auto simp: access_defs split: sum.splits)

lemma slice_data_type: "slice_data t s e m p = Inr (q, u) \<Longrightarrow> slice t s e = Inr u"
  by (induction t s e m p rule: slice_data.induct)
    (auto simp: access_defs Array_slice_data_def Tuple_slice_data_def rbind_Inr_iff split: sum.splits)


text \<open>The address of an element of a naturally laid out array.\<close>

lemma Array_element_address:
  assumes "natural (Array sub sz st n a)" and "i \<le> n"
  shows "sz_mul (buffersize sub) (sz_add st i) = (st + i) * buffersize sub"
    and "(st + i) * buffersize sub \<le> sz * buffersize sub"
proof -
  from assms have st: "st + i \<le> sz" and lt: "sz * buffersize sub < size_max" by auto
  then show le: "(st + i) * buffersize sub \<le> sz * buffersize sub" by (intro mult_le_mono1)
  show "sz_mul (buffersize sub) (sz_add st i) = (st + i) * buffersize sub"
  proof (cases "buffersize sub = 0")
    case False
    then have "st + i \<le> (st + i) * buffersize sub" by (cases "buffersize sub") simp_all
    with le lt have "st + i < size_max" "buffersize sub * (st + i) < size_max" by (simp_all only: mult.commute)
    then show ?thesis by (simp only: sz_add_eq sz_mul_eq mult.commute)
  qed (simp add: sz_mul_def)
qed

fun is_pointer :: "dt \<Rightarrow> bool" where
  "is_pointer (Pointer _ _ _ _) \<longleftrightarrow> True"
| "is_pointer _ \<longleftrightarrow> False"

lemma index_data_inside:
  assumes t: "natural t" "\<not> is_pointer t" and acc: "index_data t i m p = Inr (q, u)"
  shows "p \<le> q \<and> q + buffersize u \<le> p + buffersize t"
proof (cases t)
  case (Array sub sz st n a)
  with acc have i: "i < n" and q: "q = p + sz_mul (buffersize sub) (sz_add st i)" and u: "u = sub"
    by (auto simp: Array_index_data_def split: if_splits)
  from t Array have nat: "natural (Array sub sz st n a)" by simp
  have "(st + Suc i) * buffersize sub \<le> sz * buffersize sub"
    using Array_element_address(2) [OF nat, of "Suc i"] i by simp
  with nat q u i show ?thesis
    by (simp add: Array Array_element_address(1) [OF nat] Array_buffersize_def sz_mul_eq)
next
  case (Tuple es b a)
  with acc have i: "i < length es" and q: "q = p + offset (es ! i)" and u: "u = etype (es ! i)"
    by (auto simp: Tuple_index_data_def split: if_splits)
  with t show ?thesis using natural_elements_in [of es b a "es ! i"] by (simp add: Tuple)
qed (use acc t in \<open>auto simp: access_defs rbind_Inr_iff\<close>)

lemma member_data_inside:
  assumes t: "natural t" "\<not> is_pointer t" and acc: "member_data t n m p = Inr (q, u)"
  shows "p \<le> q \<and> q + buffersize u \<le> p + buffersize t"
proof (cases t)
  case (Record ms b a)
  with acc obtain f where "find (\<lambda>f. n = mname f) ms = Some f" and q: "q = p + displacement f" and u: "u = mtype f"
    by (auto simp: Record_member_data_def split: option.splits)
  then have "f \<in> set ms" by (auto simp: find_Some_iff)
  with t q u show ?thesis using natural_members_in [of ms b a f] by (simp add: Record)
qed (use acc t in \<open>auto simp: access_defs rbind_Inr_iff\<close>)

text \<open>
  (C33) In a naturally laid out value, an element or a member that is not behind a pointer lies
  entirely inside the buffer of the value.
\<close>

theorem access_in_bounds:
  assumes "natural t" and "\<not> is_pointer t"
  shows "(index_data t i m p = Inr (q, u) \<longrightarrow> p \<le> q \<and> q + buffersize u \<le> p + buffersize t)
    \<and> (member_data t n m p = Inr (q, u) \<longrightarrow> p \<le> q \<and> q + buffersize u \<le> p + buffersize t)"
  using assms index_data_inside member_data_inside by blast

section \<open>Reading through accesses\<close>

definition read_at :: "(addr \<times> dt) res \<Rightarrow> mem \<Rightarrow> byte list" where
  "read_at acc m = (case acc of Inr (q, u) \<Rightarrow> read_data u m q | Inl _ \<Rightarrow> [])"

lemma read_data_shift: "map (\<lambda>off. m (p + off)) (map ((+) d) (data_offsets t)) = read_data t m (p + d)"
  by (simp add: read_data_def o_def add.assoc)

lemma read_data_concat:
  "read_data (Array sub sz st n a) m p
     = concat (map (\<lambda>i. read_data sub m (p + (st + i) * buffersize sub)) [0 ..< n])"
  "read_data (Record ms b a) m p = concat (map (\<lambda>f. read_data (mtype f) m (p + displacement f)) ms)"
  "read_data (Tuple es b a) m p = concat (map (\<lambda>f. read_data (etype f) m (p + offset f)) es)"
  by (simp_all add: read_data_def map_concat o_def add.assoc)

lemma find_name: "distinct (map mname ms) \<Longrightarrow> f \<in> set ms \<Longrightarrow> find (\<lambda>g. mname f = mname g) ms = Some f"
proof (induction ms)
  case (Cons g ms)
  then show ?case by (cases "f = g") (auto simp: image_iff)
qed simp

text \<open>
  (C32) The data of a record with distinct member names are the data of its members, each read through
  the access to the member by its name, in order.
\<close>

theorem record_data_by_members:
  assumes "distinct (map mname ms)"
  shows "read_data (Record ms b a) m p
    = concat (map (\<lambda>f. read_at (member_data (Record ms b a) (mname f) m p) m) ms)"
proof -
  have "read_at (member_data (Record ms b a) (mname f) m p) m = read_data (mtype f) m (p + displacement f)"
    if "f \<in> set ms" for f
    using find_name [OF assms that] by (simp add: read_at_def Record_member_data_def)
  then show ?thesis by (simp add: read_data_concat cong: map_cong)
qed

text \<open>
  (C31) The data of an array are the data of its elements, each read through the access by its index;
  the data of a slice are those of the elements with the indices of the slice.
\<close>

theorem array_data_by_index:
  assumes "natural (Array sub sz st n a)" and "s \<le> e" and "e \<le> n" and "n < size_max"
  shows "read_data (Array sub sz st n a) m p
      = concat (map (\<lambda>i. read_at (index_data (Array sub sz st n a) i m p) m) [0 ..< n])
    \<and> read_at (slice_data (Array sub sz st n a) s e m p) m
      = concat (map (\<lambda>i. read_at (index_data (Array sub sz st n a) i m p) m) [s ..< e])"
proof
  have idx: "read_at (Array_index_data sub st n i p) m = read_data sub m (p + (st + i) * buffersize sub)"
    if "i < n" for i
    using that by (simp add: read_at_def Array_index_data_def Array_element_address(1) [OF assms(1)])
  show "read_data (Array sub sz st n a) m p
      = concat (map (\<lambda>i. read_at (index_data (Array sub sz st n a) i m p) m) [0 ..< n])"
    unfolding read_data_concat by (intro arg_cong [where f = concat] map_cong) (simp_all add: idx)
  have upt: "[s ..< e] = map (\<lambda>i. i + s) [0 ..< e - s]" using assms(2) by (simp add: map_add_upt)
  have "read_at (index_data (Array sub sz st n a) (i + s) m p) m
      = read_data sub m (p + (st + s) * buffersize sub + i * buffersize sub)" if "i < e - s" for i
    using idx [of "i + s"] that assms(3) by (simp add: algebra_simps)
  then have "concat (map (\<lambda>i. read_at (index_data (Array sub sz st n a) i m p) m) [s ..< e])
      = concat (map (\<lambda>i. read_data sub m (p + (st + s) * buffersize sub + i * buffersize sub)) [0 ..< e - s])"
    unfolding upt map_map o_def by (intro arg_cong [where f = concat] map_cong) simp_all
  moreover have "slice_data (Array sub sz st n a) s e m p
      = Inr (p + (st + s) * buffersize sub, Array_make sub (e - s) [])"
    using assms(2-4) Array_element_address(1) [OF assms(1), of s]
    by (simp add: Array_slice_data_def Array_slice_def sz_sub_eq)
  ultimately show "read_at (slice_data (Array sub sz st n a) s e m p) m
      = concat (map (\<lambda>i. read_at (index_data (Array sub sz st n a) i m p) m) [s ..< e])"
    by (simp add: read_at_def Array_make_def read_data_concat)
qed

text \<open>
  The slice of a tuple that leaves out only the last element reads the element behind the end: the
  bound of the new tuple is looked up at \<open>end_index + 1\<close>.
\<close>

lemma tuple_slice_reads_past_end:
  assumes "es \<noteq> []"
  shows "slice (Tuple es b a) 0 (length es - 1) = Inl UB"
  using assms by (cases es) (simp_all add: Tuple_slice_def element_at_def)

text \<open>With a data address, a start behind the tuple is read before the range of the slice is checked.\<close>

lemma tuple_slice_data_unchecked:
  "length es < e \<Longrightarrow> length es \<le> s \<Longrightarrow> slice_data (Tuple es b a) s e m p = Inl UB
     \<and> slice (Tuple es b a) s e = throw (slice_out_of_range ''tuple'' s e (length es))"
  by (simp add: Tuple_slice_data_def Tuple_slice_def element_at_def)

text \<open>A slice of an array whose start is behind its end has a length that wraps around.\<close>

lemma array_slice_wraps:
  "slice (Array sub sz st n a) 2 1 = (if 1 \<le> n then Inr (Array_make sub (size_max - 1) [])
     else throw (slice_out_of_range ''array'' 2 1 n))"
  by (simp add: Array_slice_def sz_sub_def)

section \<open>Examples\<close>

definition sample_array :: dt where
  "sample_array = Array (sample_scalar 4) 8 2 4 []"

lemma sample_array_natural: "natural sample_array"
  by (simp add: sample_array_def sample_scalar_def size_query_defs)


theorem datatype_eq_same_data_witness:
  "buffersize sample_array = buffersize (Array (sample_scalar 4) 8 2 4 [(''a'', Int_literal 1)])
    \<and> read_data sample_array sample_memory 16 = read_data (Array (sample_scalar 4) 8 2 4 [(''a'', Int_literal 1)]) sample_memory 16"
  using datatype_eq_same_data [of sample_array "Array (sample_scalar 4) 8 2 4 [(''a'', Int_literal 1)]" sample_memory 16]
  by (simp add: sample_array_def sample_scalar_def type_eq_defs)


theorem access_in_bounds_witness:
  "index_data sample_array 3 sample_memory 16 = Inr (36, sample_scalar 4)
    \<and> 36 + buffersize (sample_scalar 4) \<le> 16 + buffersize sample_array"
proof -
  have "index_data sample_array 3 sample_memory 16 = Inr (36, sample_scalar 4)"
    by (simp add: sample_array_def sample_scalar_def Array_index_data_def size_query_defs sz_add_def sz_mul_def)
  moreover have "\<not> is_pointer sample_array" by (simp add: sample_array_def)
  ultimately show ?thesis using access_in_bounds [OF sample_array_natural] by blast
qed

theorem record_data_by_members_witness:
  "read_data sample_sparse sample_memory 16
    = read_at (member_data sample_sparse ''c'' sample_memory 16) sample_memory
      @ read_at (member_data sample_sparse ''i'' sample_memory 16) sample_memory"
  using record_data_by_members [of "[Member 0 (sample_scalar 1) ''c'', Member 8 (sample_scalar 4) ''i'']" 16 "[]" sample_memory 16]
  unfolding sample_sparse_def by simp

theorem array_data_by_index_witness:
  "read_at (slice_data sample_array 1 3 sample_memory 16) sample_memory
    = read_at (index_data sample_array 1 sample_memory 16) sample_memory
      @ read_at (index_data sample_array 2 sample_memory 16) sample_memory"
proof -
  have idx: "[1 ..< 3] = [1, 2::nat]" by (simp add: upt_rec numeral_2_eq_2)
  have "(1::nat) \<le> 3" "(3::nat) \<le> 4" "(4::nat) < size_max" by simp_all
  from conjunct2 [OF array_data_by_index [OF sample_array_natural [unfolded sample_array_def] this, of sample_memory 16]]
  show ?thesis unfolding idx sample_array_def by simp
qed

end
