(* ===== verification/Ref_Store.thy ===== *)
theory Ref_Store
  imports Datatype_Access Datatype_Copy "HOL-Library.AList"
begin

text \<open>
  References to shared data (\<open>ref_any.h\<close>, \<open>ref_any.cxx\<close>). A \<open>Ref_any<R, W>\<close> object is an entry of the
  list \<open>refs\<close> and is named by its position; \<open>Referenced_data\<close> objects are entries of \<open>contents\<close> and
  \<open>Referenced_buffer\<close> objects entries of \<open>buffers\<close>. The shared pointers of the source give the life time:
  a buffer lives as long as a linked reference reaches it, and \<open>collect\<close> runs its deallocator when
  the last one goes. A null pointer is the address 0. Assertions are not compiled in. The state is
  extensible, so that a nullification callback may act on the rest of the program.
\<close>

section \<open>State\<close>

text \<open>
  The functions that free the memory of a buffer: \<open>free\<close>, \<open>operator delete\<close> on a captured address or with
  a captured alignment, \<open>delete\<close> of a scalar, and a function that does nothing.
\<close>

datatype freefunc = Free | Delete_buffer addr | Delete_aligned size_t | Delete_object | Keep

record buffer =
  b_deallocator :: "(addr \<times> freefunc \<times> dt) option"
  b_read_locks :: int
  b_write_locks :: int
  b_notifications :: "(nat \<times> nat) list"
  b_alive :: bool

record rdata =
  c_buffer :: nat
  c_data :: addr
  c_type :: dt

record reference =
  r_R :: bool
  r_W :: bool
  r_content :: "nat option"

record store =
  refs :: "reference list"
  contents :: "rdata list"
  buffers :: "buffer list"
  memory :: mem
  heap_top :: addr
  allocated :: "addr list"
  freed :: "(freefunc \<times> addr) list"

type_synonym ('x, 'a) store_op = "('x store_scheme, exn, 'a) sx"

text \<open>
  The environment: what a registered nullification callback does, called with its identifier and
  the reference it receives, and a bound on the rounds of the notification loop.
\<close>

record 'x ref_env =
  env_nullify :: "nat \<Rightarrow> nat \<Rightarrow> ('x, unit) store_op"
  env_fuel :: nat

definition upd_ref :: "nat \<Rightarrow> (reference \<Rightarrow> reference) \<Rightarrow> 'x store_scheme \<Rightarrow> 'x store_scheme" where
  "upd_ref i f s = s\<lparr>refs := (refs s)[i := f (refs s ! i)]\<rparr>"

definition upd_data :: "nat \<Rightarrow> (rdata \<Rightarrow> rdata) \<Rightarrow> 'x store_scheme \<Rightarrow> 'x store_scheme" where
  "upd_data c f s = s\<lparr>contents := (contents s)[c := f (contents s ! c)]\<rparr>"

definition upd_buffer :: "nat \<Rightarrow> (buffer \<Rightarrow> buffer) \<Rightarrow> 'x store_scheme \<Rightarrow> 'x store_scheme" where
  "upd_buffer b f s = s\<lparr>buffers := (buffers s)[b := f (buffers s ! b)]\<rparr>"

definition on_memory :: "'a memory_op \<Rightarrow> ('x, 'a) store_op" where
  "on_memory f s = (case f (memory s) of (r, m) \<Rightarrow> (r, s\<lparr>memory := m\<rparr>))"

section \<open>Buffers and their deallocation\<close>

definition Referenced_buffer :: "(addr \<times> freefunc \<times> dt) option \<Rightarrow> bool \<Rightarrow> bool \<Rightarrow> buffer" where
  "Referenced_buffer deleter readable writable =
     \<lparr>b_deallocator = deleter, b_read_locks = (if readable then 0 else 1),
      b_write_locks = (if writable then 0 else 1), b_notifications = [], b_alive = True\<rparr>"

definition run_deallocator :: "nat \<Rightarrow> ('x, unit) store_op" where
  "run_deallocator b s =
     (case b_deallocator (buffers s ! b) of
        None \<Rightarrow> (Inr (), s)
      | Some (data, freefunc, type) \<Rightarrow>
          sx_bind (on_memory (destroy_data type data)) (\<lambda>_.
          sx_modify (\<lambda>s. s\<lparr>freed := freed s @ [(freefunc, data)]\<rparr>)) s)"

definition destroy_buffer :: "nat \<Rightarrow> ('x, unit) store_op" where
  "destroy_buffer b = sx_noexcept (sx_bind (run_deallocator b) (\<lambda>_.
     sx_modify (upd_buffer b (\<lambda>B. B\<lparr>b_alive := False\<rparr>))))"

definition linked_to :: "'x store_scheme \<Rightarrow> nat \<Rightarrow> reference \<Rightarrow> bool" where
  "linked_to s b r = (case r_content r of None \<Rightarrow> False | Some c \<Rightarrow> c_buffer (contents s ! c) = b)"

text \<open>The last shared pointer to a buffer is gone: its destructor runs.\<close>

definition collect :: "nat \<Rightarrow> ('x, unit) store_op" where
  "collect b s =
     (if b_alive (buffers s ! b) \<and> \<not> (\<exists>r \<in> set (refs s). linked_to s b r)
      then destroy_buffer b s else (Inr (), s))"

definition new_rdata :: "nat \<Rightarrow> addr \<Rightarrow> dt \<Rightarrow> ('x, nat) store_op" where
  "new_rdata b data type s =
     (Inr (length (contents s)),
      s\<lparr>contents := contents s @ [\<lparr>c_buffer = b, c_data = data, c_type = type\<rparr>]\<rparr>)"

definition new_rdata_buffer :: "addr \<Rightarrow> freefunc \<Rightarrow> dt \<Rightarrow> bool \<Rightarrow> bool \<Rightarrow> ('x, nat) store_op" where
  "new_rdata_buffer data freefunc type readable writable s =
     new_rdata (length (buffers s)) data type
       (s\<lparr>buffers := buffers s @ [Referenced_buffer (Some (data, freefunc, type)) readable writable]\<rparr>)"

section \<open>Linking\<close>

definition get_content :: "'x store_scheme \<Rightarrow> nat \<Rightarrow> nat option" where
  "get_content s other =
     (case r_content (refs s ! other) of
        None \<Rightarrow> None
      | Some c \<Rightarrow> if c_data (contents s ! c) = 0 then None else Some c)"

definition unlink :: "nat \<Rightarrow> ('x, unit) store_op" where
  "unlink i s =
     (case r_content (refs s ! i) of
        None \<Rightarrow> (Inl UB, s)
      | Some c \<Rightarrow>
          let b = c_buffer (contents s ! c); r = refs s ! i in
          collect b
            (upd_ref i (\<lambda>r. r\<lparr>r_content := None\<rparr>)
              (upd_buffer b (\<lambda>B. B\<lparr>b_notifications := filter (\<lambda>kv. fst kv \<noteq> i) (b_notifications B),
                 b_write_locks := b_write_locks B - (if r_R r \<or> r_W r then 1 else 0),
                 b_read_locks := b_read_locks B - (if r_W r then 1 else 0)\<rparr>) s)))"

text \<open>The shared pointer passed to \<open>link\<close> is dropped when the reference is left null.\<close>

definition link :: "nat \<Rightarrow> nat option \<Rightarrow> ('x, unit) store_op" where
  "link i content s =
     (case content of
        None \<Rightarrow> (Inr (), s)
      | Some c \<Rightarrow>
          let b = c_buffer (contents s ! c); B = buffers s ! b; r = refs s ! i in
          if c_data (contents s ! c) = 0 then collect b s
          else if r_R r \<and> b_read_locks B \<noteq> 0 \<or> r_W r \<and> b_write_locks B \<noteq> 0 then collect b s
          else (Inr (),
            upd_buffer b (\<lambda>B. B\<lparr>b_write_locks := b_write_locks B + (if r_R r \<or> r_W r then 1 else 0),
                b_read_locks := b_read_locks B + (if r_W r then 1 else 0)\<rparr>)
              (upd_ref i (\<lambda>r. r\<lparr>r_content := Some c\<rparr>) s)))"

definition is_null :: "nat \<Rightarrow> ('x, bool) store_op" where
  "is_null i s =
     (case r_content (refs s ! i) of
        None \<Rightarrow> (Inr True, s)
      | Some c \<Rightarrow> if c_data (contents s ! c) = 0 then sx_bind (unlink i) (\<lambda>_. sx_return True) s
                  else (Inr False, s))"

definition reset :: "nat \<Rightarrow> ('x, unit) store_op" where
  "reset i s = (if r_content (refs s ! i) \<noteq> None then unlink i s else (Inr (), s))"

definition ref_type :: "nat \<Rightarrow> 'x store_scheme \<Rightarrow> dt" where
  "ref_type i s =
     (case r_content (refs s ! i) of
        None \<Rightarrow> UNDEF_TYPE
      | Some c \<Rightarrow> if c_data (contents s ! c) = 0 then UNDEF_TYPE else c_type (contents s ! c))"

section \<open>Construction, assignment and destruction\<close>

definition null_ref :: "bool \<Rightarrow> bool \<Rightarrow> ('x, nat) store_op" where
  "null_ref R W s = (Inr (length (refs s)), s\<lparr>refs := refs s @ [\<lparr>r_R = R, r_W = W, r_content = None\<rparr>]\<rparr>)"

definition copy_ref :: "bool \<Rightarrow> bool \<Rightarrow> nat \<Rightarrow> ('x, nat) store_op" where
  "copy_ref R W other =
     sx_bind (null_ref R W) (\<lambda>i.
     sx_bind (sx_get (\<lambda>s. get_content s other)) (\<lambda>c.
     sx_bind (link i c) (\<lambda>_. sx_return i)))"

text \<open>The content of another reference with the same rights is stolen.\<close>

definition steal :: "nat \<Rightarrow> nat \<Rightarrow> ('x, unit) store_op" where
  "steal i other s =
     (case r_content (refs s ! other) of
        None \<Rightarrow> (Inr (), s)
      | Some c \<Rightarrow>
          (Inr (), upd_ref other (\<lambda>r. r\<lparr>r_content := None\<rparr>)
             (upd_ref i (\<lambda>r. r\<lparr>r_content := Some c\<rparr>)
               (upd_buffer (c_buffer (contents s ! c))
                  (\<lambda>B. B\<lparr>b_notifications := filter (\<lambda>kv. fst kv \<noteq> other) (b_notifications B)\<rparr>) s))))"

definition move_ref :: "nat \<Rightarrow> ('x, nat) store_op" where
  "move_ref other =
     sx_bind (sx_get (\<lambda>s. refs s ! other)) (\<lambda>r.
     sx_bind (null_ref (r_R r) (r_W r)) (\<lambda>i.
     sx_bind (steal i other) (\<lambda>_. sx_return i)))"

definition make_ref :: "bool \<Rightarrow> bool \<Rightarrow> addr \<Rightarrow> freefunc \<Rightarrow> dt \<Rightarrow> bool \<Rightarrow> bool \<Rightarrow> ('x, nat) store_op" where
  "make_ref R W data freefunc type readable writable =
     (if datasize type \<noteq> 0 \<and> data = 0 \<and> (readable \<or> writable)
      then sx_fail (Throw (Type_error ''Referencing null data with non-null size''))
      else sx_bind (null_ref R W) (\<lambda>i.
           if data \<noteq> 0 then
             sx_bind (new_rdata_buffer data freefunc type readable writable) (\<lambda>c.
             sx_bind (link i (Some c)) (\<lambda>_. sx_return i))
           else sx_return i))"

definition destroy_ref :: "nat \<Rightarrow> ('x, unit) store_op" where
  "destroy_ref i = reset i"

definition move_assign :: "nat \<Rightarrow> nat \<Rightarrow> ('x, unit) store_op" where
  "move_assign i other =
     (if other = i then sx_return ()
      else sx_bind (reset i) (\<lambda>_.
           sx_bind (is_null other) (\<lambda>n.
           if n then sx_return () else steal i other)))"

definition copy_assign :: "nat \<Rightarrow> nat \<Rightarrow> ('x, unit) store_op" where
  "copy_assign i other =
     (if other = i then sx_return ()
      else sx_bind (reset i) (\<lambda>_.
           sx_bind (sx_get (\<lambda>s. get_content s other)) (\<lambda>c. link i c)))"

definition ref_eq :: "nat \<Rightarrow> nat \<Rightarrow> ('x, bool) store_op" where
  "ref_eq i other =
     sx_bind (is_null i) (\<lambda>_. sx_get (\<lambda>s. r_content (refs s ! i) = get_content s other))"

section \<open>Sub-references\<close>

text \<open>A reference without rights to data in the same buffer, from an access to the type.\<close>

definition make_subref :: "nat \<Rightarrow> (dt \<Rightarrow> mem \<Rightarrow> addr \<Rightarrow> (addr \<times> dt) res) \<Rightarrow> ('x, nat) store_op" where
  "make_subref i acc s =
     (case r_content (refs s ! i) of
        None \<Rightarrow> (Inl UB, s)
      | Some c \<Rightarrow>
          sx_bind (sx_lift (acc (ref_type i s) (memory s) (c_data (contents s ! c)))) (\<lambda>(data, type).
          sx_bind (null_ref False False) (\<lambda>result.
          sx_bind (new_rdata (c_buffer (contents s ! c)) data type) (\<lambda>sub.
          sx_bind (link result (Some sub)) (\<lambda>_. sx_return result)))) s)"

definition ref_member :: "nat \<Rightarrow> string \<Rightarrow> ('x, nat) store_op" where
  "ref_member i member_name =
     sx_bind (is_null i) (\<lambda>n.
     if n then sx_fail (Throw (Type_error (''Cannot access member from empty Ref: `'' @ member_name @ [CHR 0x27])))
     else make_subref i (\<lambda>t m data. member_data t member_name m data))"

definition ref_index :: "nat \<Rightarrow> int \<Rightarrow> ('x, nat) store_op" where
  "ref_index i idx =
     sx_bind (is_null i) (\<lambda>n.
     if n then sx_fail (Throw (Type_error (''Cannot access array index from empty Ref: `'' @ fmt_int idx @ [CHR 0x27])))
     else make_subref i (\<lambda>t m data. index_data t (size_of_long idx) m data))"

definition ref_slice :: "nat \<Rightarrow> size_t \<Rightarrow> size_t \<Rightarrow> ('x, nat) store_op" where
  "ref_slice i first second =
     sx_bind (is_null i) (\<lambda>n.
     if n then sx_fail (Throw (Type_error (''Cannot access array slice from empty Ref: `'' @ fmt_nat first @ '':''
       @ fmt_nat second @ [CHR 0x27])))
     else make_subref i (\<lambda>t m data. slice_data t first second m data))"

text \<open>
  \<open>dereference\<close> needs read access: a reference without it goes through a temporary \<open>Ref_r\<close>, which is
  destroyed on every path.
\<close>

definition dereference_readable :: "nat \<Rightarrow> ('x, nat) store_op" where
  "dereference_readable i =
     sx_bind (is_null i) (\<lambda>n.
     if n then sx_fail (Throw (Type_error ''Cannot dereference an empty Ref''))
     else sx_bind (sx_get (ref_type i)) (\<lambda>t.
          case t of
            Pointer _ _ _ _ \<Rightarrow> make_subref i (\<lambda>t m data. dereference_data t m data)
          | _ \<Rightarrow> sx_fail (Throw (Type_error ''Cannot dereference a non pointer_type''))))"

text \<open>An operation with a temporary reference that is destroyed when it returns or throws.\<close>

definition with_ref :: "('x, nat) store_op \<Rightarrow> (nat \<Rightarrow> ('x, 'a) store_op) \<Rightarrow> ('x, 'a) store_op" where
  "with_ref mk f =
     sx_bind mk (\<lambda>t.
     sx_bind (sx_catch (f t) (\<lambda>e. sx_bind (destroy_ref t) (\<lambda>_. sx_fail (Throw e)))) (\<lambda>x.
     sx_bind (destroy_ref t) (\<lambda>_. sx_return x)))"

definition ref_dereference :: "nat \<Rightarrow> ('x, nat) store_op" where
  "ref_dereference i =
     sx_bind (is_null i) (\<lambda>n.
     if n then sx_fail (Throw (Type_error ''Cannot dereference an empty Ref''))
     else sx_bind (sx_get (ref_type i)) (\<lambda>t.
          case t of
            Pointer _ _ _ _ \<Rightarrow>
              sx_bind (sx_get (\<lambda>s. r_R (refs s ! i))) (\<lambda>R.
              if R then make_subref i (\<lambda>t m data. dereference_data t m data)
              else with_ref (copy_ref True False i) dereference_readable)
          | _ \<Rightarrow> sx_fail (Throw (Type_error ''Cannot dereference a non pointer_type''))))"

section \<open>Access to the data\<close>

definition ref_get :: "nat \<Rightarrow> ('x, addr) store_op" where
  "ref_get i =
     sx_bind (is_null i) (\<lambda>n.
     if n then sx_fail (Throw (Permission_error ''Trying to dereference a null reference''))
     else sx_get (\<lambda>s. case r_content (refs s ! i) of Some c \<Rightarrow> c_data (contents s ! c) | None \<Rightarrow> 0))"

definition ref_get_nothrow :: "nat \<Rightarrow> ('x, addr) store_op" where
  "ref_get_nothrow i =
     sx_bind (is_null i) (\<lambda>n.
     if n then sx_return 0
     else sx_get (\<lambda>s. case r_content (refs s ! i) of Some c \<Rightarrow> c_data (contents s ! c) | None \<Rightarrow> 0))"

text \<open>Integers in memory, the lowest byte first, and the scalars a buffer can hold.\<close>

fun read_uint :: "mem \<Rightarrow> addr \<Rightarrow> nat \<Rightarrow> nat" where
  "read_uint m p 0 = 0"
| "read_uint m p (Suc n) = unat (m p) + 256 * read_uint m (Suc p) n"

definition read_sint :: "mem \<Rightarrow> addr \<Rightarrow> nat \<Rightarrow> int" where
  "read_sint m p n = (let v = int (read_uint m p n) in if 2 * v < 256 ^ n then v else v - 256 ^ n)"

fun write_uint :: "addr \<Rightarrow> nat \<Rightarrow> nat \<Rightarrow> mem \<Rightarrow> mem" where
  "write_uint p 0 v m = m"
| "write_uint p (Suc n) v m = (write_uint (Suc p) n (v div 256) m)(p := of_nat v)"

datatype scalar_val = Int_val int | F32_val "32 word" | F64_val "64 word"

text \<open>The value \<open>scalar_value<T>\<close> reads, before its conversion to \<open>T\<close>.\<close>

definition scalar_read :: "scalar_data \<Rightarrow> dt \<Rightarrow> mem \<Rightarrow> addr \<Rightarrow> scalar_val res" where
  "scalar_read d t m p =
     (if sc_kind d = UNSIGNED then
        if buffersize t \<in> {1, 2, 4, 8} then Inr (Int_val (int (read_uint m p (buffersize t))))
        else throw (Type_error ''Unknown size of unsigned integer datatype'')
      else if sc_kind d = SIGNED then
        if buffersize t \<in> {1, 2, 4, 8} then Inr (Int_val (read_sint m p (buffersize t)))
        else throw (Type_error ''Unknown size of integer datatype'')
      else if sc_kind d = FLOAT then
        if buffersize t = 4 then Inr (F32_val (of_nat (read_uint m p 4)))
        else if buffersize t = 8 then Inr (F64_val (of_nat (read_uint m p 8)))
        else throw (Type_error ''Unknown size of float datatype'')
      else throw (Type_error ''Unknown datatype to get value''))"

definition expected_scalar :: "dt \<Rightarrow> 'a res" where
  "expected_scalar t =
     rbind (debug_string t) (\<lambda>s. throw (Type_error (''Expected scalar, found invalid type instead: '' @ s)))"

definition scalar_value :: "nat \<Rightarrow> ('x, scalar_val) store_op" where
  "scalar_value i s =
     (let data = (case r_content (refs s ! i) of Some c \<Rightarrow> c_data (contents s ! c) | None \<Rightarrow> 0) in
      case ref_type i s of
        Scalar d a \<Rightarrow> (scalar_read d (Scalar d a) (memory s) data, s)
      | t \<Rightarrow> (expected_scalar t, s))"

text \<open>
  \<open>scalar_assign\<close> of an integer. The conversions of an integer to the floating point formats are the
  first two arguments.
\<close>

definition scalar_assign ::
    "(int \<Rightarrow> 32 word) \<Rightarrow> (int \<Rightarrow> 64 word) \<Rightarrow> nat \<Rightarrow> int \<Rightarrow> ('x, unit) store_op" where
  "scalar_assign to_float to_double i v s =
     (case ref_type i s of
        Scalar d a \<Rightarrow>
          let n = Scalar_buffersize d in
          if sc_kind d = UNSIGNED \<or> sc_kind d = SIGNED then
            if n \<in> {1, 2, 4, 8} then
              sx_bind (ref_get i) (\<lambda>p. on_memory (sx_modify (write_uint p n (nat (v mod 256 ^ n))))) s
            else (throw (Type_error (if sc_kind d = UNSIGNED then ''Unknown size of unsigned integer datatype''
                                     else ''Unknown size of integer datatype'')), s)
          else if sc_kind d = FLOAT then
            if n = 4 then sx_bind (ref_get i) (\<lambda>p. on_memory (sx_modify (write_uint p 4 (unat (to_float v))))) s
            else if n = 8 then sx_bind (ref_get i) (\<lambda>p. on_memory (sx_modify (write_uint p 8 (unat (to_double v))))) s
            else (throw (Type_error ''Unknown size of float datatype''), s)
          else (throw (Type_error ''Unknown datatype to get value''), s)
      | t \<Rightarrow> (expected_scalar t, s))"

section \<open>Copy\<close>

text \<open>
  \<open>operator new\<close>: memory that has not been handed out before, aligned for every fundamental type.
\<close>

definition operator_new :: "size_t \<Rightarrow> ('x, addr) store_op" where
  "operator_new n s =
     (let p = round_up 16 (heap_top s) in
      (Inr p, s\<lparr>heap_top := p + n, allocated := allocated s @ [p]\<rparr>))"

definition operator_delete :: "addr \<Rightarrow> ('x, unit) store_op" where
  "operator_delete p = sx_modify (\<lambda>s. s\<lparr>freed := freed s @ [(Delete_buffer p, p)]\<rparr>)"

text \<open>
  \<open>std::align\<close> takes the pointer by reference: the variable \<open>buffer\<close> of the source is the aligned
  address afterwards, and this is what the deleter captures.
\<close>

definition do_copy :: "nat \<Rightarrow> ('x, nat) store_op" where
  "do_copy ref =
     sx_bind (sx_get (ref_type ref)) (\<lambda>t.
     sx_bind (sx_lift (densify t)) (\<lambda>densified_type.
     if buffersize densified_type = 0 then null_ref False False
     else
       let size = sz_add (buffersize densified_type) (sz_sub (alignment densified_type) 1) in
       sx_bind (operator_new size) (\<lambda>buffer.
       sx_bind (sx_lift (std_align (alignment densified_type) (buffersize densified_type) buffer size)) (\<lambda>data.
       let buffer = (if data = 0 then buffer else data) in
       sx_bind
         (sx_catch (sx_bind (ref_get ref) (\<lambda>from. on_memory (data_to_dense_copy t data from)))
            (\<lambda>e. sx_bind (operator_delete buffer) (\<lambda>_. sx_fail (Throw e)))) (\<lambda>_.
       make_ref False False data (Delete_buffer buffer) densified_type True True)))))"

definition ref_copy :: "nat \<Rightarrow> ('x, nat) store_op" where
  "ref_copy i = with_ref (copy_ref True False i) do_copy"

section \<open>Release and notification\<close>

definition on_nullify :: "nat \<Rightarrow> nat \<Rightarrow> ('x, unit) store_op" where
  "on_nullify i notifier =
     sx_bind (is_null i) (\<lambda>n.
     if n then sx_return ()
     else sx_modify (\<lambda>s. case r_content (refs s ! i) of
            None \<Rightarrow> s
          | Some c \<Rightarrow> upd_buffer (c_buffer (contents s ! c))
              (\<lambda>B. B\<lparr>b_notifications := AList.update i notifier (b_notifications B)\<rparr>) s))"

definition erase_notification :: "nat \<Rightarrow> nat \<Rightarrow> ('x, unit) store_op" where
  "erase_notification i key s =
     (case r_content (refs s ! i) of
        None \<Rightarrow> (Inl UB, s)
      | Some c \<Rightarrow> (Inr (), upd_buffer (c_buffer (contents s ! c))
          (\<lambda>B. B\<lparr>b_notifications := filter (\<lambda>kv. fst kv \<noteq> key) (b_notifications B)\<rparr>) s))"

text \<open>The loop that calls the notifications; the iteration order of the map is the list order.\<close>

fun notify_loop :: "'x ref_env \<Rightarrow> nat \<Rightarrow> nat \<Rightarrow> ('x, unit) store_op" where
  "notify_loop env fuel i s =
     (case r_content (refs s ! i) of
        None \<Rightarrow> (Inl UB, s)
      | Some c \<Rightarrow>
          (case b_notifications (buffers s ! c_buffer (contents s ! c)) of
             [] \<Rightarrow> (Inr (), s)
           | (key, notifier) # _ \<Rightarrow>
               (case fuel of
                  0 \<Rightarrow> (Inl UB, s)
                | Suc fuel' \<Rightarrow>
                    sx_bind (with_ref (copy_ref False False i) (\<lambda>t. env_nullify env notifier t)) (\<lambda>_.
                    sx_bind (erase_notification i key) (\<lambda>_.
                    (\<lambda>s. notify_loop env fuel' i s))) s)))"

declare notify_loop.simps [simp del]

definition release_content :: "nat \<Rightarrow> ('x, addr) store_op" where
  "release_content i s =
     (case r_content (refs s ! i) of
        None \<Rightarrow> (Inl UB, s)
      | Some c \<Rightarrow>
          let b = c_buffer (contents s ! c); result = c_data (contents s ! c) in
          sx_bind (unlink i) (\<lambda>_. sx_return result)
            (upd_buffer b (\<lambda>B. B\<lparr>b_deallocator := None\<rparr>)
              (upd_data c (\<lambda>d. d\<lparr>c_data := 0\<rparr>) s)))"

definition release :: "'x ref_env \<Rightarrow> nat \<Rightarrow> ('x, addr) store_op" where
  "release env i =
     sx_noexcept (sx_bind (is_null i) (\<lambda>n.
       if n then sx_return 0
       else sx_bind (notify_loop env (env_fuel env) i) (\<lambda>_. release_content i)))"

end
