(* ===== verification/Ref_Invariant.thy ===== *)
theory Ref_Invariant
  imports Ref_Store
begin

text \<open>
  What every operation on references keeps. The primitive changes of the store are named; a
  predicate that they keep is kept by all the operations, errors and callbacks included.
\<close>

section \<open>Primitive changes\<close>

lemma hoare_conj:
  "sx_hoare P f Q E \<Longrightarrow> (\<And>s x s'. P s \<Longrightarrow> f s = (Inr x, s') \<Longrightarrow> Q' x s') \<Longrightarrow> sx_hoare P f (\<lambda>x s. Q x s \<and> Q' x s) E"
  by (auto simp: sx_hoare_def split: prod.splits sum.splits fault.splits)

definition fresh_state :: "addr \<Rightarrow> freefunc \<Rightarrow> dt \<Rightarrow> bool \<Rightarrow> bool \<Rightarrow> 'x store_scheme \<Rightarrow> 'x store_scheme" where
  "fresh_state data f t readable writable s =
     s\<lparr>buffers := buffers s @ [Referenced_buffer (Some (data, f, t)) readable writable],
       contents := contents s @ [\<lparr>c_buffer = length (buffers s), c_data = data, c_type = t\<rparr>]\<rparr>"

definition link_state :: "nat \<Rightarrow> nat \<Rightarrow> 'x store_scheme \<Rightarrow> 'x store_scheme" where
  "link_state i c s =
     upd_buffer (c_buffer (contents s ! c))
       (\<lambda>B. B\<lparr>b_write_locks := b_write_locks B + (if r_R (refs s ! i) \<or> r_W (refs s ! i) then 1 else 0),
              b_read_locks := b_read_locks B + (if r_W (refs s ! i) then 1 else 0)\<rparr>)
       (upd_ref i (\<lambda>r. r\<lparr>r_content := Some c\<rparr>) s)"

definition unlink_state :: "nat \<Rightarrow> nat \<Rightarrow> 'x store_scheme \<Rightarrow> 'x store_scheme" where
  "unlink_state i c s =
     upd_ref i (\<lambda>r. r\<lparr>r_content := None\<rparr>)
       (upd_buffer (c_buffer (contents s ! c))
          (\<lambda>B. B\<lparr>b_notifications := filter (\<lambda>kv. fst kv \<noteq> i) (b_notifications B),
             b_write_locks := b_write_locks B - (if r_R (refs s ! i) \<or> r_W (refs s ! i) then 1 else 0),
             b_read_locks := b_read_locks B - (if r_W (refs s ! i) then 1 else 0)\<rparr>) s)"

definition kill_state :: "nat \<Rightarrow> 'x store_scheme \<Rightarrow> 'x store_scheme" where
  "kill_state b = upd_buffer b (\<lambda>B. B\<lparr>b_alive := False\<rparr>)"

definition steal_state :: "nat \<Rightarrow> nat \<Rightarrow> nat \<Rightarrow> 'x store_scheme \<Rightarrow> 'x store_scheme" where
  "steal_state i other c s =
     upd_ref other (\<lambda>r. r\<lparr>r_content := None\<rparr>)
       (upd_ref i (\<lambda>r. r\<lparr>r_content := Some c\<rparr>)
         (upd_buffer (c_buffer (contents s ! c))
            (\<lambda>B. B\<lparr>b_notifications := filter (\<lambda>kv. fst kv \<noteq> other) (b_notifications B)\<rparr>) s))"

definition has_link :: "'x store_scheme \<Rightarrow> nat \<Rightarrow> bool" where
  "has_link s b \<longleftrightarrow> (\<exists>r \<in> set (refs s). linked_to s b r)"

definition may_link :: "'x store_scheme \<Rightarrow> nat \<Rightarrow> nat \<Rightarrow> bool" where
  "may_link s i b \<longleftrightarrow> (r_R (refs s ! i) \<longrightarrow> b_read_locks (buffers s ! b) = 0)
     \<and> (r_W (refs s ! i) \<longrightarrow> b_write_locks (buffers s ! b) = 0)"

text \<open>Memory, allocations and calls of deallocators do not show in the part of the state with links.\<close>

definition same_links :: "'x store_scheme \<Rightarrow> 'x store_scheme \<Rightarrow> bool" where
  "same_links s s' \<longleftrightarrow> refs s' = refs s \<and> contents s' = contents s \<and> buffers s' = buffers s"

lemma same_links_linked: "same_links s s' \<Longrightarrow> linked_to s' = linked_to s"
  by (auto simp: same_links_def linked_to_def fun_eq_iff split: option.splits)

lemma run_deallocator_links: "run_deallocator b s = (r, s') \<Longrightarrow> same_links s s'"
  by (auto simp: run_deallocator_def on_memory_def sx_bind_def same_links_def split: option.splits prod.splits sum.splits)

lemma same_links_refl [simp]: "same_links s s"
  by (simp add: same_links_def)

lemma same_links_trans: "same_links s t \<Longrightarrow> same_links t u \<Longrightarrow> same_links s u"
  by (simp add: same_links_def)

lemma same_links_kill: "same_links s s' \<Longrightarrow> same_links (kill_state b s) (kill_state b s')"
  by (simp add: same_links_def kill_state_def upd_buffer_def)

lemma destroy_buffer_links:
  assumes "destroy_buffer b s = (r, s')"
  shows "r = Inl UB \<or> r = Inr () \<and> same_links (kill_state b s) s'"
proof (cases "run_deallocator b s")
  case (Pair q s1)
  with run_deallocator_links have "same_links s s1" by blast
  then have "same_links (kill_state b s) (kill_state b s1)" by (rule same_links_kill)
  with Pair assms show ?thesis
    by (cases q) (auto simp: destroy_buffer_def sx_noexcept_def sx_bind_def kill_state_def)
qed

lemma collect_has_link: "has_link s b \<Longrightarrow> collect b s = (Inr (), s)"
  by (simp add: collect_def has_link_def)

lemma collect_no_link: "\<not> has_link s b \<Longrightarrow> b_alive (buffers s ! b) \<Longrightarrow> collect b s = destroy_buffer b s"
  by (simp add: collect_def has_link_def)

lemma unlink_eq: "r_content (refs s ! i) = Some c \<Longrightarrow>
    unlink i s = collect (c_buffer (contents s ! c)) (unlink_state i c s)"
  by (simp add: unlink_def unlink_state_def Let_def)

lemma refs_simps [simp]:
  "refs (unlink_state i c s) = (refs s)[i := (refs s ! i)\<lparr>r_content := None\<rparr>]"
  "refs (link_state i c s) = (refs s)[i := (refs s ! i)\<lparr>r_content := Some c\<rparr>]"
  "refs (kill_state b s) = refs s" "refs (upd_buffer b f s) = refs s" "refs (upd_data c g s) = refs s"
  "refs (upd_ref i h s) = (refs s)[i := h (refs s ! i)]" "refs (fresh_state p f' t x y s) = refs s"
  by (simp_all add: unlink_state_def link_state_def kill_state_def upd_buffer_def upd_ref_def upd_data_def fresh_state_def)

lemma contents_simps [simp]:
  "contents (unlink_state i c s) = contents s" "contents (link_state i c s) = contents s"
  "contents (kill_state b s) = contents s" "contents (upd_buffer b f s) = contents s"
  "contents (upd_data c g s) = (contents s)[c := g (contents s ! c)]" "contents (upd_ref i h s) = contents s"
  "contents (fresh_state p f' t x y s) = contents s @ [\<lparr>c_buffer = length (buffers s), c_data = p, c_type = t\<rparr>]"
  by (simp_all add: unlink_state_def link_state_def kill_state_def upd_buffer_def upd_ref_def upd_data_def fresh_state_def)

lemma buffers_simps [simp]:
  "buffers (upd_buffer b f s) = (buffers s)[b := f (buffers s ! b)]" "buffers (upd_data c g s) = buffers s"
  "buffers (upd_ref i h s) = buffers s"
  "buffers (kill_state b s) = (buffers s)[b := (buffers s ! b)\<lparr>b_alive := False\<rparr>]"
  "buffers (fresh_state p f' t x y s) = buffers s @ [Referenced_buffer (Some (p, f', t)) x y]"
  "length (buffers (unlink_state i c s)) = length (buffers s)" "length (buffers (link_state i c s)) = length (buffers s)"
  by (simp_all add: unlink_state_def link_state_def kill_state_def upd_buffer_def upd_ref_def upd_data_def fresh_state_def)

lemma unlink_state_alive:
  "b < length (buffers s) \<Longrightarrow> b_alive (buffers (unlink_state i c s) ! b) = b_alive (buffers s ! b)"
  by (cases "c_buffer (contents s ! c) < length (buffers s)")
    (simp_all add: unlink_state_def nth_list_update list_update_beyond)

section \<open>Predicates kept by the primitive changes\<close>

locale store_invariant =
  fixes I :: "'x store_scheme \<Rightarrow> bool"
  assumes links: "I s \<Longrightarrow> same_links s s' \<Longrightarrow> I s'"
    and content_valid: "I s \<Longrightarrow> i < length (refs s) \<Longrightarrow> r_content (refs s ! i) = Some c \<Longrightarrow>
      c < length (contents s) \<and> c_buffer (contents s ! c) < length (buffers s)"
    and linked_alive: "I s \<Longrightarrow> i < length (refs s) \<Longrightarrow> r_content (refs s ! i) = Some c \<Longrightarrow>
      b_alive (buffers s ! c_buffer (contents s ! c))"
    and add_ref: "I s \<Longrightarrow> I (s\<lparr>refs := refs s @ [\<lparr>r_R = R, r_W = W, r_content = None\<rparr>]\<rparr>)"
    and add_content: "I s \<Longrightarrow> i < length (refs s) \<Longrightarrow> r_content (refs s ! i) = Some c \<Longrightarrow>
      I (s\<lparr>contents := contents s @ [\<lparr>c_buffer = c_buffer (contents s ! c), c_data = p, c_type = t\<rparr>]\<rparr>)"
    and link_existing: "I s \<Longrightarrow> i < length (refs s) \<Longrightarrow> r_content (refs s ! i) = None \<Longrightarrow> c < length (contents s) \<Longrightarrow>
      has_link s (c_buffer (contents s ! c)) \<Longrightarrow> may_link s i (c_buffer (contents s ! c)) \<Longrightarrow> I (link_state i c s)"
    and link_fresh: "I s \<Longrightarrow> i < length (refs s) \<Longrightarrow> r_content (refs s ! i) = None \<Longrightarrow>
      may_link (fresh_state p f t x y s) i (length (buffers s)) \<Longrightarrow>
      I (link_state i (length (contents s)) (fresh_state p f t x y s))"
    and drop_fresh: "I s \<Longrightarrow> I (kill_state (length (buffers s)) (fresh_state p f t x y s))"
    and unlink_one: "I s \<Longrightarrow> i < length (refs s) \<Longrightarrow> r_content (refs s ! i) = Some c \<Longrightarrow>
      has_link (unlink_state i c s) (c_buffer (contents s ! c)) \<Longrightarrow> I (unlink_state i c s)"
    and unlink_last: "I s \<Longrightarrow> i < length (refs s) \<Longrightarrow> r_content (refs s ! i) = Some c \<Longrightarrow>
      \<not> has_link (unlink_state i c s) (c_buffer (contents s ! c)) \<Longrightarrow>
      I (kill_state (c_buffer (contents s ! c)) (unlink_state i c s))"
    and steal_one: "I s \<Longrightarrow> i < length (refs s) \<Longrightarrow> r_content (refs s ! i) = None \<Longrightarrow> other < length (refs s) \<Longrightarrow>
      r_content (refs s ! other) = Some c \<Longrightarrow> r_R (refs s ! i) = r_R (refs s ! other) \<Longrightarrow>
      r_W (refs s ! i) = r_W (refs s ! other) \<Longrightarrow> I (steal_state i other c s)"
    and notify: "I s \<Longrightarrow> i < length (refs s) \<Longrightarrow> r_content (refs s ! i) = Some c \<Longrightarrow>
      I (upd_buffer (c_buffer (contents s ! c)) (\<lambda>B. B\<lparr>b_notifications := AList.update i n (b_notifications B)\<rparr>) s)"
    and unnotify: "I s \<Longrightarrow> b < length (buffers s) \<Longrightarrow>
      I (upd_buffer b (\<lambda>B. B\<lparr>b_notifications := filter (\<lambda>kv. fst kv \<noteq> k) (b_notifications B)\<rparr>) s)"
    and nullify: "I s \<Longrightarrow> c < length (contents s) \<Longrightarrow>
      I (upd_buffer (c_buffer (contents s ! c)) (\<lambda>B. B\<lparr>b_deallocator := None\<rparr>) (upd_data c (\<lambda>d. d\<lparr>c_data := 0\<rparr>) s))"
begin

lemma unlink_keeps:
  assumes "I s" and "i < length (refs s)" and c: "r_content (refs s ! i) = Some c" and "unlink i s = (r, s')"
  shows "r = Inl UB \<or> r = Inr () \<and> I s' \<and> refs s' = (refs s)[i := (refs s ! i)\<lparr>r_content := None\<rparr>]
    \<and> contents s' = contents s"
proof (cases "has_link (unlink_state i c s) (c_buffer (contents s ! c))")
  case True
  with unlink_one assms show ?thesis by (auto simp: unlink_eq [OF c] collect_has_link)
next
  case False
  let ?b = "c_buffer (contents s ! c)"
  have "b_alive (buffers (unlink_state i c s) ! ?b)"
    using linked_alive content_valid assms by (simp add: unlink_state_alive)
  with False assms(4) have "destroy_buffer ?b (unlink_state i c s) = (r, s')"
    by (simp add: unlink_eq [OF c] collect_no_link)
  then consider "r = Inl UB" | "r = Inr ()" "same_links (kill_state ?b (unlink_state i c s)) s'"
    using destroy_buffer_links by blast
  then show ?thesis
  proof cases
    case 2
    have "I (kill_state ?b (unlink_state i c s))" using unlink_last assms False by blast
    with 2 links have "I s'" by blast
    with 2 show ?thesis by (simp add: same_links_def)
  qed simp
qed

lemma link_existing_keeps:
  assumes "I s" and i: "i < length (refs s)" "r_content (refs s ! i) = None"
    and c: "c < length (contents s)" "has_link s (c_buffer (contents s ! c))"
  shows "\<exists>s'. link i (Some c) s = (Inr (), s') \<and> I s' \<and> contents s' = contents s
    \<and> (refs s' = refs s \<or> refs s' = (refs s)[i := (refs s ! i)\<lparr>r_content := Some c\<rparr>])"
proof (cases "c_data (contents s ! c) \<noteq> 0 \<and> may_link s i (c_buffer (contents s ! c))")
  case True
  then have "link i (Some c) s = (Inr (), link_state i c s)"
    by (auto simp: link_def may_link_def link_state_def Let_def)
  with link_existing assms True show ?thesis by auto
next
  case False
  then have "link i (Some c) s = collect (c_buffer (contents s ! c)) s"
    by (auto simp: link_def may_link_def Let_def)
  with assms show ?thesis by (auto simp: collect_has_link)
qed

lemma link_fresh_keeps:
  assumes "I s" and i: "i < length (refs s)" "r_content (refs s ! i) = None" and p: "p \<noteq> 0"
    and l: "link i (Some (length (contents s))) (fresh_state p f t x y s) = (r, s')"
  shows "r = Inl UB \<or> r = Inr () \<and> I s' \<and> length (refs s') = length (refs s)"
proof -
  let ?s = "fresh_state p f t x y s" and ?b = "length (buffers s)" and ?c = "length (contents s)"
  have c: "c_data (contents ?s ! ?c) = p" "c_buffer (contents ?s ! ?c) = ?b" by simp_all
  show ?thesis
  proof (cases "may_link ?s i ?b")
    case True
    then have "link i (Some ?c) ?s = (Inr (), link_state i ?c ?s)"
      using p by (auto simp: link_def may_link_def link_state_def Let_def nth_append)
    with link_fresh [OF assms(1-3) True] l show ?thesis by auto
  next
    case False
    have "\<not> linked_to ?s ?b r" if "r \<in> set (refs s)" for r
    proof -
      from that obtain j where j: "j < length (refs s)" "r = refs s ! j" by (auto simp: in_set_conv_nth)
      with content_valid [OF \<open>I s\<close> j(1)] show ?thesis
        by (fastforce simp: linked_to_def nth_append split: option.splits)
    qed
    then have "\<not> has_link ?s ?b" by (auto simp: has_link_def)
    moreover have "b_alive (buffers ?s ! ?b)" by (simp add: nth_append Referenced_buffer_def)
    ultimately have "collect ?b ?s = destroy_buffer ?b ?s" by (rule collect_no_link)
    moreover from False p have "link i (Some ?c) ?s = collect ?b ?s"
      by (auto simp: link_def may_link_def Let_def nth_append)
    ultimately have "destroy_buffer ?b ?s = (r, s')" using l by simp
    then consider "r = Inl UB" | "r = Inr ()" "same_links (kill_state ?b ?s) s'"
      using destroy_buffer_links by blast
    then show ?thesis
    proof cases
      case 2
      with drop_fresh [OF \<open>I s\<close>] links have "I s'" by blast
      with 2 show ?thesis by (simp add: same_links_def)
    qed simp
  qed
qed

text \<open>
  The states of an operation that uses the references below \<open>N\<close>, those of \<open>X\<close> being null.
\<close>

definition J :: "nat \<Rightarrow> nat set \<Rightarrow> 'x store_scheme \<Rightarrow> bool" where
  "J N X s \<longleftrightarrow> I s \<and> N \<le> length (refs s) \<and> X \<subseteq> {..<N} \<and> (\<forall>j \<in> X. r_content (refs s ! j) = None)"

lemma J_links: "J N X s \<Longrightarrow> same_links s s' \<Longrightarrow> J N X s'"
  using links by (auto simp: J_def same_links_def)

lemma J_weaken: "J N X s \<Longrightarrow> N' \<le> N \<Longrightarrow> X' \<subseteq> X \<Longrightarrow> X' \<subseteq> {..<N'} \<Longrightarrow> J N' X' s"
  by (auto simp: J_def)

lemma J_drop: "J N (insert i X) s \<Longrightarrow> J N X s"
  by (auto simp: J_def)

lemma keeps_on_memory: "sx_hoare (J N X) (on_memory f) (\<lambda>_. J N X) (J N X)"
proof -
  have "J N X (s\<lparr>memory := m\<rparr>)" if "J N X s" for s m
    using that by (rule J_links) (simp add: same_links_def)
  then show ?thesis by (auto simp: sx_hoare_def on_memory_def split: prod.splits sum.splits fault.splits)
qed

lemma keeps_unlink:
  assumes "i < N"
  shows "sx_hoare (\<lambda>s. J N X s \<and> r_content (refs s ! i) \<noteq> None) (unlink i) (\<lambda>_. J N (insert i X)) E"
  unfolding sx_hoare_def
proof (intro allI impI)
  fix s
  assume a: "J N X s \<and> r_content (refs s ! i) \<noteq> None"
  then obtain c where c: "r_content (refs s ! i) = Some c" by auto
  obtain r s' where u: "unlink i s = (r, s')" by fastforce
  from a assms have "I s" "i < length (refs s)" by (auto simp: J_def)
  from unlink_keeps [OF this c u] a assms
  have "r = Inl UB \<or> r = Inr () \<and> J N (insert i X) s'"
    by (auto simp: J_def nth_list_update)
  with u show "case unlink i s of (Inl (Throw e), s') \<Rightarrow> E s' | (Inl UB, s') \<Rightarrow> True
      | (Inr x, s') \<Rightarrow> J N (insert i X) s'" by auto
qed

lemma keeps_reset:
  assumes "i < N"
  shows "sx_hoare (J N X) (reset i) (\<lambda>_. J N (insert i X)) E"
proof (rule hoare_state)
  fix s
  assume J: "J N X s"
  show "sx_hoare (\<lambda>s'. s' = s) (reset i) (\<lambda>_. J N (insert i X)) E"
  proof (cases "r_content (refs s ! i) = None")
    case True
    with J assms show ?thesis by (auto simp: sx_hoare_def reset_def J_def)
  next
    case False
    with keeps_unlink [OF assms, of X E] J show ?thesis by (auto simp: sx_hoare_def reset_def)
  qed
qed

lemma keeps_is_null:
  assumes "i < N"
  shows "sx_hoare (J N X) (is_null i) (\<lambda>n s. J N X s \<and> (if n then J N (insert i X) s else
    \<exists>c. r_content (refs s ! i) = Some c \<and> c_data (contents s ! c) \<noteq> 0)) E"
proof (rule hoare_state)
  fix s
  assume J: "J N X s"
  show "sx_hoare (\<lambda>s'. s' = s) (is_null i) (\<lambda>n s. J N X s \<and> (if n then J N (insert i X) s else
    \<exists>c. r_content (refs s ! i) = Some c \<and> c_data (contents s ! c) \<noteq> 0)) E"
  proof (cases "r_content (refs s ! i)")
    case None
    with J assms show ?thesis by (auto simp: sx_hoare_def is_null_def J_def)
  next
    case (Some c)
    have u: "sx_hoare (\<lambda>s'. s' = s) (unlink i) (\<lambda>_. J N (insert i X)) E"
      using keeps_unlink [OF assms, of X E] J Some by (auto simp: sx_hoare_def)
    show ?thesis
    proof (cases "c_data (contents s ! c) = 0")
      case True
      have "sx_hoare (\<lambda>s'. s' = s) (sx_bind (unlink i) (\<lambda>_. sx_return True)) (\<lambda>n s. J N X s \<and> (if n then J N (insert i X) s else
        \<exists>c. r_content (refs s ! i) = Some c \<and> c_data (contents s ! c) \<noteq> 0)) E"
        using u by (rule hoare_bind) (auto intro: J_drop)
      with Some True show ?thesis by (simp add: sx_hoare_def is_null_def)
    next
      case False
      with Some J show ?thesis by (simp add: sx_hoare_def is_null_def)
    qed
  qed
qed

lemma keeps_null_ref:
  "sx_hoare (J N X) (null_ref R W) (\<lambda>i s. i \<notin> X \<and> N \<le> i \<and> J (Suc i) (insert i X) s) E"
  using add_ref by (auto simp: sx_hoare_def null_ref_def J_def nth_append lessThan_iff subset_iff)

definition linkable :: "'x store_scheme \<Rightarrow> nat option \<Rightarrow> bool" where
  "linkable s c \<longleftrightarrow> (\<forall>d. c = Some d \<longrightarrow> d < length (contents s) \<and> has_link s (c_buffer (contents s ! d)))"

lemma linked_has_link:
  "i < length (refs s) \<Longrightarrow> r_content (refs s ! i) = Some c \<Longrightarrow> has_link s (c_buffer (contents s ! c))"
  by (auto simp: has_link_def linked_to_def intro!: bexI [of _ "refs s ! i"])

lemma linkable_get_content: "I s \<Longrightarrow> other < length (refs s) \<Longrightarrow> linkable s (get_content s other)"
  using content_valid linked_has_link by (auto simp: linkable_def get_content_def split: option.splits if_splits)

lemma keeps_link:
  assumes "i < N" and "i \<notin> X"
  shows "sx_hoare (\<lambda>s. J N (insert i X) s \<and> linkable s c) (link i c) (\<lambda>_. J N X) E"
  unfolding sx_hoare_def
proof (intro allI impI)
  fix s
  assume a: "J N (insert i X) s \<and> linkable s c"
  show "case link i c s of (Inl (Throw e), s') \<Rightarrow> E s' | (Inl UB, s') \<Rightarrow> True | (Inr x, s') \<Rightarrow> J N X s'"
  proof (cases c)
    case None
    with a J_drop show ?thesis by (auto simp: link_def)
  next
    case (Some d)
    from a assms have pre: "I s" "i < length (refs s)" "r_content (refs s ! i) = None" by (auto simp: J_def)
    from link_existing_keeps [OF pre, of d] a Some obtain s' where
      "link i c s = (Inr (), s')" "I s'"
      "refs s' = refs s \<or> refs s' = (refs s)[i := (refs s ! i)\<lparr>r_content := Some d\<rparr>]"
      by (auto simp: linkable_def)
    with a assms show ?thesis by (fastforce simp: J_def nth_list_update)
  qed
qed

lemma keeps_copy_ref:
  assumes "other < N"
  shows "sx_hoare (J N X) (copy_ref R W other) (\<lambda>i s. N \<le> i \<and> J (Suc i) X s) E"
  unfolding copy_ref_def
proof (rule hoare_bind [OF keeps_null_ref], rule hoare_bind)
  fix i
  show "sx_hoare (\<lambda>s. i \<notin> X \<and> N \<le> i \<and> J (Suc i) (insert i X) s) (sx_get (\<lambda>s. get_content s other))
      (\<lambda>c s. i \<notin> X \<and> N \<le> i \<and> J (Suc i) (insert i X) s \<and> linkable s c) E"
    using assms by (intro hoare_get) (auto simp: J_def intro!: linkable_get_content)
  fix c
  show "sx_hoare (\<lambda>s. i \<notin> X \<and> N \<le> i \<and> J (Suc i) (insert i X) s \<and> linkable s c)
      (sx_bind (link i c) (\<lambda>_. sx_return i)) (\<lambda>i s. N \<le> i \<and> J (Suc i) X s) E"
  proof (cases "i \<notin> X \<and> N \<le> i")
    case True
    have "sx_hoare (\<lambda>s. i \<notin> X \<and> N \<le> i \<and> J (Suc i) (insert i X) s \<and> linkable s c) (link i c) (\<lambda>_. J (Suc i) X) E"
      using True by (intro hoare_pre [OF keeps_link [of i "Suc i" X c]]) auto
    then show ?thesis by (rule hoare_bind) (use True in auto)
  qed (auto simp: sx_hoare_def)
qed

lemma keeps_with_ref:
  assumes mk: "sx_hoare (J N X) mk (\<lambda>t s. N \<le> t \<and> J (Suc t) X s) (J N X)"
    and f: "\<And>t. N \<le> t \<Longrightarrow> sx_hoare (J (Suc t) X) (f t) (\<lambda>x s. \<exists>L. Suc t \<le> L \<and> A x L \<and> J L X s) (J (Suc t) X)"
    and X: "X \<subseteq> {..<N}"
  shows "sx_hoare (J N X) (with_ref mk f) (\<lambda>x s. \<exists>L. N \<le> L \<and> A x L \<and> J L X s) (J N X)"
  unfolding with_ref_def
proof (rule hoare_bind [OF mk])
  fix t
  have destroy: "sx_hoare (J L X) (destroy_ref t) (\<lambda>_. J L X) E" if "t < L" for L E
    using keeps_reset [OF that] unfolding destroy_ref_def
    by (rule hoare_conseq) (auto intro: J_drop)
  show "sx_hoare (\<lambda>s. N \<le> t \<and> J (Suc t) X s) (sx_bind (sx_catch (f t)
      (\<lambda>e. sx_bind (destroy_ref t) (\<lambda>_. sx_fail (Throw e)))) (\<lambda>x. sx_bind (destroy_ref t) (\<lambda>_. sx_return x)))
      (\<lambda>x s. \<exists>L. N \<le> L \<and> A x L \<and> J L X s) (J N X)"
  proof (cases "N \<le> t")
    case True
    show ?thesis
    proof (rule hoare_bind)
      show "sx_hoare (\<lambda>s. N \<le> t \<and> J (Suc t) X s) (sx_catch (f t) (\<lambda>e. sx_bind (destroy_ref t) (\<lambda>_. sx_fail (Throw e))))
        (\<lambda>x s. \<exists>L. Suc t \<le> L \<and> A x L \<and> J L X s) (J N X)"
      proof (rule hoare_catch)
        show "sx_hoare (\<lambda>s. N \<le> t \<and> J (Suc t) X s) (f t) (\<lambda>x s. \<exists>L. Suc t \<le> L \<and> A x L \<and> J L X s) (J (Suc t) X)"
          using f [OF True] by (rule hoare_pre) simp
        fix e
        have "J N X s" if "J (Suc t) X s" for s using that True X by (auto elim: J_weaken)
        then show "sx_hoare (J (Suc t) X) (sx_bind (destroy_ref t) (\<lambda>_. sx_fail (Throw e)))
            (\<lambda>x s. \<exists>L. Suc t \<le> L \<and> A x L \<and> J L X s) (J N X)"
          by (intro hoare_bind [OF destroy [of "Suc t"]]) auto
      qed
      fix x
      show "sx_hoare (\<lambda>s. \<exists>L. Suc t \<le> L \<and> A x L \<and> J L X s) (sx_bind (destroy_ref t) (\<lambda>_. sx_return x))
          (\<lambda>x s. \<exists>L. N \<le> L \<and> A x L \<and> J L X s) (J N X)"
      proof (rule hoare_state)
        fix s
        assume "\<exists>L. Suc t \<le> L \<and> A x L \<and> J L X s"
        then obtain L where L: "Suc t \<le> L" "A x L" "J L X s" by blast
        have "sx_hoare (J L X) (sx_bind (destroy_ref t) (\<lambda>_. sx_return x)) (\<lambda>x s. \<exists>L. N \<le> L \<and> A x L \<and> J L X s) (J N X)"
        proof (rule hoare_bind [OF destroy])
          show "t < L" using L by simp
          show "sx_hoare (J L X) (sx_return x) (\<lambda>x s. \<exists>L. N \<le> L \<and> A x L \<and> J L X s) (J N X)"
            using L(1,2) True by (intro hoare_return exI [of _ L]) simp
        qed
        then show "sx_hoare (\<lambda>s'. s' = s) (sx_bind (destroy_ref t) (\<lambda>_. sx_return x))
          (\<lambda>x s. \<exists>L. N \<le> L \<and> A x L \<and> J L X s) (J N X)"
          by (rule hoare_pre) (use L in simp)
      qed
    qed
  qed (simp add: sx_hoare_def)
qed

section \<open>Operations\<close>

lemma keeps_destroy_ref: "i < N \<Longrightarrow> sx_hoare (J N X) (destroy_ref i) (\<lambda>_. J N X) E"
  unfolding destroy_ref_def by (rule hoare_conseq [OF keeps_reset]) (auto intro: J_drop)

lemma keeps_make_ref:
  "sx_hoare (J N X) (make_ref R W p f t x y) (\<lambda>i s. N \<le> i \<and> J (Suc i) X s) (J N X)"
proof (cases "datasize t \<noteq> 0 \<and> p = 0 \<and> (x \<or> y)")
  case True
  then show ?thesis by (auto simp: make_ref_def)
next
  case False
  have link: "sx_hoare (\<lambda>s. i \<notin> X \<and> N \<le> i \<and> J (Suc i) (insert i X) s)
      (sx_bind (new_rdata_buffer p f t x y) (\<lambda>c. sx_bind (link i (Some c)) (\<lambda>_. sx_return i)))
      (\<lambda>i s. N \<le> i \<and> J (Suc i) X s) (J N X)" if "p \<noteq> 0" for i
    unfolding sx_hoare_def
  proof (intro allI impI)
    fix s
    assume a: "i \<notin> X \<and> N \<le> i \<and> J (Suc i) (insert i X) s"
    then have pre: "I s" "i < length (refs s)" "r_content (refs s ! i) = None" by (auto simp: J_def)
    obtain r s' where l: "link i (Some (length (contents s))) (fresh_state p f t x y s) = (r, s')" by fastforce
    from link_fresh_keeps [OF pre that l] have "r = Inl UB \<or> r = Inr () \<and> I s' \<and> length (refs s') = length (refs s)" .
    moreover have "new_rdata_buffer p f t x y s = (Inr (length (contents s)), fresh_state p f t x y s)"
      by (simp add: new_rdata_buffer_def new_rdata_def fresh_state_def)
    moreover have "refs s' = refs s \<or> refs s' = (refs s)[i := (refs s ! i)\<lparr>r_content := Some (length (contents s))\<rparr>]"
      if "r = Inr ()"
      using l that by (auto simp: link_def Let_def collect_def destroy_buffer_def sx_noexcept_def sx_bind_def
          split: if_splits prod.splits sum.splits dest!: run_deallocator_links simp: same_links_def)
    ultimately show "case sx_bind (new_rdata_buffer p f t x y) (\<lambda>c. sx_bind (link i (Some c)) (\<lambda>_. sx_return i)) s of
        (Inl (Throw e), s') \<Rightarrow> J N X s' | (Inl UB, s') \<Rightarrow> True | (Inr i, s') \<Rightarrow> N \<le> i \<and> J (Suc i) X s'"
      using a l by (auto simp: sx_bind_def J_def nth_list_update)
  qed
  show ?thesis unfolding make_ref_def if_not_P [OF False]
    by (rule hoare_bind [OF keeps_null_ref]) (auto intro: link J_drop)
qed

lemma keeps_steal:
  assumes "i < N" and "other < N" and "i \<notin> X"
  shows "sx_hoare (\<lambda>s. J N (insert i X) s \<and> r_R (refs s ! i) = r_R (refs s ! other)
    \<and> r_W (refs s ! i) = r_W (refs s ! other)) (steal i other) (\<lambda>_. J N X) E"
  unfolding sx_hoare_def
proof (intro allI impI)
  fix s
  assume a: "J N (insert i X) s \<and> r_R (refs s ! i) = r_R (refs s ! other) \<and> r_W (refs s ! i) = r_W (refs s ! other)"
  then have pre: "I s" "i < length (refs s)" "r_content (refs s ! i) = None" "other < length (refs s)"
    using assms by (auto simp: J_def)
  show "case steal i other s of (Inl (Throw e), s') \<Rightarrow> E s' | (Inl UB, s') \<Rightarrow> True | (Inr x, s') \<Rightarrow> J N X s'"
  proof (cases "r_content (refs s ! other)")
    case None
    with a J_drop show ?thesis by (auto simp: steal_def)
  next
    case (Some c)
    then have "steal i other s = (Inr (), steal_state i other c s)" by (simp add: steal_def steal_state_def)
    moreover have "I (steal_state i other c s)" using steal_one [OF pre Some] a by blast
    moreover have "i \<noteq> other" using pre(3) Some by auto
    ultimately show ?thesis using a assms by (auto simp: J_def steal_state_def nth_list_update)
  qed
qed

lemma keeps_move_ref:
  assumes "other < N"
  shows "sx_hoare (J N X) (move_ref other) (\<lambda>i s. N \<le> i \<and> J (Suc i) X s) E"
proof (rule hoare_state)
  fix s
  assume J: "J N X s"
  let ?r = "refs s ! other" and ?i = "length (refs s)"
  let ?s = "s\<lparr>refs := refs s @ [\<lparr>r_R = r_R ?r, r_W = r_W ?r, r_content = None\<rparr>]\<rparr>"
  from keeps_null_ref [of N X "r_R ?r" "r_W ?r"] J have J': "J (Suc ?i) (insert ?i X) ?s" and X: "?i \<notin> X" and "N \<le> ?i"
    by (auto simp: sx_hoare_def null_ref_def)
  have flags: "r_R (refs ?s ! ?i) = r_R (refs ?s ! other) \<and> r_W (refs ?s ! ?i) = r_W (refs ?s ! other)"
    using assms \<open>N \<le> ?i\<close> by (simp add: nth_append)
  obtain r s' where st: "steal ?i other ?s = (r, s')" by fastforce
  have "r = Inr ()" using st by (auto simp: steal_def split: option.splits)
  have "sx_hoare (\<lambda>s. J (Suc ?i) (insert ?i X) s \<and> r_R (refs s ! ?i) = r_R (refs s ! other)
      \<and> r_W (refs s ! ?i) = r_W (refs s ! other)) (steal ?i other) (\<lambda>_. J (Suc ?i) X) E"
    using X assms \<open>N \<le> ?i\<close> by (intro keeps_steal) auto
  from sx_hoareD(1) [OF this, of ?s "()" s'] J' flags st \<open>r = Inr ()\<close> have "J (Suc ?i) X s'" by blast
  with st \<open>r = Inr ()\<close> \<open>N \<le> ?i\<close> show "sx_hoare (\<lambda>s'. s' = s) (move_ref other) (\<lambda>i s. N \<le> i \<and> J (Suc i) X s) E"
    by (simp add: sx_hoare_def move_ref_def null_ref_def sx_bind_def)
qed

lemma keeps_copy_assign:
  assumes "i < N" and "other < N"
  shows "sx_hoare (J N {}) (copy_assign i other) (\<lambda>_. J N {}) E"
proof (cases "other = i")
  case False
  have "sx_hoare (J N {}) (sx_bind (reset i) (\<lambda>_. sx_bind (sx_get (\<lambda>s. get_content s other)) (\<lambda>c. link i c)))
      (\<lambda>_. J N {}) E"
  proof (rule hoare_bind [OF keeps_reset [OF assms(1)]], rule hoare_bind)
    show "sx_hoare (J N {i}) (sx_get (\<lambda>s. get_content s other)) (\<lambda>c s. J N {i} s \<and> linkable s c) E"
      using assms by (intro hoare_get) (auto simp: J_def intro!: linkable_get_content)
    show "sx_hoare (\<lambda>s. J N {i} s \<and> linkable s c) (link i c) (\<lambda>_. J N {}) E" for c
      using keeps_link [OF assms(1), of "{}"] by simp
  qed
  with False show ?thesis by (simp add: copy_assign_def)
qed (auto simp: copy_assign_def)

text \<open>Resetting a reference or testing it for null changes no rights.\<close>

lemma no_content_update: "r_content r = None \<Longrightarrow> r\<lparr>r_content := None\<rparr> = r"
  by (cases r) simp

lemma reset_refs:
  assumes "I s" and "i < length (refs s)" and r: "reset i s = (Inr (), s')"
  shows "refs s' = (refs s)[i := (refs s ! i)\<lparr>r_content := None\<rparr>]"
proof (cases "r_content (refs s ! i)")
  case None
  with r show ?thesis by (simp add: reset_def no_content_update)
next
  case (Some c)
  with r have "unlink i s = (Inr (), s')" by (simp add: reset_def)
  from unlink_keeps [OF assms(1,2) Some this] show ?thesis by simp
qed

lemma is_null_refs:
  assumes "I s" and "i < length (refs s)" and r: "is_null i s = (Inr n, s')"
  shows "refs s' = (if n then (refs s)[i := (refs s ! i)\<lparr>r_content := None\<rparr>] else refs s)"
proof (cases "r_content (refs s ! i)")
  case None
  with r show ?thesis by (auto simp: is_null_def no_content_update)
next
  case (Some c)
  show ?thesis
  proof (cases "c_data (contents s ! c) = 0")
    case True
    obtain q s1 where u: "unlink i s = (q, s1)" by fastforce
    with unlink_keeps [OF assms(1,2) Some u] r Some True show ?thesis
      by (auto simp: is_null_def sx_bind_def)
  next
    case False
    with r Some show ?thesis by (simp add: is_null_def)
  qed
qed

lemma keeps_move_assign:
  assumes "i < N" and "other < N"
  shows "sx_hoare (\<lambda>s. J N {} s \<and> r_R (refs s ! i) = r_R (refs s ! other) \<and> r_W (refs s ! i) = r_W (refs s ! other))
    (move_assign i other) (\<lambda>_. J N {}) E"
proof (cases "other = i")
  case False
  let ?same = "\<lambda>s. r_R (refs s ! i) = r_R (refs s ! other) \<and> r_W (refs s ! i) = r_W (refs s ! other)"
  have "sx_hoare (\<lambda>s. J N {} s \<and> ?same s) (reset i) (\<lambda>_ s. J N {i} s \<and> ?same s) E"
  proof (rule hoare_conj)
    show "sx_hoare (\<lambda>s. J N {} s \<and> ?same s) (reset i) (\<lambda>_. J N {i}) E"
      using keeps_reset [OF assms(1), of "{}" E] by (rule hoare_pre) simp
    fix s x s'
    assume "J N {} s \<and> ?same s" and "reset i s = (Inr x, s')"
    with assms False reset_refs [of s i s'] show "?same s'" by (simp add: J_def)
  qed
  moreover have "sx_hoare (\<lambda>s. J N {i} s \<and> ?same s) (is_null other) (\<lambda>n s. J N {i} s \<and> ?same s) E"
  proof (rule hoare_conj)
    show "sx_hoare (\<lambda>s. J N {i} s \<and> ?same s) (is_null other) (\<lambda>n. J N {i}) E"
      using keeps_is_null [OF assms(2), of "{i}" E] by (rule hoare_conseq) auto
    fix s n s'
    assume "J N {i} s \<and> ?same s" and "is_null other s = (Inr n, s')"
    with assms False is_null_refs [of s other n s'] show "?same s'" by (simp add: J_def)
  qed
  moreover have "sx_hoare (\<lambda>s. J N {i} s \<and> ?same s) (if n then sx_return () else steal i other) (\<lambda>_. J N {}) E" for n
    using keeps_steal [OF assms, of "{}" E] by (auto intro: J_drop)
  ultimately have "sx_hoare (\<lambda>s. J N {} s \<and> ?same s)
      (sx_bind (reset i) (\<lambda>_. sx_bind (is_null other) (\<lambda>n. if n then sx_return () else steal i other))) (\<lambda>_. J N {}) E"
    by (blast intro: hoare_bind)
  with False show ?thesis by (simp add: move_assign_def)
qed (auto simp: move_assign_def)

lemma keeps_make_subref:
  assumes "i < N"
  shows "sx_hoare (J N X) (make_subref i acc) (\<lambda>r s. N \<le> r \<and> J (Suc r) X s) (J N X)"
proof (rule hoare_state)
  fix s
  assume J: "J N X s"
  show "sx_hoare (\<lambda>s'. s' = s) (make_subref i acc) (\<lambda>r s. N \<le> r \<and> J (Suc r) X s) (J N X)"
  proof (cases "r_content (refs s ! i)")
    case None
    then show ?thesis by (simp add: sx_hoare_def make_subref_def)
  next
    case (Some c)
    let ?b = "c_buffer (contents s ! c)"
    have sub: "sx_hoare (\<lambda>s'. s' = s) (sx_lift r) (\<lambda>_ s'. s' = s) (J N X)" for r :: "(addr \<times> dt) res"
      using J by (auto simp: sx_hoare_def split: sum.splits fault.splits)
    have link: "sx_hoare (\<lambda>s'. s' = s) (sx_bind (null_ref False False) (\<lambda>result.
        sx_bind (new_rdata ?b data type) (\<lambda>sub. sx_bind (link result (Some sub)) (\<lambda>_. sx_return result))))
        (\<lambda>r s. N \<le> r \<and> J (Suc r) X s) (J N X)" for data type
    proof -
      let ?i = "length (refs s)" and ?c = "length (contents s)"
      let ?s1 = "s\<lparr>refs := refs s @ [\<lparr>r_R = False, r_W = False, r_content = None\<rparr>]\<rparr>"
      let ?s2 = "?s1\<lparr>contents := contents ?s1 @ [\<lparr>c_buffer = ?b, c_data = data, c_type = type\<rparr>]\<rparr>"
      from keeps_null_ref [of N X False False] J have J1: "J (Suc ?i) (insert ?i X) ?s1" and X: "?i \<notin> X" and N: "N \<le> ?i"
        by (auto simp: sx_hoare_def null_ref_def)
      have i: "i < length (refs ?s1)" "r_content (refs ?s1 ! i) = Some c" using assms N Some by (auto simp: nth_append)
      from J1 add_content [of ?s1, OF _ i] have "I ?s2" by (simp add: J_def)
      with J1 have J2: "J (Suc ?i) (insert ?i X) ?s2" by (simp add: J_def)
      from content_valid [OF \<open>I ?s2\<close>, of i c] i have c: "c < length (contents s)"
        using content_valid [of ?s1 i c] J1 by (simp add: J_def)
      have "has_link ?s2 ?b" using linked_has_link [of i ?s2 c] i c by (simp add: nth_append)
      then have "linkable ?s2 (Some ?c)" by (simp add: linkable_def)
      with J2 X have "sx_hoare (\<lambda>s. s = ?s2) (link ?i (Some ?c)) (\<lambda>_. J (Suc ?i) X) (J N X)"
        by (intro hoare_pre [OF keeps_link [of ?i "Suc ?i" X]]) auto
      then have "sx_hoare (\<lambda>s. s = ?s2) (sx_bind (link ?i (Some ?c)) (\<lambda>_. sx_return ?i))
          (\<lambda>r s. N \<le> r \<and> J (Suc r) X s) (J N X)"
        by (rule hoare_bind) (use N in auto)
      then show ?thesis by (simp add: sx_hoare_def null_ref_def new_rdata_def sx_bind_def)
    qed
    have "sx_hoare (\<lambda>s'. s' = s) (sx_bind (sx_lift (acc (ref_type i s) (memory s) (c_data (contents s ! c)))) (\<lambda>(data, type).
        sx_bind (null_ref False False) (\<lambda>result. sx_bind (new_rdata ?b data type) (\<lambda>sub.
        sx_bind (link result (Some sub)) (\<lambda>_. sx_return result))))) (\<lambda>r s. N \<le> r \<and> J (Suc r) X s) (J N X)"
      by (rule hoare_bind [OF sub]) (auto intro: link)
    with Some show ?thesis by (simp add: sx_hoare_def make_subref_def)
  qed
qed

lemma keeps_guarded:
  assumes "i < N" and "sx_hoare (J N X) f Q (J N X)"
  shows "sx_hoare (J N X) (sx_bind (is_null i) (\<lambda>n. if n then sx_fail e else f)) Q (J N X)"
proof (rule hoare_bind [OF keeps_is_null [OF assms(1)]])
  show "sx_hoare (\<lambda>s. J N X s \<and> (if n then J N (insert i X) s else
      \<exists>c. r_content (refs s ! i) = Some c \<and> c_data (contents s ! c) \<noteq> 0)) (if n then sx_fail e else f) Q (J N X)" for n
    using assms(2) by (auto elim: hoare_pre)
qed

lemma keeps_ref_member: "i < N \<Longrightarrow> sx_hoare (J N X) (ref_member i n) (\<lambda>r s. N \<le> r \<and> J (Suc r) X s) (J N X)"
  unfolding ref_member_def by (rule keeps_guarded) (auto intro: keeps_make_subref)

lemma keeps_ref_index: "i < N \<Longrightarrow> sx_hoare (J N X) (ref_index i k) (\<lambda>r s. N \<le> r \<and> J (Suc r) X s) (J N X)"
  unfolding ref_index_def by (rule keeps_guarded) (auto intro: keeps_make_subref)

lemma keeps_ref_slice: "i < N \<Longrightarrow> sx_hoare (J N X) (ref_slice i a b) (\<lambda>r s. N \<le> r \<and> J (Suc r) X s) (J N X)"
  unfolding ref_slice_def by (rule keeps_guarded) (auto intro: keeps_make_subref)

lemma keeps_get: "sx_hoare (J N X) (sx_get f) (\<lambda>_. J N X) E"
  by auto

lemma keeps_dereference_readable:
  assumes "i < N"
  shows "sx_hoare (J N X) (dereference_readable i) (\<lambda>r s. N \<le> r \<and> J (Suc r) X s) (J N X)"
  unfolding dereference_readable_def
proof (rule keeps_guarded [OF assms], rule hoare_bind [OF keeps_get])
  fix t
  show "sx_hoare (J N X) (case t of Pointer _ _ _ _ \<Rightarrow> make_subref i (\<lambda>t m data. dereference_data t m data)
      | _ \<Rightarrow> sx_fail (Throw (Type_error ''Cannot dereference a non pointer_type'')))
      (\<lambda>r s. N \<le> r \<and> J (Suc r) X s) (J N X)"
    using keeps_make_subref [OF assms] by (cases t) auto
qed

lemma keeps_ref_dereference:
  assumes "i < N"
  shows "sx_hoare (J N {}) (ref_dereference i) (\<lambda>r s. N \<le> r \<and> J (Suc r) {} s) (J N {})"
  unfolding ref_dereference_def
proof (rule keeps_guarded [OF assms], rule hoare_bind [OF keeps_get])
  fix t
  have "sx_hoare (J N {}) (with_ref (copy_ref True False i) dereference_readable)
      (\<lambda>r s. \<exists>L. N \<le> L \<and> (L = Suc r \<and> N \<le> r) \<and> J L {} s) (J N {})"
  proof (rule keeps_with_ref [OF keeps_copy_ref [OF assms]])
    fix t :: nat
    assume "N \<le> t"
    then show "sx_hoare (J (Suc t) {}) (dereference_readable t)
        (\<lambda>r s. \<exists>L. Suc t \<le> L \<and> (L = Suc r \<and> N \<le> r) \<and> J L {} s) (J (Suc t) {})"
      by (intro hoare_conseq [OF keeps_dereference_readable [of t "Suc t" "{}"]]) auto
  qed simp
  then have temp: "sx_hoare (J N {}) (with_ref (copy_ref True False i) dereference_readable)
      (\<lambda>r s. N \<le> r \<and> J (Suc r) {} s) (J N {})" by (rule hoare_conseq) auto
  show "sx_hoare (J N {}) (case t of
      Pointer _ _ _ _ \<Rightarrow> sx_bind (sx_get (\<lambda>s. r_R (refs s ! i))) (\<lambda>R. if R
        then make_subref i (\<lambda>t m data. dereference_data t m data)
        else with_ref (copy_ref True False i) dereference_readable)
      | _ \<Rightarrow> sx_fail (Throw (Type_error ''Cannot dereference a non pointer_type'')))
      (\<lambda>r s. N \<le> r \<and> J (Suc r) {} s) (J N {})"
    using keeps_make_subref [OF assms, of "{}"] temp
    by (cases t) (auto intro!: hoare_bind [OF keeps_get])
qed

lemma keeps_ref_get: "i < N \<Longrightarrow> sx_hoare (J N X) (ref_get i) (\<lambda>_. J N X) (J N X)"
  unfolding ref_get_def by (rule keeps_guarded) auto

lemma keeps_ref_get_nothrow: "i < N \<Longrightarrow> sx_hoare (J N X) (ref_get_nothrow i) (\<lambda>_. J N X) (J N X)"
  unfolding ref_get_nothrow_def by (rule hoare_bind [OF keeps_is_null]) auto

lemma keeps_scalar_value: "sx_hoare (J N X) (scalar_value i) (\<lambda>_. J N X) (J N X)"
  by (auto simp: sx_hoare_def scalar_value_def Let_def split: dt.splits sum.splits fault.splits prod.splits)

lemma keeps_scalar_assign:
  assumes "i < N"
  shows "sx_hoare (J N X) (scalar_assign to_float to_double i v) (\<lambda>_. J N X) (J N X)"
proof (rule hoare_state)
  fix s
  assume "J N X s"
  have w: "sx_hoare (\<lambda>s'. s' = s) (sx_bind (ref_get i) (\<lambda>p. on_memory (f p))) (\<lambda>_. J N X) (J N X)"
    for f :: "addr \<Rightarrow> unit memory_op"
    by (rule hoare_pre, rule hoare_bind [OF keeps_ref_get [OF assms] keeps_on_memory]) (use \<open>J N X s\<close> in simp)
  have e: "sx_hoare (\<lambda>s'. s' = s) (\<lambda>s. (r, s)) (\<lambda>_. J N X) (J N X)" for r :: "unit res"
    using \<open>J N X s\<close> by (auto simp: sx_hoare_def split: sum.splits fault.splits)
  show "sx_hoare (\<lambda>s'. s' = s) (scalar_assign to_float to_double i v) (\<lambda>_. J N X) (J N X)"
    using w e \<open>J N X s\<close> by (simp add: sx_hoare_def scalar_assign_def Let_def split: dt.splits)
qed

lemma keeps_same_links:
  assumes "\<And>s. same_links s (snd (f s))" and "\<And>s. \<exists>x. fst (f s) = Inr x"
  shows "sx_hoare (J N X) f (\<lambda>_. J N X) E"
  unfolding sx_hoare_def
proof (intro allI impI)
  fix s
  assume "J N X s"
  then have "J N X (snd (f s))" using assms(1) by (rule J_links)
  moreover obtain x where "fst (f s) = Inr x" using assms(2) by blast
  ultimately show "case f s of (Inl (Throw e), s') \<Rightarrow> E s' | (Inl UB, s') \<Rightarrow> True | (Inr x, s') \<Rightarrow> J N X s'"
    by (cases "f s") auto
qed

lemma keeps_heap:
  "sx_hoare (J N X) (operator_new n) (\<lambda>_. J N X) E" "sx_hoare (J N X) (operator_delete p) (\<lambda>_. J N X) E"
  by (rule keeps_same_links; simp add: operator_new_def operator_delete_def same_links_def Let_def)+

lemma keeps_lift: "sx_hoare (J N X) (sx_lift r) (\<lambda>_. J N X) (J N X)"
  by auto

lemma keeps_do_copy:
  assumes "i < N"
  shows "sx_hoare (J N X) (do_copy i) (\<lambda>r s. N \<le> r \<and> J (Suc r) X s) (J N X)"
  unfolding do_copy_def
proof (rule hoare_bind [OF keeps_get], rule hoare_bind [OF keeps_lift])
  fix t d
  let ?size = "sz_add (buffersize d) (sz_sub (alignment d) 1)"
  have null: "sx_hoare (J N X) (null_ref False False) (\<lambda>r s. N \<le> r \<and> J (Suc r) X s) (J N X)"
    by (rule hoare_conseq [OF keeps_null_ref]) (auto intro: J_drop)
  have copy: "sx_hoare (J N X) (sx_catch (sx_bind (ref_get i) (\<lambda>from. on_memory (data_to_dense_copy t p from)))
      (\<lambda>e. sx_bind (operator_delete b) (\<lambda>_. sx_fail (Throw e)))) (\<lambda>_. J N X) (J N X)" for b p
  proof (rule hoare_catch)
    show "sx_hoare (J N X) (sx_bind (ref_get i) (\<lambda>from. on_memory (data_to_dense_copy t p from))) (\<lambda>_. J N X) (J N X)"
      by (rule hoare_bind [OF keeps_ref_get [OF assms] keeps_on_memory])
    show "sx_hoare (J N X) (sx_bind (operator_delete b) (\<lambda>_. sx_fail (Throw e))) (\<lambda>_. J N X) (J N X)" for e
      by (rule hoare_bind [OF keeps_heap(2)]) auto
  qed
  have "sx_hoare (J N X) (sx_bind (operator_new ?size) (\<lambda>buffer.
      sx_bind (sx_lift (std_align (alignment d) (buffersize d) buffer ?size)) (\<lambda>data.
      let buffer = (if data = 0 then buffer else data) in
      sx_bind (sx_catch (sx_bind (ref_get i) (\<lambda>from. on_memory (data_to_dense_copy t data from)))
          (\<lambda>e. sx_bind (operator_delete buffer) (\<lambda>_. sx_fail (Throw e)))) (\<lambda>_.
      make_ref False False data (Delete_buffer buffer) d True True))))
      (\<lambda>r s. N \<le> r \<and> J (Suc r) X s) (J N X)"
    unfolding Let_def
    by (rule hoare_bind [OF keeps_heap(1)], rule hoare_bind [OF keeps_lift], rule hoare_bind [OF copy keeps_make_ref])
  with null show "sx_hoare (J N X) (if buffersize d = 0 then null_ref False False
      else let size = ?size in sx_bind (operator_new size) (\<lambda>buffer.
      sx_bind (sx_lift (std_align (alignment d) (buffersize d) buffer size)) (\<lambda>data.
      let buffer = (if data = 0 then buffer else data) in
      sx_bind (sx_catch (sx_bind (ref_get i) (\<lambda>from. on_memory (data_to_dense_copy t data from)))
          (\<lambda>e. sx_bind (operator_delete buffer) (\<lambda>_. sx_fail (Throw e)))) (\<lambda>_.
      make_ref False False data (Delete_buffer buffer) d True True))))
      (\<lambda>r s. N \<le> r \<and> J (Suc r) X s) (J N X)"
    unfolding Let_def by (rule hoare_if)
qed

lemma keeps_ref_copy:
  assumes "i < N"
  shows "sx_hoare (J N {}) (ref_copy i) (\<lambda>r s. N \<le> r \<and> J (Suc r) {} s) (J N {})"
proof -
  have "sx_hoare (J N {}) (with_ref (copy_ref True False i) do_copy)
      (\<lambda>r s. \<exists>L. N \<le> L \<and> (L = Suc r \<and> N \<le> r) \<and> J L {} s) (J N {})"
  proof (rule keeps_with_ref [OF keeps_copy_ref [OF assms]])
    fix t :: nat
    assume "N \<le> t"
    then show "sx_hoare (J (Suc t) {}) (do_copy t)
        (\<lambda>r s. \<exists>L. Suc t \<le> L \<and> (L = Suc r \<and> N \<le> r) \<and> J L {} s) (J (Suc t) {})"
      by (intro hoare_conseq [OF keeps_do_copy [of t "Suc t" "{}"]]) auto
  qed simp
  then show ?thesis unfolding ref_copy_def by (rule hoare_conseq) auto
qed

lemma keeps_on_nullify:
  assumes "i < N"
  shows "sx_hoare (J N X) (on_nullify i n) (\<lambda>_. J N X) E"
  unfolding on_nullify_def
proof (rule hoare_bind [OF keeps_is_null [OF assms]])
  fix b
  have "J N X (upd_buffer (c_buffer (contents s ! c))
      (\<lambda>B. B\<lparr>b_notifications := AList.update i n (b_notifications B)\<rparr>) s)"
    if "J N X s" "r_content (refs s ! i) = Some c" for s c
    using that notify [of s i c n] assms by (simp add: J_def)
  then show "sx_hoare (\<lambda>s. J N X s \<and> (if b then J N (insert i X) s else
      \<exists>c. r_content (refs s ! i) = Some c \<and> c_data (contents s ! c) \<noteq> 0))
      (if b then sx_return () else sx_modify (\<lambda>s. case r_content (refs s ! i) of None \<Rightarrow> s
        | Some c \<Rightarrow> upd_buffer (c_buffer (contents s ! c))
            (\<lambda>B. B\<lparr>b_notifications := AList.update i n (b_notifications B)\<rparr>) s)) (\<lambda>_. J N X) E"
    by auto
qed

lemma keeps_erase_notification:
  assumes "i < N"
  shows "sx_hoare (J N X) (erase_notification i k) (\<lambda>_. J N X) E"
proof -
  have "J N X (upd_buffer (c_buffer (contents s ! c))
      (\<lambda>B. B\<lparr>b_notifications := filter (\<lambda>kv. fst kv \<noteq> k) (b_notifications B)\<rparr>) s)"
    if "J N X s" "r_content (refs s ! i) = Some c" for s c
    using that unnotify [of s "c_buffer (contents s ! c)" k] content_valid [of s i c] assms by (simp add: J_def)
  then show ?thesis by (auto simp: sx_hoare_def erase_notification_def split: option.splits)
qed

definition callbacks_keep :: "'x ref_env \<Rightarrow> bool" where
  "callbacks_keep env \<longleftrightarrow> (\<forall>cb t N. t < N \<longrightarrow> sx_hoare (J N {}) (env_nullify env cb t) (\<lambda>_. J N {}) (J N {}))"

lemma keeps_notify_loop:
  assumes env: "callbacks_keep env" and "i < N"
  shows "sx_hoare (J N {}) (\<lambda>s. notify_loop env fuel i s) (\<lambda>_. J N {}) (J N {})"
proof (induction fuel)
  case (Suc fuel)
  have call: "sx_hoare (J N {}) (with_ref (copy_ref False False i) (\<lambda>t. env_nullify env cb t)) (\<lambda>_. J N {}) (J N {})" for cb
  proof -
    have "sx_hoare (J N {}) (with_ref (copy_ref False False i) (\<lambda>t. env_nullify env cb t))
        (\<lambda>x s. \<exists>L. N \<le> L \<and> True \<and> J L {} s) (J N {})"
    proof (rule keeps_with_ref [OF keeps_copy_ref [OF assms(2)]])
      fix t :: nat
      assume "N \<le> t"
      have "sx_hoare (J (Suc t) {}) (env_nullify env cb t) (\<lambda>_. J (Suc t) {}) (J (Suc t) {})"
        using env by (simp add: callbacks_keep_def)
      then show "sx_hoare (J (Suc t) {}) (env_nullify env cb t) (\<lambda>x s. \<exists>L. Suc t \<le> L \<and> True \<and> J L {} s) (J (Suc t) {})"
        by (rule hoare_conseq) auto
    qed simp
    then show ?thesis by (rule hoare_conseq) (auto elim: J_weaken)
  qed
  have step: "sx_hoare (J N {}) (sx_bind (with_ref (copy_ref False False i) (\<lambda>t. env_nullify env cb t)) (\<lambda>_.
      sx_bind (erase_notification i k) (\<lambda>_. (\<lambda>s. notify_loop env fuel i s)))) (\<lambda>_. J N {}) (J N {})" for cb k
    by (rule hoare_bind [OF call], rule hoare_bind [OF keeps_erase_notification [OF assms(2)] Suc.IH])
  show ?case
    unfolding sx_hoare_def
  proof (intro allI impI)
    fix s
    assume "J N {} s"
    with step show "case notify_loop env (Suc fuel) i s of (Inl (Throw e), s') \<Rightarrow> J N {} s' | (Inl UB, s') \<Rightarrow> True
        | (Inr x, s') \<Rightarrow> J N {} s'"
      by (subst notify_loop.simps) (auto simp: sx_hoare_def split: option.splits list.splits)
  qed
qed (auto simp: sx_hoare_def notify_loop.simps split: option.splits list.splits)

lemma keeps_release_content:
  assumes "i < N"
  shows "sx_hoare (J N X) (release_content i) (\<lambda>_. J N X) E"
proof (rule hoare_state)
  fix s
  assume J: "J N X s"
  show "sx_hoare (\<lambda>s'. s' = s) (release_content i) (\<lambda>_. J N X) E"
  proof (cases "r_content (refs s ! i)")
    case None
    then show ?thesis by (simp add: sx_hoare_def release_content_def)
  next
    case (Some c)
    let ?b = "c_buffer (contents s ! c)"
    let ?s = "upd_buffer ?b (\<lambda>B. B\<lparr>b_deallocator := None\<rparr>) (upd_data c (\<lambda>d. d\<lparr>c_data := 0\<rparr>) s)"
    have "c < length (contents s)" using J assms content_valid [of s i c] Some by (simp add: J_def)
    with J nullify have "J N X ?s" by (simp add: J_def)
    then have "sx_hoare (\<lambda>s'. s' = ?s) (sx_bind (unlink i) (\<lambda>_. sx_return (c_data (contents s ! c)))) (\<lambda>_. J N X) E"
      using Some by (intro hoare_bind [OF hoare_pre [OF keeps_unlink [OF assms, of X]]]) (auto intro: J_drop)
    with Some show ?thesis by (simp add: sx_hoare_def release_content_def Let_def)
  qed
qed

lemma keeps_release:
  assumes "callbacks_keep env" and "i < N"
  shows "sx_hoare (J N {}) (release env i) (\<lambda>_. J N {}) E"
  unfolding release_def
proof (rule hoare_noexcept [where E' = "J N {}"], rule hoare_bind [OF keeps_is_null [OF assms(2)]])
  fix n
  have "sx_hoare (J N {}) (sx_bind (notify_loop env (env_fuel env) i) (\<lambda>_. release_content i)) (\<lambda>_. J N {}) (J N {})"
    by (rule hoare_bind [OF keeps_notify_loop [OF assms] keeps_release_content [OF assms(2)]])
  then show "sx_hoare (\<lambda>s. J N {} s \<and> (if n then J N (insert i {}) s else
      \<exists>c. r_content (refs s ! i) = Some c \<and> c_data (contents s ! c) \<noteq> 0))
      (if n then sx_return 0 else sx_bind (notify_loop env (env_fuel env) i) (\<lambda>_. release_content i)) (\<lambda>_. J N {}) (J N {})"
    by (auto elim: hoare_pre)
qed

end

end
