(* ===== verification/Ref_Locks.thy ===== *)
theory Ref_Locks
  imports Ref_Invariant
begin

text \<open>
  The invariant of the reference store: links lead to data and buffers that exist, a buffer is alive
  exactly as long as a reference is linked to it, only linked references have notifications, and the
  lock counters count the linked references, of which a writer excludes every other reader and writer.
\<close>

section \<open>Counting linked references\<close>

lemma length_filter_update:
  "i < length xs \<Longrightarrow> length (filter P (xs[i := y])) + (if P (xs ! i) then 1 else 0)
     = length (filter P xs) + (if P y then 1 else 0)"
proof (induction xs arbitrary: i)
  case (Cons x xs)
  then show ?case by (cases i) auto
qed simp

definition linked_count :: "(reference \<Rightarrow> bool) \<Rightarrow> 'x store_scheme \<Rightarrow> nat \<Rightarrow> nat" where
  "linked_count P s b = length (filter (\<lambda>r. linked_to s b r \<and> P r) (refs s))"

abbreviation writers :: "'x store_scheme \<Rightarrow> nat \<Rightarrow> nat" where
  "writers \<equiv> linked_count r_W"

abbreviation users :: "'x store_scheme \<Rightarrow> nat \<Rightarrow> nat" where
  "users \<equiv> linked_count (\<lambda>r. r_R r \<or> r_W r)"

lemma linked_to_contents: "contents s' = contents s \<Longrightarrow> linked_to s' b r = linked_to s b r"
  by (simp add: linked_to_def split: option.splits)

lemma linked_count_same:
  assumes "refs s' = refs s" and "contents s' = contents s"
  shows "linked_count P s' b = linked_count P s b"
  unfolding linked_count_def linked_to_contents [OF assms(2)] assms(1) ..

lemma length_filter_mono: "(\<And>x. P x \<Longrightarrow> Q x) \<Longrightarrow> length (filter P xs) \<le> length (filter Q xs)"
  by (induction xs) (auto simp: le_SucI)

lemma linked_count_le: "(\<And>r. P r \<Longrightarrow> Q r) \<Longrightarrow> linked_count P s b \<le> linked_count Q s b"
  unfolding linked_count_def by (rule length_filter_mono) blast

text \<open>The count after one reference changed.\<close>

lemma linked_count_update:
  assumes "i < length (refs s)" and "refs s' = (refs s)[i := r]" and "contents s' = contents s"
  shows "linked_count P s' b + (if linked_to s b (refs s ! i) \<and> P (refs s ! i) then 1 else 0)
    = linked_count P s b + (if linked_to s b r \<and> P r then 1 else 0)"
proof -
  have "linked_to s' = linked_to s" using linked_to_contents [OF assms(3)] by (simp add: fun_eq_iff)
  then show ?thesis
    using length_filter_update [OF assms(1), of "\<lambda>r. linked_to s b r \<and> P r" r]
    by (simp only: linked_count_def assms(2))
qed

section \<open>The invariant\<close>

definition valid_links :: "'x store_scheme \<Rightarrow> bool" where
  "valid_links s \<longleftrightarrow> (\<forall>r \<in> set (refs s). \<forall>c. r_content r = Some c \<longrightarrow> c < length (contents s))
     \<and> (\<forall>d \<in> set (contents s). c_buffer d < length (buffers s))"

definition lock_ok :: "buffer \<Rightarrow> nat \<Rightarrow> nat \<Rightarrow> bool" where
  "lock_ok B w u \<longleftrightarrow> (\<exists>x y. x \<in> {0, 1} \<and> y \<in> {0, 1} \<and> b_read_locks B = x + int w \<and> b_write_locks B = y + int u)
     \<and> w \<le> 1 \<and> (w = 1 \<longrightarrow> u = 1)"

definition buffer_ok :: "'x store_scheme \<Rightarrow> nat \<Rightarrow> bool" where
  "buffer_ok s b \<longleftrightarrow> lock_ok (buffers s ! b) (writers s b) (users s b)
     \<and> (b_alive (buffers s ! b) \<longleftrightarrow> has_link s b)
     \<and> (\<forall>kv \<in> set (b_notifications (buffers s ! b)). fst kv < length (refs s) \<and> linked_to s b (refs s ! fst kv))"

definition store_inv :: "'x store_scheme \<Rightarrow> bool" where
  "store_inv s \<longleftrightarrow> valid_links s \<and> (\<forall>b < length (buffers s). buffer_ok s b)"

lemma linked_to_append:
  "contents s' = contents s @ [d] \<Longrightarrow> (\<And>c. r_content r = Some c \<Longrightarrow> c < length (contents s)) \<Longrightarrow>
     linked_to s' b r = linked_to s b r"
  by (auto simp: linked_to_def nth_append split: option.splits)

lemma linked_to_None [simp]: "r_content r = None \<Longrightarrow> \<not> linked_to s b r"
  by (simp add: linked_to_def)

lemma linked_to_Some: "r_content r = Some c \<Longrightarrow> linked_to s b r \<longleftrightarrow> c_buffer (contents s ! c) = b"
  by (simp add: linked_to_def)

lemma has_link_iff: "has_link s b \<longleftrightarrow> (\<exists>i < length (refs s). linked_to s b (refs s ! i))"
  by (metis has_link_def in_set_conv_nth)

lemma has_link_update:
  assumes "i < length (refs s)" and "refs s' = (refs s)[i := r]" and "contents s' = contents s"
  shows "has_link s' b \<longleftrightarrow> linked_to s b r \<or> (\<exists>j < length (refs s). j \<noteq> i \<and> linked_to s b (refs s ! j))"
  unfolding has_link_iff linked_to_contents [OF assms(3)] assms(2) length_list_update
  using assms(1) nth_list_update [of _ "refs s"] by (metis nth_list_update_eq nth_list_update_neq)

section \<open>The primitive changes\<close>

definition notified_ok :: "'x store_scheme \<Rightarrow> nat \<Rightarrow> bool" where
  "notified_ok s b \<longleftrightarrow>
     (\<forall>kv \<in> set (b_notifications (buffers s ! b)). fst kv < length (refs s) \<and> linked_to s b (refs s ! fst kv))"

lemma buffer_okI:
  "lock_ok (buffers s ! b) (writers s b) (users s b) \<Longrightarrow> (b_alive (buffers s ! b) \<longleftrightarrow> has_link s b) \<Longrightarrow>
     notified_ok s b \<Longrightarrow> buffer_ok s b"
  by (simp add: buffer_ok_def notified_ok_def)

lemma buffer_okD:
  assumes "buffer_ok s b"
  shows "lock_ok (buffers s ! b) (writers s b) (users s b)" "b_alive (buffers s ! b) \<longleftrightarrow> has_link s b" "notified_ok s b"
  using assms by (auto simp: buffer_ok_def notified_ok_def)

lemma valid_linksD:
  assumes "valid_links s"
  shows "i < length (refs s) \<Longrightarrow> r_content (refs s ! i) = Some c \<Longrightarrow> c < length (contents s)"
    and "c < length (contents s) \<Longrightarrow> c_buffer (contents s ! c) < length (buffers s)"
  using assms by (auto simp: valid_links_def)

lemma lock_ok_link:
  assumes ok: "lock_ok B w u" and R: "R \<longrightarrow> b_read_locks B = 0" and W: "W \<longrightarrow> b_write_locks B = 0"
  shows "lock_ok (B\<lparr>b_write_locks := b_write_locks B + (if R \<or> W then 1 else 0),
      b_read_locks := b_read_locks B + (if W then 1 else 0)\<rparr>) (w + (if W then 1 else 0)) (u + (if R \<or> W then 1 else 0))"
proof -
  from ok obtain x y where xy: "x \<in> {0, 1}" "y \<in> {0, 1}" "b_read_locks B = x + int w" "b_write_locks B = y + int u"
    and ex: "w \<le> 1" "w = 1 \<longrightarrow> u = 1" unfolding lock_ok_def by blast
  have u: "u = 0" if W using W xy(2,4) that by auto
  have w: "w = 0" if R using R xy(1,3) that by auto
  have w': "w = 0" if "u = 0" using ex that by (cases "w = 0") simp_all
  show ?thesis
  proof (cases W)
    case True
    with u w' have "u = 0" "w = 0" by simp_all
    with True xy show ?thesis unfolding lock_ok_def by (intro conjI exI [of _ x] exI [of _ y]) simp_all
  next
    case False
    show ?thesis
    proof (cases R)
      case True
      with w False xy show ?thesis unfolding lock_ok_def by (intro conjI exI [of _ x] exI [of _ y]) simp_all
    next
      case False
      with \<open>\<not> W\<close> ok show ?thesis by (cases B) simp
    qed
  qed
qed

lemma link_state_inv:
  fixes s :: "'x store_scheme"
  defines "B \<equiv> \<lambda>b. buffers s ! b"
  assumes v: "valid_links s" and i: "i < length (refs s)" "r_content (refs s ! i) = None"
    and c: "c < length (contents s)" "c_buffer (contents s ! c) = t"
    and others: "\<And>b. b < length (buffers s) \<Longrightarrow> b \<noteq> t \<Longrightarrow> buffer_ok s b"
    and t: "lock_ok (B t) (writers s t) (users s t)" "b_alive (B t)" "notified_ok s t"
    and may: "may_link s i t"
  shows "store_inv (link_state i c s)"
proof -
  let ?s = "link_state i c s" and ?r = "(refs s ! i)\<lparr>r_content := Some c\<rparr>"
  have tl: "t < length (buffers s)" using valid_linksD(2) [OF v c(1)] c(2) by simp
  have refs: "refs ?s = (refs s)[i := ?r]" and cont: "contents ?s = contents s" by simp_all
  have lk: "linked_to ?s b r = linked_to s b r" for b r by (rule linked_to_contents) simp
  have rl: "linked_to s b ?r \<longleftrightarrow> b = t" for b using c(2) by (auto simp: linked_to_Some)
  have un: "\<not> linked_to s b (refs s ! i)" for b using i(2) by simp
  have cnt: "linked_count P ?s b = linked_count P s b + (if b = t \<and> P ?r then 1 else 0)" for P b
    using linked_count_update [OF i(1) refs cont, of P b] un rl by auto
  have hl: "has_link ?s b \<longleftrightarrow> b = t \<or> has_link s b" for b
    using has_link_update [OF i(1) refs cont, of b] un rl by (auto simp: has_link_iff)
  have buf: "buffers ?s ! b = (if b = t then (B t)\<lparr>b_write_locks := b_write_locks (B t) + (if r_R (refs s ! i) \<or> r_W (refs s ! i) then 1 else 0),
      b_read_locks := b_read_locks (B t) + (if r_W (refs s ! i) then 1 else 0)\<rparr> else B b)" for b
    using tl by (simp add: link_state_def c(2) B_def nth_list_update)
  have notified: "notified_ok ?s b" if "notified_ok s b" for b
    using that un i(1) by (auto simp: notified_ok_def buf B_def lk nth_list_update rl)
  have "valid_links ?s" using v c(1)
    by (auto simp: valid_links_def link_state_def c(2) dest!: set_update_subset_insert [THEN subsetD])
  moreover have "buffer_ok ?s b" if "b < length (buffers ?s)" for b
  proof (cases "b = t")
    case False
    with that others [of b] have ok: "buffer_ok s b" by simp
    show ?thesis
      using buffer_okD [OF ok] False by (intro buffer_okI notified) (simp_all add: buf B_def cnt hl)
  next
    case True
    have "lock_ok (buffers ?s ! t) (writers ?s t) (users ?s t)"
      using lock_ok_link [OF t(1), of "r_R (refs s ! i)" "r_W (refs s ! i)"] may
      by (simp add: cnt buf may_link_def B_def)
    with t True show ?thesis by (intro buffer_okI notified) (simp_all add: buf hl)
  qed
  ultimately show ?thesis by (simp add: store_inv_def)
qed

lemma lock_ok_unlink:
  assumes ok: "lock_ok B w u" and w: "w = w' + (if W then 1 else 0)" and u: "u = u' + (if R \<or> W then 1 else 0)" and le: "w' \<le> u'"
  shows "lock_ok (B\<lparr>b_notifications := ns, b_write_locks := b_write_locks B - (if R \<or> W then 1 else 0),
      b_read_locks := b_read_locks B - (if W then 1 else 0)\<rparr>) w' u'"
proof -
  from ok obtain x y where xy: "x \<in> {0, 1}" "y \<in> {0, 1}" "b_read_locks B = x + int w" "b_write_locks B = y + int u"
    and ex: "w \<le> 1" "w = 1 \<longrightarrow> u = 1" unfolding lock_ok_def by blast
  have "w' \<le> 1" "w' = 1 \<longrightarrow> u' = 1" using ex w u le by (auto split: if_splits)
  with xy w u show ?thesis unfolding lock_ok_def by (intro conjI exI [of _ x] exI [of _ y]) simp_all
qed

lemma unlink_state_parts:
  fixes s :: "'x store_scheme"
  assumes inv: "store_inv s" and i: "i < length (refs s)" and c: "r_content (refs s ! i) = Some c"
    and t: "c_buffer (contents s ! c) = t"
  shows "valid_links (unlink_state i c s)"
    and "b < length (buffers s) \<Longrightarrow> b \<noteq> t \<Longrightarrow> buffer_ok (unlink_state i c s) b"
    and "lock_ok (buffers (unlink_state i c s) ! t) (writers (unlink_state i c s) t) (users (unlink_state i c s) t)"
    and "notified_ok (unlink_state i c s) t" and "b_alive (buffers (unlink_state i c s) ! t)" and "t < length (buffers s)"
proof -
  let ?s = "unlink_state i c s" and ?r = "(refs s ! i)\<lparr>r_content := None\<rparr>"
  from inv have v: "valid_links s" and ok: "\<And>b. b < length (buffers s) \<Longrightarrow> buffer_ok s b" by (auto simp: store_inv_def)
  show tl: "t < length (buffers s)" using valid_linksD(2) [OF v] valid_linksD(1) [OF v i c] t by blast
  have refs: "refs ?s = (refs s)[i := ?r]" and cont: "contents ?s = contents s" by simp_all
  have lk: "linked_to ?s b r = linked_to s b r" for b r by (rule linked_to_contents) simp
  have ri: "linked_to s b (refs s ! i) \<longleftrightarrow> b = t" for b using c t by (auto simp: linked_to_Some)
  have rn: "\<not> linked_to s b ?r" for b by simp
  have cnt: "linked_count P ?s b + (if b = t \<and> P (refs s ! i) then 1 else 0) = linked_count P s b" for P b
    using linked_count_update [OF i refs cont, of P b] ri rn by auto
  have hl: "has_link ?s b \<longleftrightarrow> (\<exists>j < length (refs s). j \<noteq> i \<and> linked_to s b (refs s ! j))" for b
    using has_link_update [OF i refs cont, of b] rn by simp
  have buf: "buffers ?s ! b = (if b = t then (buffers s ! t)\<lparr>b_notifications := filter (\<lambda>kv. fst kv \<noteq> i) (b_notifications (buffers s ! t)),
      b_write_locks := b_write_locks (buffers s ! t) - (if r_R (refs s ! i) \<or> r_W (refs s ! i) then 1 else 0),
      b_read_locks := b_read_locks (buffers s ! t) - (if r_W (refs s ! i) then 1 else 0)\<rparr> else buffers s ! b)" for b
    using tl by (simp add: unlink_state_def t nth_list_update)
  show "valid_links ?s" using v
    by (auto simp: valid_links_def dest!: set_update_subset_insert [THEN subsetD])
  note okt = buffer_okD [OF ok [OF tl]]
  show "lock_ok (buffers ?s ! t) (writers ?s t) (users ?s t)"
    unfolding buf if_True simp_thms
    by (rule lock_ok_unlink [OF okt(1)]) (use cnt [of r_W t] cnt [of "\<lambda>r. r_R r \<or> r_W r" t] in
        \<open>auto intro: linked_count_le simp del: One_nat_def\<close>)
  show "notified_ok ?s t" using okt(3) by (auto simp: notified_ok_def buf lk nth_list_update)
  show "b_alive (buffers ?s ! t)" using okt(2) i ri by (auto simp: buf has_link_iff)
  show "buffer_ok ?s b" if "b < length (buffers s)" "b \<noteq> t"
  proof -
    note okb = buffer_okD [OF ok [OF that(1)]]
    have "has_link ?s b \<longleftrightarrow> has_link s b" using that(2) ri hl by (auto simp: has_link_iff)
    moreover have "notified_ok ?s b" using okb(3) that(2) ri i by (fastforce simp: notified_ok_def buf lk nth_list_update)
    ultimately show ?thesis using okb that(2) cnt [of r_W b] cnt [of "\<lambda>r. r_R r \<or> r_W r" b]
      by (intro buffer_okI) (simp_all add: buf)
  qed
qed

text \<open>States with the same links: only counters of one buffer and its data differ.\<close>

lemma same_link_counts:
  fixes s s' :: "'x store_scheme"
  assumes "refs s' = refs s" and "\<And>b r. r \<in> set (refs s) \<Longrightarrow> linked_to s' b r = linked_to s b r"
  shows "linked_count P s' b = linked_count P s b" and "has_link s' b = has_link s b"
proof -
  show "linked_count P s' b = linked_count P s b"
    unfolding linked_count_def assms(1) using assms(2) by (metis (mono_tags, lifting) filter_cong)
  show "has_link s' b = has_link s b"
    unfolding has_link_def assms(1) using assms(2) by blast
qed

lemma kill_state_inv:
  assumes "valid_links s" and "t < length (buffers s)" and "\<not> has_link s t"
    and "\<And>b. b < length (buffers s) \<Longrightarrow> b \<noteq> t \<Longrightarrow> buffer_ok s b"
    and "lock_ok (buffers s ! t) (writers s t) (users s t)" and "notified_ok s t"
  shows "store_inv (kill_state t s)"
proof -
  let ?s = "kill_state t s"
  have lk: "linked_to ?s b r = linked_to s b r" for b r by (rule linked_to_contents) simp
  note same = same_link_counts [of ?s s, OF _ lk, simplified]
  have "buffer_ok ?s b" if b: "b < length (buffers ?s)" for b
  proof (cases "b = t")
    case True
    with assms show ?thesis
      by (intro buffer_okI) (simp_all add: same lock_ok_def notified_ok_def lk)
  next
    case False
    with b assms(4) [of b] have ok: "buffer_ok s b" by simp
    from buffer_okD [OF ok] False show ?thesis by (intro buffer_okI) (simp_all add: same notified_ok_def lk)
  qed
  moreover have "valid_links ?s" using assms(1) by (simp add: valid_links_def)
  ultimately show ?thesis by (simp add: store_inv_def)
qed

lemma fresh_state_parts:
  fixes s :: "'x store_scheme"
  assumes inv: "store_inv s" and s'_def: "s' = fresh_state p f ty x y s" and t_def: "t = length (buffers s)"
  shows "valid_links s'" and "\<not> has_link s' t" and "t < length (buffers s')"
    and "b < length (buffers s') \<Longrightarrow> b \<noteq> t \<Longrightarrow> buffer_ok s' b"
    and "lock_ok (buffers s' ! t) (writers s' t) (users s' t)" and "notified_ok s' t" and "b_alive (buffers s' ! t)"
proof -
  from inv have v: "valid_links s" and ok: "\<And>b. b < length (buffers s) \<Longrightarrow> buffer_ok s b" by (auto simp: store_inv_def)
  have lk: "linked_to s' b r = linked_to s b r" if "r \<in> set (refs s)" for b r
    using v that unfolding s'_def by (intro linked_to_append) (auto simp: valid_links_def)
  have refs': "refs s' = refs s" by (simp add: s'_def)
  note same = same_link_counts [OF refs' lk]
  have un: "\<not> linked_to s t r" if "r \<in> set (refs s)" for r
  proof (cases "r_content r")
    case (Some c)
    with v that have "c < length (contents s)" by (auto simp: valid_links_def)
    then have "c_buffer (contents s ! c) < length (buffers s)" by (rule valid_linksD(2) [OF v])
    with Some show ?thesis by (simp add: linked_to_Some t_def)
  qed simp
  have none: "linked_count P s' t = 0" for P 
  proof -
    have "linked_count P s t = 0" using un by (simp add: linked_count_def filter_empty_conv)
    with same(1) [of P t] show ?thesis by (simp only:)
  qed
  show "valid_links s'" using v by (auto simp: valid_links_def s'_def intro: less_SucI)
  have "\<not> has_link s t" using un by (auto simp: has_link_def)
  with same(2) [of t] show "\<not> has_link s' t" by (simp only: simp_thms)
  show "t < length (buffers s')" by (simp add: s'_def t_def)
  have t: "buffers s' ! t = Referenced_buffer (Some (p, f, ty)) x y" by (simp add: s'_def t_def)
  show "lock_ok (buffers s' ! t) (writers s' t) (users s' t)"
    unfolding none t lock_ok_def by (simp add: Referenced_buffer_def)
  show "notified_ok s' t" "b_alive (buffers s' ! t)" by (simp_all add: t notified_ok_def Referenced_buffer_def)
  show "buffer_ok s' b" if "b < length (buffers s')" "b \<noteq> t"
  proof -
    have b: "b < length (buffers s)" using that by (simp add: s'_def t_def)
    then have buf: "buffers s' ! b = buffers s ! b" by (simp add: s'_def nth_append)
    note okb = buffer_okD [OF ok [OF b]]
    have "notified_ok s' b"
      unfolding notified_ok_def buf refs'
    proof
      fix kv
      assume "kv \<in> set (b_notifications (buffers s ! b))"
      with okb(3) have k: "fst kv < length (refs s)" "linked_to s b (refs s ! fst kv)" by (auto simp: notified_ok_def)
      with lk [OF nth_mem [OF k(1)]] show "fst kv < length (refs s) \<and> linked_to s' b (refs s ! fst kv)" by simp
    qed
    with okb(1,2) show ?thesis by (intro buffer_okI) (simp_all only: same buf)
  qed
qed

text \<open>A link handed over to another reference with the same rights.\<close>

lemma steal_state_inv:
  fixes s :: "'x store_scheme"
  assumes inv: "store_inv s" and i: "i < length (refs s)" "r_content (refs s ! i) = None"
    and j: "j < length (refs s)" "r_content (refs s ! j) = Some c"
    and same: "r_R (refs s ! i) = r_R (refs s ! j)" "r_W (refs s ! i) = r_W (refs s ! j)"
  shows "store_inv (steal_state i j c s)"
proof -
  let ?s = "steal_state i j c s" and ?t = "c_buffer (contents s ! c)"
  let ?ri = "(refs s ! i)\<lparr>r_content := Some c\<rparr>" and ?rj = "(refs s ! j)\<lparr>r_content := None\<rparr>"
  let ?m = "upd_ref i (\<lambda>r. r\<lparr>r_content := Some c\<rparr>) s"
  from inv have v: "valid_links s" and ok: "\<And>b. b < length (buffers s) \<Longrightarrow> buffer_ok s b" by (auto simp: store_inv_def)
  have c: "c < length (contents s)" using valid_linksD(1) [OF v j] .
  then have tl: "?t < length (buffers s)" by (rule valid_linksD(2) [OF v])
  have ij: "i \<noteq> j" using i j by auto
  have refs: "refs ?s = (refs s)[i := ?ri, j := ?rj]" and cont: "contents ?s = contents s"
    using ij by (simp_all add: steal_state_def)
  have lk: "linked_to ?s b r = linked_to s b r" for b r by (rule linked_to_contents) (rule cont)
  have l: "\<not> linked_to s b (refs s ! i)" "linked_to s b ?ri \<longleftrightarrow> b = ?t" "\<not> linked_to s b ?rj"
    "linked_to s b (refs s ! j) \<longleftrightarrow> b = ?t" for b using i j by (auto simp: linked_to_Some)
  have cnt: "linked_count P ?s b = linked_count P s b" if "P ?ri = P (refs s ! j)" for P b
  proof -
    have m: "linked_count P ?m b = linked_count P s b + (if b = ?t \<and> P ?ri then 1 else 0)"
      using linked_count_update [of i s ?m ?ri P b] i l by simp
    have lm: "linked_to ?m b r = linked_to s b r" for b r by (rule linked_to_contents) simp
    have "linked_count P ?s b + (if b = ?t \<and> P (refs s ! j) then 1 else 0) = linked_count P ?m b"
      using linked_count_update [of j ?m ?s ?rj P b] j ij l(3,4) refs cont by (simp add: lm)
    with m that show ?thesis by simp
  qed
  have cnts: "writers ?s b = writers s b" "users ?s b = users s b" for b using same by (auto intro!: cnt)
  have other: "linked_to s b (refs ?s ! k) = linked_to s b (refs s ! k)" if "k \<noteq> i" "k \<noteq> j" for k b
    using that by (simp add: refs)
  have hl: "has_link ?s b \<longleftrightarrow> has_link s b" for b
  proof -
    have "has_link s b \<longleftrightarrow> b = ?t \<or> (\<exists>k < length (refs s). k \<noteq> i \<and> k \<noteq> j \<and> linked_to s b (refs s ! k))"
      unfolding has_link_iff using j l by metis
    moreover have "has_link ?s b \<longleftrightarrow> b = ?t \<or> (\<exists>k < length (refs s). k \<noteq> i \<and> k \<noteq> j \<and> linked_to s b (refs ?s ! k))"
      unfolding has_link_iff lk refs using i j ij l
      by (metis length_list_update nth_list_update_eq nth_list_update_neq)
    ultimately show ?thesis using other by blast
  qed
  have buf: "buffers ?s ! b = (if b = ?t then (buffers s ! ?t)\<lparr>b_notifications := filter (\<lambda>kv. fst kv \<noteq> j) (b_notifications (buffers s ! ?t))\<rparr> else buffers s ! b)" for b
    using tl by (simp add: steal_state_def nth_list_update)
  have len: "length (buffers ?s) = length (buffers s)" by (simp add: steal_state_def)
  have "buffer_ok ?s b" if "b < length (buffers ?s)" for b
  proof -
    have b: "b < length (buffers s)" using that len by simp
    note okb = buffer_okD [OF ok [OF b]]
    have "notified_ok ?s b"
      unfolding notified_ok_def
    proof
      fix kv
      assume "kv \<in> set (b_notifications (buffers ?s ! b))"
      then have kv: "kv \<in> set (b_notifications (buffers s ! b))" "b = ?t \<longrightarrow> fst kv \<noteq> j"
        by (auto simp: buf split: if_splits)
      with okb(3) have k: "fst kv < length (refs s)" "linked_to s b (refs s ! fst kv)" by (auto simp: notified_ok_def)
      with l kv(2) have "fst kv \<noteq> i" "fst kv \<noteq> j" by metis+
      with k other show "fst kv < length (refs ?s) \<and> linked_to ?s b (refs ?s ! fst kv)" by (simp add: refs lk)
    qed
    with okb show ?thesis by (intro buffer_okI) (auto simp: cnts hl buf lock_ok_def)
  qed
  moreover have "valid_links ?s" using v c unfolding valid_links_def refs cont len
    by (auto dest!: set_update_subset_insert [THEN subsetD])
  ultimately show ?thesis by (simp add: store_inv_def)
qed

section \<open>Every operation keeps the invariant\<close>

text \<open>A change of one buffer that leaves its locks and its life alone.\<close>

lemma upd_buffer_inv:
  fixes s :: "'x store_scheme"
  assumes inv: "store_inv s"
    and f: "b_read_locks (f (buffers s ! t)) = b_read_locks (buffers s ! t)" "b_write_locks (f (buffers s ! t)) = b_write_locks (buffers s ! t)"
      "b_alive (f (buffers s ! t)) = b_alive (buffers s ! t)"
    and n: "\<And>kv. kv \<in> set (b_notifications (f (buffers s ! t))) \<Longrightarrow>
      kv \<in> set (b_notifications (buffers s ! t)) \<or> fst kv < length (refs s) \<and> linked_to s t (refs s ! fst kv)"
  shows "store_inv (upd_buffer t f s)"
proof -
  let ?s = "upd_buffer t f s"
  have lk: "linked_to ?s b r = linked_to s b r" for b r by (rule linked_to_contents) simp
  note same = same_link_counts [of ?s s, OF _ lk, simplified]
  have "buffer_ok ?s b" if "b < length (buffers ?s)" for b
  proof -
    have b: "b < length (buffers s)" using that by simp
    with inv have ok: "buffer_ok s b" by (simp add: store_inv_def)
    show ?thesis
    proof (cases "b = t")
      case True
      with b have "buffers ?s ! b = f (buffers s ! t)" by simp
      moreover have "notified_ok ?s b"
        using buffer_okD(3) [OF ok] n True b by (auto simp: notified_ok_def lk)
      ultimately show ?thesis
        using buffer_okD(1,2) [OF ok] f True by (intro buffer_okI) (simp_all add: same lock_ok_def)
    next
      case False
      with buffer_okD [OF ok] show ?thesis by (intro buffer_okI) (auto simp: same notified_ok_def lk)
    qed
  qed
  moreover have "valid_links ?s" using inv by (simp add: store_inv_def valid_links_def)
  ultimately show ?thesis by (simp add: store_inv_def)
qed

lemma store_inv_same:
  fixes s s' :: "'x store_scheme"
  assumes inv: "store_inv s" and b: "buffers s' = buffers s" and v: "valid_links s'"
    and lk: "\<And>b r. r \<in> set (refs s) \<Longrightarrow> linked_to s' b r = linked_to s b r"
    and r: "refs s' = refs s \<or> (\<exists>q. r_content q = None \<and> refs s' = refs s @ [q])"
  shows "store_inv s'"
proof -
  have cnt: "linked_count P s' b = linked_count P s b" for P b
  proof -
    have "filter (\<lambda>r. linked_to s' b r \<and> P r) (refs s) = filter (\<lambda>r. linked_to s b r \<and> P r) (refs s)"
      using lk by (intro filter_cong) auto
    with r show ?thesis by (auto simp: linked_count_def)
  qed
  have hl: "has_link s' b = has_link s b" for b using r lk by (fastforce simp: has_link_def)
  have "notified_ok s' b" if "notified_ok s b" for b
    unfolding notified_ok_def
  proof
    fix kv
    assume "kv \<in> set (b_notifications (buffers s' ! b))"
    with that b have k: "fst kv < length (refs s)" "linked_to s b (refs s ! fst kv)" by (auto simp: notified_ok_def)
    then have "refs s ! fst kv \<in> set (refs s)" "refs s' ! fst kv = refs s ! fst kv" using r by (auto simp: nth_append)
    with k lk r show "fst kv < length (refs s') \<and> linked_to s' b (refs s' ! fst kv)" by auto
  qed
  then have "buffer_ok s' c" if "c < length (buffers s')" for c
    using inv that b buffer_okD [of s c] by (intro buffer_okI) (auto simp: store_inv_def cnt hl)
  with v show ?thesis by (simp add: store_inv_def)
qed

lemma in_alist_update: "kv \<in> set (AList.update k v xs) \<Longrightarrow> kv = (k, v) \<or> kv \<in> set xs"
  by (induction xs) (auto split: if_splits)

interpretation locks: store_invariant store_inv
proof
  fix s s' :: "'x store_scheme" and i c
  assume inv: "store_inv s"
  then have v: "valid_links s" and ok: "\<And>b. b < length (buffers s) \<Longrightarrow> buffer_ok s b" by (auto simp: store_inv_def)
  show "store_inv s'" if "same_links s s'"
    using inv that same_links_linked [OF that] by (intro store_inv_same [OF inv]) (auto simp: same_links_def store_inv_def valid_links_def)
  show "c < length (contents s) \<and> c_buffer (contents s ! c) < length (buffers s)"
    if "i < length (refs s)" "r_content (refs s ! i) = Some c" using valid_linksD [OF v] that by blast
  show "b_alive (buffers s ! c_buffer (contents s ! c))" if i: "i < length (refs s)" "r_content (refs s ! i) = Some c"
  proof -
    have "c_buffer (contents s ! c) < length (buffers s)" using valid_linksD [OF v] i by blast
    moreover have "has_link s (c_buffer (contents s ! c))" using i by (auto simp: has_link_iff linked_to_Some)
    ultimately show ?thesis using buffer_okD(2) ok by blast
  qed
  show "store_inv (s\<lparr>refs := refs s @ [\<lparr>r_R = R, r_W = W, r_content = None\<rparr>]\<rparr>)" for R W
    using v by (intro store_inv_same [OF inv]) (auto simp: valid_links_def linked_to_def split: option.splits)
  show "store_inv (s\<lparr>contents := contents s @ [\<lparr>c_buffer = c_buffer (contents s ! c), c_data = p, c_type = t\<rparr>]\<rparr>)"
    if "i < length (refs s)" "r_content (refs s ! i) = Some c" for p t
  proof (rule store_inv_same [OF inv])
    have "c_buffer (contents s ! c) < length (buffers s)" using valid_linksD [OF v] that by blast
    then show "valid_links (s\<lparr>contents := contents s @ [\<lparr>c_buffer = c_buffer (contents s ! c), c_data = p, c_type = t\<rparr>]\<rparr>)"
      using v by (auto simp: valid_links_def intro: less_SucI)
    show "linked_to (s\<lparr>contents := contents s @ [\<lparr>c_buffer = c_buffer (contents s ! c), c_data = p, c_type = t\<rparr>]\<rparr>) b r
        = linked_to s b r" if "r \<in> set (refs s)" for b r
      using v that by (intro linked_to_append) (auto simp: valid_links_def)
  qed simp_all
  show "store_inv (link_state i c s)" if i: "i < length (refs s)" "r_content (refs s ! i) = None"
    and c: "c < length (contents s)" "has_link s (c_buffer (contents s ! c))" "may_link s i (c_buffer (contents s ! c))"
  proof (rule link_state_inv [OF v i c(1) refl ok _ _ _ c(3)])
    have "c_buffer (contents s ! c) < length (buffers s)" using valid_linksD(2) [OF v c(1)] .
    note buffer_okD [OF ok [OF this]]
    with c(2) show "lock_ok (buffers s ! c_buffer (contents s ! c)) (writers s (c_buffer (contents s ! c))) (users s (c_buffer (contents s ! c)))"
      "b_alive (buffers s ! c_buffer (contents s ! c))" "notified_ok s (c_buffer (contents s ! c))" by simp_all
  qed
  show "store_inv (link_state i (length (contents s)) (fresh_state p f t x y s))"
    if i: "i < length (refs s)" "r_content (refs s ! i) = None"
      and may: "may_link (fresh_state p f t x y s) i (length (buffers s))" for p f t x y
    using fresh_state_parts [where p = p and f = f and ty = t and x = x and y = y, OF inv refl refl] i may
    by (intro link_state_inv [of "fresh_state p f t x y s" i _ "length (buffers s)"]) simp_all
  show "store_inv (kill_state (length (buffers s)) (fresh_state p f t x y s))" for p f t x y
    using fresh_state_parts [where p = p and f = f and ty = t and x = x and y = y, OF inv refl refl] by (intro kill_state_inv) auto
  show "store_inv (unlink_state i c s)" if i: "i < length (refs s)" "r_content (refs s ! i) = Some c"
    and h: "has_link (unlink_state i c s) (c_buffer (contents s ! c))"
  proof -
    note p = unlink_state_parts [OF inv i refl]
    have "buffer_ok (unlink_state i c s) b" if "b < length (buffers s)" for b
      using p(2) [OF that] p(3-5) h by (cases "b = c_buffer (contents s ! c)") (auto intro: buffer_okI)
    with p(1) show ?thesis by (simp add: store_inv_def)
  qed
  show "store_inv (kill_state (c_buffer (contents s ! c)) (unlink_state i c s))"
    if i: "i < length (refs s)" "r_content (refs s ! i) = Some c"
      and h: "\<not> has_link (unlink_state i c s) (c_buffer (contents s ! c))"
    using unlink_state_parts [OF inv i refl] h by (intro kill_state_inv) auto
  show "store_inv (steal_state i other c s)" if "i < length (refs s)" "r_content (refs s ! i) = None"
    "other < length (refs s)" "r_content (refs s ! other) = Some c" "r_R (refs s ! i) = r_R (refs s ! other)"
    "r_W (refs s ! i) = r_W (refs s ! other)" for other
    using steal_state_inv [OF inv that] .
  show "store_inv (upd_buffer (c_buffer (contents s ! c)) (\<lambda>B. B\<lparr>b_notifications := AList.update i n (b_notifications B)\<rparr>) s)"
    if "i < length (refs s)" "r_content (refs s ! i) = Some c" for n
    using that by (intro upd_buffer_inv [OF inv]) (auto simp: linked_to_Some dest!: in_alist_update)
  show "store_inv (upd_buffer b (\<lambda>B. B\<lparr>b_notifications := filter (\<lambda>kv. fst kv \<noteq> k) (b_notifications B)\<rparr>) s)"
    if "b < length (buffers s)" for b k
    by (rule upd_buffer_inv [OF inv]) auto
  show "store_inv (upd_buffer (c_buffer (contents s ! c)) (\<lambda>B. B\<lparr>b_deallocator := None\<rparr>) (upd_data c (\<lambda>d. d\<lparr>c_data := 0\<rparr>) s))"
    if "c < length (contents s)"
  proof (rule upd_buffer_inv)
    have nth: "c_buffer ((contents s)[c := (contents s ! c)\<lparr>c_data := 0\<rparr>] ! d) = c_buffer (contents s ! d)" for d
      using that by (cases "d = c") simp_all
    show "store_inv (upd_data c (\<lambda>d. d\<lparr>c_data := 0\<rparr>) s)"
    proof (rule store_inv_same [OF inv])
      show "valid_links (upd_data c (\<lambda>d. d\<lparr>c_data := 0\<rparr>) s)"
        using v that by (auto simp: valid_links_def dest!: set_update_subset_insert [THEN subsetD])
      show "linked_to (upd_data c (\<lambda>d. d\<lparr>c_data := 0\<rparr>) s) b r = linked_to s b r" for b r
        by (simp add: linked_to_def nth split: option.splits)
    qed simp_all
  qed simp_all
qed

end
