(* ===== verification/Ref_Steps.thy ===== *)
theory Ref_Steps
  imports Ref_Locks
begin

text \<open>
  Programs over references as sequences of operations, and the store invariant on every state such
  a sequence reaches.
\<close>

section \<open>Sequences of operations\<close>

text \<open>
  One operation on existing references that returns or throws. A moved-from and a moved-to reference
  have the same rights, which are part of their C++ type.
\<close>

inductive basic_step :: "'x store_scheme \<Rightarrow> 'x store_scheme \<Rightarrow> bool" where
  Step_null: "null_ref R W s = (Inr i, s') \<Longrightarrow> basic_step s s'"
| Step_make: "make_ref R W p f t x y s = (r, s') \<Longrightarrow> r \<noteq> Inl UB \<Longrightarrow> basic_step s s'"
| Step_copy: "j < length (refs s) \<Longrightarrow> copy_ref R W j s = (r, s') \<Longrightarrow> r \<noteq> Inl UB \<Longrightarrow> basic_step s s'"
| Step_move: "j < length (refs s) \<Longrightarrow> move_ref j s = (r, s') \<Longrightarrow> r \<noteq> Inl UB \<Longrightarrow> basic_step s s'"
| Step_destroy: "i < length (refs s) \<Longrightarrow> destroy_ref i s = (r, s') \<Longrightarrow> r \<noteq> Inl UB \<Longrightarrow> basic_step s s'"
| Step_copy_assign: "i < length (refs s) \<Longrightarrow> j < length (refs s) \<Longrightarrow> copy_assign i j s = (r, s') \<Longrightarrow> r \<noteq> Inl UB \<Longrightarrow>
    basic_step s s'"
| Step_move_assign: "i < length (refs s) \<Longrightarrow> j < length (refs s) \<Longrightarrow> r_R (refs s ! i) = r_R (refs s ! j) \<Longrightarrow>
    r_W (refs s ! i) = r_W (refs s ! j) \<Longrightarrow> move_assign i j s = (r, s') \<Longrightarrow> r \<noteq> Inl UB \<Longrightarrow> basic_step s s'"
| Step_is_null: "i < length (refs s) \<Longrightarrow> is_null i s = (r, s') \<Longrightarrow> r \<noteq> Inl UB \<Longrightarrow> basic_step s s'"
| Step_member: "i < length (refs s) \<Longrightarrow> ref_member i n s = (r, s') \<Longrightarrow> r \<noteq> Inl UB \<Longrightarrow> basic_step s s'"
| Step_index: "i < length (refs s) \<Longrightarrow> ref_index i k s = (r, s') \<Longrightarrow> r \<noteq> Inl UB \<Longrightarrow> basic_step s s'"
| Step_slice: "i < length (refs s) \<Longrightarrow> ref_slice i a b s = (r, s') \<Longrightarrow> r \<noteq> Inl UB \<Longrightarrow> basic_step s s'"
| Step_dereference: "i < length (refs s) \<Longrightarrow> ref_dereference i s = (r, s') \<Longrightarrow> r \<noteq> Inl UB \<Longrightarrow> basic_step s s'"
| Step_assign: "i < length (refs s) \<Longrightarrow> scalar_assign ff fd i v s = (r, s') \<Longrightarrow> r \<noteq> Inl UB \<Longrightarrow> basic_step s s'"
| Step_deep_copy: "i < length (refs s) \<Longrightarrow> ref_copy i s = (r, s') \<Longrightarrow> r \<noteq> Inl UB \<Longrightarrow> basic_step s s'"
| Step_on_nullify: "i < length (refs s) \<Longrightarrow> on_nullify i n s = (r, s') \<Longrightarrow> r \<noteq> Inl UB \<Longrightarrow> basic_step s s'"

text \<open>
  Nullification callbacks are code outside this library that works on references through the
  operations above.
\<close>

definition api_callbacks :: "'x ref_env \<Rightarrow> bool" where
  "api_callbacks env \<longleftrightarrow>
     (\<forall>cb t s r s'. env_nullify env cb t s = (r, s') \<longrightarrow> r \<noteq> Inl UB \<longrightarrow> basic_step\<^sup>*\<^sup>* s s')"

inductive ref_step :: "'x ref_env \<Rightarrow> 'x store_scheme \<Rightarrow> 'x store_scheme \<Rightarrow> bool" for env :: "'x ref_env" where
  Step_basic: "basic_step s s' \<Longrightarrow> ref_step env s s'"
| Step_release: "i < length (refs s) \<Longrightarrow> release env i s = (r, s') \<Longrightarrow> r \<noteq> Inl UB \<Longrightarrow> ref_step env s s'"

inductive_cases basic_stepE: "basic_step s s'"

inductive_cases ref_stepE: "ref_step env s s'"

definition grown :: "nat \<Rightarrow> 'x store_scheme \<Rightarrow> bool" where
  "grown n s \<longleftrightarrow> store_inv s \<and> n \<le> length (refs s)"

lemma outcome_inv:
  assumes "sx_hoare P f Q E" and "P s" and "f s = (r, s')" and "r \<noteq> Inl UB"
    and "\<And>x. Q x s' \<Longrightarrow> grown n s'" and "E s' \<Longrightarrow> grown n s'"
  shows "grown n s'"
proof (cases r)
  case (Inl e)
  with assms(4) obtain x where "e = Throw x" by (cases e) auto
  with Inl assms(3) have "f s = (Inl (Throw x), s')" by simp
  from sx_hoareD(2) [OF assms(1,2) this] show ?thesis by (rule assms(6))
next
  case (Inr x)
  with assms(3) have "f s = (Inr x, s')" by simp
  from sx_hoareD(1) [OF assms(1,2) this] show ?thesis by (rule assms(5))
qed

lemma J_start: "store_inv s \<Longrightarrow> locks.J (length (refs s)) {} s"
  by (simp add: locks.J_def)

lemma J_inv: "locks.J N X s \<Longrightarrow> n \<le> N \<Longrightarrow> grown n s"
  by (simp add: locks.J_def grown_def)

lemma basic_step_inv:
  assumes "basic_step s s'" and inv: "store_inv s"
  shows "grown (length (refs s)) s'"
  using assms(1)
proof cases
  case (Step_null R W i)
  show ?thesis by (rule outcome_inv [OF locks.keeps_null_ref [where E = "grown (length (refs s))"] J_start [OF inv] Step_null]) (auto intro: J_inv)
next
  case (Step_make R W p f t x y r)
  show ?thesis by (rule outcome_inv [OF locks.keeps_make_ref  J_start [OF inv] Step_make(1,2)]) (auto intro: J_inv)
next
  case (Step_copy j R W r)
  show ?thesis by (rule outcome_inv [OF locks.keeps_copy_ref [where E = "grown (length (refs s))", OF Step_copy(1)] J_start [OF inv] Step_copy(2,3)]) (auto intro: J_inv)
next
  case (Step_move j r)
  show ?thesis by (rule outcome_inv [OF locks.keeps_move_ref [where E = "grown (length (refs s))", OF Step_move(1)] J_start [OF inv] Step_move(2,3)]) (auto intro: J_inv)
next
  case (Step_destroy i r)
  show ?thesis by (rule outcome_inv [OF locks.keeps_destroy_ref [where E = "grown (length (refs s))", OF Step_destroy(1)] J_start [OF inv] Step_destroy(2,3)]) (auto intro: J_inv)
next
  case (Step_copy_assign i j r)
  show ?thesis by (rule outcome_inv [OF locks.keeps_copy_assign [where E = "grown (length (refs s))", OF Step_copy_assign(1) Step_copy_assign(2)] J_start [OF inv] Step_copy_assign(3,4)]) (auto intro: J_inv)
next
  case (Step_move_assign i j r)
  show ?thesis
    by (rule outcome_inv [OF locks.keeps_move_assign [where E = "grown (length (refs s))", OF Step_move_assign(1) Step_move_assign(2)] _ Step_move_assign(5,6)]) (use J_start [OF inv] Step_move_assign in \<open>auto intro: J_inv\<close>)
next
  case (Step_is_null i r)
  show ?thesis by (rule outcome_inv [OF locks.keeps_is_null [where E = "grown (length (refs s))", OF Step_is_null(1)] J_start [OF inv] Step_is_null(2,3)]) (auto intro: J_inv)
next
  case (Step_member i n r)
  show ?thesis by (rule outcome_inv [OF locks.keeps_ref_member [OF Step_member(1)] J_start [OF inv] Step_member(2,3)]) (auto intro: J_inv)
next
  case (Step_index i k r)
  show ?thesis by (rule outcome_inv [OF locks.keeps_ref_index [OF Step_index(1)] J_start [OF inv] Step_index(2,3)]) (auto intro: J_inv)
next
  case (Step_slice i a b r)
  show ?thesis by (rule outcome_inv [OF locks.keeps_ref_slice [OF Step_slice(1)] J_start [OF inv] Step_slice(2,3)]) (auto intro: J_inv)
next
  case (Step_dereference i r)
  show ?thesis by (rule outcome_inv [OF locks.keeps_ref_dereference [OF Step_dereference(1)] J_start [OF inv] Step_dereference(2,3)]) (auto intro: J_inv)
next
  case (Step_assign i ff fd v r)
  show ?thesis by (rule outcome_inv [OF locks.keeps_scalar_assign [OF Step_assign(1)] J_start [OF inv] Step_assign(2,3)]) (auto intro: J_inv)
next
  case (Step_deep_copy i r)
  show ?thesis by (rule outcome_inv [OF locks.keeps_ref_copy [OF Step_deep_copy(1)] J_start [OF inv] Step_deep_copy(2,3)]) (auto intro: J_inv)
next
  case (Step_on_nullify i n r)
  show ?thesis by (rule outcome_inv [OF locks.keeps_on_nullify [where E = "grown (length (refs s))", OF Step_on_nullify(1)] J_start [OF inv] Step_on_nullify(2,3)]) (auto intro: J_inv)
qed

lemma basic_steps_inv:
  assumes "basic_step\<^sup>*\<^sup>* s s'" and "store_inv s"
  shows "grown (length (refs s)) s'"
  using assms
proof induction
  case base
  then show ?case by (simp add: grown_def)
next
  case (step t u)
  with basic_step_inv [of t u] show ?case by (auto simp: grown_def)
qed

lemma api_callbacks_keep:
  assumes "api_callbacks env"
  shows "locks.callbacks_keep env"
  unfolding locks.callbacks_keep_def sx_hoare_def
proof (intro allI impI)
  fix cb t N and s :: "'a store_scheme"
  assume J: "locks.J N {} s"
  obtain r s' where c: "env_nullify env cb t s = (r, s')" by fastforce
  have "locks.J N {} s'" if "r \<noteq> Inl UB"
  proof -
    from assms c that have "basic_step\<^sup>*\<^sup>* s s'" unfolding api_callbacks_def by blast
    from basic_steps_inv [OF this] J show ?thesis by (auto simp: locks.J_def grown_def)
  qed
  with c show "case env_nullify env cb t s of (Inl (Throw e), s') \<Rightarrow> locks.J N {} s' | (Inl UB, s') \<Rightarrow> True
      | (Inr x, s') \<Rightarrow> locks.J N {} s'" by (auto split: sum.splits fault.splits)
qed

lemma ref_step_inv:
  assumes env: "api_callbacks env" and "ref_step env s s'" and inv: "store_inv s"
  shows "store_inv s'"
  using assms(2)
proof cases
  case Step_basic
  with basic_step_inv [of s s'] inv show ?thesis by (simp add: grown_def)
next
  case (Step_release i r)
  have "grown (length (refs s)) s'"
    by (rule outcome_inv [OF locks.keeps_release [where E = "grown (length (refs s))", OF api_callbacks_keep [OF env] Step_release(1)]
          J_start [OF inv] Step_release(2,3)]) (auto intro: J_inv)
  then show ?thesis by (simp add: grown_def)
qed

lemma reachable_inv:
  assumes "api_callbacks env" and "(ref_step env)\<^sup>*\<^sup>* s s'" and "store_inv s"
  shows "store_inv s'"
  using assms(2,3)
proof induction
  case (step t u)
  with ref_step_inv [OF assms(1)] show ?case by blast
qed

end
