(* ===== verification/Ref_Correct.thy ===== *)
theory Ref_Correct
  imports Ref_Steps Datatype_From_Dense
begin

text \<open>
  What the references promise: readers and a writer exclude each other, a buffer lives exactly as
  long as a reference is linked to it, releasing takes the data away from every reference to it
  after the notifications, copies hold the same value in fresh memory, and scalars read back what
  was assigned.
\<close>

section \<open>Reachable stores\<close>

definition fresh_store :: "'x store_scheme \<Rightarrow> bool" where
  "fresh_store s \<longleftrightarrow> refs s = [] \<and> contents s = [] \<and> buffers s = []"

lemma fresh_store_inv: "fresh_store s \<Longrightarrow> store_inv s"
  by (simp add: fresh_store_def store_inv_def valid_links_def)

lemma linked_count_card: "linked_count P s b = card {i. i < length (refs s) \<and> linked_to s b (refs s ! i) \<and> P (refs s ! i)}"
  by (simp add: linked_count_def length_filter_conv_card)

lemma linked_count_pos: "i < length (refs s) \<Longrightarrow> linked_to s b (refs s ! i) \<Longrightarrow> P (refs s ! i) \<Longrightarrow> 0 < linked_count P s b"
  by (auto simp: linked_count_card card_gt_0_iff)

lemma linked_count_two:
  assumes "i < length (refs s)" "linked_to s b (refs s ! i)" "P (refs s ! i)"
    and "j < length (refs s)" "linked_to s b (refs s ! j)" "P (refs s ! j)" and "i \<noteq> j"
  shows "2 \<le> linked_count P s b"
proof -
  have "card {i, j} \<le> linked_count P s b"
    unfolding linked_count_card using assms by (intro card_mono) auto
  with \<open>i \<noteq> j\<close> show ?thesis by simp
qed

lemma linked_buffer:
  assumes "store_inv s" "i < length (refs s)" "linked_to s b (refs s ! i)"
  shows "b < length (buffers s)" "buffer_ok s b"
proof -
  from assms(3) obtain c where c: "r_content (refs s ! i) = Some c" "c_buffer (contents s ! c) = b"
    by (auto simp: linked_to_def split: option.splits)
  with assms(1,2) have "c < length (contents s)" using nth_mem [OF assms(2)] unfolding store_inv_def valid_links_def by blast
  with assms(1) c(2) show "b < length (buffers s)" by (auto simp: store_inv_def valid_links_def)
  with assms(1) show "buffer_ok s b" by (simp add: store_inv_def)
qed

lemma exclusion:
  assumes inv: "store_inv s" and i: "i < length (refs s)" "linked_to s b (refs s ! i)" "r_W (refs s ! i)"
    and j: "j < length (refs s)" "linked_to s b (refs s ! j)" and "i \<noteq> j"
  shows "\<not> r_R (refs s ! j) \<and> \<not> r_W (refs s ! j)"
proof (rule ccontr)
  assume a: "\<not> ?thesis"
  have "lock_ok (buffers s ! b) (writers s b) (users s b)"
    using linked_buffer(2) [OF inv i(1,2)] by (simp add: buffer_ok_def)
  moreover have "0 < writers s b" using i by (rule linked_count_pos)
  moreover have "2 \<le> users s b" using i j \<open>i \<noteq> j\<close> a by (intro linked_count_two [of i _ _ _ j]) auto
  ultimately show False by (simp add: lock_ok_def)
qed

section \<open>Sample programs\<close>

definition sample_store :: store where
  "sample_store = \<lparr>refs = [], contents = [], buffers = [], memory = sample_memory, heap_top = 64, allocated = [], freed = []\<rparr>"

text \<open>A callback that resets the reference it receives.\<close>

definition sample_env :: "unit ref_env" where
  "sample_env = \<lparr>env_nullify = (\<lambda>cb t s. if t < length (refs s) then destroy_ref t s else (Inr (), s)), env_fuel = 3\<rparr>"

lemma sample_env_api: "api_callbacks sample_env"
  unfolding api_callbacks_def sample_env_def by (auto split: if_splits intro: Step_destroy r_into_rtranclp)

text \<open>A reference to data, and a second one with the right to write.\<close>

definition sample_refs :: store where
  "sample_refs = snd (sx_bind (make_ref False False 16 Free (sample_scalar 4) True True) (copy_ref False True) sample_store)"

lemma sample_refs_reachable: "(ref_step sample_env)\<^sup>*\<^sup>* sample_store sample_refs"
proof -
  define m where "m = make_ref False False 16 Free (sample_scalar 4) True True sample_store"
  have m: "fst m = Inr 0" "length (refs (snd m)) = 1" unfolding m_def by code_simp+
  have c: "fst (copy_ref False True 0 (snd m)) = Inr 1" unfolding m_def by code_simp
  have "ref_step sample_env sample_store (snd m)"
    by (intro Step_basic, rule Step_make [of False False 16 Free "sample_scalar 4" True True _ "fst m"])
      (simp_all add: m_def [symmetric] m(1) prod_eq_iff)
  moreover have "ref_step sample_env (snd m) (snd (copy_ref False True 0 (snd m)))"
    by (intro Step_basic Step_copy [of 0 _ False True "fst (copy_ref False True 0 (snd m))"]) (simp_all add: m c prod_eq_iff)
  moreover have "sample_refs = snd (copy_ref False True 0 (snd m))"
    using m by (cases m) (simp add: sample_refs_def m_def)
  ultimately show ?thesis by (metis rtranclp.simps)
qed

lemma sample_refs_eval:
  "refs sample_refs = [\<lparr>r_R = False, r_W = False, r_content = Some 0\<rparr>, \<lparr>r_R = False, r_W = True, r_content = Some 0\<rparr>]"
  "length (buffers sample_refs) = 1"
  by code_simp+

lemma sample_refs_content: "c_type (contents sample_refs ! 0) = sample_scalar 4"
  by (simp add: sample_refs_def sample_store_def make_ref_def copy_ref_def null_ref_def new_rdata_buffer_def new_rdata_def
      link_def get_content_def Let_def upd_ref_def upd_buffer_def Referenced_buffer_def)

lemma sample_refs_linked: "linked_to sample_refs 0 (refs sample_refs ! 0)" "linked_to sample_refs 0 (refs sample_refs ! 1)"
  by code_simp+

section \<open>Access rights and life time\<close>

text \<open>
  (C2) Readers and writers exclude each other: in every state a program over references reaches, when a
  reference with the right to write is linked to a buffer, every other reference linked to this buffer
  can neither read nor write.
\<close>

theorem reader_writer_exclusion:
  assumes "api_callbacks env" "fresh_store s0" "(ref_step env)\<^sup>*\<^sup>* s0 s"
    and "i < length (refs s)" "linked_to s b (refs s ! i)" "r_W (refs s ! i)"
    and "j < length (refs s)" "linked_to s b (refs s ! j)" and "i \<noteq> j"
  shows "\<not> r_R (refs s ! j) \<and> \<not> r_W (refs s ! j)"
  by (rule exclusion [OF reachable_inv [OF assms(1,3) fresh_store_inv [OF assms(2)]] assms(4-)])

theorem reader_writer_exclusion_witness:
  "fresh_store sample_store \<and> r_W (refs sample_refs ! 1) \<and> linked_to sample_refs 0 (refs sample_refs ! 1)
     \<and> linked_to sample_refs 0 (refs sample_refs ! 0) \<and> \<not> r_R (refs sample_refs ! 0)"
proof -
  have f: "fresh_store sample_store" by (simp add: fresh_store_def sample_store_def)
  show ?thesis
    using reader_writer_exclusion [OF sample_env_api f sample_refs_reachable, of 1 0 0] sample_refs_linked f
    by (simp add: sample_refs_eval)
qed

text \<open>
  (C5) Life time of the data: in every reachable state a buffer has not been deallocated exactly when
  some reference is linked to it, the notifications it holds belong to references linked to it, and its
  lock counters are the numbers of linked writers and of linked readers and writers on top of the rights
  the owner withheld at creation.
\<close>

theorem buffer_lifetime:
  assumes "api_callbacks env" "fresh_store s0" "(ref_step env)\<^sup>*\<^sup>* s0 s" and "b < length (buffers s)"
  shows "(b_alive (buffers s ! b) \<longleftrightarrow> (\<exists>i < length (refs s). linked_to s b (refs s ! i)))
    \<and> (\<forall>kv \<in> set (b_notifications (buffers s ! b)). fst kv < length (refs s) \<and> linked_to s b (refs s ! fst kv))
    \<and> b_read_locks (buffers s ! b) - int (writers s b) \<in> {0, 1}
    \<and> b_write_locks (buffers s ! b) - int (users s b) \<in> {0, 1}"
proof -
  have ok: "buffer_ok s b"
    using reachable_inv [OF assms(1,3) fresh_store_inv [OF assms(2)]] assms(4) by (simp add: store_inv_def)
  then have "b_alive (buffers s ! b) \<longleftrightarrow> has_link s b" by (simp add: buffer_ok_def)
  moreover have "has_link s b \<longleftrightarrow> (\<exists>i < length (refs s). linked_to s b (refs s ! i))"
    by (auto simp: has_link_def in_set_conv_nth Bex_def)
  ultimately show ?thesis using ok by (auto simp: buffer_ok_def lock_ok_def)
qed

theorem buffer_lifetime_witness: "b_alive (buffers sample_refs ! 0)"
proof -
  have f: "fresh_store sample_store" by (simp add: fresh_store_def sample_store_def)
  show ?thesis
    using buffer_lifetime [OF sample_env_api f sample_refs_reachable, of 0] sample_refs_linked
    by (auto simp: sample_refs_eval)
qed

section \<open>Scalars\<close>

lemma read_uint_cong: "(\<And>a. p \<le> a \<Longrightarrow> m a = m' a) \<Longrightarrow> read_uint m p n = read_uint m' p n"
  by (induction n arbitrary: p) auto

lemma write_uint_outside: "a < p \<or> p + n \<le> a \<Longrightarrow> write_uint p n v m a = m a"
  by (induction n arbitrary: p v) auto

lemma read_write_uint: "read_uint (write_uint p n v m) p n = v mod 256 ^ n"
proof (induction n arbitrary: p v)
  case (Suc n)
  have "read_uint ((write_uint (Suc p) n (v div 256) m)(p := of_nat v)) (Suc p) n
      = read_uint (write_uint (Suc p) n (v div 256) m) (Suc p) n"
    by (rule read_uint_cong) simp
  with Suc.IH [of "Suc p" "v div 256"] show ?case
    by (simp add: unat_of_nat mod_mult2_eq del: fun_upd_apply) (simp add: unat_of_nat)
qed simp

lemma write_uint_frame:
  "write_uint p n v m a = (if p \<le> a \<and> a < p + n then write_uint p n v m a else m a)"
  by (auto simp: write_uint_outside not_le)

lemma read_write_sint:
  assumes "- (256 ^ n) \<le> 2 * v" and "2 * v < 256 ^ n"
  shows "read_sint (write_uint p n (nat (v mod 256 ^ n)) m) p n = v"
proof -
  have "int (nat (v mod 256 ^ n) mod 256 ^ n) = v mod 256 ^ n" by (simp add: nat_mod_distrib zmod_int)
  moreover have "v mod 256 ^ n = (if 0 \<le> v then v else v + 256 ^ n)"
    using assms mod_pos_pos_trivial [of "v + 256 ^ n" "256 ^ n"] by (auto simp: mod_pos_pos_trivial)
  ultimately show ?thesis using assms by (simp add: read_sint_def Let_def read_write_uint)
qed

text \<open>The values a scalar of a kind and a size can hold.\<close>

definition scalar_range :: "scalar_kind \<Rightarrow> nat \<Rightarrow> int \<Rightarrow> bool" where
  "scalar_range k n v \<longleftrightarrow> (if k = UNSIGNED then 0 \<le> v \<and> v < 256 ^ n else - (256 ^ n) \<le> 2 * v \<and> 2 * v < 256 ^ n)"

text \<open>
  (C37) A scalar reads back what was assigned: assigning an integer to a reference to an integer scalar
  of 1, 2, 4 or 8 bytes succeeds, changes only the bytes of the scalar, and reading the scalar through
  this reference gives the assigned value when the scalar's type can hold it.
\<close>

theorem scalar_assign_value:
  assumes "r_content (refs s ! i) = Some c" "c_data (contents s ! c) = p" "p \<noteq> 0" "c_type (contents s ! c) = Scalar d a"
    and "sc_kind d = UNSIGNED \<or> sc_kind d = SIGNED" "Scalar_buffersize d \<in> {1, 2, 4, 8}"
  shows "\<exists>s'. scalar_assign ff fd i v s = (Inr (), s') \<and> s' = s\<lparr>memory := memory s'\<rparr>
    \<and> (\<forall>x. x < p \<or> p + Scalar_buffersize d \<le> x \<longrightarrow> memory s' x = memory s x)
    \<and> (scalar_range (sc_kind d) (Scalar_buffersize d) v \<longrightarrow> scalar_value i s' = (Inr (Int_val v), s'))"
proof -
  define n where "n = Scalar_buffersize d"
  define s' where "s' = s\<lparr>memory := write_uint p n (nat (v mod 256 ^ n)) (memory s)\<rparr>"
  have t: "ref_type i s = Scalar d a" "ref_type i s' = Scalar d a" using assms by (simp_all add: ref_type_def s'_def)
  have "is_null i s = (Inr False, s)" using assms by (simp add: is_null_def)
  then have "ref_get i s = (Inr p, s)" using assms by (simp add: ref_get_def sx_bind_def)
  then have "scalar_assign ff fd i v s = (Inr (), s')"
    using assms(5,6) t(1) unfolding n_def [symmetric] by (simp add: scalar_assign_def n_def [symmetric] s'_def on_memory_def)
  moreover have "\<forall>x. x < p \<or> p + n \<le> x \<longrightarrow> memory s' x = memory s x"
    by (simp add: s'_def write_uint_outside)
  moreover have "scalar_value i s' = (Inr (Int_val v), s')" if r: "scalar_range (sc_kind d) n v"
  proof -
    have b: "buffersize (Scalar d a) = n" by (simp add: n_def size_query_defs)
    have "scalar_value i s' = (scalar_read d (Scalar d a) (memory s') p, s')"
      using t(2) assms by (simp add: scalar_value_def s'_def)
    moreover have "scalar_read d (Scalar d a) (memory s') p = Inr (Int_val v)"
    proof (cases "sc_kind d = UNSIGNED")
      case True
      with r have v: "0 \<le> v" "v < 256 ^ n" by (simp_all add: scalar_range_def)
      have "nat v < 256 ^ n" using v by (simp add: nat_less_iff)
      with v True assms(6) b show ?thesis
        by (simp add: scalar_read_def s'_def read_write_uint n_def [symmetric])
    next
      case False
      with r have v: "- (256 ^ n) \<le> 2 * v" "2 * v < 256 ^ n" by (simp_all add: scalar_range_def)
      with False assms(5,6) b show ?thesis
        by (simp add: scalar_read_def s'_def read_write_sint n_def [symmetric])
    qed
    ultimately show ?thesis by simp
  qed
  moreover have "s' = s\<lparr>memory := memory s'\<rparr>" by (simp add: s'_def)
  ultimately show ?thesis unfolding n_def by blast
qed

theorem scalar_assign_value_witness:
  "\<exists>s'. scalar_assign (\<lambda>_. 0) (\<lambda>_. 0) 1 (- 1000) sample_refs = (Inr (), s') \<and> scalar_value 1 s' = (Inr (Int_val (- 1000)), s')"
proof -
  define c where "c = contents sample_refs ! 0"
  have c: "c_data c = 16" "c_type c = sample_scalar 4" unfolding c_def by (code_simp, simp add: sample_refs_content)
  show ?thesis
    using scalar_assign_value [of sample_refs 1 0 16 _ "[]" "\<lambda>_. 0" "\<lambda>_. 0" "- 1000"] c
    unfolding c_def by (force simp: sample_refs_eval sample_scalar_def size_query_defs scalar_range_def)
qed

section \<open>Release\<close>

text \<open>The references after a temporary reference without rights came and went, and the new state of a buffer.\<close>

definition null_reference :: reference where
  "null_reference = \<lparr>r_R = False, r_W = False, r_content = None\<rparr>"

lemma copy_without_rights:
  assumes "r_content (refs s ! i) = Some c" "c_data (contents s ! c) \<noteq> 0" "i < length (refs s)"
  shows "copy_ref False False i s = (Inr (length (refs s)), s\<lparr>refs := refs s @ [\<lparr>r_R = False, r_W = False, r_content = Some c\<rparr>]\<rparr>)"
  using assms by (simp add: copy_ref_def null_ref_def sx_bind_def get_content_def nth_append link_def Let_def upd_ref_def upd_buffer_def)

lemma destroy_temporary:
  assumes "r_content (rs ! i) = Some c" "i < length rs" and "b = c_buffer (contents s ! c)"
    and "\<forall>kv \<in> set (b_notifications (buffers s ! b)). fst kv \<noteq> length rs"
  shows "destroy_ref (length rs) (s\<lparr>refs := rs @ [\<lparr>r_R = False, r_W = False, r_content = Some c\<rparr>]\<rparr>)
    = (Inr (), s\<lparr>refs := rs @ [null_reference]\<rparr>)"
proof -
  have "filter (\<lambda>kv. fst kv \<noteq> length rs) (b_notifications (buffers s ! b)) = b_notifications (buffers s ! b)"
    using assms(4) by (simp add: filter_id_conv)
  moreover have "\<exists>r \<in> set (rs @ [null_reference]). linked_to (s\<lparr>refs := rs @ [null_reference]\<rparr>) b r"
    using assms(1-3) by (intro bexI [of _ "rs ! i"]) (auto simp: linked_to_def)
  ultimately show ?thesis
    using assms(3) by (auto simp: destroy_ref_def reset_def unlink_def Let_def upd_ref_def upd_buffer_def collect_def null_reference_def)
qed

lemma more_update_simps [simp]:
  "store.more_update g (s\<lparr>refs := x\<rparr>) = store.more_update g s\<lparr>refs := x\<rparr>"
  "store.more_update g (s\<lparr>buffers := y\<rparr>) = store.more_update g s\<lparr>buffers := y\<rparr>"
  "store.more_update (\<lambda>z. z) s = s" "store.more_update id s = s"
  "store.more_update g (store.more_update h s) = store.more_update (g \<circ> h) s"
  by (cases s; simp)+

text \<open>Callbacks that report to the rest of the program and leave the references alone.\<close>

definition reporting :: "(nat \<Rightarrow> 'x \<Rightarrow> 'x) \<Rightarrow> 'x ref_env \<Rightarrow> bool" where
  "reporting f env \<longleftrightarrow> (\<forall>cb t s. env_nullify env cb t s = (Inr (), store.more_update (f cb) s))"

lemma notify_round:
  assumes env: "reporting f env"
    and i: "r_content (refs s ! i) = Some c" "c_data (contents s ! c) \<noteq> 0" "i < length (refs s)" "b = c_buffer (contents s ! c)"
    and n: "\<forall>kv \<in> set (b_notifications (buffers s ! b)). fst kv < length (refs s)"
  shows "with_ref (copy_ref False False i) (\<lambda>t. env_nullify env cb t) s
    = (Inr (), store.more_update (f cb) (s\<lparr>refs := refs s @ [null_reference]\<rparr>))"
proof -
  have "\<forall>kv \<in> set (b_notifications (buffers (store.more_update (f cb) s) ! b)). fst kv \<noteq> length (refs s)"
    using n by auto
  from destroy_temporary [of "refs s" i c b "store.more_update (f cb) s", OF i(1,3) _ this] i(4)
  have "destroy_ref (length (refs s)) (store.more_update (f cb) (s\<lparr>refs := refs s @ [\<lparr>r_R = False, r_W = False, r_content = Some c\<rparr>]\<rparr>))
    = (Inr (), store.more_update (f cb) (s\<lparr>refs := refs s @ [null_reference]\<rparr>))"
    by simp
  with env show ?thesis
    unfolding with_ref_def reporting_def
    by (simp add: sx_bind_def copy_without_rights [OF i(1-3)] sx_catch_def)
qed

lemma notify_loop_reports:
  assumes env: "reporting f env" and "length ks \<le> fuel"
    and i: "r_content (refs s ! i) = Some c" "c_data (contents s ! c) \<noteq> 0" "i < length (refs s)" "b = c_buffer (contents s ! c)"
    and b: "b < length (buffers s)" "b_notifications (buffers s ! b) = ks"
    and ks: "distinct (map fst ks)" "\<forall>kv \<in> set ks. fst kv < length (refs s)"
  shows "notify_loop env fuel i s = (Inr (), store.more_update (fold f (map snd ks))
    (s\<lparr>refs := refs s @ replicate (length ks) null_reference,
       buffers := (buffers s)[b := (buffers s ! b)\<lparr>b_notifications := []\<rparr>]\<rparr>))"
  using assms(2-)
proof (induction ks arbitrary: s fuel)
  case Nil
  have "(buffers s ! b)\<lparr>b_notifications := []\<rparr> = buffers s ! b" using Nil.prems by simp
  then have "(buffers s)[b := (buffers s ! b)\<lparr>b_notifications := []\<rparr>] = buffers s" by simp
  with Nil.prems show ?case by (subst notify_loop.simps) simp
next
  case (Cons kv ks)
  obtain key cb where kv: "kv = (key, cb)" by fastforce
  obtain fuel' where fuel: "fuel = Suc fuel'" using Cons.prems(1) by (cases fuel) auto
  let ?s = "store.more_update (f cb) (s\<lparr>refs := refs s @ [null_reference], buffers := (buffers s)[b := (buffers s ! b)\<lparr>b_notifications := ks\<rparr>]\<rparr>)"
  have keys: "filter (\<lambda>kv. fst kv \<noteq> key) ks = ks"
    using Cons.prems(8) kv by (force simp: filter_id_conv)
  have erase: "erase_notification i key (store.more_update (f cb) (s\<lparr>refs := refs s @ [null_reference]\<rparr>)) = (Inr (), ?s)"
    using Cons.prems kv keys by (simp add: erase_notification_def nth_append upd_buffer_def)
  have "notify_loop env fuel i s = notify_loop env fuel' i ?s"
    using Cons.prems fuel kv erase
    by (subst notify_loop.simps) (simp add: sx_bind_def notify_round [OF env Cons.prems(2-5)])
  also have "\<dots> = (Inr (), store.more_update (fold f (map snd ks)) (?s\<lparr>refs := refs ?s @ replicate (length ks) null_reference,
       buffers := (buffers ?s)[b := (buffers ?s ! b)\<lparr>b_notifications := []\<rparr>]\<rparr>))"
    using Cons.prems fuel by (intro Cons.IH) (auto simp: nth_append)
  finally show ?case using kv Cons.prems(6) by (simp add: o_def replicate_append_same)
qed

lemma unlink_without_deallocator:
  assumes "r_content (refs s ! i) = Some c" "i < length (refs s)" "c_buffer (contents s ! c) = b" "b < length (buffers s)"
    and "b_deallocator (buffers s ! b) = None"
  obtains s' where "unlink i s = (Inr (), s')" "store.more s' = store.more s" "freed s' = freed s" "memory s' = memory s"
    "b_deallocator (buffers s' ! b) = None" "r_content (refs s' ! i) = None" "contents s' = contents s"
    "\<And>j. j \<noteq> i \<Longrightarrow> refs s' ! j = refs s ! j"
proof -
  obtain s1 where s1: "unlink i s = collect b s1" "store.more s1 = store.more s" "freed s1 = freed s" "memory s1 = memory s"
    "b_deallocator (buffers s1 ! b) = None" "r_content (refs s1 ! i) = None" "contents s1 = contents s"
    "\<And>j. j \<noteq> i \<Longrightarrow> refs s1 ! j = refs s ! j" "b < length (buffers s1)"
    using assms by (auto simp: unlink_def Let_def upd_ref_def upd_buffer_def)
  have "destroy_buffer b s1 = (Inr (), upd_buffer b (\<lambda>B. B\<lparr>b_alive := False\<rparr>) s1)"
    using s1(5) by (simp add: destroy_buffer_def sx_noexcept_def sx_bind_def run_deallocator_def)
  then have "collect b s1 = (Inr (), s1) \<or> collect b s1 = (Inr (), upd_buffer b (\<lambda>B. B\<lparr>b_alive := False\<rparr>) s1)"
    by (simp add: collect_def)
  then show ?thesis
  proof
    assume "collect b s1 = (Inr (), s1)"
    with s1 show ?thesis by (intro that [of s1]) auto
  next
    assume "collect b s1 = (Inr (), upd_buffer b (\<lambda>B. B\<lparr>b_alive := False\<rparr>) s1)"
    with s1 show ?thesis by (intro that [of "upd_buffer b (\<lambda>B. B\<lparr>b_alive := False\<rparr>) s1"]) (auto simp: upd_buffer_def)
  qed
qed


text \<open>Two callbacks that write to a log next to the store.\<close>

definition sample_log_env :: "nat list ref_env" where
  "sample_log_env = \<lparr>env_nullify = (\<lambda>cb t s. (Inr (), store.more_update (\<lambda>l. l @ [cb]) s)), env_fuel = 2\<rparr>"

definition sample_notified :: "nat list store_scheme" where
  "sample_notified = \<lparr>refs = [\<lparr>r_R = True, r_W = False, r_content = Some 0\<rparr>, \<lparr>r_R = False, r_W = False, r_content = Some 0\<rparr>],
     contents = [\<lparr>c_buffer = 0, c_data = 16, c_type = sample_scalar 4\<rparr>],
     buffers = [\<lparr>b_deallocator = Some (16, Free, sample_scalar 4), b_read_locks = 0, b_write_locks = 1,
       b_notifications = [(1, 7), (0, 8)], b_alive = True\<rparr>],
     memory = sample_memory, heap_top = 64, allocated = [], freed = [], \<dots> = []\<rparr>"


section \<open>Deep copies\<close>

lemma std_align_fits:
  assumes "ispow2 al"
  shows "std_align al sz p (sz + (al - 1)) = Inr (round_up al p)"
  using round_up_less [OF ispow2_pos [OF assms], of p] assms by (auto simp: std_align_def)

text \<open>A temporary reference with the right to read, in a state where nobody writes.\<close>

lemma copy_to_read:
  assumes "r_content (refs s ! i) = Some c" "c_data (contents s ! c) \<noteq> 0" "i < length (refs s)"
    and "c_buffer (contents s ! c) = b" "b < length (buffers s)" "b_read_locks (buffers s ! b) = 0"
  shows "copy_ref True False i s = (Inr (length (refs s)),
    s\<lparr>refs := refs s @ [\<lparr>r_R = True, r_W = False, r_content = Some c\<rparr>],
      buffers := (buffers s)[b := (buffers s ! b)\<lparr>b_write_locks := b_write_locks (buffers s ! b) + 1\<rparr>]\<rparr>)"
  using assms
  by (simp add: copy_ref_def null_ref_def sx_bind_def get_content_def nth_append link_def Let_def upd_ref_def upd_buffer_def)

lemma do_copy_correct:
  assumes i: "r_content (refs s ! i) = Some c" "c_data (contents s ! c) = src" "src \<noteq> 0" "c_type (contents s ! c) = t"
    and t: "natural t" "wf_dt t" "simple t" "nested_unpadded t" "alignment t \<noteq> 0" "ispow2 (alignment t)"
    and sz: "packed_size t \<noteq> 0" "packed_size t + alignment t < size_max" "src + buffersize t \<le> heap_top s" "densify t = Inr t'"
  shows "\<exists>dst s' m'. do_copy i s = (Inr (length (refs s)), s')
    \<and> heap_top s \<le> dst \<and> alignment t' dvd dst \<and> dst + packed_size t \<le> heap_top s'
    \<and> s' = s\<lparr>refs := refs s @ [\<lparr>r_R = False, r_W = False, r_content = Some (length (contents s))\<rparr>],
        contents := contents s @ [\<lparr>c_buffer = length (buffers s), c_data = dst, c_type = t'\<rparr>],
        buffers := buffers s @ [Referenced_buffer (Some (dst, Delete_buffer dst, t')) True True],
        memory := m', heap_top := heap_top s', allocated := allocated s'\<rparr>
    \<and> read_data t' m' dst = read_data t (memory s) src
    \<and> (\<forall>a. a < heap_top s \<longrightarrow> m' a = memory s a)"
proof -
  have t': "buffersize t' = packed_size t" "data_offsets t' = packed_offsets t" "alignment t' = alignment t"
    using t sz(4) natural_densify [of t] densify_stable(1) [of t t'] by (metis sum.inject(2), metis sum.inject(2), simp)
  define p where "p = round_up 16 (heap_top s)"
  define dst where "dst = round_up (alignment t) p"
  have p: "heap_top s \<le> p" "p \<le> dst" by (simp_all add: p_def dst_def round_up_ge)
  have dst: "alignment t dvd dst" "dst < p + alignment t"
    using t(5) by (simp_all add: dst_def round_up_dvd round_up_less)
  define size where "size = packed_size t + (alignment t - 1)"
  have size: "sz_add (packed_size t) (sz_sub (alignment t') (Suc 0)) = size"
    using sz t(5) by (simp add: t' size_def sz_sub_eq sz_add_eq)
  have align: "std_align (alignment t') (packed_size t) p size = Inr dst"
    using std_align_fits [OF t(6)] by (simp add: size_def dst_def t')
  obtain q m' where m': "data_to_dense_copy t dst src (memory s) = (Inr q, m')"
    "copied (memory s) m' dst (dst + packed_size t) (map ((+) dst) (packed_offsets t)) (map ((+) src) (data_offsets t))"
    using data_to_dense_nested [OF t(1-5) dst(1), of src "memory s"] p sz(3) by auto
  let ?s = "s\<lparr>heap_top := p + size, allocated := allocated s @ [p]\<rparr>"
  have new: "operator_new size s = (Inr p, ?s)" by (simp add: operator_new_def Let_def p_def)
  have get: "ref_get i ?s = (Inr src, ?s)" using i by (simp add: ref_get_def is_null_def sx_bind_def)
  let ?s' = "?s\<lparr>memory := m', refs := refs s @ [\<lparr>r_R = False, r_W = False, r_content = Some (length (contents s))\<rparr>],
        contents := contents s @ [\<lparr>c_buffer = length (buffers s), c_data = dst, c_type = t'\<rparr>],
        buffers := buffers s @ [Referenced_buffer (Some (dst, Delete_buffer dst, t')) True True]\<rparr>"
  have "dst \<noteq> 0" using p sz(3) i(3) by linarith
  then have "make_ref False False dst (Delete_buffer dst) t' True True (?s\<lparr>memory := m'\<rparr>) = (Inr (length (refs s)), ?s')"
    by (simp add: make_ref_def null_ref_def sx_bind_def new_rdata_buffer_def new_rdata_def link_def nth_append Let_def
        upd_ref_def upd_buffer_def Referenced_buffer_def)
  then have "do_copy i s = (Inr (length (refs s)), ?s')"
    using i sz(1,4) align get m'(1) \<open>dst \<noteq> 0\<close>
    by (simp add: do_copy_def sx_bind_def ref_type_def size new Let_def t'(1) on_memory_def sx_catch_def)
  moreover have "read_data t' m' dst = read_data t (memory s) src"
    using m'(2) t'(2) by (intro read_data_copied) simp
  moreover have "\<forall>a. a < heap_top s \<longrightarrow> m' a = memory s a" using m'(2) p by (simp add: copied_def)
  ultimately show ?thesis
    using p dst t' by (intro exI [of _ dst] exI [of _ ?s'] exI [of _ m']) (auto simp: size_def)
qed

lemma unlink_reader:
  assumes "r_content (refs s ! j) = Some c" "r_R (refs s ! j)" "\<not> r_W (refs s ! j)" "j < length (refs s)"
    and "c_buffer (contents s ! c) = b" "b < length (buffers s)"
    and "i < length (refs s)" "i \<noteq> j" "r_content (refs s ! i) = Some c"
  shows "destroy_ref j s = (Inr (), s\<lparr>refs := (refs s)[j := (refs s ! j)\<lparr>r_content := None\<rparr>],
    buffers := (buffers s)[b := (buffers s ! b)\<lparr>b_notifications := filter (\<lambda>kv. fst kv \<noteq> j) (b_notifications (buffers s ! b)),
        b_write_locks := b_write_locks (buffers s ! b) - 1\<rparr>]\<rparr>)"
proof -
  have "refs (unlink_state j c s) ! i \<in> set (refs (unlink_state j c s))"
    using assms by (intro nth_mem) (simp add: unlink_state_def upd_ref_def upd_buffer_def)
  moreover have "linked_to (unlink_state j c s) b (refs (unlink_state j c s) ! i)"
    using assms by (simp add: linked_to_def unlink_state_def upd_ref_def upd_buffer_def)
  ultimately have "has_link (unlink_state j c s) b" by (auto simp: has_link_def)
  with assms show ?thesis
    by (simp add: destroy_ref_def reset_def unlink_eq collect_def has_link_def unlink_state_def upd_ref_def upd_buffer_def Let_def)
qed


definition sample_shared :: store where
  "sample_shared = \<lparr>refs = [\<lparr>r_R = False, r_W = False, r_content = Some 0\<rparr>],
     contents = [\<lparr>c_buffer = 0, c_data = 16, c_type = sample_sparse\<rparr>],
     buffers = [Referenced_buffer (Some (16, Free, sample_sparse)) True True],
     memory = sample_memory, heap_top = 64, allocated = [], freed = []\<rparr>"


section \<open>Differences from the documentation\<close>

text \<open>
  \<open>std::align\<close> moves the pointer \<open>buffer\<close> of \<open>do_copy\<close>: the deleter of a copy of an over-aligned value
  frees the aligned address, which \<open>operator new\<close> never returned.
\<close>

definition sample_overaligned :: dt where
  "sample_overaligned = Scalar \<lparr>sc_size = 4, sc_dense_size = 4, sc_align = 32, sc_kind = SIGNED, sc_copy = None, sc_destroy = None\<rparr> []"

lemma do_copy_deletes_aligned_address:
  fixes s :: store
  defines "s \<equiv> sample_shared\<lparr>contents := [\<lparr>c_buffer = 0, c_data = 16, c_type = sample_overaligned\<rparr>], heap_top := 80\<rparr>"
  shows "\<exists>s'. do_copy 0 s = (Inr 1, s') \<and> allocated s' = [80]
     \<and> r_content (refs s' ! 1) = Some 1 \<and> c_buffer (contents s' ! 1) = 1
     \<and> b_deallocator (buffers s' ! 1) = Some (96, Delete_buffer 96, sample_overaligned)"
proof -
  have align: "sz_add 4 (sz_sub 32 (Suc 0)) = 35" by (simp add: sz_add_def sz_sub_def)
  show ?thesis
    unfolding s_def
    by (simp add: sample_shared_def sample_overaligned_def do_copy_def sx_bind_def sx_catch_def ref_type_def operator_new_def
        round_up_def size_query_defs align std_align_def ispow2_def Let_def ref_get_def is_null_def on_memory_def
        Scalar_data_to_dense_copy_def make_ref_def null_ref_def new_rdata_buffer_def new_rdata_def link_def upd_ref_def
        upd_buffer_def Referenced_buffer_def)
qed

text \<open>
  A reference to a member of released data is not nullified: it keeps the address the caller of
  \<open>release\<close> now owns.
\<close>

definition sample_member :: store where
  "sample_member = snd (ref_member 0 ''i'' sample_shared)"

lemma release_keeps_member_references:
  "fst (release sample_env 0 sample_member) = Inr 16"
  "fst (ref_get 1 (snd (release sample_env 0 sample_member))) = Inr 24"
  by code_simp+

end
