(* ===== verification/C_Strings.thy ===== *)
theory C_Strings
  imports PDI_Error Float_Model
begin

text \<open>
  The functions of the C library that the sources use on character strings: \<open>isspace\<close>, \<open>strtol\<close> with
  base 0, \<open>strtod\<close>, and the rendering of a \<open>double\<close> by a stream with 17 significant digits, all in the
  \<open>C\<close> locale. A string is the list of its characters before the terminating null character.
\<close>

definition c_str :: "string \<Rightarrow> string" where
  "c_str s = takeWhile (\<lambda>c. c \<noteq> CHR 0x00) s"

definition isspace :: "char \<Rightarrow> bool" where
  "isspace c \<longleftrightarrow> c = CHR '' '' \<or> (9 \<le> (of_char c :: nat) \<and> (of_char c :: nat) \<le> 13)"

definition skip_space :: "string \<Rightarrow> string" where
  "skip_space s = dropWhile isspace s"

lemma skip_space_length: "length (skip_space s) \<le> length s"
  by (simp add: skip_space_def length_dropWhile_le)

section \<open>Integers\<close>

text \<open>The value of a digit in a base up to 16.\<close>

definition digit_value :: "char \<Rightarrow> int option" where
  "digit_value c =
     (let n = (of_char c :: int) in
      if 48 \<le> n \<and> n \<le> 57 then Some (n - 48)
      else if 97 \<le> n \<and> n \<le> 102 then Some (n - 87)
      else if 65 \<le> n \<and> n \<le> 70 then Some (n - 55)
      else None)"

definition is_digit :: "int \<Rightarrow> char \<Rightarrow> bool" where
  "is_digit base c = (case digit_value c of None \<Rightarrow> False | Some d \<Rightarrow> d < base)"

fun digits_value :: "int \<Rightarrow> string \<Rightarrow> int \<Rightarrow> int" where
  "digits_value base [] acc = acc"
| "digits_value base (c # cs) acc =
     digits_value base cs (acc * base + (case digit_value c of None \<Rightarrow> 0 | Some d \<Rightarrow> d))"

text \<open>An optional sign, true when it is negative.\<close>

definition read_sign :: "string \<Rightarrow> bool \<times> string" where
  "read_sign s =
     (case s of
        c # r \<Rightarrow> if c = CHR ''-'' then (True, r) else if c = CHR ''+'' then (False, r) else (False, s)
      | [] \<Rightarrow> (False, s))"

text \<open>The base that a prefix selects, and the text after a hexadecimal prefix.\<close>

definition read_base :: "string \<Rightarrow> int \<times> string" where
  "read_base s =
     (case s of
        c # x # d # r \<Rightarrow>
          if c = CHR ''0'' \<and> x \<in> {CHR ''x'', CHR ''X''} \<and> is_digit 16 d then (16, d # r)
          else if c = CHR ''0'' then (8, s) else (10, s)
      | c # r \<Rightarrow> if c = CHR ''0'' then (8, s) else (10, s)
      | [] \<Rightarrow> (10, s))"

definition LONG_MAX :: int where "LONG_MAX = 2 ^ 63 - 1"
definition LONG_MIN :: int where "LONG_MIN = - (2 ^ 63)"

text \<open>\<open>strtol\<close>: the value, whether the range was exceeded, and the text after the number.\<close>

definition strtol :: "string \<Rightarrow> int \<times> bool \<times> string" where
  "strtol s =
     (let (neg, r) = read_sign (skip_space s); (base, r) = read_base r;
          ds = takeWhile (is_digit base) r; rest = dropWhile (is_digit base) r;
          v = digits_value base ds 0; v = (if neg then - v else v)
      in if ds = [] then (0, False, s)
         else if v > LONG_MAX then (LONG_MAX, True, rest)
         else if v < LONG_MIN then (LONG_MIN, True, rest)
         else (v, False, rest))"

lemma read_sign_length: "length (snd (read_sign s)) \<le> length s"
  by (auto simp: read_sign_def split: list.splits)

lemma read_base_length: "length (snd (read_base s)) \<le> length s"
  by (auto simp: read_base_def split: list.splits)

lemma strtol_length:
  assumes "strtol s = (v, e, rest)"
  shows "rest = s \<or> length rest < length s"
proof -
  obtain neg r where r: "read_sign (skip_space s) = (neg, r)" by fastforce
  obtain base r' where r': "read_base r = (base, r')" by fastforce
  have le: "length r' \<le> length s"
    using read_sign_length [of "skip_space s"] read_base_length [of r] r r' skip_space_length [of s]
    by (metis order_trans snd_conv)
  have "length (dropWhile (is_digit base) r') < length r'" if "takeWhile (is_digit base) r' \<noteq> []"
    using that by (cases r') (auto simp: le_imp_less_Suc length_dropWhile_le split: if_splits)
  with assms le r r' show ?thesis by (auto simp: strtol_def Let_def split: if_splits)
qed

section \<open>Floating point numbers\<close>

definition ten_power :: "int \<Rightarrow> int \<Rightarrow> int \<times> int" where
  "ten_power n e = (if 0 \<le> e then (n * 10 ^ nat e, 1) else (n, 10 ^ nat (- e)))"

text \<open>Digits with an optional fraction: their value without the point, and the digits after the point.\<close>

definition read_mantissa :: "int \<Rightarrow> string \<Rightarrow> (string \<times> string \<times> string) option" where
  "read_mantissa base s =
     (let ip = takeWhile (is_digit base) s; r = dropWhile (is_digit base) s in
      case r of
        c # r' \<Rightarrow>
          if c = CHR ''.'' then
            let fp = takeWhile (is_digit base) r' in
            if ip = [] \<and> fp = [] then None else Some (ip, fp, dropWhile (is_digit base) r')
          else if ip = [] then None else Some (ip, [], r)
      | [] \<Rightarrow> if ip = [] then None else Some (ip, [], r))"

text \<open>An exponent introduced by one of two letters; without digits it is not part of the number.\<close>

definition read_exponent :: "char set \<Rightarrow> string \<Rightarrow> int \<times> string" where
  "read_exponent letters s =
     (case s of
        c # r \<Rightarrow>
          if c \<in> letters then
            let (neg, r') = read_sign r; ds = takeWhile (is_digit 10) r' in
            if ds = [] then (0, s)
            else ((if neg then - digits_value 10 ds 0 else digits_value 10 ds 0), dropWhile (is_digit 10) r')
          else (0, s)
      | [] \<Rightarrow> (0, s))"

definition to_lower :: "char \<Rightarrow> char" where
  "to_lower c = (let n = (of_char c :: nat) in if 65 \<le> n \<and> n \<le> 90 then char_of (n + 32) else c)"

definition starts_with :: "string \<Rightarrow> string \<Rightarrow> bool" where
  "starts_with p s \<longleftrightarrow> map to_lower (take (length p) s) = p"

text \<open>The optional text in parentheses after \<open>nan\<close>.\<close>

definition skip_nan_payload :: "string \<Rightarrow> string" where
  "skip_nan_payload s =
     (case s of
        c # r \<Rightarrow>
          if c = CHR ''('' then
            let r' = dropWhile (\<lambda>c. c = CHR ''_'' \<or> (let n = (of_char c :: nat) in
                  48 \<le> n \<and> n \<le> 57 \<or> 65 \<le> n \<and> n \<le> 90 \<or> 97 \<le> n \<and> n \<le> 122)) r in
            (case r' of d # r'' \<Rightarrow> if d = CHR '')'' then r'' else s | [] \<Rightarrow> s)
          else s
      | [] \<Rightarrow> s)"

text \<open>The unsigned part of a number: its bits for a sign, and the text after it.\<close>

definition read_number :: "bool \<Rightarrow> string \<Rightarrow> (int \<times> string) option" where
  "read_number neg s =
     (if starts_with ''infinity'' s then Some (fp_encode 53 11 (F_inf neg), drop 8 s)
      else if starts_with ''inf'' s then Some (fp_encode 53 11 (F_inf neg), drop 3 s)
      else if starts_with ''nan'' s then
        Some (fp_bits 53 11 neg 2047 (2 ^ 51), skip_nan_payload (drop 3 s))
      else
        case if starts_with ''0x'' s then read_mantissa 16 (drop 2 s) else None of
          Some (ip, fp, r) \<Rightarrow>
            let (e, r) = read_exponent {CHR ''p'', CHR ''P''} r;
                (n, d) = scale (digits_value 16 (ip @ fp) 0) 1 (e - 4 * int (length fp))
            in Some (fp_round 53 11 neg n d, r)
        | None \<Rightarrow>
            (case read_mantissa 10 s of
               None \<Rightarrow> None
             | Some (ip, fp, r) \<Rightarrow>
                 let (e, r) = read_exponent {CHR ''e'', CHR ''E''} r;
                     (n, d) = ten_power (digits_value 10 (ip @ fp) 0) (e - int (length fp))
                 in Some (fp_round 53 11 neg n d, r)))"

definition strtod :: "string \<Rightarrow> f64 \<times> string" where
  "strtod s =
     (let (neg, r) = read_sign (skip_space s) in
      case read_number neg r of None \<Rightarrow> (0, s) | Some (b, rest) \<Rightarrow> (of_int b, rest))"

lemma dropWhile_Cons_length: "dropWhile P xs = y # ys \<Longrightarrow> length ys < length xs"
  using length_dropWhile_le [of P xs] by simp

lemma read_mantissa_length:
  assumes "read_mantissa base s = Some (ip, fp, r)"
  shows "length r < length s"
proof -
  have split: "length t = length (takeWhile (is_digit base) t) + length (dropWhile (is_digit base) t)" for t
    by (metis length_append takeWhile_dropWhile_id)
  consider "r = dropWhile (is_digit base) s" "takeWhile (is_digit base) s \<noteq> []"
    | c r' where "dropWhile (is_digit base) s = c # r'" "r = dropWhile (is_digit base) r'"
    using assms by (auto simp: read_mantissa_def Let_def split: if_splits list.splits)
  then show ?thesis
  proof cases
    case 1
    with split [of s] show ?thesis by simp
  next
    case 2
    with split [of s] length_dropWhile_le [of "is_digit base" r'] show ?thesis by simp
  qed
qed

lemma read_exponent_length: "length (snd (read_exponent L s)) \<le> length s"
proof (cases s)
  case (Cons c r)
  have "length (dropWhile (is_digit 10) (snd (read_sign r))) \<le> length r"
    using length_dropWhile_le [of "is_digit 10" "snd (read_sign r)"] read_sign_length [of r] by linarith
  with Cons show ?thesis by (auto simp: read_exponent_def Let_def split: prod.splits if_splits)
qed (simp add: read_exponent_def)

lemma skip_nan_payload_length: "length (skip_nan_payload s) \<le> length s"
proof (cases s)
  case (Cons c r)
  then show ?thesis
    by (auto simp: skip_nan_payload_def Let_def dest!: dropWhile_Cons_length split: list.splits)
qed (simp add: skip_nan_payload_def)

lemma starts_with_length: "starts_with p s \<Longrightarrow> length p \<le> length s"
  unfolding starts_with_def by (metis length_map length_take min.cobounded1)

lemma read_number_length:
  assumes "read_number neg s = Some (b, rest)"
  shows "length rest < length s"
proof -
  have hex: "length rest < length s" if "read_mantissa 16 (drop 2 s) = Some (ip, fp, r)" "read_exponent L r = (e, rest)" for ip fp r L e
    using read_mantissa_length [OF that(1)] read_exponent_length [of L r] that(2) by simp
  have dec: "length rest < length s" if "read_mantissa 10 s = Some (ip, fp, r)" "read_exponent L r = (e, rest)" for ip fp r L e
    using read_mantissa_length [OF that(1)] read_exponent_length [of L r] that(2) by simp
  have nan: "length (skip_nan_payload (drop 3 s)) < length s" if "starts_with ''nan'' s"
    using skip_nan_payload_length [of "drop 3 s"] starts_with_length [OF that] by simp
  show ?thesis
    using assms nan starts_with_length [of "''infinity''" s] starts_with_length [of "''inf''" s]
    by (auto simp: read_number_def Let_def split: if_splits option.splits prod.splits intro: hex dec)
qed

lemma strtod_length:
  assumes "strtod s = (v, rest)"
  shows "rest = s \<or> length rest < length s"
proof (cases "read_number (fst (read_sign (skip_space s))) (snd (read_sign (skip_space s)))")
  case None
  with assms show ?thesis by (auto simp: strtod_def Let_def split: prod.splits)
next
  case (Some br)
  obtain b r where br: "br = (b, r)" by fastforce
  with Some assms have "rest = r" by (auto simp: strtod_def Let_def split: prod.splits)
  moreover have "length (snd (read_sign (skip_space s))) \<le> length s"
    using read_sign_length skip_space_length by (rule order_trans)
  ultimately show ?thesis using read_number_length [OF Some [unfolded br]] by simp
qed

section \<open>Rendering of a double\<close>

text \<open>
  The value \<open>n / d\<close> in scientific notation with 17 digits, rounded to nearest even: the digits as one
  integer and the decimal exponent of the first.
\<close>

fun dec_length :: "nat \<Rightarrow> int \<Rightarrow> int" where
  "dec_length 0 n = 0"
| "dec_length (Suc k) n = (if n \<le> 0 then 0 else dec_length k (n div 10) + 1)"

definition decimal17 :: "int \<Rightarrow> int \<Rightarrow> int \<times> int" where
  "decimal17 n d =
     (let k = dec_length 800 n - dec_length 800 d;
          (a, b) = ten_power n (- k);
          k = (if d * b \<le> a then k else k - 1);
          (a, b) = ten_power n (16 - k);
          m = round_half_even a (d * b)
      in if m = 10 ^ 17 then (10 ^ 16, k + 1) else (m, k))"

definition int_digits :: "int \<Rightarrow> string" where
  "int_digits n = fmt_nat (nat n)"

text \<open>Trailing zeros of the fraction are dropped, and the point with them.\<close>

definition strip_zeros :: "string \<Rightarrow> string" where
  "strip_zeros s = rev (dropWhile (\<lambda>c. c = CHR ''0'') (rev s))"

definition with_fraction :: "string \<Rightarrow> string \<Rightarrow> string" where
  "with_fraction ip fp = (if strip_zeros fp = [] then ip else ip @ ''.'' @ strip_zeros fp)"

text \<open>The conversion \<open>%.17g\<close> of a positive fraction.\<close>

definition show17 :: "int \<Rightarrow> int \<Rightarrow> string" where
  "show17 n d =
     (let (m, x) = decimal17 n d; ds = int_digits m in
      if x < - 4 \<or> 17 \<le> x then
        with_fraction (take 1 ds) (drop 1 ds) @ ''e'' @ (if x < 0 then ''-'' else ''+'')
          @ (if \<bar>x\<bar> < 10 then ''0'' else []) @ int_digits \<bar>x\<bar>
      else if 0 \<le> x then with_fraction (take (nat x + 1) ds) (drop (nat x + 1) ds)
      else with_fraction ''0'' (replicate (nat (- x) - 1) (CHR ''0'') @ ds))"

definition show_f64 :: "f64 \<Rightarrow> string" where
  "show_f64 b =
     (let sign = (if 2 ^ 63 \<le> uint b then ''-'' else []) in
      case val64 b of
        F_nan \<Rightarrow> sign @ ''nan''
      | F_inf _ \<Rightarrow> sign @ ''inf''
      | F_fin _ m e \<Rightarrow>
          if m = 0 then sign @ ''0''
          else case scale m 1 e of (n, d) \<Rightarrow> sign @ show17 n d)"

end
