(* ===== verification/Spec_Tree.thy ===== *)
theory Spec_Tree
  imports C_Strings
begin

text \<open>
  The specification tree: YAML documents as the library \<open>paraconf\<close> gives access to them
  (\<open>vendor/paraconf\<close>: \<open>PC_get\<close>, \<open>PC_len\<close>, \<open>PC_string\<close>, \<open>PC_int\<close>, \<open>PC_double\<close>, \<open>PC_bool\<close>), and the
  functions of \<open>paraconf_wrapper.cxx\<close> over them. A tree in error keeps the node where the access
  failed and the message of the error; the message that a later error on the same thread would
  overwrite is taken from the tree itself.
\<close>

section \<open>Documents\<close>

datatype yaml =
    Y_scalar yaml_region string
  | Y_seq yaml_region "yaml list"
  | Y_map yaml_region "(yaml \<times> yaml) list"

fun y_region :: "yaml \<Rightarrow> yaml_region" where
  "y_region (Y_scalar r _) = r"
| "y_region (Y_seq r _) = r"
| "y_region (Y_map r _) = r"

fun nodetype :: "yaml \<Rightarrow> string" where
  "nodetype (Y_scalar _ _) = ''scalar''"
| "nodetype (Y_seq _ _) = ''sequence''"
| "nodetype (Y_map _ _) = ''mapping''"

record pc_tree =
  pc_err :: "string option"
  pc_node :: "yaml option"

definition pc_ok :: "yaml \<Rightarrow> pc_tree" where
  "pc_ok n = \<lparr>pc_err = None, pc_node = Some n\<rparr>"

definition PC_status :: "pc_tree \<Rightarrow> bool" where
  "PC_status t \<longleftrightarrow> pc_err t \<noteq> None"

abbreviation newline :: string where
  "newline \<equiv> [CHR 0x0A]"

text \<open>One step of a path: \<open>.key\<close>, \<open>[i]\<close>, the i-th key \<open>{i}\<close> and the i-th value \<open><i>\<close> of a mapping.\<close>

datatype step = Key string | Idx int | Map_key int | Map_val int

fun step_text :: "step \<Rightarrow> string" where
  "step_text (Key k) = ''.'' @ k"
| "step_text (Idx i) = ''['' @ fmt_int i @ '']''"
| "step_text (Map_key i) = ''{'' @ fmt_int i @ ''}''"
| "step_text (Map_val i) = ''<'' @ fmt_int i @ ''>''"

text \<open>The pair with a given key; a key that is not a scalar ends the search with an error.\<close>

fun find_key :: "string \<Rightarrow> (yaml \<times> yaml) list \<Rightarrow> string + yaml option" where
  "find_key k [] = Inr None"
| "find_key k ((Y_scalar _ s, v) # ps) = (if c_str s = k then Inr (Some v) else find_key k ps)"
| "find_key k ((n, v) # ps) = Inl (''Expected a scalar, found '' @ nodetype n @ newline)"

fun PC_step :: "string \<Rightarrow> yaml \<Rightarrow> step \<Rightarrow> string + yaml" where
  "PC_step at n (Idx i) =
     (case n of
        Y_seq _ xs \<Rightarrow>
          if 0 \<le> i \<and> i < int (length xs) then Inr (xs ! nat i)
          else Inl (''Index '' @ fmt_int i @ '' out of range [0...'' @ fmt_nat (length xs) @ ''[ in (ROOT)'' @ at @ newline)
      | _ \<Rightarrow> Inl (''Expected sequence, found '' @ nodetype n @ '' (ROOT)'' @ at @ newline))"
| "PC_step at n (Key k) =
     (case n of
        Y_map _ ps \<Rightarrow>
          (case find_key k ps of
             Inl e \<Rightarrow> Inl e
           | Inr (Some v) \<Rightarrow> Inr v
           | Inr None \<Rightarrow> Inl (''Key `'' @ k @ [CHR 0x27] @ '' not found in (ROOT)'' @ at @ newline))
      | _ \<Rightarrow> Inl (''Expected mapping, found '' @ nodetype n @ '' (ROOT)'' @ at @ newline))"
| "PC_step at n (Map_key i) =
     (case n of
        Y_map _ ps \<Rightarrow>
          if 0 \<le> i \<and> i < int (length ps) then Inr (fst (ps ! nat i))
          else Inl (''Index '' @ fmt_int i @ '' out of range [0...'' @ fmt_nat (length ps) @ ''] in (ROOT)'' @ at @ newline)
      | _ \<Rightarrow> Inl (''Expected mapping, found '' @ nodetype n @ '' (ROOT)'' @ at @ ''{'' @ newline))"
| "PC_step at n (Map_val i) =
     (case n of
        Y_map _ ps \<Rightarrow>
          if 0 \<le> i \<and> i < int (length ps) then Inr (snd (ps ! nat i))
          else Inl (''Index '' @ fmt_int i @ '' out of range [0...'' @ fmt_nat (length ps) @ ''] in (ROOT)'' @ at @ newline)
      | _ \<Rightarrow> Inl (''Expected mapping, found '' @ nodetype n @ '' (ROOT)'' @ at @ ''<'' @ newline))"

fun PC_walk :: "string \<Rightarrow> yaml \<Rightarrow> step list \<Rightarrow> pc_tree" where
  "PC_walk at n [] = pc_ok n"
| "PC_walk at n (x # xs) =
     (case PC_step at n x of
        Inl e \<Rightarrow> \<lparr>pc_err = Some e, pc_node = Some n\<rparr>
      | Inr m \<Rightarrow> PC_walk (at @ step_text x) m xs)"

definition PC_get :: "pc_tree \<Rightarrow> step list \<Rightarrow> pc_tree" where
  "PC_get t path =
     (if PC_status t then t
      else case pc_node t of
          None \<Rightarrow> if path = [] then t else t\<lparr>pc_err := Some (''Expected node, found empty tree'' @ newline)\<rparr>
        | Some n \<Rightarrow> PC_walk [] n path)"

section \<open>Values of nodes\<close>

text \<open>The node of a tree, or the message of an error.\<close>

definition pc_value :: "pc_tree \<Rightarrow> string + yaml" where
  "pc_value t =
     (case pc_err t of
        Some e \<Rightarrow> Inl e
      | None \<Rightarrow> (case pc_node t of None \<Rightarrow> Inl (''Expected node, found empty tree'' @ newline) | Some n \<Rightarrow> Inr n))"

fun yaml_len :: "yaml \<Rightarrow> nat" where
  "yaml_len (Y_scalar _ s) = length s"
| "yaml_len (Y_seq _ xs) = length xs"
| "yaml_len (Y_map _ ps) = length ps"

definition PC_len :: "pc_tree \<Rightarrow> string + int" where
  "PC_len t = (case pc_value t of Inl e \<Rightarrow> Inl e | Inr n \<Rightarrow> Inr (int (yaml_len n)))"

definition PC_string :: "pc_tree \<Rightarrow> string + string" where
  "PC_string t =
     (case pc_value t of
        Inl e \<Rightarrow> Inl e
      | Inr (Y_scalar _ s) \<Rightarrow> Inr (c_str s)
      | Inr n \<Rightarrow> Inl (''Expected a scalar, found '' @ nodetype n @ newline))"

definition PC_int :: "pc_tree \<Rightarrow> string + int" where
  "PC_int t =
     (case PC_string t of
        Inl e \<Rightarrow> Inl e
      | Inr s \<Rightarrow> case strtol s of (v, _, rest) \<Rightarrow>
          if rest \<noteq> [] then Inl (''Expected integer, found `'' @ s @ [CHR 0x27] @ newline) else Inr v)"

definition PC_double :: "pc_tree \<Rightarrow> string + f64" where
  "PC_double t =
     (case PC_string t of
        Inl e \<Rightarrow> Inl e
      | Inr s \<Rightarrow> case strtod s of (v, rest) \<Rightarrow>
          if rest \<noteq> [] then Inl (''Expected floating point, found `'' @ s @ [CHR 0x27] @ newline) else Inr v)"

definition PC_bool :: "pc_tree \<Rightarrow> string + bool" where
  "PC_bool t =
     (case PC_string t of
        Inl e \<Rightarrow> Inl e
      | Inr s \<Rightarrow>
          if s \<in> {''True'', ''true'', ''TRUE'', ''Yes'', ''yes'', ''YES''} then Inr True
          else if s \<in> {''False'', ''false'', ''FALSE'', ''No'', ''no'', ''NO''} then Inr False
          else Inl (''Expected logical expression, found `'' @ s @ [CHR 0x27] @ newline))"

section \<open>The wrapper\<close>

definition Yaml_region_make :: "pc_tree \<Rightarrow> yaml_region option" where
  "Yaml_region_make t =
     (case pc_value t of Inl _ \<Rightarrow> None | Inr n \<Rightarrow> Some ((y_region n)\<lparr>m_file := []\<rparr>))"

definition spectree_error :: "pc_tree \<Rightarrow> string \<Rightarrow> exn" where
  "spectree_error t msg = Spectree_error (Yaml_region_make t) msg"

definition region_to_string :: "yaml_region \<Rightarrow> string" where
  "region_to_string l = m_file l @ ''('' @ fmt_nat (line (m_start l)) @ '':'' @ fmt_nat (column (m_start l)) @ '' -> ''
     @ fmt_nat (line (m_end l)) @ '':'' @ fmt_nat (column (m_end l)) @ '')''"

definition opt_region_to_string :: "yaml_region option \<Rightarrow> string" where
  "opt_region_to_string l = (case l of None \<Rightarrow> [] | Some l \<Rightarrow> region_to_string l)"

definition do_pc :: "pc_tree \<Rightarrow> string + 'a \<Rightarrow> 'a res" where
  "do_pc t r = (case r of Inl msg \<Rightarrow> throw (spectree_error t msg) | Inr x \<Rightarrow> Inr x)"

definition dflt :: "string + 'a \<Rightarrow> 'a \<Rightarrow> 'a" where
  "dflt r d = (case r of Inl _ \<Rightarrow> d | Inr x \<Rightarrow> x)"

definition len :: "pc_tree \<Rightarrow> int res" where
  "len t = do_pc t (PC_len t)"

definition len_dflt :: "pc_tree \<Rightarrow> int \<Rightarrow> int" where
  "len_dflt t d = dflt (PC_len t) d"

definition tree_to_long :: "pc_tree \<Rightarrow> int res" where
  "tree_to_long t = do_pc t (PC_int t)"

definition tree_to_long_dflt :: "pc_tree \<Rightarrow> int \<Rightarrow> int" where
  "tree_to_long_dflt t d = dflt (PC_int t) d"

definition tree_to_double :: "pc_tree \<Rightarrow> f64 res" where
  "tree_to_double t = do_pc t (PC_double t)"

definition tree_to_double_dflt :: "pc_tree \<Rightarrow> f64 \<Rightarrow> f64" where
  "tree_to_double_dflt t d = dflt (PC_double t) d"

definition tree_to_string :: "pc_tree \<Rightarrow> string res" where
  "tree_to_string t = do_pc t (PC_string t)"

definition tree_to_string_dflt :: "pc_tree \<Rightarrow> string \<Rightarrow> string" where
  "tree_to_string_dflt t d = dflt (PC_string t) d"

definition tree_to_bool :: "pc_tree \<Rightarrow> bool res" where
  "tree_to_bool t = do_pc t (PC_bool t)"

definition tree_to_bool_dflt :: "pc_tree \<Rightarrow> bool \<Rightarrow> bool" where
  "tree_to_bool_dflt t d = dflt (PC_bool t) d"

text \<open>The type of the node is read without a check of the status; an empty tree has no node to read.\<close>

definition is_list :: "pc_tree \<Rightarrow> bool res" where
  "is_list t = (case pc_node t of None \<Rightarrow> Inl UB | Some (Y_seq _ _) \<Rightarrow> Inr True | Some _ \<Rightarrow> Inr False)"

definition is_map :: "pc_tree \<Rightarrow> bool res" where
  "is_map t = (case pc_node t of None \<Rightarrow> Inl UB | Some (Y_map _ _) \<Rightarrow> Inr True | Some _ \<Rightarrow> Inr False)"

definition is_scalar :: "pc_tree \<Rightarrow> bool res" where
  "is_scalar t = (case pc_node t of None \<Rightarrow> Inl UB | Some (Y_scalar _ _) \<Rightarrow> Inr True | Some _ \<Rightarrow> Inr False)"

text \<open>Loops over the elements of a list and the pairs of a mapping.\<close>

definition each :: "pc_tree \<Rightarrow> (pc_tree \<Rightarrow> ('s, exn, unit) sx) \<Rightarrow> ('s, exn, unit) sx" where
  "each t operation =
     sx_bind (sx_lift (len t)) (\<lambda>n. sx_each (\<lambda>i. operation (PC_get t [Idx (int i)])) [0 ..< nat n])"

definition opt_each :: "pc_tree \<Rightarrow> (pc_tree \<Rightarrow> ('s, exn, unit) sx) \<Rightarrow> ('s, exn, unit) sx" where
  "opt_each t operation = (if \<not> PC_status (PC_get t [Idx 0]) then each t operation else operation t)"

definition each_pair :: "pc_tree \<Rightarrow> (pc_tree \<Rightarrow> pc_tree \<Rightarrow> ('s, exn, unit) sx) \<Rightarrow> ('s, exn, unit) sx" where
  "each_pair t operation =
     sx_bind (sx_lift (len t)) (\<lambda>n.
     sx_each (\<lambda>i. operation (PC_get t [Map_key (int i)]) (PC_get t [Map_val (int i)])) [0 ..< nat n])"

definition each_in_omap :: "pc_tree \<Rightarrow> (pc_tree \<Rightarrow> pc_tree \<Rightarrow> ('s, exn, unit) sx) \<Rightarrow> ('s, exn, unit) sx" where
  "each_in_omap t operation =
     sx_bind (sx_lift (len t)) (\<lambda>n.
     sx_bind (sx_lift (is_list t)) (\<lambda>l.
     if \<not> l then
       sx_bind (sx_lift (is_scalar t)) (\<lambda>s.
       if s then sx_fail (Throw (spectree_error t ''Expected an ordered mapping, found a scalar''))
       else sx_bind (sx_lift (is_map t)) (\<lambda>m.
         sx_fail (Throw (spectree_error t
           (if m then ''Expected an ordered mapping, found a (unordered) mapping''
            else ''Expected an ordered mapping, invalid element found'')))))
     else sx_each (\<lambda>i.
       let elem = PC_get t [Idx (int i)] in
       sx_bind (sx_lift (is_map elem)) (\<lambda>m.
       if \<not> m then sx_fail (Throw (spectree_error elem ''Invalid ordered mapping found (no key)''))
       else sx_bind (sx_lift (len elem)) (\<lambda>k.
         if k \<noteq> 1 then sx_fail (Throw (spectree_error elem ''Invalid ordered mapping found (multiple keys)''))
         else operation (PC_get elem [Map_key 0]) (PC_get elem [Map_val 0])))) [0 ..< nat n]))"

end
