(* ===== verification/Expr_Parse.thy ===== *)
theory Expr_Parse
  imports Expr_Syntax Spec_Tree
begin

text \<open>
  The parser of expressions (\<open>expression/impl.cxx\<close>, \<open>operation.cxx\<close>, \<open>reference_expression.cxx\<close>,
  \<open>int_literal.cxx\<close>, \<open>float_literal.cxx\<close>, \<open>string_literal.cxx\<close>, \<open>sequence.cxx\<close>, \<open>mapping.cxx\<close>). A parser
  takes the text at the position of the pointer it is given and returns the text after it. The
  mutual recursion runs on fuel; \<open>parse_fuel\<close> is enough for every text.
\<close>

section \<open>Characters and identifiers\<close>

definition cur :: "string \<Rightarrow> char" where
  "cur s = (case s of c # _ \<Rightarrow> c | [] \<Rightarrow> CHR 0x00)"

definition in_range :: "char \<Rightarrow> char \<Rightarrow> char \<Rightarrow> bool" where
  "in_range a b c \<longleftrightarrow> (of_char a :: nat) \<le> of_char c \<and> (of_char c :: nat) \<le> of_char b"

definition id_first :: "char \<Rightarrow> bool" where
  "id_first c \<longleftrightarrow> in_range (CHR ''a'') (CHR ''z'') c \<or> in_range (CHR ''A'') (CHR ''Z'') c \<or> c = CHR ''_''"

definition id_char :: "char \<Rightarrow> bool" where
  "id_char c \<longleftrightarrow> id_first c \<or> in_range (CHR ''0'') (CHR ''9'') c"

definition parse_id :: "string \<Rightarrow> (string \<times> string) res" where
  "parse_id s =
     (if \<not> id_first (cur s) then throw (Value_error (''Invalid first ID character: '' @ [cur s]))
      else Inr (takeWhile id_char s, dropWhile id_char s))"

section \<open>Literals\<close>

text \<open>
  The test for a value that is too large compares the owning pointer, which is never null, instead
  of the value.
\<close>

definition Int_literal_parse :: "string \<Rightarrow> (expr \<times> string) res" where
  "Int_literal_parse s =
     (case strtol s of (v, erange, rest) \<Rightarrow>
        if erange then throw (Value_error (''Value too large for PDI integers: '' @ rest))
        else if rest = s then throw (Value_error (''Expected integer, found `'' @ rest @ [CHR 0x27]))
        else Inr (Int_literal v, skip_space rest))"

definition Float_literal_parse :: "string \<Rightarrow> (expr \<times> string) res" where
  "Float_literal_parse s =
     (case strtod s of (v, rest) \<Rightarrow>
        if rest = s then throw (Value_error (''Expected double, found `'' @ rest @ [CHR 0x27]))
        else Inr (Float_literal v, skip_space rest))"

section \<open>Operators\<close>

definition op_level :: "string \<Rightarrow> nat" where
  "op_level s =
     (let c = cur s in
      if c = CHR ''|'' then 1
      else if c = CHR ''&'' then 2
      else if c = CHR ''='' then 3
      else if c = CHR ''>'' \<or> c = CHR ''<'' then 4
      else if c = CHR ''+'' \<or> c = CHR ''-'' then 5
      else if c = CHR ''*'' \<or> c = CHR ''/'' \<or> c = CHR ''%'' then 6
      else 0)"

definition char_operator :: "char \<Rightarrow> operator" where
  "char_operator c =
     (if c = CHR ''|'' then OR_op else if c = CHR ''&'' then AND_op else if c = CHR ''='' then EQUAL
      else if c = CHR ''>'' then GT else if c = CHR ''<'' then LT else if c = CHR ''+'' then PLUS
      else if c = CHR ''-'' then MINUS else if c = CHR ''*'' then MULT else if c = CHR ''/'' then DIV else MOD)"

definition parse_operator :: "string \<Rightarrow> nat \<Rightarrow> (operator \<times> string) res" where
  "parse_operator s level =
     (if op_level s = 0 then throw (Value_error (''Expected operator, found '' @ [CHR 0x27, cur s, CHR 0x27]))
      else if op_level s \<noteq> level then throw (Value_error ''Mixing operator priority'')
      else Inr (char_operator (cur s), skip_space (tl s)))"

section \<open>Terms, references and operations\<close>

function (sequential) parse_op :: "nat \<Rightarrow> nat \<Rightarrow> string \<Rightarrow> (expr \<times> string) res"
  and parse_rest :: "nat \<Rightarrow> nat \<Rightarrow> string \<Rightarrow> ((operator \<times> expr) list \<times> string) res"
  and parse_term :: "nat \<Rightarrow> string \<Rightarrow> (expr \<times> string) res"
  and parse_ref :: "nat \<Rightarrow> string \<Rightarrow> (expr \<times> string) res"
  and parse_accessors :: "nat \<Rightarrow> string \<Rightarrow> (expr accessor list \<times> string) res" where
  "parse_op 0 level s = Inl UB"
| "parse_op (Suc n) level s =
     (if level = 7 then parse_term n s
      else rbind (parse_op n (Suc level) s) (\<lambda>(result, r).
           rbind (parse_rest n level r) (\<lambda>(ops, r).
           Inr (if ops = [] then result else Operation result ops, r))))"
| "parse_rest 0 level s = Inl UB"
| "parse_rest (Suc n) level s =
     (if op_level s = level then
        rbind (parse_operator s level) (\<lambda>(oper, r).
        rbind (parse_op n (Suc level) r) (\<lambda>(e, r).
        rbind (parse_rest n level r) (\<lambda>(ops, r). Inr ((oper, e) # ops, r))))
      else Inr ([], s))"
| "parse_term 0 s = Inl UB"
| "parse_term (Suc n) s =
     (if cur s = CHR ''('' then
        rbind (parse_op n 1 (skip_space (tl s))) (\<lambda>(result, r).
        if cur r \<noteq> CHR '')'' then throw (Value_error (''Expected '' @ [CHR 0x27] @ '')'' @ [CHR 0x27] @ '', found '' @ [CHR 0x27, cur r, CHR 0x27]))
        else Inr (result, skip_space (tl r)))
      else if cur s = CHR ''$'' then parse_ref n s
      else if CHR ''.'' \<in> set s then Float_literal_parse s
      else Int_literal_parse s)"
| "parse_ref 0 s = Inl UB"
| "parse_ref (Suc n) s =
     (if cur s \<noteq> CHR ''$'' then throw (Value_error (''Expected '' @ [CHR 0x27] @ ''$'' @ [CHR 0x27] @ '', got '' @ [cur s]))
      else
        let r = tl s; has_curly_brace = (cur r = CHR ''{''); r = (if has_curly_brace then skip_space (tl r) else r) in
        rbind (parse_id r) (\<lambda>(m_referenced, r).
        rbind (parse_accessors n (skip_space r)) (\<lambda>(m_subelements, r).
        let m_fmt_format = (if cur r = CHR '':'' then takeWhile (\<lambda>c. c \<noteq> CHR ''}'') r else []);
            r = drop (length m_fmt_format) r
        in if has_curly_brace then
             if cur r \<noteq> CHR ''}'' then throw (Value_error (''Expected '' @ [CHR 0x27] @ ''}'' @ [CHR 0x27] @ '', found '' @ [cur r]))
             else Inr (Reference_expression m_referenced m_subelements m_fmt_format, skip_space (tl r))
           else Inr (Reference_expression m_referenced m_subelements m_fmt_format, r))))"
| "parse_accessors 0 s = Inl UB"
| "parse_accessors (Suc n) s =
     (if cur s = CHR ''['' then
        rbind (parse_op n 1 (skip_space (tl s))) (\<lambda>(e, r).
        if cur r \<noteq> CHR '']'' then throw (Value_error (''Expected '' @ [CHR 0x27] @ '']'' @ [CHR 0x27] @ '', found '' @ [cur r]))
        else rbind (parse_accessors n (skip_space (tl r))) (\<lambda>(as, r). Inr (Index_accessor e # as, r)))
      else if cur s = CHR ''.'' then
        rbind (parse_id (skip_space (tl s))) (\<lambda>(name, r).
        rbind (parse_accessors n (skip_space r)) (\<lambda>(as, r). Inr (Member_accessor (String_literal name []) # as, r)))
      else Inr ([], s))"
  by pat_completeness auto
termination
  by (relation "measure (case_sum (case_sum fst fst) (case_sum fst (case_sum fst fst)))") auto

text \<open>
  The string pieces: the text up to the first dollar, and each value with the text after it. A
  backslash stands for itself and skips the character after it; at the end of the text the skip
  leaves the string.
\<close>

fun parse_pieces :: "nat \<Rightarrow> string \<Rightarrow> (string \<times> (expr \<times> string) list) res" where
  "parse_pieces 0 s = Inl UB"
| "parse_pieces (Suc n) s =
     (case s of
        [] \<Rightarrow> Inr ([], [])
      | c # r \<Rightarrow>
          if c = CHR 0x5C then
            if r = [] then Inl UB
            else rbind (parse_pieces n (tl r)) (\<lambda>(text, vs). Inr (CHR 0x5C # text, vs))
          else if c = CHR ''$'' then
            rbind (if cur r = CHR ''('' then parse_term n r else parse_ref n s) (\<lambda>(e, r).
            rbind (parse_pieces n r) (\<lambda>(text, vs). Inr ([], (e, text) # vs)))
          else rbind (parse_pieces n r) (\<lambda>(text, vs). Inr (c # text, vs)))"

definition parse_fuel :: "string \<Rightarrow> nat" where
  "parse_fuel s = 10 * (length s + 2)"

definition String_literal_parse :: "string \<Rightarrow> expr res" where
  "String_literal_parse s = rbind (parse_pieces (parse_fuel s) s) (\<lambda>(start, vs). Inr (String_literal start vs))"

text \<open>\<open>Impl::parse\<close>: an operation when it takes the whole text, a string otherwise and on errors.\<close>

definition Impl_parse :: "string \<Rightarrow> expr res" where
  "Impl_parse s =
     (case parse_op (parse_fuel s) 1 (skip_space s) of
        Inr (e, r) \<Rightarrow> if skip_space r = [] then Inr e else String_literal_parse s
      | Inl (Throw e) \<Rightarrow> if is_pdi_error e then String_literal_parse s else throw e
      | Inl UB \<Rightarrow> Inl UB)"

section \<open>Sequences and mappings\<close>

fun res_map :: "('a \<Rightarrow> 'b res) \<Rightarrow> 'a list \<Rightarrow> 'b list res" where
  "res_map f [] = Inr []"
| "res_map f (x # xs) = rbind (f x) (\<lambda>y. rbind (res_map f xs) (\<lambda>ys. Inr (y # ys)))"

lemma res_map_cong [fundef_cong]:
  "xs = ys \<Longrightarrow> (\<And>x. x \<in> set ys \<Longrightarrow> f x = g x) \<Longrightarrow> res_map f xs = res_map g ys"
  by (induction xs arbitrary: ys) auto

text \<open>\<open>emplace\<close> keeps the first value of a key.\<close>

definition emplace :: "string \<Rightarrow> 'v \<Rightarrow> (string \<times> 'v) list \<Rightarrow> (string \<times> 'v) list" where
  "emplace k v m = (if map_of m k = None then m @ [(k, v)] else m)"

fun parse_yaml :: "yaml \<Rightarrow> expr res" where
  "parse_yaml (Y_scalar r s) = Impl_parse (c_str s)"
| "parse_yaml (Y_seq r xs) = rbind (res_map parse_yaml xs) (\<lambda>es. Inr (Sequence es))"
| "parse_yaml (Y_map r ps) =
     rbind (res_map (\<lambda>(k, v). rbind (tree_to_string (pc_ok k)) (\<lambda>name. rbind (parse_yaml v) (\<lambda>e. Inr (name, e)))) ps)
       (\<lambda>kvs. Inr (Mapping (fold (\<lambda>(k, e). emplace k e) kvs [])))"

definition Impl_parse_tree :: "pc_tree \<Rightarrow> expr res" where
  "Impl_parse_tree t =
     (case pc_node t of
        None \<Rightarrow> Inl UB
      | Some n \<Rightarrow> rbind (do_pc t (pc_value t)) (\<lambda>_. parse_yaml n))"

text \<open>\<open>Expression::parse_reference\<close> returns how many characters the reference takes.\<close>

definition parse_reference :: "string \<Rightarrow> (expr \<times> nat) res" where
  "parse_reference s = rbind (parse_ref (parse_fuel s) s) (\<lambda>(e, r). Inr (e, length s - length r))"

end
