(* ===== verification/Expr_Parse_Correct.thy ===== *)
theory Expr_Parse_Correct
  imports Expr_Parse "HOL-Library.Sublist"
begin

text \<open>
  The parser of expressions always comes to a result: every call consumes text or goes one level down,
  so the fuel of \<open>parse_fuel\<close> is never used up.
\<close>

lemma skip_space_less: "length s < n \<Longrightarrow> length (skip_space s) < n"
  by (rule le_less_trans [OF skip_space_length])

lemma Int_literal_parse_length: "Int_literal_parse s = Inr (e, r) \<Longrightarrow> length r < length s"
proof (cases "strtol s")
  case (fields v er rest)
  moreover assume "Int_literal_parse s = Inr (e, r)"
  ultimately have "r = skip_space rest" "rest \<noteq> s" by (auto simp: Int_literal_parse_def split: if_splits)
  with strtol_length [OF fields] show ?thesis by (simp add: skip_space_less)
qed

lemma Float_literal_parse_length: "Float_literal_parse s = Inr (e, r) \<Longrightarrow> length r < length s"
proof (cases "strtod s")
  case (Pair v rest)
  moreover assume "Float_literal_parse s = Inr (e, r)"
  ultimately have "r = skip_space rest" "rest \<noteq> s" by (auto simp: Float_literal_parse_def split: if_splits)
  with strtod_length [OF Pair] show ?thesis by (simp add: skip_space_less)
qed

lemma cur_Cons: "cur s = c \<Longrightarrow> c \<noteq> CHR 0x00 \<Longrightarrow> s = c # tl s"
  by (cases s) (auto simp: cur_def)

lemma parse_id_length: "parse_id s = Inr (i, r) \<Longrightarrow> length r < length s"
proof -
  assume a: "parse_id s = Inr (i, r)"
  then have f: "id_first (cur s)" and r: "r = dropWhile id_char s" by (auto simp: parse_id_def split: if_splits)
  have "cur s \<noteq> CHR 0x00" using f by (auto simp: id_first_def in_range_def)
  then obtain c t where s: "s = c # t" by (cases s) (auto simp: cur_def)
  with f r show ?thesis using length_dropWhile_le [of id_char t] by (simp add: cur_def id_char_def)
qed

lemma op_level_Nil [simp]: "op_level [] = 0"
  by (simp add: op_level_def cur_def)

lemma parse_operator_length: "parse_operator s l = Inr (oper, r) \<Longrightarrow> length r < length s"
proof (cases s)
  case (Cons c t)
  moreover assume "parse_operator s l = Inr (oper, r)"
  ultimately have "r = skip_space t" by (simp add: parse_operator_def split: if_splits)
  with Cons show ?thesis by (simp add: skip_space_less)
qed (simp add: parse_operator_def)

lemma tl_less: "length (tl s) < n" if "length s < n" for n :: nat
  using that by (cases s) auto

text \<open>Every parser returns a text that is not longer, and shorter when something has been read.\<close>

lemma parse_length:
  "(\<forall>level s e r. parse_op n level s = Inr (e, r) \<longrightarrow> length r < length s)
   \<and> (\<forall>level s ops r. parse_rest n level s = Inr (ops, r) \<longrightarrow> length r \<le> length s)
   \<and> (\<forall>s e r. parse_term n s = Inr (e, r) \<longrightarrow> length r < length s)
   \<and> (\<forall>s e r. parse_ref n s = Inr (e, r) \<longrightarrow> length r < length s)
   \<and> (\<forall>s as r. parse_accessors n s = Inr (as, r) \<longrightarrow> length r \<le> length s)"
proof (induction n)
  case (Suc n)
  note op = Suc.IH [THEN conjunct1, rule_format]
    and rest = Suc.IH [THEN conjunct2, THEN conjunct1, rule_format]
    and tm = Suc.IH [THEN conjunct2, THEN conjunct2, THEN conjunct1, rule_format]
    and ref = Suc.IH [THEN conjunct2, THEN conjunct2, THEN conjunct2, THEN conjunct1, rule_format]
    and acc = Suc.IH [THEN conjunct2, THEN conjunct2, THEN conjunct2, THEN conjunct2, rule_format]
  have skip_tl: "length (skip_space (tl s)) \<le> length s" for s
    by (rule order_trans [OF skip_space_length]) simp
  have op_skip: "length r < length s" if "parse_op n l (skip_space (tl s)) = Inr (e, r)" for l s e r
    using op [OF that] skip_tl [of s] by (rule less_le_trans)
  have acc_skip: "length r \<le> length s" if "parse_accessors n (skip_space s) = Inr (as, r)" for s as r
    using acc [OF that] skip_space_length [of s] by (rule order_trans)
  have 1: "length r < length s" if "parse_op (Suc n) level s = Inr (e, r)" for level s e r
    using that by (auto simp: outcome_simps split: if_splits dest: tm op rest) (meson le_less_trans op rest)+
  have 2: "length r \<le> length s" if "parse_rest (Suc n) level s = Inr (ops, r)" for level s ops r
  proof (cases "op_level s = level")
    case True
    with that obtain oper r1 e1 r2 ops' where "parse_operator s level = Inr (oper, r1)"
        "parse_op n (Suc level) r1 = Inr (e1, r2)" "parse_rest n level r2 = Inr (ops', r)"
      by (auto simp: outcome_simps)
    with op rest parse_operator_length show ?thesis by (meson le_trans less_imp_le)
  qed (use that in simp)
  have 3: "length r < length s" if t: "parse_term (Suc n) s = Inr (e, r)" for s e r
  proof (cases "cur s = CHR ''(''")
    case True
    with t obtain r1 where r1: "parse_op n 1 (skip_space (tl s)) = Inr (e, r1)" "r = skip_space (tl r1)"
      by (auto simp: outcome_simps split: if_splits)
    from op_skip [OF r1(1)] skip_tl [of r1] r1(2) show ?thesis by simp
  next
    case False
    with t show ?thesis
      by (auto dest: ref Int_literal_parse_length Float_literal_parse_length split: if_splits)
  qed
  have 4: "length r < length s" if t: "parse_ref (Suc n) s = Inr (e, r)" for s e r
  proof -
    define u where "u = (if cur (tl s) = CHR ''{'' then skip_space (tl (tl s)) else tl s)"
    have "s = CHR ''$'' # tl s" using t by (intro cur_Cons) (auto split: if_splits)
    then have u: "length u < length s"
      using skip_tl [of "tl s"] by (cases s) (auto simp: u_def)
    have le: "length (skip_space (tl (drop k x))) \<le> length x" for k x
      using skip_tl [of "drop k x"] by simp
    from t obtain i r1 as r2 where p: "parse_id u = Inr (i, r1)" "parse_accessors n (skip_space r1) = Inr (as, r2)"
      "length r \<le> length r2"
      by (auto simp: outcome_simps Let_def u_def [symmetric] le skip_tl split: if_splits)
    have "length r2 < length s" using acc_skip [OF p(2)] parse_id_length [OF p(1)] u by linarith
    with p(3) show ?thesis by simp
  qed
  have 5: "length r \<le> length s" if t: "parse_accessors (Suc n) s = Inr (as, r)" for s as r
  proof (cases "cur s = CHR ''['' \<or> cur s = CHR ''.''")
    case True
    with t consider (idx) e r1 as' where "parse_op n 1 (skip_space (tl s)) = Inr (e, r1)" "parse_accessors n (skip_space (tl r1)) = Inr (as', r)"
      | (mem) i r1 as' where "parse_id (skip_space (tl s)) = Inr (i, r1)" "parse_accessors n (skip_space r1) = Inr (as', r)"
      by (auto simp: outcome_simps split: if_splits)
    then show ?thesis
    proof cases
      case idx
      with op_skip acc_skip [of "tl r1"] show ?thesis by fastforce
    next
      case mem
      with parse_id_length acc_skip [of r1] skip_tl [of s] show ?thesis by fastforce
    qed
  qed (use t in simp)
  from 1 2 3 4 5 show ?case by simp
qed simp
lemmas parse_op_length = parse_length [THEN conjunct1, rule_format]
  and parse_rest_length = parse_length [THEN conjunct2, THEN conjunct1, rule_format]
  and parse_term_length = parse_length [THEN conjunct2, THEN conjunct2, THEN conjunct1, rule_format]
  and parse_ref_length = parse_length [THEN conjunct2, THEN conjunct2, THEN conjunct2, THEN conjunct1, rule_format]
  and parse_accessors_length = parse_length [THEN conjunct2, THEN conjunct2, THEN conjunct2, THEN conjunct2, rule_format]

lemma rbind_not_UB: "m \<noteq> Inl UB \<Longrightarrow> (\<And>x. m = Inr x \<Longrightarrow> k x \<noteq> Inl UB) \<Longrightarrow> rbind m k \<noteq> Inl UB"
  by (cases m) auto

lemma literal_parse_not_UB [simp]:
  "Int_literal_parse s \<noteq> Inl UB" "Float_literal_parse s \<noteq> Inl UB" "parse_id s \<noteq> Inl UB" "parse_operator s l \<noteq> Inl UB"
  by (auto simp: Int_literal_parse_def Float_literal_parse_def parse_id_def parse_operator_def split: prod.splits)

text \<open>How much fuel suffices for a text of a given length.\<close>

lemma parse_enough:
  "(\<forall>level s. level \<le> 7 \<longrightarrow> 10 * length s + 9 \<le> n + level \<longrightarrow> parse_op n level s \<noteq> Inl UB)
   \<and> (\<forall>level s. level \<le> 6 \<longrightarrow> 10 * length s + 1 \<le> n \<longrightarrow> parse_rest n level s \<noteq> Inl UB)
   \<and> (\<forall>s. 10 * length s + 1 \<le> n \<longrightarrow> parse_term n s \<noteq> Inl UB)
   \<and> (\<forall>s. s \<noteq> [] \<longrightarrow> 10 * length s \<le> n \<longrightarrow> parse_ref n s \<noteq> Inl UB)
   \<and> (\<forall>s. 10 * length s + 1 \<le> n \<longrightarrow> parse_accessors n s \<noteq> Inl UB)"
proof (induction n)
  case (Suc n)
  note op = Suc.IH [THEN conjunct1, rule_format]
    and rest = Suc.IH [THEN conjunct2, THEN conjunct1, rule_format]
    and tm = Suc.IH [THEN conjunct2, THEN conjunct2, THEN conjunct1, rule_format]
    and ref = Suc.IH [THEN conjunct2, THEN conjunct2, THEN conjunct2, THEN conjunct1, rule_format]
    and acc = Suc.IH [THEN conjunct2, THEN conjunct2, THEN conjunct2, THEN conjunct2, rule_format]
  have skip_tl: "length (skip_space (tl s)) \<le> length s - 1" for s
    using skip_space_length [of "tl s"] by simp
  have 1: "parse_op (Suc n) level s \<noteq> Inl UB" if l: "level \<le> 7" "10 * length s + 9 \<le> Suc n + level" for level s
  proof (cases "level = 7")
    case True
    with l tm show ?thesis by simp
  next
    case False
    have "rbind (parse_rest n level r) k \<noteq> Inl UB" if p: "parse_op n (Suc level) s = Inr (e, r)"
        and k: "\<And>x. k x \<noteq> Inl UB" for e r and k :: "_ \<Rightarrow> (expr \<times> string) res"
      using parse_op_length [OF p] l False k by (intro rbind_not_UB rest) auto
    with False l show ?thesis
      unfolding parse_op.simps(2) if_not_P [OF False] by (intro rbind_not_UB op) auto
  qed
  have 2: "parse_rest (Suc n) level s \<noteq> Inl UB" if l: "level \<le> 6" "10 * length s + 1 \<le> Suc n" for level s
  proof (cases "op_level s = level")
    case True
    have "rbind (parse_op n (Suc level) r) (\<lambda>(e, r). rbind (parse_rest n level r) (\<lambda>(ops, r). Inr ((oper, e) # ops, r))) \<noteq> Inl UB"
      if p: "parse_operator s level = Inr (oper, r)" for oper r
      using parse_operator_length [OF p] l
      by (intro rbind_not_UB op) (auto simp: rbind_Inl_iff rest dest!: parse_op_length)
    then show ?thesis
      unfolding parse_rest.simps(2) if_P [OF True] by (intro rbind_not_UB) auto
  qed simp
  have 3: "parse_term (Suc n) s \<noteq> Inl UB" if l: "10 * length s + 1 \<le> Suc n" for s
  proof -
    have "parse_op n 1 (skip_space (tl s)) \<noteq> Inl UB" if "cur s = CHR ''(''"
    proof (rule op)
      have "0 < length s" using cur_Cons [OF that] by auto
      with l skip_tl [of s] show "10 * length (skip_space (tl s)) + 9 \<le> n + 1" by linarith
    qed simp
    moreover have "parse_ref n s \<noteq> Inl UB" if "cur s = CHR ''$''"
      using l cur_Cons [OF that] by (intro ref) auto
    ultimately show ?thesis by (auto simp: rbind_Inl_iff split: if_splits)
  qed
  have 4: "parse_ref (Suc n) s \<noteq> Inl UB" if l: "s \<noteq> []" "10 * length s \<le> Suc n" for s
  proof -
    define u where "u = (if cur (tl s) = CHR ''{'' then skip_space (tl (tl s)) else tl s)"
    have u: "length u < length s"
      using skip_space_length [of "tl (tl s)"] l(1) by (cases s) (auto simp: u_def)
    have "parse_accessors n (skip_space r) \<noteq> Inl UB" if "parse_id u = Inr (i, r)" for i r
      using parse_id_length [OF that] u l(2) skip_space_length [of r] by (intro acc) linarith
    then show ?thesis by (auto simp: Let_def u_def [symmetric] rbind_Inl_iff split: if_splits)
  qed
  have 5: "parse_accessors (Suc n) s \<noteq> Inl UB" if l: "10 * length s + 1 \<le> Suc n" for s
  proof -
    have o: "parse_op n 1 (skip_space (tl s)) \<noteq> Inl UB" if "s \<noteq> []"
    proof (rule op)
      have "0 < length s" using that by simp
      with l skip_tl [of s] show "10 * length (skip_space (tl s)) + 9 \<le> n + 1" by linarith
    qed simp
    have a: "parse_accessors n (skip_space (tl r)) \<noteq> Inl UB" if "parse_op n 1 (skip_space (tl s)) = Inr (e, r)" for e r
      using parse_op_length [OF that] l skip_tl [of s] skip_tl [of r] by (intro acc) linarith
    have i: "parse_accessors n (skip_space r) \<noteq> Inl UB" if "parse_id (skip_space (tl s)) = Inr (x, r)" for x r
      using parse_id_length [OF that] l skip_tl [of s] skip_space_length [of r] by (intro acc) linarith
    show ?thesis
    proof (cases "s = []")
      case True
      then show ?thesis by (simp add: cur_def)
    next
      case False
      with o a i show ?thesis by (auto simp: rbind_Inl_iff split: if_splits)
    qed
  qed
  from 1 2 3 4 5 show ?case by (auto simp del: parse_op.simps parse_rest.simps parse_term.simps parse_ref.simps parse_accessors.simps)
qed auto

lemmas parse_op_enough = parse_enough [THEN conjunct1, rule_format]
  and parse_term_enough = parse_enough [THEN conjunct2, THEN conjunct2, THEN conjunct1, rule_format]
  and parse_ref_enough = parse_enough [THEN conjunct2, THEN conjunct2, THEN conjunct2, THEN conjunct1, rule_format]

text \<open>What a parser leaves is the end of the text it was given.\<close>

lemma suffix_skip_space [simp]: "suffix (skip_space s) s"
  by (simp add: skip_space_def suffix_dropWhile)

lemma read_sign_suffix: "read_sign s = (b, r) \<Longrightarrow> suffix r s"
  by (auto simp: read_sign_def suffix_ConsI split: list.splits if_splits)

lemma read_base_suffix: "read_base s = (b, r) \<Longrightarrow> suffix r s"
  by (auto simp: read_base_def suffix_ConsI split: list.splits if_splits)

lemma strtol_suffix: "strtol s = (v, er, rest) \<Longrightarrow> suffix rest s"
proof -
  assume a: "strtol s = (v, er, rest)"
  obtain neg r base r' where r: "read_sign (skip_space s) = (neg, r)" "read_base r = (base, r')" by fastforce
  have "suffix r' s" using read_sign_suffix [OF r(1)] read_base_suffix [OF r(2)] by (meson suffix_order.trans suffix_skip_space)
  then have "suffix (dropWhile (is_digit base) r') s" by (meson suffix_order.trans suffix_dropWhile)
  with a r show ?thesis by (auto simp: strtol_def Let_def split: if_splits)
qed

lemma read_mantissa_suffix: "read_mantissa b s = Some (ip, fp, r) \<Longrightarrow> suffix r s"
proof -
  assume a: "read_mantissa b s = Some (ip, fp, r)"
  have d: "suffix (dropWhile (is_digit b) s) s" by (rule suffix_dropWhile)
  then have "suffix (dropWhile (is_digit b) r') s" if "dropWhile (is_digit b) s = c # r'" for c r'
    using that by (metis suffix_ConsD suffix_dropWhile suffix_order.trans)
  with a d show ?thesis
    by (cases "dropWhile (is_digit b) s") (auto simp: read_mantissa_def Let_def simp del: dropWhile_eq_Nil_conv split: if_splits)
qed

lemma read_exponent_suffix: "read_exponent L s = (e, r) \<Longrightarrow> suffix r s"
proof (cases s)
  case (Cons c t)
  assume a: "read_exponent L s = (e, r)"
  obtain b t' where t': "read_sign t = (b, t')" by fastforce
  have "suffix (dropWhile (is_digit 10) t') s"
    using read_sign_suffix [OF t'] Cons by (meson suffix_ConsI suffix_dropWhile suffix_order.trans)
  with a Cons t' show ?thesis by (auto simp: read_exponent_def Let_def split: if_splits)
qed (simp add: read_exponent_def)

lemma skip_nan_payload_suffix: "suffix (skip_nan_payload s) s"
proof (cases s)
  case (Cons c r)
  have "suffix t s" if "dropWhile P r = d # t" for P d t
    using that Cons by (metis suffix_ConsD suffix_ConsI suffix_dropWhile)
  with Cons show ?thesis by (auto simp: skip_nan_payload_def Let_def split: list.splits)
qed (simp add: skip_nan_payload_def)

lemma read_number_suffix: "read_number neg s = Some (b, rest) \<Longrightarrow> suffix rest s"
proof -
  assume a: "read_number neg s = Some (b, rest)"
  have m: "suffix rest s" if "read_mantissa k (drop j s) = Some (ip, fp, r)" "read_exponent L r = (e, rest)" for k j ip fp r L e
    using read_mantissa_suffix [OF that(1)] read_exponent_suffix [OF that(2)] by (meson suffix_drop suffix_order.trans)
  have d: "suffix rest s" if "read_mantissa k s = Some (ip, fp, r)" "read_exponent L r = (e, rest)" for k ip fp r L e
    using m [of k 0] that by simp
  have n: "suffix (skip_nan_payload (drop 3 s)) s" by (meson skip_nan_payload_suffix suffix_drop suffix_order.trans)
  from a show ?thesis
    by (auto simp: read_number_def Let_def suffix_drop n split: if_splits option.splits prod.splits intro: m d)
qed

lemma strtod_suffix: "strtod s = (v, rest) \<Longrightarrow> suffix rest s"
proof -
  assume a: "strtod s = (v, rest)"
  obtain neg r where r: "read_sign (skip_space s) = (neg, r)" by fastforce
  have "suffix r s" using read_sign_suffix [OF r] by (meson suffix_order.trans suffix_skip_space)
  then have "suffix t s" if "read_number neg r = Some (b, t)" for b t
    using read_number_suffix [OF that] by (meson suffix_order.trans)
  with a r show ?thesis by (auto simp: strtod_def Let_def split: option.splits)
qed

lemma literal_suffix:
  "Int_literal_parse s = Inr (e, r) \<Longrightarrow> suffix r s" "Float_literal_parse s = Inr (e, r) \<Longrightarrow> suffix r s"
  "parse_id s = Inr (i, r) \<Longrightarrow> suffix r s" "parse_operator s l = Inr (oper, r) \<Longrightarrow> suffix r s"
  by (auto simp: Int_literal_parse_def Float_literal_parse_def parse_id_def parse_operator_def suffix_dropWhile
      dest!: strtol_suffix strtod_suffix intro: suffix_order.trans [OF suffix_skip_space] split: prod.splits if_splits)

lemma parse_suffix:
  "(\<forall>level s e r. parse_op n level s = Inr (e, r) \<longrightarrow> suffix r s)
   \<and> (\<forall>level s ops r. parse_rest n level s = Inr (ops, r) \<longrightarrow> suffix r s)
   \<and> (\<forall>s e r. parse_term n s = Inr (e, r) \<longrightarrow> suffix r s)
   \<and> (\<forall>s e r. parse_ref n s = Inr (e, r) \<longrightarrow> suffix r s)
   \<and> (\<forall>s as r. parse_accessors n s = Inr (as, r) \<longrightarrow> suffix r s)"
proof (induction n)
  case (Suc n)
  note op = Suc.IH [THEN conjunct1, rule_format]
    and rest = Suc.IH [THEN conjunct2, THEN conjunct1, rule_format]
    and tm = Suc.IH [THEN conjunct2, THEN conjunct2, THEN conjunct1, rule_format]
    and ref = Suc.IH [THEN conjunct2, THEN conjunct2, THEN conjunct2, THEN conjunct1, rule_format]
    and acc = Suc.IH [THEN conjunct2, THEN conjunct2, THEN conjunct2, THEN conjunct2, rule_format]
  have skip_tl: "suffix (skip_space (tl s)) s" for s
    by (meson suffix_order.trans suffix_skip_space suffix_tl)
  have 1: "suffix r s" if "parse_op (Suc n) level s = Inr (e, r)" for level s e r
    using that by (auto simp: outcome_simps split: if_splits dest: tm op rest) (meson op rest suffix_order.trans)+
  have 2: "suffix r s" if "parse_rest (Suc n) level s = Inr (ops, r)" for level s ops r
  proof (cases "op_level s = level")
    case True
    with that obtain oper r1 e1 r2 ops' where "parse_operator s level = Inr (oper, r1)"
        "parse_op n (Suc level) r1 = Inr (e1, r2)" "parse_rest n level r2 = Inr (ops', r)"
      by (auto simp: outcome_simps)
    with op rest literal_suffix(4) show ?thesis by (meson suffix_order.trans)
  qed (use that in simp)
  have 3: "suffix r s" if t: "parse_term (Suc n) s = Inr (e, r)" for s e r
  proof (cases "cur s = CHR ''(''")
    case True
    with t obtain r1 where r1: "parse_op n 1 (skip_space (tl s)) = Inr (e, r1)" "r = skip_space (tl r1)"
      by (auto simp: outcome_simps split: if_splits)
    with op skip_tl show ?thesis by (meson suffix_order.trans)
  next
    case False
    with t show ?thesis
      by (auto dest: ref literal_suffix split: if_splits)
  qed
  have 4: "suffix r s" if t: "parse_ref (Suc n) s = Inr (e, r)" for s e r
  proof -
    define u where "u = (if cur (tl s) = CHR ''{'' then skip_space (tl (tl s)) else tl s)"
    have u: "suffix u s" using suffix_order.trans [OF skip_tl [of "tl s"] suffix_tl] by (simp add: u_def suffix_tl)
    have le: "suffix (skip_space (tl (drop k x))) x" for k x
      by (meson skip_tl suffix_drop suffix_order.trans)
    from t obtain i r1 as r2 where p: "parse_id u = Inr (i, r1)" "parse_accessors n (skip_space r1) = Inr (as, r2)"
      "suffix r r2"
      by (auto simp: outcome_simps Let_def u_def [symmetric] le skip_tl suffix_drop split: if_splits)
    with u acc literal_suffix(3) show ?thesis by (meson suffix_order.trans suffix_skip_space)
  qed
  have 5: "suffix r s" if t: "parse_accessors (Suc n) s = Inr (as, r)" for s as r
  proof (cases "cur s = CHR ''['' \<or> cur s = CHR ''.''")
    case True
    with t consider (idx) e r1 as' where "parse_op n 1 (skip_space (tl s)) = Inr (e, r1)" "parse_accessors n (skip_space (tl r1)) = Inr (as', r)"
      | (mem) i r1 as' where "parse_id (skip_space (tl s)) = Inr (i, r1)" "parse_accessors n (skip_space r1) = Inr (as', r)"
      by (auto simp: outcome_simps split: if_splits)
    then show ?thesis
    proof cases
      case idx
      with op acc skip_tl show ?thesis by (meson suffix_order.trans)
    next
      case mem
      with literal_suffix(3) acc skip_tl show ?thesis by (meson suffix_order.trans suffix_skip_space)
    qed
  qed (use t in simp)
  from 1 2 3 4 5 show ?case by simp
qed simp

lemmas parse_term_suffix = parse_suffix [THEN conjunct2, THEN conjunct2, THEN conjunct1, rule_format]
  and parse_ref_suffix = parse_suffix [THEN conjunct2, THEN conjunct2, THEN conjunct2, THEN conjunct1, rule_format]

lemma parse_pieces_enough:
  "CHR 0x5C \<notin> set s \<Longrightarrow> 10 * length s + 1 \<le> n \<Longrightarrow> parse_pieces n s \<noteq> Inl UB"
proof (induction n arbitrary: s)
  case (Suc n)
  show ?case
  proof (cases s)
    case (Cons c r)
    define p where "p = (if cur r = CHR ''('' then parse_term n r else parse_ref n s)"
    have p: "p \<noteq> Inl UB"
      using Suc.prems(2) Cons parse_term_enough [of r n] parse_ref_enough [of s n] by (auto simp: p_def)
    have q: "parse_pieces n t \<noteq> Inl UB" if "suffix t s" "length t < length s" for t
      using that Suc.prems set_mono_suffix [OF that(1)] by (intro Suc.IH) auto
    have v: "suffix t s \<and> length t < length s" if "p = Inr (e, t)" for e t
      using that Cons parse_term_suffix [of n r e t] parse_ref_suffix [of n s e t] parse_term_length [of n r e t]
        parse_ref_length [of n s e t] by (auto simp: p_def suffix_ConsI split: if_splits)
    have r: "suffix r s" "length r < length s" using Cons by (simp_all add: suffix_ConsI)
    show ?thesis
    proof (cases "c = CHR ''$''")
      case True
      then have "parse_pieces (Suc n) s = rbind p (\<lambda>(e, r). rbind (parse_pieces n r) (\<lambda>(text, vs). Inr ([], (e, text) # vs)))"
        using Cons by (simp add: p_def)
      also have "\<dots> \<noteq> Inl UB" using p q v by (auto simp: rbind_Inl_iff)
      finally show ?thesis .
    next
      case False
      moreover have "c \<noteq> CHR 0x5C" using Suc.prems(1) Cons by auto
      ultimately show ?thesis using Cons q [OF r] by (auto simp: rbind_Inl_iff)
    qed
  qed simp
qed simp

lemma Impl_parse_not_UB:
  assumes "CHR 0x5C \<notin> set s"
  shows "Impl_parse s \<noteq> Inl UB"
proof -
  have "parse_op (parse_fuel s) 1 (skip_space s) \<noteq> Inl UB"
  proof (rule parse_op_enough)
    show "10 * length (skip_space s) + 9 \<le> parse_fuel s + 1"
      using mult_le_mono2 [OF skip_space_length, of 10 s] by (simp add: parse_fuel_def)
  qed simp
  moreover have "String_literal_parse s \<noteq> Inl UB"
    using parse_pieces_enough [OF assms, of "parse_fuel s"]
    by (auto simp: String_literal_parse_def parse_fuel_def rbind_Inl_iff)
  ultimately show ?thesis by (auto simp: Impl_parse_def split: sum.splits fault.splits)
qed

text \<open>
  (C13) The parser of expressions returns: on every text without a backslash it gives an expression or
  throws an exception, and never reaches the bound on its recursion.
\<close>

theorem parse_returns:
  assumes "CHR 0x5C \<notin> set s"
  shows "(\<exists>e. Impl_parse s = Inr e) \<or> (\<exists>e. Impl_parse s = throw e)"
  using Impl_parse_not_UB [OF assms] by (metis fault.exhaust sum.exhaust)

theorem parse_returns_witness:
  "Impl_parse ''($a[1] + 2'' = Inr (String_literal ''('' [(Reference_expression ''a'' [Index_accessor (Int_literal 1)] [], ''+ 2'')])"
proof -
  have "(\<exists>e. Impl_parse ''($a[1] + 2'' = Inr e) \<or> (\<exists>e. Impl_parse ''($a[1] + 2'' = throw e)"
    by (rule parse_returns) simp
  moreover have "Impl_parse ''($a[1] + 2'' = Inr (String_literal ''('' [(Reference_expression ''a'' [Index_accessor (Int_literal 1)] [], ''+ 2'')])"
    by code_simp
  ultimately show ?thesis by simp
qed

end
