(* ===== verification/Expr_Print.thy ===== *)
theory Expr_Print
  imports Expr_Parse_Correct
begin

text \<open>
  Printing of expressions and the round trip through the parser: precedence, grouping and literals are
  read back as written. Two lemmas record where the parser departs from that.
\<close>

section \<open>Printing\<close>

fun operator_level :: "operator \<Rightarrow> nat" where
  "operator_level OR_op = 1"
| "operator_level AND_op = 2"
| "operator_level EQUAL = 3"
| "operator_level GT = 4"
| "operator_level LT = 4"
| "operator_level PLUS = 5"
| "operator_level MINUS = 5"
| "operator_level MULT = 6"
| "operator_level DIV = 6"
| "operator_level MOD = 6"
| "operator_level _ = 0"

fun show_expr :: "nat \<Rightarrow> expr \<Rightarrow> string" where
  "show_expr l (Int_literal v) = fmt_int v"
| "show_expr l (Reference_expression i as f) =
     CHR ''$'' # i @ concat (map (\<lambda>a. case a of Index_accessor e \<Rightarrow> CHR ''['' # show_expr 1 e @ '']'' | Member_accessor e \<Rightarrow> []) as)"
| "show_expr l (Operation e ops) =
     (let L = operator_level (fst (hd ops));
          t = show_expr (Suc L) e @ concat (map (\<lambda>(oper, x). operator_char oper # show_expr (Suc L) x) ops)
      in if L < l then CHR ''('' # t @ '')'' else t)"
| "show_expr l _ = []"

definition valid_id :: "string \<Rightarrow> bool" where
  "valid_id i \<longleftrightarrow> (case i of [] \<Rightarrow> False | c # r \<Rightarrow> id_first c \<and> list_all id_char r)"

fun printable :: "expr \<Rightarrow> bool" where
  "printable (Int_literal v) \<longleftrightarrow> LONG_MIN \<le> v \<and> v \<le> LONG_MAX"
| "printable (Reference_expression i as f) \<longleftrightarrow>
     valid_id i \<and> f = [] \<and> (\<forall>a \<in> set as. case a of Index_accessor e \<Rightarrow> printable e | Member_accessor e \<Rightarrow> False)"
| "printable (Operation e ops) \<longleftrightarrow>
     printable e \<and> ops \<noteq> [] \<and> operator_level (fst (hd ops)) \<noteq> 0
     \<and> list_all (\<lambda>x. operator_level (fst x) = operator_level (fst (hd ops)) \<and> printable (snd x)) ops"
| "printable _ \<longleftrightarrow> False"

text \<open>The text after an expression: empty, or starting with an operator or a closing bracket.\<close>

definition stops :: "nat \<Rightarrow> string \<Rightarrow> bool" where
  "stops l r \<longleftrightarrow> CHR ''.'' \<notin> set r \<and> op_level r < l \<and> (r = [] \<or> hd r \<in> set ''|&=<>+-*/%)]'')"

lemma printable_operands: "printable (Operation e ops) \<Longrightarrow> x \<in> set ops \<Longrightarrow> printable (snd x)"
  by (simp add: list_all_iff)

lemma op_level_operator: "operator_level oper \<noteq> 0 \<Longrightarrow> op_level (operator_char oper # r) = operator_level oper"
  by (cases oper) (simp_all add: op_level_def cur_def)

lemma parse_operator_char:
  "operator_level oper \<noteq> 0 \<Longrightarrow> parse_operator (operator_char oper # r) (operator_level oper) = Inr (oper, skip_space r)"
  by (cases oper) (simp_all add: parse_operator_def op_level_def cur_def char_operator_def)

lemma stops_operator: "operator_level oper \<noteq> 0 \<Longrightarrow> operator_level oper < l \<Longrightarrow> CHR ''.'' \<notin> set r \<Longrightarrow> stops l (operator_char oper # r)"
  by (cases oper) (simp_all add: stops_def op_level_def cur_def)

lemma stops_close: "0 < l \<Longrightarrow> CHR ''.'' \<notin> set r \<Longrightarrow> stops l (CHR '')'' # r)" "0 < l \<Longrightarrow> CHR ''.'' \<notin> set r \<Longrightarrow> stops l (CHR '']'' # r)"
  by (simp_all add: stops_def op_level_def cur_def)

lemma stops_mono: "stops l r \<Longrightarrow> l \<le> k \<Longrightarrow> stops k r"
  by (simp add: stops_def)

lemma digit_value_char: "n < 10 \<Longrightarrow> digit_value (char_of (48 + n)) = Some (int n)"
proof -
  have "\<forall>n \<in> set [0 ..< 10]. digit_value (char_of (48 + n :: nat)) = Some (int n)" by code_simp
  then show "n < 10 \<Longrightarrow> ?thesis" by simp
qed

lemma fmt_nat_digits: "c \<in> set (fmt_nat n) \<Longrightarrow> is_digit 10 c"
proof (induction n rule: fmt_nat.induct)
  case (1 n)
  then show ?case
    by (subst (asm) (2) fmt_nat.simps) (auto simp: is_digit_def digit_value_char split: if_splits)
qed

lemma digits_value_append: "digits_value b (xs @ ys) acc = digits_value b ys (digits_value b xs acc)"
  by (induction xs arbitrary: acc) auto

lemma digits_value_fmt_nat: "digits_value 10 (fmt_nat n) 0 = int n"
proof (induction n rule: fmt_nat.induct)
  case (1 n)
  have "int (n div 10) * 10 + int (n mod 10) = int n"
    by (metis div_mult_mod_eq of_nat_add of_nat_mult of_nat_numeral)
  with 1 show ?case by (subst fmt_nat.simps) (auto simp: digits_value_append digit_value_char)
qed

lemma fmt_nat_nonempty [simp]: "fmt_nat n \<noteq> []"
  by (subst fmt_nat.simps) simp

lemma char_of_48: "0 < n \<Longrightarrow> n < 10 \<Longrightarrow> char_of (48 + n :: nat) \<noteq> CHR ''0''"
  using digit_value_char [of n] by (auto simp: digit_value_def Let_def split: if_splits)

lemma fmt_nat_head: "0 < n \<Longrightarrow> hd (fmt_nat n) \<noteq> CHR ''0''"
proof (induction n rule: fmt_nat.induct)
  case (1 n)
  then show ?case by (subst fmt_nat.simps) (auto simp: char_of_48)
qed

text \<open>No character after an expression continues a number.\<close>

lemma stops_no_digit:
  assumes "stops l r"
  shows "takeWhile (is_digit 10) r = []" "takeWhile (is_digit 8) r = []" "skip_space r = r" "dropWhile (is_digit 10) r = r"
    "dropWhile (is_digit 8) r = r" "r \<noteq> [] \<Longrightarrow> hd r \<notin> {CHR ''x'', CHR ''X''}"
proof -
  have "\<forall>c \<in> set ''|&=<>+-*/%)]''. \<not> is_digit 10 c \<and> \<not> is_digit 8 c \<and> \<not> isspace c \<and> c \<notin> {CHR ''x'', CHR ''X''}"
    by code_simp
  then have "r = [] \<or> \<not> is_digit 10 (hd r) \<and> \<not> is_digit 8 (hd r) \<and> \<not> isspace (hd r) \<and> hd r \<notin> {CHR ''x'', CHR ''X''}"
    using assms unfolding stops_def by blast
  then show "takeWhile (is_digit 10) r = []" "takeWhile (is_digit 8) r = []" "skip_space r = r" "dropWhile (is_digit 10) r = r"
    "dropWhile (is_digit 8) r = r" "r \<noteq> [] \<Longrightarrow> hd r \<notin> {CHR ''x'', CHR ''X''}"
    by (cases r; auto simp: skip_space_def)+
qed

lemma cur_head [simp]: "cur (c # t) = c"
  by (simp add: cur_def)

lemma strtol_digits:
  assumes "stops l r"
  shows "read_base (fmt_nat n @ r) = (b, t) \<Longrightarrow> t = fmt_nat n @ r \<and> takeWhile (is_digit b) t = fmt_nat n \<and> dropWhile (is_digit b) t = r
    \<and> digits_value b (fmt_nat n) 0 = int n"
proof (cases "n = 0")
  case True
  assume b: "read_base (fmt_nat n @ r) = (b, t)"
  have z: "fmt_nat 0 = ''0''" by code_simp
  have "b = 8 \<and> t = fmt_nat n @ r"
    using b True stops_no_digit(6) [OF assms] by (auto simp: z read_base_def split: list.splits if_splits)
  moreover have "is_digit 8 (CHR ''0'')" "digits_value 8 ''0'' 0 = 0" by code_simp+
  ultimately show ?thesis using True stops_no_digit [OF assms] by (simp add: z)
next
  case False
  assume b: "read_base (fmt_nat n @ r) = (b, t)"
  have "hd (fmt_nat n) \<noteq> CHR ''0''" using False fmt_nat_head by simp
  then have "b = 10 \<and> t = fmt_nat n @ r"
    using b by (cases "fmt_nat n") (auto simp: read_base_def split: list.splits if_splits)
  then show ?thesis
    using stops_no_digit [OF assms] by (simp add: fmt_nat_digits digits_value_fmt_nat)
qed

lemma digit_not_special: "is_digit 10 c \<Longrightarrow> \<not> isspace c \<and> c \<notin> set ''-+($.[]''"
proof -
  assume d: "is_digit 10 c"
  have "48 \<le> (of_char c :: int)"
    using d by (auto simp: is_digit_def digit_value_def Let_def split: if_splits)
  then have "48 \<le> (of_char c :: nat)" by (metis of_nat_le_iff of_nat_numeral of_nat_of_char)
  moreover have "\<forall>c \<in> set '' -+($.[]''. \<not> is_digit 10 c" by code_simp
  ultimately show ?thesis using d by (auto simp: isspace_def)
qed

lemma strtol_fmt_int:
  assumes "stops l r" and "LONG_MIN \<le> v" "v \<le> LONG_MAX"
  shows "strtol (fmt_int v @ r) = (v, False, r)"
proof -
  define n where "n = nat \<bar>v\<bar>"
  obtain c ds where cs: "fmt_nat n = c # ds" using fmt_nat_nonempty by (cases "fmt_nat n") auto
  then have c: "is_digit 10 c" using fmt_nat_digits [of c n] by simp
  obtain b where b: "read_base (fmt_nat n @ r) = (b, fmt_nat n @ r)"
    using strtol_digits [OF assms(1), of n] by (metis surj_pair)
  note d = strtol_digits [OF assms(1) b]
  have minus: "\<not> isspace (CHR ''-'')" by code_simp
  show ?thesis
  proof (cases "v < 0")
    case True
    then have "fmt_int v = ''-'' @ fmt_nat n" by (simp add: fmt_int_def n_def)
    then have "read_sign (skip_space (fmt_int v @ r)) = (True, fmt_nat n @ r)"
      using minus by (simp add: skip_space_def read_sign_def)
    then show ?thesis using b d True assms(2,3) by (simp add: strtol_def Let_def n_def)
  next
    case False
    then have "fmt_int v = fmt_nat n" by (simp add: fmt_int_def n_def)
    moreover have "read_sign (skip_space (fmt_nat n @ r)) = (False, fmt_nat n @ r)"
      using digit_not_special [OF c] by (simp add: cs skip_space_def read_sign_def)
    ultimately show ?thesis using b d False assms(2,3) by (simp add: strtol_def Let_def n_def)
  qed
qed

lemma fmt_int_chars: "c \<in> set (fmt_int v) \<Longrightarrow> is_digit 10 c \<or> c = CHR ''-''"
  using fmt_nat_digits by (auto simp: fmt_int_def split: if_splits)

lemma fmt_int_first: "\<exists>c t. fmt_int v = c # t \<and> c \<notin> {CHR ''('', CHR ''$''} \<and> \<not> isspace c"
proof -
  obtain c t where v: "fmt_int v = c # t"
    using fmt_nat_nonempty by (cases "fmt_int v") (auto simp: fmt_int_def split: if_splits)
  have "\<not> isspace (CHR ''-'')" by code_simp
  with fmt_int_chars [of c v] v digit_not_special [of c] show ?thesis by auto
qed

lemma parse_term_int:
  assumes "stops l r" and "LONG_MIN \<le> v" "v \<le> LONG_MAX"
  shows "parse_term (Suc n) (fmt_int v @ r) = Inr (Int_literal v, r)"
proof -
  obtain c t where c: "fmt_int v = c # t" "c \<notin> {CHR ''('', CHR ''$''}" using fmt_int_first by blast
  have "CHR ''.'' \<notin> set (fmt_int v @ r)"
    using fmt_int_chars [of "CHR ''.''" v] digit_not_special [of "CHR ''.''"] assms(1) by (auto simp: stops_def)
  moreover have "Int_literal_parse (fmt_int v @ r) = Inr (Int_literal v, r)"
    using strtol_fmt_int [OF assms] stops_no_digit(3) [OF assms(1)] c(1)
    by (simp add: Int_literal_parse_def)
  ultimately show ?thesis using c by (simp add: cur_def)
qed

text \<open>Going down the levels without meeting an operator.\<close>

lemma parse_op_climb:
  assumes "\<And>n. 10 * length s + 9 \<le> n + k \<Longrightarrow> parse_op n k s = Inr (e, r)"
    and "l \<le> k" "k \<le> 7" "\<And>j. l \<le> j \<Longrightarrow> j < k \<Longrightarrow> op_level r \<noteq> j" "s \<noteq> []"
    and "10 * length s + 9 \<le> n + l"
  shows "parse_op n l s = Inr (e, r)"
  using assms(2,4,6)
proof (induction "k - l" arbitrary: l n)
  case 0
  with assms(1) show ?case by simp
next
  case (Suc d)
  have "length s \<noteq> 0" using assms(5) by simp
  with Suc.prems Suc.hyps(2) assms(3) obtain m where n: "n = Suc (Suc m)"
    by (cases n; cases "n - 1") auto
  have "parse_op (Suc m) (Suc l) s = Inr (e, r)"
    using Suc.prems Suc.hyps(2) n by (intro Suc.hyps(1)) auto
  moreover have "parse_rest (Suc m) l r = Inr ([], r)" using Suc.prems(2) [of l] Suc.hyps(2) by simp
  moreover have "l \<noteq> 7" using Suc.hyps(2) assms(3) by simp
  ultimately show ?case using n by simp
qed

section \<open>The round trip\<close>

definition reads :: "expr \<Rightarrow> bool" where
  "reads e \<longleftrightarrow> (\<forall>l r n. 1 \<le> l \<longrightarrow> l \<le> 7 \<longrightarrow> stops l r \<longrightarrow> 10 * length (show_expr l e @ r) + 9 \<le> n + l \<longrightarrow>
     parse_op n l (show_expr l e @ r) = Inr (e, r))"

lemma readsD:
  "reads e \<Longrightarrow> 1 \<le> l \<Longrightarrow> l \<le> 7 \<Longrightarrow> stops l r \<Longrightarrow> 10 * length (show_expr l e @ r) + 9 \<le> n + l \<Longrightarrow>
   parse_op n l (show_expr l e @ r) = Inr (e, r)"
  by (simp add: reads_def)

lemma show_expr_first: "printable e \<Longrightarrow> \<exists>c t. show_expr l e = c # t \<and> \<not> isspace c"
proof (induction l e rule: show_expr.induct)
  case (1 l v)
  then show ?case using fmt_int_first [of v] by auto
next
  case (2 l i as f)
  have "\<not> isspace (CHR ''$'')" by code_simp
  then show ?case by simp
next
  case (3 l e ops)
  have "\<not> isspace (CHR ''('')" by code_simp
  moreover obtain c t where "show_expr (Suc (operator_level (fst (hd ops)))) e = c # t" "\<not> isspace c"
    using 3(1) [OF refl] 3(3) by (auto simp del: show_expr.simps)
  ultimately show ?case by (simp add: Let_def)
qed auto

lemma skip_space_first [simp]: "\<not> isspace c \<Longrightarrow> skip_space (c # t) = c # t"
  by (simp add: skip_space_def)

lemma skip_space_show [simp]: "printable e \<Longrightarrow> skip_space (show_expr l e @ r) = show_expr l e @ r"
  using show_expr_first [of e l] by auto

lemma stops_skip_space: "stops l r \<Longrightarrow> skip_space r = r"
  using stops_no_digit(3) by simp

lemma operator_not_dot: "operator_char oper \<noteq> CHR ''.''" "CHR ''.'' \<noteq> operator_char oper"
  by (cases oper; simp)+

lemma valid_id_no_dot: "valid_id i \<Longrightarrow> CHR ''.'' \<notin> set i"
proof -
  have "\<not> id_first (CHR ''.'')" "\<not> id_char (CHR ''.'')" by code_simp+
  then show "valid_id i \<Longrightarrow> ?thesis" by (auto simp: valid_id_def list_all_iff split: list.splits)
qed

lemma show_expr_no_dot: "printable e \<Longrightarrow> CHR ''.'' \<notin> set (show_expr l e)"
proof (induction l e rule: show_expr.induct)
  case (1 l v)
  then show ?case using fmt_int_chars [of "CHR ''.''" v] digit_not_special [of "CHR ''.''"] by auto
next
  case (2 l i as f)
  then show ?case by (auto simp: valid_id_no_dot split: accessor.splits)
next
  case (3 l e ops)
  have "CHR ''.'' \<notin> set (show_expr (Suc (operator_level (fst (hd ops)))) e)" using 3(1) [OF refl] 3(3) by simp
  moreover have "CHR ''.'' \<notin> set (show_expr (Suc (operator_level (fst (hd ops)))) (snd x))" if "x \<in> set ops" for x
    using 3(2) [OF refl that, of "fst x" "snd x"] printable_operands [OF 3(3) that] by simp
  ultimately show ?case by (auto simp: Let_def operator_not_dot split_beta)
qed auto

lemma reads_level7:
  assumes "\<And>n. 10 * length s + 9 \<le> n + 7 \<Longrightarrow> parse_op n 7 s = Inr (e, r)"
    and "1 \<le> l" "l \<le> 7" "stops l r" "s \<noteq> []" "10 * length s + 9 \<le> n + l"
  shows "parse_op n l s = Inr (e, r)"
  using assms(4) by (intro parse_op_climb [OF assms(1,3) _ _ assms(5,6)]) (auto simp: stops_def)

lemma reads_int: "LONG_MIN \<le> v \<Longrightarrow> v \<le> LONG_MAX \<Longrightarrow> reads (Int_literal v)"
  unfolding reads_def
proof (intro allI impI)
  fix l r n
  assume v: "LONG_MIN \<le> v" "v \<le> LONG_MAX" and l: "1 \<le> l" "l \<le> 7" "stops l r"
    and n: "10 * length (show_expr l (Int_literal v) @ r) + 9 \<le> n + l"
  have "parse_op n 7 (fmt_int v @ r) = Inr (Int_literal v, r)" if m: "10 * length (fmt_int v @ r) + 9 \<le> n + 7" for n
  proof -
    obtain m where "n = Suc (Suc m)" using m by (cases n; cases "n - 1") auto
    then show ?thesis using parse_term_int [OF l(3) v] by simp
  qed
  then show "parse_op n l (show_expr l (Int_literal v) @ r) = Inr (Int_literal v, r)"
    using n fmt_int_first [of v] by (intro reads_level7 [OF _ l]) auto
qed

abbreviation show_ops :: "nat \<Rightarrow> (operator \<times> expr) list \<Rightarrow> string" where
  "show_ops l ops \<equiv> concat (map (\<lambda>(oper, x). operator_char oper # show_expr l x) ops)"

lemma show_ops_no_dot: "\<forall>x \<in> set ops. printable (snd x) \<Longrightarrow> stops L r \<Longrightarrow> CHR ''.'' \<notin> set (show_ops l ops @ r)"
proof (induction ops)
  case Nil
  then show ?case by (simp add: stops_def)
next
  case (Cons p ops)
  then show ?case by (cases p) (simp add: operator_not_dot show_expr_no_dot)
qed

lemma stops_ops:
  assumes "\<forall>x \<in> set ops. operator_level (fst x) = L" "1 \<le> L" "stops L r" "CHR ''.'' \<notin> set (show_ops l ops @ r)"
  shows "stops (Suc L) (show_ops l ops @ r)"
proof (cases ops)
  case Nil
  then show ?thesis using assms(3) by (simp add: stops_def)
next
  case (Cons p qs)
  obtain oper x where p: "p = (oper, x)" by fastforce
  then have "operator_level oper = L" using assms(1) Cons by simp
  then show ?thesis
    using stops_operator [of oper "Suc L" "show_expr l x @ show_ops l qs @ r"] assms(2,4) Cons p by simp
qed

lemma parse_rest_show:
  assumes "\<forall>x \<in> set ops. operator_level (fst x) = L \<and> printable (snd x) \<and> reads (snd x)" "1 \<le> L" "L < 7" "stops L r"
    and "10 * length (show_ops (Suc L) ops @ r) + 9 \<le> n + L"
  shows "parse_rest n L (show_ops (Suc L) ops @ r) = Inr (ops, r)"
  using assms(1,5)
proof (induction ops arbitrary: n)
  case Nil
  then obtain m where "n = Suc m" using assms(3) by (cases n) auto
  then show ?case using assms(4) by (simp add: stops_def)
next
  case (Cons p ops)
  obtain oper x where p: "p = (oper, x)" by fastforce
  let ?t = "show_ops (Suc L) ops @ r"
  obtain m where n: "n = Suc m" using Cons.prems(2) assms(3) by (cases n) auto
  have dot: "CHR ''.'' \<notin> set ?t"
    using Cons.prems(1) by (intro show_ops_no_dot [OF _ assms(4)]) auto
  have "stops (Suc L) ?t" using Cons.prems(1) assms(2,4) dot by (intro stops_ops) auto
  then have "parse_op m (Suc L) (show_expr (Suc L) x @ ?t) = Inr (x, ?t)"
    using Cons.prems n p assms(3) by (intro readsD) auto
  moreover have "parse_rest m L ?t = Inr (ops, r)"
    using Cons.prems n p by (intro Cons.IH) auto
  moreover have "operator_level oper = L" "printable x" using Cons.prems(1) p by auto
  ultimately show ?case
    using p n assms(2) op_level_operator [of oper] parse_operator_char [of oper] by simp
qed

lemma parse_op_show:
  assumes "reads e" "printable e" "ops \<noteq> []" "1 \<le> L" "L < 7" "stops L r"
    and "\<forall>x \<in> set ops. operator_level (fst x) = L \<and> printable (snd x) \<and> reads (snd x)"
    and "10 * length (show_expr (Suc L) e @ show_ops (Suc L) ops @ r) + 9 \<le> n + L"
  shows "parse_op n L (show_expr (Suc L) e @ show_ops (Suc L) ops @ r)
    = Inr (Operation e ops, r)"
proof -
  let ?t = "show_ops (Suc L) ops @ r"
  obtain m where n: "n = Suc m" using assms(5,8) by (cases n) auto
  obtain c t where first: "show_expr (Suc L) e = c # t" using show_expr_first [OF assms(2)] by blast
  obtain oper x ops' where ops: "ops = (oper, x) # ops'" using assms(3) by (cases ops) auto
  have dot: "CHR ''.'' \<notin> set ?t"
    using assms(7) by (intro show_ops_no_dot [OF _ assms(6)]) auto
  then have "stops (Suc L) ?t" using assms(4,6,7) by (intro stops_ops) auto
  then have "parse_op m (Suc L) (show_expr (Suc L) e @ ?t) = Inr (e, ?t)"
    using assms(1,5,8) n by (intro readsD) auto
  moreover have "parse_rest m L ?t = Inr (ops, r)"
    using assms n first by (intro parse_rest_show) auto
  ultimately show ?thesis using n assms(3,5) by simp
qed

lemma reads_operation:
  assumes "printable (Operation e ops)" "reads e" "\<forall>x \<in> set ops. reads (snd x)"
  shows "reads (Operation e ops)"
  unfolding reads_def
proof (intro allI impI)
  fix l r n
  assume l: "1 \<le> l" "l \<le> 7" "stops l r" and n: "10 * length (show_expr l (Operation e ops) @ r) + 9 \<le> n + l"
  define L where "L = operator_level (fst (hd ops))"
  have ops: "\<forall>x \<in> set ops. operator_level (fst x) = L \<and> printable (snd x) \<and> reads (snd x)"
    using assms(1,3) unfolding printable.simps list_all_iff L_def by blast
  have e: "printable e" "ops \<noteq> []" "1 \<le> L" using assms(1) by (simp_all add: L_def)
  have L: "L < 7" unfolding L_def by (cases "fst (hd ops)") simp_all
  let ?t = "show_expr (Suc L) e @ show_ops (Suc L) ops"
  have t: "parse_op n L (?t @ r) = Inr (Operation e ops, r)" if "stops L r" "10 * length (?t @ r) + 9 \<le> n + L" for n r
    using parse_op_show [OF assms(2) e L that(1) ops, of n] that(2) by simp
  obtain c t' where first: "show_expr (Suc L) e = c # t'" "\<not> isspace c" using show_expr_first [OF e(1)] by blast
  show "parse_op n l (show_expr l (Operation e ops) @ r) = Inr (Operation e ops, r)"
  proof (cases "L < l")
    case False
    then have s: "show_expr l (Operation e ops) = ?t" by (simp add: Let_def L_def)
    have "stops L r" using l(3) False by (simp add: stops_mono)
    show ?thesis
      unfolding s
    proof (rule parse_op_climb [where k = L])
      show "op_level r \<noteq> j" if "l \<le> j" for j using l(3) that by (simp add: stops_def)
    qed (use n s L False first t [OF \<open>stops L r\<close>] in simp_all)
  next
    case True
    then have s: "show_expr l (Operation e ops) = CHR ''('' # ?t @ '')''" by (simp add: Let_def L_def)
    have dot: "CHR ''.'' \<notin> set r" using l(3) by (simp add: stops_def)
    have "parse_op m 7 (CHR ''('' # ?t @ '')'' @ r) = Inr (Operation e ops, r)"
      if m: "10 * length (CHR ''('' # ?t @ '')'' @ r) + 9 \<le> m + 7" for m
    proof -
      obtain k where k: "m = Suc (Suc k)" using m by (cases m; cases "m - 1") auto
      have "parse_op k 1 (?t @ '')'' @ r) = Inr (Operation e ops, '')'' @ r)"
      proof (rule parse_op_climb [where k = L])
        fix n assume "10 * length (?t @ '')'' @ r) + 9 \<le> n + L"
        then show "parse_op n L (?t @ '')'' @ r) = Inr (Operation e ops, '')'' @ r)"
          using t [of "'')'' @ r" n] stops_close(1) [of L r] dot e(3) by simp
      next
        have "op_level ('')'' @ r) = 0" using stops_close(1) [of 1 r] dot by (simp add: stops_def)
        then show "op_level ('')'' @ r) \<noteq> j" if "1 \<le> j" for j using that by simp
      qed (use m k e(3) L first in auto)
      then show ?thesis using k first stops_skip_space [OF l(3)] by (simp add: cur_def)
    qed
    then show ?thesis using n unfolding s by (intro reads_level7 [OF _ l]) auto
  qed
qed

lemma cur_stops: "stops l r \<Longrightarrow> cur r \<notin> {CHR ''['', CHR ''.'', CHR '':''}"
  by (cases r) (auto simp: stops_def cur_def)

abbreviation show_accessors :: "expr accessor list \<Rightarrow> string" where
  "show_accessors as \<equiv> concat (map (case_accessor (\<lambda>e. CHR ''['' # show_expr 1 e @ '']'') (\<lambda>e. [])) as)"

lemma parse_accessors_show:
  assumes "\<forall>a \<in> set as. \<exists>e. a = Index_accessor e \<and> printable e \<and> reads e" "stops l r"
    and "10 * length (show_accessors as @ r) + 1 \<le> n"
  shows "parse_accessors n (skip_space (show_accessors as @ r)) = Inr (as, r)"
  using assms(1,3)
proof (induction as arbitrary: n)
  case Nil
  then obtain m where "n = Suc m" by (cases n) auto
  moreover have "cur r \<notin> {CHR ''['', CHR ''.''}" using cur_stops [OF assms(2)] by simp
  ultimately show ?case using stops_skip_space [OF assms(2)] by simp
next
  case (Cons a as)
  then obtain e where e: "a = Index_accessor e" "printable e" "reads e" by auto
  obtain m where n: "n = Suc m" using Cons.prems(2) by (cases n) auto
  have "\<not> isspace (CHR ''['')" by code_simp
  moreover have "stops 1 ('']'' @ show_accessors as @ r)"
  proof -
    have "CHR ''.'' \<notin> set (show_accessors as)"
      using Cons.prems(1) show_expr_no_dot by (induction as) auto
    then have "CHR ''.'' \<notin> set (show_accessors as @ r)" using assms(2) by (simp add: stops_def)
    from stops_close(2) [OF zero_less_one this] show ?thesis unfolding append_Cons append_Nil .
  qed
  then have "parse_op m 1 (show_expr 1 e @ '']'' @ show_accessors as @ r) = Inr (e, '']'' @ show_accessors as @ r)"
    using Cons.prems(2) n e by (intro readsD) auto
  moreover have "parse_accessors m (skip_space (show_accessors as @ r)) = Inr (as, r)"
    using Cons.prems n e by (intro Cons.IH) auto
  ultimately show ?case using n e by (simp add: cur_def)
qed

lemma parse_ref_show:
  assumes "valid_id i" "\<forall>a \<in> set as. \<exists>e. a = Index_accessor e \<and> printable e \<and> reads e" "stops l r"
    and "10 * length (show_accessors as @ r) + 2 \<le> n"
  shows "parse_ref n (CHR ''$'' # i @ show_accessors as @ r) = Inr (Reference_expression i as [], r)"
proof -
  obtain m where n: "n = Suc m" using assms(4) by (cases n) auto
  obtain c t where i: "i = c # t" "id_first c" "list_all id_char t"
    using assms(1) by (auto simp: valid_id_def split: list.splits)
  define q where "q = show_accessors as @ r"
  have "\<forall>c \<in> set ''|&=<>+-*/%)][''. \<not> id_char c" by code_simp
  moreover have "q = [] \<or> hd q \<in> set ''|&=<>+-*/%)][''"
    using assms(2,3) by (cases as) (auto simp: stops_def q_def)
  ultimately have "q = [] \<or> \<not> id_char (hd q)" by blast
  then have "takeWhile id_char q = []" "dropWhile id_char q = q" by (cases q; simp)+
  moreover have "\<forall>c \<in> set i. id_char c" using i by (auto simp: id_char_def list_all_iff)
  ultimately have "parse_id (i @ q) = Inr (i, q)"
    using i(1,2) by (simp add: parse_id_def cur_def)
  moreover have "\<not> id_first (CHR ''{'')" by code_simp
  then have "cur (i @ q) \<noteq> CHR ''{''" using i(1,2) by (auto simp: cur_def)
  moreover have "parse_accessors m (skip_space q) = Inr (as, r)"
    using assms(4) n unfolding q_def by (intro parse_accessors_show [OF assms(2,3)]) simp
  moreover have "cur r \<noteq> CHR '':''" using cur_stops [OF assms(3)] by simp
  ultimately show ?thesis unfolding q_def [symmetric] using n by (simp add: Let_def)
qed

lemma reads_reference:
  assumes "valid_id i" "\<forall>a \<in> set as. \<exists>e. a = Index_accessor e \<and> printable e \<and> reads e"
  shows "reads (Reference_expression i as [])"
  unfolding reads_def
proof (intro allI impI)
  fix l r n
  assume l: "1 \<le> l" "l \<le> 7" "stops l r"
    and n: "10 * length (show_expr l (Reference_expression i as []) @ r) + 9 \<le> n + l"
  have "parse_op n 7 (CHR ''$'' # i @ show_accessors as @ r) = Inr (Reference_expression i as [], r)"
    if m: "10 * length (CHR ''$'' # i @ show_accessors as @ r) + 9 \<le> n + 7" for n
  proof -
    obtain m where "n = Suc (Suc m)" using m by (cases n; cases "n - 1") auto
    then show ?thesis using parse_ref_show [OF assms l(3), of m] m by (simp add: cur_def)
  qed
  then show "parse_op n l (show_expr l (Reference_expression i as []) @ r) = Inr (Reference_expression i as [], r)"
    using n by (intro reads_level7 [OF _ l]) auto
qed

lemma printable_reads: "printable e \<Longrightarrow> reads e"
proof (induction e rule: printable.induct)
  case (1 v)
  then show ?case by (simp add: reads_int)
next
  case (2 i as f)
  have "\<exists>e. a = Index_accessor e \<and> printable e \<and> reads e" if "a \<in> set as" for a
    using 2 that by (cases a) auto
  then show ?case using 2(2) reads_reference by simp
next
  case (3 e ops)
  have "reads (snd x)" if "x \<in> set ops" for x
    using 3 that printable_operands [OF 3(3) that] by blast
  then show ?case using 3(1,3) reads_operation by simp
qed auto

text \<open>
  (C12) Writing an expression made of integers, references indexed by expressions and operators, with parentheses
  where the levels require them, and parsing the text again gives the same expression: precedence, associativity of the
  operand lists and the scope of the parentheses are those of the printed text.
\<close>

theorem parse_show_expr: "printable e \<Longrightarrow> Impl_parse (show_expr 1 e) = Inr e"
proof -
  assume e: "printable e"
  have "stops 1 []" by (simp add: stops_def op_level_Nil)
  then have "parse_op (parse_fuel (show_expr 1 e)) 1 (show_expr 1 e) = Inr (e, [])"
    using readsD [OF printable_reads [OF e], of 1 "[]" "parse_fuel (show_expr 1 e)"] by (simp add: parse_fuel_def)
  moreover have "skip_space (show_expr 1 e) = show_expr 1 e" using skip_space_show [OF e, of 1 "[]"] by simp
  ultimately show ?thesis by (simp add: Impl_parse_def skip_space_def [of "[]"])
qed

definition sample_expr :: expr where
  "sample_expr =
     Operation (Operation (Reference_expression ''a'' [Index_accessor (Operation (Reference_expression ''i'' [] []) [(MINUS, Int_literal 1)])] [])
       [(PLUS, Int_literal (- 3))]) [(MULT, Reference_expression ''n'' [] []), (MOD, Int_literal 7)]"

theorem parse_show_expr_witness:
  "show_expr 1 sample_expr = ''($a[$i-1]+-3)*$n%7'' \<and> Impl_parse ''($a[$i-1]+-3)*$n%7'' = Inr sample_expr"
proof -
  have "printable sample_expr" by code_simp
  moreover have "show_expr 1 sample_expr = ''($a[$i-1]+-3)*$n%7''" by code_simp
  ultimately show ?thesis using parse_show_expr [of sample_expr] by simp
qed

text \<open>
  The choice between integers and reals looks for a point in all the text that is left, so an integer before
  an access to a member becomes a real, while the same integer after it stays an integer.
\<close>

lemma point_after_makes_float:
  "(case Impl_parse ''1+$a.b'' of Inr (Operation e ops) \<Rightarrow> e = Float_literal 0x3FF0000000000000 | _ \<Rightarrow> False)
   \<and> (case Impl_parse ''$a.b+1'' of Inr (Operation e ops) \<Rightarrow> map snd ops = [Int_literal 1] | _ \<Rightarrow> False)"
  by code_simp

text \<open>A text that ends with a backslash is read past its end.\<close>

lemma trailing_backslash_reads_past_end: "Impl_parse [CHR ''a'', CHR 0x5C] = Inl UB"
  by code_simp

end
