(* ===== verification/Context_State.thy ===== *)
theory Context_State
  imports Ref_Store Expr_Parse
begin

text \<open>
  The state of a program that uses PDI beside its references: the contexts with their descriptors,
  datatype parsers and callbacks (\<open>global_context.h\<close>, \<open>data_descriptor_impl.h\<close>), the globals of
  \<open>pdi.cxx\<close>, and the environment of parameters that stands for the code of plugins and users. The
  operations here are the ones that expressions need: registration and notification of callbacks
  (\<open>global_context.cxx\<close>), lookup of a descriptor and access to its value.
\<close>

section \<open>State\<close>

text \<open>The classes derived from \<open>Datatype_template\<close>; a datatype is itself a template.\<close>

datatype template =
    Scalar_template scalar_kind expression expression attributes_map
  | Array_template template expression expression expression attributes_map
  | Record_template "(expression \<times> template \<times> string) list" expression attributes_map
  | Struct_template "(template \<times> string) list" attributes_map
  | Pointer_template template attributes_map
  | Tuple_template "(expression \<times> template) list" expression attributes_map
  | Evaluated dt

text \<open>A \<open>Data_descriptor_impl\<close>; the stack of references with the top first. Each \<open>Ref_holder\<close> is its reference.\<close>

record descriptor =
  m_refs :: "nat list"
  m_type :: template
  m_name :: string
  m_metadata :: bool

text \<open>The functions registered as datatype parsers.\<close>

datatype parser =
    Parse_array
  | Parse_struct
  | Parse_record
  | Parse_pointer
  | Parse_tuple
  | Parse_scalar scalar_kind size_t
  | Parse_kind scalar_kind int
  | Parse_user pc_tree
  | Parse_plugin nat

text \<open>
  A \<open>Logger\<close> (\<open>logger.h\<close>) with the logger of \<open>spdlog\<close> behind it: its sinks, its level and the pattern it was
  given. The messages themselves are not part of the model.
\<close>

datatype log_level = L_trace | L_debug | L_info | L_warn | L_err | L_off

datatype log_sink = File_sink string | Console_sink

record logger =
  l_name :: string
  l_sinks :: "log_sink list"
  l_level :: log_level
  l_shown :: string
  l_parent :: "nat option"
  l_pattern :: string
  l_pattern_blocks :: "string list"
  l_pattern_from_config :: bool
  l_observers :: "nat list"

text \<open>A \<open>Plugin_store::Stored_plugin\<close> (\<open>plugin_store.h\<close>).\<close>

datatype init_state = PRELOADED | LOADING | LOADED

record stored_plugin =
  p_config :: pc_tree
  p_logger :: nat
  p_dependencies :: "string list"
  p_loaded :: bool
  p_state :: init_state

text \<open>
  A \<open>Global_context\<close>. A registered callback is a key, which stands for the iterator that the
  registration returns, and the identifier of a function of the environment; keys are never reused.
  The elements of a \<open>multimap\<close> with one key keep the order of their insertion.
\<close>

record global_context =
  m_datatype_parsers :: "(string \<times> parser) list"
  m_descriptors :: "(string \<times> descriptor) list"
  m_init_callbacks :: "(nat \<times> nat) list"
  m_data_callbacks :: "(nat \<times> nat) list"
  m_named_data_callbacks :: "(string \<times> nat \<times> nat) list"
  m_data_remove_callbacks :: "(nat \<times> nat) list"
  m_named_data_remove_callbacks :: "(string \<times> nat \<times> nat) list"
  m_event_callbacks :: "(nat \<times> nat) list"
  m_named_event_callbacks :: "(string \<times> nat \<times> nat) list"
  m_empty_desc_access_callbacks :: "(nat \<times> nat) list"
  m_named_empty_desc_access_callbacks :: "(string \<times> nat \<times> nat) list"
  m_logger :: nat
  m_plugin_path :: "string list"
  m_plugins :: "(string \<times> stored_plugin) list"
  next_key :: nat

text \<open>The error handler of the user interface: none, the two predefined ones, or a function of the user.\<close>

datatype handler = PDI_NULL_HANDLER | PDI_ASSERT_HANDLER | PDI_WARN_HANDLER | User_handler nat

text \<open>
  The whole state. Contexts are named by their position and keep it when they are destroyed;
  \<open>s_context\<close> is the singleton.
\<close>

record world = store +
  contexts :: "global_context list"
  s_context :: "nat option"
  loggers :: "logger list"
  g_handler :: handler
  g_errmsg :: string
  g_verbosemsg :: string
  g_transaction :: string
  g_transaction_status :: pdi_status
  g_transaction_data :: "string list"

type_synonym ('x, 'a) world_op = "('x world_scheme, exn, 'a) sx"

text \<open>The values that a format of an expression applies to.\<close>

datatype fmt_arg = Fmt_long int | Fmt_double f64 | Fmt_string string

text \<open>
  The environment: nullification callbacks, the functions registered in the context, the parsers of
  plugins, the error handlers of the user, formatting by the library \<open>fmt\<close> with a format given at run
  time, the configuration files, the opening of log files, the version of the build, and the default kinds of the Fortran types in a build with
  Fortran; then the plugin libraries: the environment variable with
  their path, the default path, the place of the library itself, the dynamic loader, and the
  functions of a plugin. The fuel bounds the depth of nested type definitions and of included
  files, and the rounds of the loops over the initialisation callbacks and over log patterns.
\<close>

record 'x env =
  e_refs :: "'x world_ext ref_env"
  e_init :: "nat \<Rightarrow> ('x, unit) world_op"
  e_data :: "nat \<Rightarrow> string \<Rightarrow> nat \<Rightarrow> ('x, unit) world_op"
  e_event :: "nat \<Rightarrow> string \<Rightarrow> ('x, unit) world_op"
  e_parser :: "nat \<Rightarrow> nat \<Rightarrow> pc_tree \<Rightarrow> ('x, template) world_op"
  e_handler :: "nat \<Rightarrow> pdi_status \<Rightarrow> string \<Rightarrow> ('x, unit) world_op"
  e_format :: "string \<Rightarrow> fmt_arg \<Rightarrow> string res"
  e_file :: "string \<Rightarrow> pc_tree"
  e_log_file :: "string \<Rightarrow> unit res"
  e_version :: "nat \<times> nat \<times> nat"
  e_fortran_kinds :: "(string \<Rightarrow> int) option"
  e_getenv :: "string option"
  e_default_path :: string
  e_libpdi :: "string option"
  e_dlopen :: "string \<Rightarrow> string + nat"
  e_dlsym :: "nat option \<Rightarrow> string \<Rightarrow> bool"
  e_dlerror :: string
  e_plugin_deps :: "string \<Rightarrow> string list \<times> string list"
  e_plugin_name :: "string \<Rightarrow> string"
  e_plugin_ctor :: "string \<Rightarrow> nat \<Rightarrow> pc_tree \<Rightarrow> ('x, unit) world_op"
  e_plugin_dtor :: "string \<Rightarrow> nat \<Rightarrow> ('x, unit) world_op"
  e_fuel :: nat

definition the_context :: "nat \<Rightarrow> 'x world_scheme \<Rightarrow> global_context" where
  "the_context ctx s = contexts s ! ctx"

definition upd_context :: "nat \<Rightarrow> (global_context \<Rightarrow> global_context) \<Rightarrow> 'x world_scheme \<Rightarrow> 'x world_scheme" where
  "upd_context ctx f s = s\<lparr>contexts := (contexts s)[ctx := f (contexts s ! ctx)]\<rparr>"

section \<open>Descriptors\<close>

definition Data_descriptor_impl :: "string \<Rightarrow> descriptor" where
  "Data_descriptor_impl name = \<lparr>m_refs = [], m_type = Evaluated UNDEF_TYPE, m_name = name, m_metadata = False\<rparr>"

text \<open>\<open>Global_context::desc\<close>: the descriptor with a name, made when there is none. Its name is its handle.\<close>

definition desc :: "nat \<Rightarrow> string \<Rightarrow> ('x, string) world_op" where
  "desc ctx name =
     (let name = c_str name in
      sx_bind (sx_modify (upd_context ctx (\<lambda>c.
        if map_of (m_descriptors c) name = None
        then c\<lparr>m_descriptors := m_descriptors c @ [(name, Data_descriptor_impl name)]\<rparr> else c))) (\<lambda>_.
      sx_return name))"

definition find_desc :: "nat \<Rightarrow> string \<Rightarrow> 'x world_scheme \<Rightarrow> descriptor option" where
  "find_desc ctx name s = map_of (m_descriptors (the_context ctx s)) name"

definition descriptor_of :: "nat \<Rightarrow> string \<Rightarrow> 'x world_scheme \<Rightarrow> descriptor" where
  "descriptor_of ctx name s =
     (case find_desc ctx name s of Some d \<Rightarrow> d | None \<Rightarrow> Data_descriptor_impl name)"

definition upd_desc :: "nat \<Rightarrow> string \<Rightarrow> (descriptor \<Rightarrow> descriptor) \<Rightarrow> 'x world_scheme \<Rightarrow> 'x world_scheme" where
  "upd_desc ctx name f =
     upd_context ctx (\<lambda>c. c\<lparr>m_descriptors :=
       map (\<lambda>(n, d). (n, if n = name then f d else d)) (m_descriptors c)\<rparr>)"

section \<open>Registration of callbacks\<close>

text \<open>Each function returns the key that identifies the registration, to remove it.\<close>

definition new_key :: "nat \<Rightarrow> ('x, nat) world_op" where
  "new_key ctx =
     sx_bind (sx_get (\<lambda>s. next_key (the_context ctx s))) (\<lambda>k.
     sx_bind (sx_modify (upd_context ctx (\<lambda>c. c\<lparr>next_key := Suc k\<rparr>))) (\<lambda>_. sx_return k))"

definition on_init :: "nat \<Rightarrow> nat \<Rightarrow> ('x, nat) world_op" where
  "on_init ctx callback =
     sx_bind (new_key ctx) (\<lambda>k.
     sx_bind (sx_modify (upd_context ctx (\<lambda>c. c\<lparr>m_init_callbacks := m_init_callbacks c @ [(k, callback)]\<rparr>))) (\<lambda>_.
     sx_return k))"

definition on_data :: "nat \<Rightarrow> nat \<Rightarrow> string \<Rightarrow> ('x, nat) world_op" where
  "on_data ctx callback name =
     sx_bind (new_key ctx) (\<lambda>k.
     sx_bind (sx_modify (upd_context ctx (\<lambda>c.
       if name = [] then c\<lparr>m_data_callbacks := m_data_callbacks c @ [(k, callback)]\<rparr>
       else c\<lparr>m_named_data_callbacks := m_named_data_callbacks c @ [(name, k, callback)]\<rparr>))) (\<lambda>_.
     sx_return k))"

definition on_data_remove :: "nat \<Rightarrow> nat \<Rightarrow> string \<Rightarrow> ('x, nat) world_op" where
  "on_data_remove ctx callback name =
     sx_bind (new_key ctx) (\<lambda>k.
     sx_bind (sx_modify (upd_context ctx (\<lambda>c.
       if name = [] then c\<lparr>m_data_remove_callbacks := m_data_remove_callbacks c @ [(k, callback)]\<rparr>
       else c\<lparr>m_named_data_remove_callbacks := m_named_data_remove_callbacks c @ [(name, k, callback)]\<rparr>))) (\<lambda>_.
     sx_return k))"

definition on_event :: "nat \<Rightarrow> nat \<Rightarrow> string \<Rightarrow> ('x, nat) world_op" where
  "on_event ctx callback name =
     sx_bind (new_key ctx) (\<lambda>k.
     sx_bind (sx_modify (upd_context ctx (\<lambda>c.
       if name = [] then c\<lparr>m_event_callbacks := m_event_callbacks c @ [(k, callback)]\<rparr>
       else c\<lparr>m_named_event_callbacks := m_named_event_callbacks c @ [(name, k, callback)]\<rparr>))) (\<lambda>_.
     sx_return k))"

definition on_missing_data :: "nat \<Rightarrow> nat \<Rightarrow> string \<Rightarrow> ('x, nat) world_op" where
  "on_missing_data ctx callback name =
     sx_bind (new_key ctx) (\<lambda>k.
     sx_bind (sx_modify (upd_context ctx (\<lambda>c.
       if name = [] then c\<lparr>m_empty_desc_access_callbacks := m_empty_desc_access_callbacks c @ [(k, callback)]\<rparr>
       else c\<lparr>m_named_empty_desc_access_callbacks :=
         m_named_empty_desc_access_callbacks c @ [(name, k, callback)]\<rparr>))) (\<lambda>_.
     sx_return k))"

text \<open>The functions that the registrations return: the callback is erased. Erasing it twice is undefined.\<close>

definition registered :: "(nat \<times> nat) list \<Rightarrow> (string \<times> nat \<times> nat) list \<Rightarrow> nat \<Rightarrow> bool" where
  "registered cbs named k \<longleftrightarrow> k \<in> fst ` set cbs \<or> k \<in> (fst \<circ> snd) ` set named"

definition erase_key :: "nat \<Rightarrow> (nat \<times> nat) list \<Rightarrow> (nat \<times> nat) list" where
  "erase_key k cbs = filter (\<lambda>kc. fst kc \<noteq> k) cbs"

definition erase_named_key :: "nat \<Rightarrow> (string \<times> nat \<times> nat) list \<Rightarrow> (string \<times> nat \<times> nat) list" where
  "erase_named_key k named = filter (\<lambda>nkc. fst (snd nkc) \<noteq> k) named"

definition remove_init :: "nat \<Rightarrow> nat \<Rightarrow> ('x, unit) world_op" where
  "remove_init ctx k s =
     (if registered (m_init_callbacks (the_context ctx s)) [] k
      then (Inr (), upd_context ctx (\<lambda>c. c\<lparr>m_init_callbacks := erase_key k (m_init_callbacks c)\<rparr>) s)
      else (Inl UB, s))"

definition remove_data :: "nat \<Rightarrow> nat \<Rightarrow> ('x, unit) world_op" where
  "remove_data ctx k s =
     (if registered (m_data_callbacks (the_context ctx s)) (m_named_data_callbacks (the_context ctx s)) k
      then (Inr (), upd_context ctx (\<lambda>c. c\<lparr>m_data_callbacks := erase_key k (m_data_callbacks c),
        m_named_data_callbacks := erase_named_key k (m_named_data_callbacks c)\<rparr>) s)
      else (Inl UB, s))"

definition remove_data_remove :: "nat \<Rightarrow> nat \<Rightarrow> ('x, unit) world_op" where
  "remove_data_remove ctx k s =
     (if registered (m_data_remove_callbacks (the_context ctx s)) (m_named_data_remove_callbacks (the_context ctx s)) k
      then (Inr (), upd_context ctx (\<lambda>c. c\<lparr>m_data_remove_callbacks := erase_key k (m_data_remove_callbacks c),
        m_named_data_remove_callbacks := erase_named_key k (m_named_data_remove_callbacks c)\<rparr>) s)
      else (Inl UB, s))"

definition remove_event :: "nat \<Rightarrow> nat \<Rightarrow> ('x, unit) world_op" where
  "remove_event ctx k s =
     (if registered (m_event_callbacks (the_context ctx s)) (m_named_event_callbacks (the_context ctx s)) k
      then (Inr (), upd_context ctx (\<lambda>c. c\<lparr>m_event_callbacks := erase_key k (m_event_callbacks c),
        m_named_event_callbacks := erase_named_key k (m_named_event_callbacks c)\<rparr>) s)
      else (Inl UB, s))"

definition remove_missing_data :: "nat \<Rightarrow> nat \<Rightarrow> ('x, unit) world_op" where
  "remove_missing_data ctx k s =
     (if registered (m_empty_desc_access_callbacks (the_context ctx s)) (m_named_empty_desc_access_callbacks (the_context ctx s)) k
      then (Inr (), upd_context ctx (\<lambda>c. c\<lparr>m_empty_desc_access_callbacks := erase_key k (m_empty_desc_access_callbacks c),
        m_named_empty_desc_access_callbacks := erase_named_key k (m_named_empty_desc_access_callbacks c)\<rparr>) s)
      else (Inl UB, s))"

section \<open>Notification\<close>

text \<open>
  The callbacks to call for a name: those registered for it, then the ones for every name. They are
  gathered by reference before the first one is called: one that is erased before its turn is
  used after its life.
\<close>

definition gather :: "(string \<times> nat \<times> nat) list \<Rightarrow> (nat \<times> nat) list \<Rightarrow> string \<Rightarrow> (nat \<times> nat) list" where
  "gather named cbs name = map snd (filter (\<lambda>nkc. fst nkc = name) named) @ cbs"

text \<open>Every callback is called, whatever the ones before did; the exceptions are collected.\<close>

fun call_all :: "('s \<Rightarrow> nat \<Rightarrow> bool) \<Rightarrow> (nat \<Rightarrow> ('s, exn, unit) sx) \<Rightarrow> (nat \<times> nat) list \<Rightarrow> ('s, exn, exn list) sx" where
  "call_all valid call [] = sx_return []"
| "call_all valid call ((k, cb) # cbs) =
     sx_bind (sx_get (\<lambda>s. valid s k)) (\<lambda>v.
     if \<not> v then sx_fail UB
     else sx_bind (sx_catch (sx_bind (call cb) (\<lambda>_. sx_return [])) (\<lambda>e. sx_return [e])) (\<lambda>errors.
          sx_bind (call_all valid call cbs) (\<lambda>more. sx_return (errors @ more))))"

definition notify_data :: "'x env \<Rightarrow> nat \<Rightarrow> string \<Rightarrow> nat \<Rightarrow> ('x, unit) world_op" where
  "notify_data env ctx name ref =
     sx_bind (sx_get (\<lambda>s. gather (m_named_data_callbacks (the_context ctx s)) (m_data_callbacks (the_context ctx s)) name)) (\<lambda>cbs.
     sx_bind (call_all (\<lambda>s. registered (m_data_callbacks (the_context ctx s)) (m_named_data_callbacks (the_context ctx s)))
       (\<lambda>cb. with_ref (copy_ref False False ref) (e_data env cb name)) cbs) (\<lambda>errors.
     sx_lift (rethrow_errors errors (''while sharing `'' @ name @ [CHR 0x27] @ '', ''))))"

definition notify_data_remove :: "'x env \<Rightarrow> nat \<Rightarrow> string \<Rightarrow> nat \<Rightarrow> ('x, unit) world_op" where
  "notify_data_remove env ctx name ref =
     sx_bind (sx_get (\<lambda>s. gather (m_named_data_remove_callbacks (the_context ctx s)) (m_data_remove_callbacks (the_context ctx s)) name)) (\<lambda>cbs.
     sx_bind (call_all (\<lambda>s. registered (m_data_remove_callbacks (the_context ctx s)) (m_named_data_remove_callbacks (the_context ctx s)))
       (\<lambda>cb. with_ref (copy_ref False False ref) (e_data env cb name)) cbs) (\<lambda>errors.
     sx_lift (rethrow_errors errors (''while removing `'' @ name @ [CHR 0x27] @ '', ''))))"

definition notify_event :: "'x env \<Rightarrow> nat \<Rightarrow> string \<Rightarrow> ('x, unit) world_op" where
  "notify_event env ctx name =
     sx_bind (sx_get (\<lambda>s. gather (m_named_event_callbacks (the_context ctx s)) (m_event_callbacks (the_context ctx s)) name)) (\<lambda>cbs.
     sx_bind (call_all (\<lambda>s. registered (m_event_callbacks (the_context ctx s)) (m_named_event_callbacks (the_context ctx s)))
       (\<lambda>cb. e_event env cb name) cbs) (\<lambda>errors.
     sx_lift (rethrow_errors errors (''while triggering `'' @ name @ [CHR 0x27] @ '', ''))))"

definition notify_missing_data :: "'x env \<Rightarrow> nat \<Rightarrow> string \<Rightarrow> ('x, unit) world_op" where
  "notify_missing_data env ctx name =
     sx_bind (sx_get (\<lambda>s. gather (m_named_empty_desc_access_callbacks (the_context ctx s))
       (m_empty_desc_access_callbacks (the_context ctx s)) name)) (\<lambda>cbs.
     sx_bind (call_all (\<lambda>s. registered (m_empty_desc_access_callbacks (the_context ctx s))
         (m_named_empty_desc_access_callbacks (the_context ctx s)))
       (\<lambda>cb. e_event env cb name) cbs) (\<lambda>errors.
     sx_lift (rethrow_errors errors (''while populating `'' @ name @ [CHR 0x27] @ '', ''))))"

text \<open>
  \<open>notify_init\<close> walks the list itself: a callback added at its end is called too, and one that
  removes itself leaves the loop with an iterator to nothing.
\<close>

fun after_key :: "nat \<Rightarrow> (nat \<times> nat) list \<Rightarrow> (nat \<times> nat) list option" where
  "after_key k [] = None"
| "after_key k ((j, cb) # cbs) = (if j = k then Some cbs else after_key k cbs)"

fun init_loop :: "'x env \<Rightarrow> nat \<Rightarrow> nat \<Rightarrow> (nat \<times> nat) list \<Rightarrow> ('x, unit) world_op" where
  "init_loop env ctx fuel [] = sx_return ()"
| "init_loop env ctx 0 (kc # _) = sx_fail UB"
| "init_loop env ctx (Suc fuel) ((k, cb) # _) =
     sx_bind (e_init env cb) (\<lambda>_.
     sx_bind (sx_get (\<lambda>s. after_key k (m_init_callbacks (the_context ctx s)))) (\<lambda>r.
     case r of None \<Rightarrow> sx_fail UB | Some cbs \<Rightarrow> init_loop env ctx fuel cbs))"

definition notify_init :: "'x env \<Rightarrow> nat \<Rightarrow> ('x, unit) world_op" where
  "notify_init env ctx =
     sx_bind (sx_get (\<lambda>s. m_init_callbacks (the_context ctx s))) (\<lambda>cbs. init_loop env ctx (e_fuel env) cbs)"

definition event :: "'x env \<Rightarrow> nat \<Rightarrow> string \<Rightarrow> ('x, unit) world_op" where
  "event env ctx name = notify_event env ctx (c_str name)"

section \<open>The value of a descriptor\<close>

text \<open>\<open>Data_descriptor_impl::ref\<close> on the descriptor with a name; when it is empty, the plugins may fill it.\<close>

definition desc_ref :: "'x env \<Rightarrow> nat \<Rightarrow> string \<Rightarrow> ('x, nat) world_op" where
  "desc_ref env ctx name =
     sx_bind (sx_get (\<lambda>s. m_refs (descriptor_of ctx name s))) (\<lambda>rs.
     sx_bind (if rs = [] then notify_missing_data env ctx name else sx_return ()) (\<lambda>_.
     sx_bind (sx_get (\<lambda>s. m_refs (descriptor_of ctx name s))) (\<lambda>rs.
     case rs of
       [] \<Rightarrow> sx_fail (Throw (Value_error (''Cannot access a non shared value: `'' @ name @ [CHR 0x27])))
     | r # _ \<Rightarrow> copy_ref False False r)))"

end
