(* ===== verification/C_Arith.thy ===== *)
theory C_Arith
  imports Expr_Syntax "HOL-Library.Signed_Division"
begin

text \<open>
  The arithmetic of C++ on the scalar types of expressions, as \<open>Operation::eval\<close> uses it: integral
  promotion, the usual arithmetic conversions, wrap-around of unsigned types, undefined behaviour on
  signed overflow and on division by zero, conversions between integers and floating point numbers.
\<close>

text \<open>
  A value with its C++ type: an integer of a size in bytes and a signedness, a \<open>float\<close> or a \<open>double\<close>.
  A \<open>bool\<close> is an unsigned integer of one byte with the value 0 or 1.
\<close>

datatype cnum = C_int nat bool int | C_f32 f32 | C_f64 f64

definition int_range :: "nat \<Rightarrow> bool \<Rightarrow> int \<Rightarrow> bool" where
  "int_range b sg v \<longleftrightarrow> (if sg then - (2 ^ (8 * b - 1)) \<le> v \<and> v < 2 ^ (8 * b - 1) else 0 \<le> v \<and> v < 2 ^ (8 * b))"

definition int_wrap :: "nat \<Rightarrow> bool \<Rightarrow> int \<Rightarrow> int" where
  "int_wrap b sg v = (let u = v mod 2 ^ (8 * b) in if sg \<and> 2 ^ (8 * b - 1) \<le> u then u - 2 ^ (8 * b) else u)"

section \<open>Conversions\<close>

definition trunc_to :: "nat \<Rightarrow> bool \<Rightarrow> fval \<Rightarrow> int res" where
  "trunc_to b sg v =
     (case f_trunc v of None \<Rightarrow> Inl UB | Some z \<Rightarrow> if int_range b sg z then Inr z else Inl UB)"

fun cnum_to_int :: "nat \<Rightarrow> bool \<Rightarrow> cnum \<Rightarrow> int res" where
  "cnum_to_int b sg (C_int _ _ v) = Inr (int_wrap b sg v)"
| "cnum_to_int b sg (C_f32 x) = trunc_to b sg (val32 x)"
| "cnum_to_int b sg (C_f64 x) = trunc_to b sg (val64 x)"

fun cnum_to_f64 :: "cnum \<Rightarrow> f64" where
  "cnum_to_f64 (C_int _ _ v) = bits64 (f_of_int v)"
| "cnum_to_f64 (C_f32 x) = bits64 (val32 x)"
| "cnum_to_f64 (C_f64 x) = x"

fun cnum_to_f32 :: "cnum \<Rightarrow> f32" where
  "cnum_to_f32 (C_int _ _ v) = bits32 (f_of_int v)"
| "cnum_to_f32 (C_f32 x) = x"
| "cnum_to_f32 (C_f64 x) = bits32 (val64 x)"

fun cnum_true :: "cnum \<Rightarrow> bool" where
  "cnum_true (C_int _ _ v) = (v \<noteq> 0)"
| "cnum_true (C_f32 x) = f_true (val32 x)"
| "cnum_true (C_f64 x) = f_true (val64 x)"

section \<open>Operators\<close>

text \<open>Integral promotion and the type two promoted integers are converted to.\<close>

definition promoted :: "nat \<Rightarrow> bool \<Rightarrow> nat \<times> bool" where
  "promoted b sg = (if b < 4 then (4, True) else (b, sg))"

definition common_int :: "nat \<times> bool \<Rightarrow> nat \<times> bool \<Rightarrow> nat \<times> bool" where
  "common_int x y =
     (if fst x = fst y then (fst x, snd x \<and> snd y) else if fst x < fst y then y else x)"

definition c_bool :: "bool \<Rightarrow> cnum" where
  "c_bool c = C_int 1 False (if c then 1 else 0)"

text \<open>The result of an integer operation: signed overflow is undefined, unsigned values wrap around.\<close>

definition int_result :: "nat \<Rightarrow> bool \<Rightarrow> int \<Rightarrow> cnum res" where
  "int_result b sg z =
     (if sg then if int_range b sg z then Inr (C_int b sg z) else Inl UB else Inr (C_int b sg (z mod 2 ^ (8 * b))))"

fun eval_int :: "nat \<Rightarrow> bool \<Rightarrow> int \<Rightarrow> operator \<Rightarrow> int \<Rightarrow> cnum res" where
  "eval_int b sg x PLUS y = int_result b sg (x + y)"
| "eval_int b sg x MINUS y = int_result b sg (x - y)"
| "eval_int b sg x MULT y = int_result b sg (x * y)"
| "eval_int b sg x DIV y = (if y = 0 then Inl UB else int_result b sg (x sdiv y))"
| "eval_int b sg x MOD y =
     (if y = 0 \<or> sg \<and> \<not> int_range b sg (x sdiv y) then Inl UB else Inr (C_int b sg (x smod y)))"
| "eval_int b sg x EQUAL y = Inr (c_bool (x = y))"
| "eval_int b sg x AND_op y = Inr (c_bool (x \<noteq> 0 \<and> y \<noteq> 0))"
| "eval_int b sg x OR_op y = Inr (c_bool (x \<noteq> 0 \<or> y \<noteq> 0))"
| "eval_int b sg x GT y = Inr (c_bool (y < x))"
| "eval_int b sg x LT y = Inr (c_bool (x < y))"
| "eval_int b sg x GET y = Inr (c_bool (y \<le> x))"
| "eval_int b sg x LET y = Inr (c_bool (x \<le> y))"

text \<open>Comparisons of floating point numbers; those with a value that is not a number are false.\<close>

fun eval_compare :: "fval \<Rightarrow> operator \<Rightarrow> fval \<Rightarrow> cnum res" where
  "eval_compare x EQUAL y = Inr (c_bool (f_equal x y))"
| "eval_compare x AND_op y = Inr (c_bool (f_true x \<and> f_true y))"
| "eval_compare x OR_op y = Inr (c_bool (f_true x \<or> f_true y))"
| "eval_compare x GT y = Inr (c_bool (f_less y x))"
| "eval_compare x LT y = Inr (c_bool (f_less x y))"
| "eval_compare x GET y = Inr (c_bool (f_less y x \<or> f_equal x y))"
| "eval_compare x LET y = Inr (c_bool (f_less x y \<or> f_equal x y))"
| "eval_compare x _ y = throw (Type_error ''Invalid operands to modulo operation'')"

definition eval_f64 :: "f64 \<Rightarrow> operator \<Rightarrow> f64 \<Rightarrow> cnum res" where
  "eval_f64 x op y =
     (case op of
        PLUS \<Rightarrow> Inr (C_f64 (of_int (fp_add 53 11 (uint x) (uint y))))
      | MINUS \<Rightarrow> Inr (C_f64 (of_int (fp_sub 53 11 (uint x) (uint y))))
      | MULT \<Rightarrow> Inr (C_f64 (of_int (fp_mul 53 11 (uint x) (uint y))))
      | DIV \<Rightarrow> Inr (C_f64 (of_int (fp_div 53 11 (uint x) (uint y))))
      | _ \<Rightarrow> eval_compare (val64 x) op (val64 y))"

definition eval_f32 :: "f32 \<Rightarrow> operator \<Rightarrow> f32 \<Rightarrow> cnum res" where
  "eval_f32 x op y =
     (case op of
        PLUS \<Rightarrow> Inr (C_f32 (of_int (fp_add 24 8 (uint x) (uint y))))
      | MINUS \<Rightarrow> Inr (C_f32 (of_int (fp_sub 24 8 (uint x) (uint y))))
      | MULT \<Rightarrow> Inr (C_f32 (of_int (fp_mul 24 8 (uint x) (uint y))))
      | DIV \<Rightarrow> Inr (C_f32 (of_int (fp_div 24 8 (uint x) (uint y))))
      | _ \<Rightarrow> eval_compare (val32 x) op (val32 y))"

text \<open>
  \<open>Operation::eval\<close>, before the result goes to memory. The logical operators convert each operand to
  \<open>bool\<close>, all others bring both to their common type.
\<close>

definition eval :: "cnum \<Rightarrow> operator \<Rightarrow> cnum \<Rightarrow> cnum res" where
  "eval x op y =
     (if op = AND_op then Inr (c_bool (cnum_true x \<and> cnum_true y))
      else if op = OR_op then Inr (c_bool (cnum_true x \<or> cnum_true y))
      else case (x, y) of
          (C_int b sg v, C_int b' sg' v') \<Rightarrow>
            let (c, s) = common_int (promoted b sg) (promoted b' sg') in
            eval_int c s (int_wrap c s v) op (int_wrap c s v')
        | (C_f64 u, _) \<Rightarrow> eval_f64 u op (cnum_to_f64 y)
        | (_, C_f64 u) \<Rightarrow> eval_f64 (cnum_to_f64 x) op u
        | _ \<Rightarrow> eval_f32 (cnum_to_f32 x) op (cnum_to_f32 y))"

end
