(* ===== verification/Expr_Eval.thy ===== *)
theory Expr_Eval
  imports Context_State C_Arith
begin

text \<open>
  Evaluation of expressions (\<open>expression/impl.cxx\<close> and the classes of \<open>expression/impl/\<close>). The virtual
  functions of an expression are the record \<open>methods\<close>; each class builds it from the methods of its
  operands, and \<open>methods_of\<close> from the expression. Temporary references are destroyed when the
  source destroys them, also when an exception leaves their scope.
\<close>

section \<open>Memory and references\<close>

record 'x methods =
  v_to_long :: "nat \<Rightarrow> ('x, int) world_op"
  v_to_double :: "nat \<Rightarrow> ('x, f64) world_op"
  v_to_string :: "nat \<Rightarrow> ('x, string) world_op"
  v_to_ref :: "nat \<Rightarrow> ('x, nat) world_op"
  v_copy_value :: "nat \<Rightarrow> addr \<Rightarrow> dt \<Rightarrow> ('x, size_t) world_op"

text \<open>Initialisation of a \<open>Ref_any<R, W>\<close> from a temporary reference without rights.\<close>

definition ref_as :: "bool \<Rightarrow> bool \<Rightarrow> ('x, nat) store_op \<Rightarrow> ('x, nat) store_op" where
  "ref_as R W mk = with_ref mk (copy_ref R W)"

text \<open>A reference that is returned, and destroyed when an exception is thrown before.\<close>

definition holding :: "nat \<Rightarrow> ('x, 'a) store_op \<Rightarrow> ('x, 'a) store_op" where
  "holding r f = sx_catch f (\<lambda>e. sx_bind (destroy_ref r) (\<lambda>_. sx_fail (Throw e)))"

definition operator_new_aligned :: "size_t \<Rightarrow> size_t \<Rightarrow> ('x, addr) store_op" where
  "operator_new_aligned n al s =
     (if \<not> ispow2 al then (Inl UB, s)
      else let p = round_up (max 16 al) (heap_top s) in
           (Inr p, s\<lparr>heap_top := p + n, allocated := allocated s @ [p]\<rparr>))"

definition write_mem :: "addr \<Rightarrow> nat \<Rightarrow> nat \<Rightarrow> ('x, unit) store_op" where
  "write_mem p n v = on_memory (sx_modify (write_uint p n v))"

definition char_bytes :: "string \<Rightarrow> byte list" where
  "char_bytes cs = map (\<lambda>c. of_nat (of_char c)) cs"

fun write_bytes :: "addr \<Rightarrow> byte list \<Rightarrow> mem \<Rightarrow> mem" where
  "write_bytes p [] m = m"
| "write_bytes p (b # bs) m = (write_bytes (Suc p) bs m)(p := b)"

definition read_chars :: "mem \<Rightarrow> addr \<Rightarrow> nat \<Rightarrow> string" where
  "read_chars m p n = map (\<lambda>i. char_of (unat (m (p + i)))) [0 ..< n]"

fun cnum_of :: "scalar_val \<Rightarrow> cnum" where
  "cnum_of (Int_val v) = C_int 8 True v"
| "cnum_of (F32_val x) = C_f32 x"
| "cnum_of (F64_val x) = C_f64 x"

text \<open>\<open>scalar_value<T>\<close> for the integer types, \<open>float\<close> and \<open>double\<close>.\<close>

definition scalar_value_int :: "nat \<Rightarrow> bool \<Rightarrow> nat \<Rightarrow> ('x, int) store_op" where
  "scalar_value_int b sg r = sx_bind (scalar_value r) (\<lambda>v. sx_lift (cnum_to_int b sg (cnum_of v)))"

definition scalar_value_float :: "nat \<Rightarrow> ('x, f32) store_op" where
  "scalar_value_float r = sx_bind (scalar_value r) (\<lambda>v. sx_return (cnum_to_f32 (cnum_of v)))"

definition scalar_value_double :: "nat \<Rightarrow> ('x, f64) store_op" where
  "scalar_value_double r = sx_bind (scalar_value r) (\<lambda>v. sx_return (cnum_to_f64 (cnum_of v)))"

text \<open>The bytes of an integer value of a type with a size.\<close>

definition int_bytes :: "nat \<Rightarrow> int \<Rightarrow> nat" where
  "int_bytes n v = nat (v mod 256 ^ n)"

section \<open>The base class\<close>

definition is_char_scalar :: "dt \<Rightarrow> bool" where
  "is_char_scalar t = (case t of Scalar d _ \<Rightarrow> Scalar_datasize d = 1 \<and> sc_kind d \<in> {SIGNED, UNSIGNED} | _ \<Rightarrow> False)"

text \<open>The text of a number: an integer when the two evaluations agree, a real otherwise.\<close>

definition show_number :: "int \<Rightarrow> f64 \<Rightarrow> string" where
  "show_number lres dres = (if f_equal (val64 (bits64 (f_of_int lres))) (val64 dres) then fmt_int lres else show_f64 dres)"

definition Impl_to_string ::
    "(nat \<Rightarrow> ('x, nat) world_op) \<Rightarrow> (nat \<Rightarrow> ('x, int) world_op) \<Rightarrow> (nat \<Rightarrow> ('x, f64) world_op) \<Rightarrow> nat \<Rightarrow> ('x, string) world_op" where
  "Impl_to_string to_ref to_long to_double ctx =
     with_ref (ref_as True False (to_ref ctx)) (\<lambda>raw_data.
       sx_bind (sx_get (ref_type raw_data)) (\<lambda>t.
       case t of
         Array sub sz _ _ _ \<Rightarrow>
           if is_char_scalar sub then
             sx_bind (ref_get raw_data) (\<lambda>p. sx_get (\<lambda>s. read_chars (memory s) p sz))
           else sx_bind (to_long ctx) (\<lambda>lres. sx_bind (to_double ctx) (\<lambda>dres. sx_return (show_number lres dres)))
       | _ \<Rightarrow> sx_bind (to_long ctx) (\<lambda>lres. sx_bind (to_double ctx) (\<lambda>dres. sx_return (show_number lres dres)))))"

definition Impl_to_ref ::
    "(nat \<Rightarrow> addr \<Rightarrow> dt \<Rightarrow> ('x, size_t) world_op) \<Rightarrow> nat \<Rightarrow> dt \<Rightarrow> ('x, nat) world_op" where
  "Impl_to_ref copy_value ctx type =
     sx_bind (operator_new_aligned (buffersize type) (alignment type)) (\<lambda>data.
     with_ref (make_ref True True data (Delete_aligned (alignment type)) type True True) (\<lambda>result.
       sx_bind (ref_get result) (\<lambda>p.
       sx_bind (copy_value ctx p type) (\<lambda>_.
       copy_ref False False result))))"

section \<open>Literals\<close>

definition Int_literal_copy_value :: "int \<Rightarrow> nat \<Rightarrow> addr \<Rightarrow> dt \<Rightarrow> ('x, size_t) world_op" where
  "Int_literal_copy_value m_value ctx buffer type =
     (let error = sx_fail (Throw (Value_error ''Cannot copy Int_literal as a non integer datatype->'')) in
      case type of
        Scalar d _ \<Rightarrow>
          if sc_kind d = UNSIGNED then
            if buffersize type \<in> {1, 2, 4, 8} then
              sx_bind (write_mem buffer (buffersize type) (int_bytes (buffersize type) m_value)) (\<lambda>_. sx_return (buffersize type))
            else sx_fail (Throw (Type_error ''Unknown size of integer datatype''))
          else if sc_kind d = SIGNED \<and> buffersize type \<in> {1, 2, 4, 8} then
            sx_bind (write_mem buffer (buffersize type) (int_bytes (buffersize type) m_value)) (\<lambda>_. sx_return (buffersize type))
          else error
      | _ \<Rightarrow> error)"

definition Int_literal_to_ref :: "int \<Rightarrow> nat \<Rightarrow> ('x, nat) world_op" where
  "Int_literal_to_ref m_value ctx =
     sx_bind (sx_lift (Scalar_make_size SIGNED 8 [])) (\<lambda>type. Impl_to_ref (Int_literal_copy_value m_value) ctx type)"

definition Int_literal_to_long :: "int \<Rightarrow> nat \<Rightarrow> ('x, int) world_op" where
  "Int_literal_to_long m_value ctx = sx_return m_value"

definition Int_literal_to_double :: "int \<Rightarrow> nat \<Rightarrow> ('x, f64) world_op" where
  "Int_literal_to_double m_value ctx = sx_return (bits64 (f_of_int m_value))"

definition Int_literal_methods :: "int \<Rightarrow> 'x methods" where
  "Int_literal_methods v =
     \<lparr>v_to_long = Int_literal_to_long v, v_to_double = Int_literal_to_double v,
      v_to_string = Impl_to_string (Int_literal_to_ref v) (Int_literal_to_long v) (Int_literal_to_double v),
      v_to_ref = Int_literal_to_ref v, v_copy_value = Int_literal_copy_value v\<rparr>"

definition Float_literal_copy_value :: "f64 \<Rightarrow> nat \<Rightarrow> addr \<Rightarrow> dt \<Rightarrow> ('x, size_t) world_op" where
  "Float_literal_copy_value m_value ctx buffer type =
     (let error = sx_fail (Throw (Value_error ''Cannot copy Float_literal as a non float datatype.'')) in
      case type of
        Scalar d _ \<Rightarrow>
          if sc_kind d = FLOAT \<and> buffersize type = 4 then
            sx_bind (write_mem buffer 4 (unat (bits32 (val64 m_value)))) (\<lambda>_. sx_return 4)
          else if sc_kind d = FLOAT \<and> buffersize type = 8 then
            sx_bind (write_mem buffer 8 (unat m_value)) (\<lambda>_. sx_return 8)
          else error
      | _ \<Rightarrow> error)"

definition Float_literal_to_ref :: "f64 \<Rightarrow> nat \<Rightarrow> ('x, nat) world_op" where
  "Float_literal_to_ref m_value ctx =
     sx_bind (sx_lift (Scalar_make_size FLOAT 8 [])) (\<lambda>type. Impl_to_ref (Float_literal_copy_value m_value) ctx type)"

definition Float_literal_to_long :: "f64 \<Rightarrow> nat \<Rightarrow> ('x, int) world_op" where
  "Float_literal_to_long m_value ctx = sx_lift (cnum_to_int 8 True (C_f64 m_value))"

definition Float_literal_to_double :: "f64 \<Rightarrow> nat \<Rightarrow> ('x, f64) world_op" where
  "Float_literal_to_double m_value ctx = sx_return m_value"

definition Float_literal_methods :: "f64 \<Rightarrow> 'x methods" where
  "Float_literal_methods v =
     \<lparr>v_to_long = Float_literal_to_long v, v_to_double = Float_literal_to_double v,
      v_to_string = Impl_to_string (Float_literal_to_ref v) (Float_literal_to_long v) (Float_literal_to_double v),
      v_to_ref = Float_literal_to_ref v, v_copy_value = Float_literal_copy_value v\<rparr>"

fun String_literal_pieces :: "(nat \<Rightarrow> ('x, string) world_op) list \<Rightarrow> nat \<Rightarrow> ('x, string list) world_op" where
  "String_literal_pieces [] ctx = sx_return []"
| "String_literal_pieces (m # ms) ctx =
     sx_bind (m ctx) (\<lambda>x. sx_bind (String_literal_pieces ms ctx) (\<lambda>xs. sx_return (x # xs)))"

definition String_literal_to_string :: "string \<Rightarrow> ('x methods \<times> string) list \<Rightarrow> nat \<Rightarrow> ('x, string) world_op" where
  "String_literal_to_string start m_values ctx =
     sx_bind (String_literal_pieces (map (\<lambda>(m, _). v_to_string m) m_values) ctx) (\<lambda>xs.
     sx_return (start @ concat (map (\<lambda>(x, (_, t)). x @ t) (zip xs m_values))))"

definition true_values :: "string list" where
  "true_values = [''y'', ''Y'', ''yes'', ''Yes'', ''YES'', ''true'', ''True'', ''TRUE'', ''on'', ''On'', ''ON'']"

definition false_values :: "string list" where
  "false_values = [''n'', ''N'', ''no'', ''No'', ''NO'', ''false'', ''False'', ''FALSE'', ''Off'', ''Off'', ''OFF'']"

definition String_literal_to_long :: "string \<Rightarrow> ('x methods \<times> string) list \<Rightarrow> nat \<Rightarrow> ('x, int) world_op" where
  "String_literal_to_long start m_values ctx =
     sx_bind (String_literal_to_string start m_values ctx) (\<lambda>src_string.
     if src_string \<in> set true_values then sx_return 1
     else if src_string \<in> set false_values then sx_return 0
     else sx_fail (Throw (Value_error (''Can not interpret `'' @ src_string @ [CHR 0x27] @ '' as an integer value''))))"

definition String_literal_to_double :: "string \<Rightarrow> ('x methods \<times> string) list \<Rightarrow> nat \<Rightarrow> ('x, f64) world_op" where
  "String_literal_to_double start m_values ctx =
     sx_bind (String_literal_to_string start m_values ctx) (\<lambda>src_string.
     sx_fail (Throw (Value_error (''Can not interpret `'' @ src_string @ [CHR 0x27] @ '' as an double value''))))"

text \<open>The whole text and its terminator are copied, whatever the size of the buffer is.\<close>

definition String_literal_copy_value ::
    "string \<Rightarrow> ('x methods \<times> string) list \<Rightarrow> nat \<Rightarrow> addr \<Rightarrow> dt \<Rightarrow> ('x, size_t) world_op" where
  "String_literal_copy_value start m_values ctx buffer type =
     (case type of
        Array (Scalar d a) _ _ _ _ \<Rightarrow>
          if Scalar_buffersize d = 1 then
            sx_bind (String_literal_to_string start m_values ctx) (\<lambda>value.
            sx_bind (on_memory (sx_modify (write_bytes buffer (char_bytes (value @ [CHR 0x00]))))) (\<lambda>_.
            sx_return (buffersize type)))
          else sx_fail (Throw (Value_error ''Cannot copy String_literal as a non chars array datatype.''))
      | _ \<Rightarrow> sx_fail (Throw (Value_error ''Cannot copy String_literal as a non chars array datatype.'')))"

definition String_literal_to_ref :: "string \<Rightarrow> ('x methods \<times> string) list \<Rightarrow> nat \<Rightarrow> ('x, nat) world_op" where
  "String_literal_to_ref start m_values ctx =
     sx_bind (String_literal_to_string start m_values ctx) (\<lambda>value.
     sx_bind (sx_lift (Scalar_make_size UNSIGNED 1 [])) (\<lambda>char_type.
     Impl_to_ref (String_literal_copy_value start m_values) ctx (Array_make char_type (length value + 1) [])))"

definition String_literal_methods :: "string \<Rightarrow> ('x methods \<times> string) list \<Rightarrow> 'x methods" where
  "String_literal_methods start m_values =
     \<lparr>v_to_long = String_literal_to_long start m_values, v_to_double = String_literal_to_double start m_values,
      v_to_string = String_literal_to_string start m_values, v_to_ref = String_literal_to_ref start m_values,
      v_copy_value = String_literal_copy_value start m_values\<rparr>"

section \<open>Operations\<close>

text \<open>The value of a scalar as the C++ type of its kind and size; other sizes are errors.\<close>

definition scalar_operand :: "dt \<Rightarrow> nat \<Rightarrow> ('x, cnum) store_op" where
  "scalar_operand t r =
     (case t of
        Scalar d _ \<Rightarrow>
          let n = Scalar_datasize d in
          if sc_kind d = FLOAT then
            if n = 4 then sx_bind (scalar_value_float r) (\<lambda>v. sx_return (C_f32 v))
            else if n = 8 then sx_bind (scalar_value_double r) (\<lambda>v. sx_return (C_f64 v))
            else sx_fail (Throw (Type_error (''Unable to compute on floating point data of size '' @ fmt_nat n)))
          else if sc_kind d = SIGNED then
            if n \<in> {1, 2, 4, 8} then sx_bind (scalar_value_int n True r) (\<lambda>v. sx_return (C_int n True v))
            else sx_fail (Throw (Type_error (''Unable to compute on integer data of size '' @ fmt_nat n)))
          else if sc_kind d = UNSIGNED then
            if n \<in> {1, 2, 4, 8} then sx_bind (scalar_value_int n False r) (\<lambda>v. sx_return (C_int n False v))
            else sx_fail (Throw (Type_error (''Unable to compute on unsigned data of size '' @ fmt_nat n)))
          else sx_fail (Throw (Type_error ''Unable to compute on data of unknown type''))
      | _ \<Rightarrow> sx_fail (Throw (Type_error ''Cannot apply operation on non-scalar value'')))"

text \<open>The type and the bytes of a value in memory, for the reference \<open>eval\<close> returns to its result.\<close>

fun cnum_kind :: "cnum \<Rightarrow> scalar_kind \<times> nat" where
  "cnum_kind (C_int n sg _) = (if sg then SIGNED else UNSIGNED, n)"
| "cnum_kind (C_f32 _) = (FLOAT, 4)"
| "cnum_kind (C_f64 _) = (FLOAT, 8)"

fun cnum_bits :: "cnum \<Rightarrow> nat" where
  "cnum_bits (C_int n _ v) = int_bytes n v"
| "cnum_bits (C_f32 x) = unat x"
| "cnum_bits (C_f64 x) = unat x"

definition Operation_result :: "cnum \<Rightarrow> ('x, nat) store_op" where
  "Operation_result v =
     (case cnum_kind v of (kind, n) \<Rightarrow>
        sx_bind (operator_new n) (\<lambda>p.
        sx_bind (write_mem p n (cnum_bits v)) (\<lambda>_.
        sx_bind (sx_lift (Scalar_make_align kind n n [])) (\<lambda>t.
        make_ref False False p Delete_object t True False))))"

definition Operation_evalp :: "cnum \<Rightarrow> operator \<Rightarrow> nat \<Rightarrow> ('x, nat) store_op" where
  "Operation_evalp computed_value op operand_ref =
     sx_bind (sx_get (ref_type operand_ref)) (\<lambda>t.
     sx_bind (scalar_operand t operand_ref) (\<lambda>operand_value.
     sx_bind (sx_lift (eval computed_value op operand_value)) (\<lambda>v. Operation_result v)))"

text \<open>The operands from left to right; the computed reference is replaced by the result of each operation.\<close>

fun Operation_loop :: "nat \<Rightarrow> nat \<Rightarrow> (operator \<times> 'x methods) list \<Rightarrow> ('x, unit) world_op" where
  "Operation_loop ctx computed_ref [] = sx_return ()"
| "Operation_loop ctx computed_ref ((op, operand) # ops) =
     sx_bind (sx_get (ref_type computed_ref)) (\<lambda>computed_type.
     case computed_type of
       Scalar d a \<Rightarrow>
         sx_bind (with_ref (ref_as True False (v_to_ref operand ctx)) (\<lambda>operand_ref.
           sx_bind (scalar_operand (Scalar d a) computed_ref) (\<lambda>computed_value.
           with_ref (with_ref (copy_ref True False operand_ref) (Operation_evalp computed_value op)) (\<lambda>result.
             with_ref (copy_ref True False result) (\<lambda>readable. move_assign computed_ref readable))))) (\<lambda>_.
         Operation_loop ctx computed_ref ops)
     | _ \<Rightarrow> sx_fail (Throw (Type_error ''Cannot apply operation on non-scalar value'')))"

definition Operation_to_ref :: "'x methods \<Rightarrow> (operator \<times> 'x methods) list \<Rightarrow> nat \<Rightarrow> ('x, nat) world_op" where
  "Operation_to_ref m_first_operand m_operands ctx =
     with_ref (ref_as True False (v_to_ref m_first_operand ctx)) (\<lambda>computed_ref.
       sx_bind (Operation_loop ctx computed_ref m_operands) (\<lambda>_. copy_ref False False computed_ref))"

definition Operation_to_double :: "'x methods \<Rightarrow> (operator \<times> 'x methods) list \<Rightarrow> nat \<Rightarrow> ('x, f64) world_op" where
  "Operation_to_double m_first_operand m_operands ctx =
     with_ref (ref_as True False (Operation_to_ref m_first_operand m_operands ctx)) (\<lambda>ref_value.
       sx_bind (is_null ref_value) (\<lambda>n.
       if n then sx_fail (Throw (Value_error ''Unexpected null value for operation''))
       else scalar_value_double ref_value))"

definition Operation_to_long :: "'x methods \<Rightarrow> (operator \<times> 'x methods) list \<Rightarrow> nat \<Rightarrow> ('x, int) world_op" where
  "Operation_to_long m_first_operand m_operands ctx =
     with_ref (ref_as True False (Operation_to_ref m_first_operand m_operands ctx)) (\<lambda>ref_value.
       sx_bind (is_null ref_value) (\<lambda>n.
       if n then sx_fail (Throw (Value_error ''Unexpected null value for operation''))
       else scalar_value_int 8 True ref_value))"

definition Operation_copy_value ::
    "'x methods \<Rightarrow> (operator \<times> 'x methods) list \<Rightarrow> nat \<Rightarrow> addr \<Rightarrow> dt \<Rightarrow> ('x, size_t) world_op" where
  "Operation_copy_value m_first_operand m_operands ctx buffer type =
     with_ref (ref_as True False (Operation_to_ref m_first_operand m_operands ctx)) (\<lambda>value.
       case type of
         Scalar d _ \<Rightarrow>
           let n = Scalar_datasize d in
           sx_bind
             (if sc_kind d = FLOAT then
                if n = 4 then sx_bind (scalar_value_float value) (\<lambda>v. write_mem buffer 4 (unat v))
                else if n = 8 then sx_bind (scalar_value_double value) (\<lambda>v. write_mem buffer 8 (unat v))
                else sx_fail (Throw (Type_error (''Cannot copy operation expression value to floating point data of size '' @ fmt_nat n)))
              else if sc_kind d = SIGNED then
                if n \<in> {1, 2, 4, 8} then sx_bind (scalar_value_int n True value) (\<lambda>v. write_mem buffer n (int_bytes n v))
                else sx_fail (Throw (Type_error (''Cannot copy operation expression value to integer data of size '' @ fmt_nat n)))
              else if sc_kind d = UNSIGNED then
                if n \<in> {1, 2, 4, 8} then sx_bind (scalar_value_int n False value) (\<lambda>v. write_mem buffer n (int_bytes n v))
                else sx_fail (Throw (Type_error (''Cannot copy operation expression value to unsigned data of size '' @ fmt_nat n)))
              else sx_fail (Throw (Type_error ''Cannot copy operation expression value: unknown type''))) (\<lambda>_.
           sx_return n)
       | _ \<Rightarrow> sx_fail (Throw (Value_error ''Cannot copy operation expression value to non scalar datatype'')))"

definition Operation_methods :: "'x methods \<Rightarrow> (operator \<times> 'x methods) list \<Rightarrow> 'x methods" where
  "Operation_methods f ops =
     \<lparr>v_to_long = Operation_to_long f ops, v_to_double = Operation_to_double f ops,
      v_to_string = Impl_to_string (Operation_to_ref f ops) (Operation_to_long f ops) (Operation_to_double f ops),
      v_to_ref = Operation_to_ref f ops, v_copy_value = Operation_copy_value f ops\<rparr>"

section \<open>References\<close>

definition access :: "'x methods accessor \<Rightarrow> nat \<Rightarrow> nat \<Rightarrow> ('x, nat) world_op" where
  "access a ctx ref =
     (case a of
        Index_accessor m \<Rightarrow> sx_bind (v_to_long m ctx) (\<lambda>i. ref_index ref i)
      | Member_accessor m \<Rightarrow> sx_bind (v_to_string m ctx) (\<lambda>n. ref_member ref n))"

fun access_all :: "'x methods accessor list \<Rightarrow> nat \<Rightarrow> nat \<Rightarrow> ('x, unit) world_op" where
  "access_all [] ctx result = sx_return ()"
| "access_all (a # as) ctx result =
     sx_bind (with_ref (with_ref (copy_ref False False result) (access a ctx)) (\<lambda>sub. move_assign result sub)) (\<lambda>_.
     access_all as ctx result)"

definition Reference_to_ref :: "'x env \<Rightarrow> string \<Rightarrow> 'x methods accessor list \<Rightarrow> nat \<Rightarrow> ('x, nat) world_op" where
  "Reference_to_ref env m_referenced m_subelements ctx =
     sx_bind (desc ctx m_referenced) (\<lambda>name.
     sx_bind (desc_ref env ctx name) (\<lambda>result.
     holding result (sx_bind (access_all m_subelements ctx result) (\<lambda>_. sx_return result))))"

definition while_referencing :: "string \<Rightarrow> ('x, 'a) world_op \<Rightarrow> ('x, 'a) world_op" where
  "while_referencing m_referenced f =
     sx_catch f (\<lambda>e. sx_fail (Throw (rethrow_with_simple_context e
       (''while referencing `'' @ m_referenced @ [CHR 0x27] @ '', ''))))"

definition Reference_to_long :: "'x env \<Rightarrow> string \<Rightarrow> 'x methods accessor list \<Rightarrow> nat \<Rightarrow> ('x, int) world_op" where
  "Reference_to_long env m_referenced m_subelements ctx =
     while_referencing m_referenced
       (with_ref (ref_as True False (Reference_to_ref env m_referenced m_subelements ctx)) (\<lambda>ref.
          sx_bind (is_null ref) (\<lambda>n.
          if n then sx_fail (Throw (Permission_error ''Unable to grant access for value reference''))
          else scalar_value_int 8 True ref)))"

definition Reference_to_double :: "'x env \<Rightarrow> string \<Rightarrow> 'x methods accessor list \<Rightarrow> nat \<Rightarrow> ('x, f64) world_op" where
  "Reference_to_double env m_referenced m_subelements ctx =
     while_referencing m_referenced
       (with_ref (ref_as True False (Reference_to_ref env m_referenced m_subelements ctx)) (\<lambda>ref.
          sx_bind (is_null ref) (\<lambda>n.
          if n then sx_fail (Throw (Permission_error ''Unable to grant read access for value reference''))
          else scalar_value_double ref)))"

definition fmt_runtime :: "'x env \<Rightarrow> string \<Rightarrow> fmt_arg \<Rightarrow> ('x, string) world_op" where
  "fmt_runtime env m_fmt_format arg = sx_lift (e_format env (''{'' @ m_fmt_format @ ''}'') arg)"

definition Reference_to_string ::
    "'x env \<Rightarrow> string \<Rightarrow> 'x methods accessor list \<Rightarrow> string \<Rightarrow> nat \<Rightarrow> ('x, string) world_op" where
  "Reference_to_string env m_referenced m_subelements m_fmt_format ctx =
     with_ref (ref_as True False (Reference_to_ref env m_referenced m_subelements ctx)) (\<lambda>raw_data.
       sx_bind (sx_get (ref_type raw_data)) (\<lambda>t.
       case t of
         Array (Scalar d a) sz _ _ _ \<Rightarrow>
           if is_char_scalar (Scalar d a) then
             sx_bind (ref_get raw_data) (\<lambda>p.
             sx_bind (sx_get (\<lambda>s. read_chars (memory s) p sz)) (\<lambda>result.
             if m_fmt_format \<noteq> [] then fmt_runtime env m_fmt_format (Fmt_string (c_str result)) else sx_return result))
           else sx_return []
       | Array _ _ _ _ _ \<Rightarrow> sx_fail (Throw (Type_error ''Cannot evaluate as string an array of non char elements''))
       | _ \<Rightarrow>
           sx_bind (Reference_to_long env m_referenced m_subelements ctx) (\<lambda>lres.
           sx_bind (Reference_to_double env m_referenced m_subelements ctx) (\<lambda>dres.
           if m_fmt_format = [] then sx_return (show_number lres dres)
           else if f_equal (val64 (bits64 (f_of_int lres))) (val64 dres) then fmt_runtime env m_fmt_format (Fmt_long lres)
           else fmt_runtime env m_fmt_format (Fmt_double dres)))))"

definition Reference_copy_value ::
    "'x env \<Rightarrow> string \<Rightarrow> 'x methods accessor list \<Rightarrow> nat \<Rightarrow> addr \<Rightarrow> dt \<Rightarrow> ('x, size_t) world_op" where
  "Reference_copy_value env m_referenced m_subelements ctx buffer type =
     with_ref (ref_as True False (Reference_to_ref env m_referenced m_subelements ctx)) (\<lambda>ref_r.
       let n = buffersize type;
           error = sx_fail (Throw (Value_error ''Cannot copy reference expression value: non scalar datatype for indexed reference'')) in
       sx_bind (is_null ref_r) (\<lambda>null.
       if null then sx_fail (Throw (Value_error ''Cannot copy reference expression value: cannot get read access to reference''))
       else if m_subelements = [] then
         sx_bind (sx_get (ref_type ref_r)) (\<lambda>t.
         if buffersize t = n then
           sx_bind (ref_get ref_r) (\<lambda>p. sx_bind (on_memory (sx_modify (memcpy buffer p n))) (\<lambda>_. sx_return n))
         else sx_fail (Throw (Value_error (''Cannot copy reference expression value: reference buffersize ('' @ fmt_nat (buffersize t)
           @ '') != type bufferize ('' @ fmt_nat n @ '')''))))
       else case type of
           Scalar d _ \<Rightarrow>
             if sc_kind d = UNSIGNED then
               if n \<in> {1, 2, 4, 8} then
                 sx_bind (scalar_value_int n False ref_r) (\<lambda>v. sx_bind (write_mem buffer n (int_bytes n v)) (\<lambda>_. sx_return n))
               else sx_fail (Throw (Type_error ''Unknown size of integer datatype''))
             else if sc_kind d = SIGNED \<and> n \<in> {1, 2, 4, 8} then
               sx_bind (scalar_value_int n True ref_r) (\<lambda>v. sx_bind (write_mem buffer n (int_bytes n v)) (\<lambda>_. sx_return n))
             else if sc_kind d = FLOAT \<and> n = 4 then
               sx_bind (scalar_value_float ref_r) (\<lambda>v. sx_bind (write_mem buffer 4 (unat v)) (\<lambda>_. sx_return 4))
             else if sc_kind d = FLOAT \<and> n = 8 then
               sx_bind (scalar_value_double ref_r) (\<lambda>v. sx_bind (write_mem buffer 8 (unat v)) (\<lambda>_. sx_return 8))
             else error
         | _ \<Rightarrow> error))"

definition Reference_methods :: "'x env \<Rightarrow> string \<Rightarrow> 'x methods accessor list \<Rightarrow> string \<Rightarrow> 'x methods" where
  "Reference_methods env r as f =
     \<lparr>v_to_long = Reference_to_long env r as, v_to_double = Reference_to_double env r as,
      v_to_string = Reference_to_string env r as f, v_to_ref = Reference_to_ref env r as,
      v_copy_value = Reference_copy_value env r as\<rparr>"

section \<open>Sequences and mappings\<close>

definition Sequence_to_long :: "nat \<Rightarrow> ('x, int) world_op" where
  "Sequence_to_long ctx = sx_fail (Throw (Value_error ''Cannot interpret Array_expression as a long value''))"

definition Sequence_to_double :: "nat \<Rightarrow> ('x, f64) world_op" where
  "Sequence_to_double ctx = sx_fail (Throw (Value_error ''Cannot interpret Array_expression as a double value''))"

definition Sequence_to_string :: "'x methods list \<Rightarrow> nat \<Rightarrow> ('x, string) world_op" where
  "Sequence_to_string m_value ctx =
     sx_bind (String_literal_pieces (map v_to_string m_value) ctx) (\<lambda>xs. sx_return (concat xs))"

fun element_types :: "'x methods list \<Rightarrow> nat \<Rightarrow> ('x, dt list) world_op" where
  "element_types [] ctx = sx_return []"
| "element_types (m # ms) ctx =
     sx_bind (with_ref (v_to_ref m ctx) (\<lambda>r. sx_get (ref_type r))) (\<lambda>t.
     sx_bind (element_types ms ctx) (\<lambda>ts. sx_return (t # ts)))"

text \<open>The elements of a tuple, each at the next displacement that is aligned for it, and the end of the last one.\<close>

fun place_elements :: "size_t \<Rightarrow> dt list \<Rightarrow> (dt element list \<times> size_t) res" where
  "place_elements disp [] = Inr ([], disp)"
| "place_elements disp (t # ts) =
     rbind (align_displacement disp (alignment t)) (\<lambda>d.
     rbind (place_elements (sz_add d (buffersize t)) ts) (\<lambda>(es, disp). Inr (Element d t # es, disp)))"

definition Sequence_type :: "dt list \<Rightarrow> dt res" where
  "Sequence_type subtypes =
     (if list_all (datatype_eq (hd subtypes)) (tl subtypes)
      then Inr (Array_make (hd subtypes) (length subtypes) [])
      else rbind (place_elements 0 subtypes) (\<lambda>(es, disp).
           rbind (align_displacement disp (foldl max 0 (map alignment subtypes))) (\<lambda>disp.
           Inr (Tuple es (max 1 disp) []))))"

fun copy_array_elements :: "'x methods list \<Rightarrow> nat \<Rightarrow> addr \<Rightarrow> size_t \<Rightarrow> dt \<Rightarrow> ('x, size_t) world_op" where
  "copy_array_elements [] ctx buffer pos sub = sx_return pos"
| "copy_array_elements (m # ms) ctx buffer pos sub =
     sx_bind (v_copy_value m ctx (buffer + pos) sub) (\<lambda>n. copy_array_elements ms ctx buffer (sz_add pos n) sub)"

fun copy_tuple_elements :: "'x methods list \<Rightarrow> dt element list \<Rightarrow> nat \<Rightarrow> addr \<Rightarrow> ('x, unit) world_op" where
  "copy_tuple_elements [] es ctx buffer = sx_return ()"
| "copy_tuple_elements (m # ms) [] ctx buffer = sx_fail UB"
| "copy_tuple_elements (m # ms) (e # es) ctx buffer =
     sx_bind (v_copy_value m ctx (buffer + offset e) (etype e)) (\<lambda>_. copy_tuple_elements ms es ctx buffer)"

definition Sequence_copy_value :: "'x methods list \<Rightarrow> nat \<Rightarrow> addr \<Rightarrow> dt \<Rightarrow> ('x, size_t) world_op" where
  "Sequence_copy_value m_value ctx buffer type =
     (case type of
        Array sub _ _ _ _ \<Rightarrow>
          sx_bind (copy_array_elements m_value ctx buffer 0 sub) (\<lambda>copied.
          if copied \<noteq> buffersize type then
            sx_fail (Throw (Value_error (''Array literal copy incomplete: copied '' @ fmt_nat copied @ '' B of '' @ fmt_nat (buffersize type) @ '' B'')))
          else sx_return copied)
      | Tuple es _ _ \<Rightarrow> sx_bind (copy_tuple_elements m_value es ctx buffer) (\<lambda>_. sx_return (buffersize type))
      | _ \<Rightarrow> sx_fail (Throw (Value_error ''Sequence literal cannot copy a value whose type is neither array nor tuple'')))"

definition Sequence_to_ref :: "'x methods list \<Rightarrow> nat \<Rightarrow> ('x, nat) world_op" where
  "Sequence_to_ref m_value ctx =
     (if m_value = [] then
        sx_bind (sx_lift (Scalar_make_size UNKNOWN 0 [])) (\<lambda>sub.
        ref_as False False (make_ref True True 0 Keep (Array_make sub 0 []) True True))
      else
        sx_bind (element_types m_value ctx) (\<lambda>subtypes.
        sx_bind (sx_lift (Sequence_type subtypes)) (\<lambda>type.
        Impl_to_ref (Sequence_copy_value m_value) ctx type)))"

definition Sequence_methods :: "'x methods list \<Rightarrow> 'x methods" where
  "Sequence_methods ms =
     \<lparr>v_to_long = Sequence_to_long, v_to_double = Sequence_to_double, v_to_string = Sequence_to_string ms,
      v_to_ref = Sequence_to_ref ms, v_copy_value = Sequence_copy_value ms\<rparr>"

definition Mapping_to_long :: "nat \<Rightarrow> ('x, int) world_op" where
  "Mapping_to_long ctx = sx_fail (Throw (Value_error ''Cannot interpret Map_expression as a long value''))"

definition Mapping_to_double :: "nat \<Rightarrow> ('x, f64) world_op" where
  "Mapping_to_double ctx = sx_fail (Throw (Value_error ''Cannot interpret Map_expression as a double value''))"

definition Mapping_to_string :: "nat \<Rightarrow> ('x, string) world_op" where
  "Mapping_to_string ctx = sx_fail (Throw (Value_error ''Cannot interpret Map_expression as a string value''))"

text \<open>The members in the iteration order of the map; their types are read through references with write access.\<close>

fun Mapping_members ::
    "(string \<times> 'x methods) list \<Rightarrow> nat \<Rightarrow> size_t \<Rightarrow> size_t \<Rightarrow> ('x, dt member list \<times> size_t \<times> size_t) world_op" where
  "Mapping_members [] ctx disp al = sx_return ([], disp, al)"
| "Mapping_members ((name, m) # ms) ctx disp al =
     sx_bind (with_ref (ref_as True True (v_to_ref m ctx)) (\<lambda>element_ref. sx_get (ref_type element_ref))) (\<lambda>t.
     sx_bind (sx_lift (align_displacement disp (alignment t))) (\<lambda>d.
     sx_bind (Mapping_members ms ctx (sz_add d (buffersize t)) (max al (alignment t))) (\<lambda>(members, r).
     sx_return (Member d t name # members, r))))"

definition Mapping_copy_value :: "(string \<times> 'x methods) list \<Rightarrow> nat \<Rightarrow> addr \<Rightarrow> dt \<Rightarrow> ('x, size_t) world_op" where
  "Mapping_copy_value m_value ctx buffer type =
     (case type of
        Record members _ _ \<Rightarrow>
          sx_bind (sx_each (\<lambda>(name, m).
            case find (\<lambda>mb. mname mb = name) members of
              Some mb \<Rightarrow> sx_bind (v_copy_value m ctx (buffer + displacement mb) (mtype mb)) (\<lambda>_. sx_return ())
            | None \<Rightarrow> sx_fail (Throw (Value_error (''Trying to reference non-existing member: '' @ name)))) m_value) (\<lambda>_.
          sx_return (buffersize type))
      | _ \<Rightarrow> sx_fail (Throw (Value_error ''Map literal cannot copy value of not record datatype'')))"

definition Mapping_to_ref :: "(string \<times> 'x methods) list \<Rightarrow> nat \<Rightarrow> ('x, nat) world_op" where
  "Mapping_to_ref m_value ctx =
     sx_bind (Mapping_members m_value ctx 0 1) (\<lambda>(members, disp, al).
     sx_bind (sx_lift (align_displacement disp al)) (\<lambda>disp.
     Impl_to_ref (Mapping_copy_value m_value) ctx (Record members disp [])))"

definition Mapping_methods :: "(string \<times> 'x methods) list \<Rightarrow> 'x methods" where
  "Mapping_methods ms =
     \<lparr>v_to_long = Mapping_to_long, v_to_double = Mapping_to_double, v_to_string = Mapping_to_string,
      v_to_ref = Mapping_to_ref ms, v_copy_value = Mapping_copy_value ms\<rparr>"

section \<open>Expressions\<close>

fun methods_of :: "'x env \<Rightarrow> expr \<Rightarrow> 'x methods" where
  "methods_of env (Int_literal v) = Int_literal_methods v"
| "methods_of env (Float_literal v) = Float_literal_methods v"
| "methods_of env (String_literal st vs) = String_literal_methods st (map (\<lambda>(e, t). (methods_of env e, t)) vs)"
| "methods_of env (Operation e ops) = Operation_methods (methods_of env e) (map (\<lambda>(oper, x). (oper, methods_of env x)) ops)"
| "methods_of env (Reference_expression r as f) =
     Reference_methods env r
       (map (\<lambda>a. case a of Index_accessor e \<Rightarrow> Index_accessor (methods_of env e)
                         | Member_accessor e \<Rightarrow> Member_accessor (methods_of env e)) as) f"
| "methods_of env (Sequence es) = Sequence_methods (map (methods_of env) es)"
| "methods_of env (Mapping ps) = Mapping_methods (map (\<lambda>(n, e). (n, methods_of env e)) ps)"

text \<open>The functions of \<open>Expression\<close>; an empty expression has no implementation to call.\<close>

definition to_long :: "'x env \<Rightarrow> expression \<Rightarrow> nat \<Rightarrow> ('x, int) world_op" where
  "to_long env e ctx = (case e of None \<Rightarrow> sx_fail UB | Some e \<Rightarrow> v_to_long (methods_of env e) ctx)"

definition to_double :: "'x env \<Rightarrow> expression \<Rightarrow> nat \<Rightarrow> ('x, f64) world_op" where
  "to_double env e ctx = (case e of None \<Rightarrow> sx_fail UB | Some e \<Rightarrow> v_to_double (methods_of env e) ctx)"

definition to_string :: "'x env \<Rightarrow> expression \<Rightarrow> nat \<Rightarrow> ('x, string) world_op" where
  "to_string env e ctx = (case e of None \<Rightarrow> sx_fail UB | Some e \<Rightarrow> v_to_string (methods_of env e) ctx)"

definition to_ref :: "'x env \<Rightarrow> expression \<Rightarrow> nat \<Rightarrow> ('x, nat) world_op" where
  "to_ref env e ctx = (case e of None \<Rightarrow> sx_fail UB | Some e \<Rightarrow> v_to_ref (methods_of env e) ctx)"

definition to_ref_typed :: "'x env \<Rightarrow> expression \<Rightarrow> nat \<Rightarrow> dt \<Rightarrow> ('x, nat) world_op" where
  "to_ref_typed env e ctx type =
     (case e of None \<Rightarrow> sx_fail UB | Some e \<Rightarrow> Impl_to_ref (v_copy_value (methods_of env e)) ctx type)"

definition expr_operation :: "expression \<Rightarrow> operator \<Rightarrow> expression \<Rightarrow> expression res" where
  "expr_operation first_operand op second_operand =
     (case (first_operand, second_operand) of
        (Some a, Some b) \<Rightarrow> Inr (Some (Operation a [(op, b)]))
      | _ \<Rightarrow> throw (Value_error ''Cannot call operation on empty expression with another expression''))"

end
