(* ===== verification/Datatype_Template.thy ===== *)
theory Datatype_Template
  imports Expr_Eval
begin

text \<open>
  Datatype templates (\<open>datatype_template.cxx\<close>): their evaluation to datatypes in a context, the parsers that
  build them from the specification tree, the predefined datatypes, and the functions of
  \<open>Global_context\<close> that register and call the parsers. The arguments of a call are evaluated from
  left to right.
\<close>

section \<open>Local variables of a function that its callbacks change\<close>

definition sx_outer :: "('s, 'e, 'a) sx \<Rightarrow> ('s \<times> 'l, 'e, 'a) sx" where
  "sx_outer f = (\<lambda>(s, l). case f s of (r, s') \<Rightarrow> (r, (s', l)))"

definition sx_local :: "('l \<Rightarrow> 'l) \<Rightarrow> ('s \<times> 'l, 'e, unit) sx" where
  "sx_local f = (\<lambda>(s, l). (Inr (), (s, f l)))"

definition sx_with_local :: "'l \<Rightarrow> ('s \<times> 'l, 'e, unit) sx \<Rightarrow> ('s, 'e, 'l) sx" where
  "sx_with_local l f s =
     (case f (s, l) of
        (Inr _, (s', l')) \<Rightarrow> (Inr l', s')
      | (Inl e, (s', _)) \<Rightarrow> (Inl e, s'))"

section \<open>Evaluation\<close>

definition Scalar_evaluate ::
    "'x env \<Rightarrow> scalar_kind \<Rightarrow> expression \<Rightarrow> expression \<Rightarrow> attributes_map \<Rightarrow> nat \<Rightarrow> ('x, dt) world_op" where
  "Scalar_evaluate env kind sz align atts ctx =
     sx_bind (to_long env sz ctx) (\<lambda>n.
     sx_bind (to_long env align ctx) (\<lambda>al.
     sx_lift (Scalar_make_align kind (size_of_long n) (size_of_long al) atts)))"

definition Array_evaluate ::
    "'x env \<Rightarrow> (nat \<Rightarrow> ('x, dt) world_op) \<Rightarrow> expression \<Rightarrow> expression \<Rightarrow> expression \<Rightarrow> attributes_map \<Rightarrow> nat \<Rightarrow> ('x, dt) world_op" where
  "Array_evaluate env sub sz start subsize atts ctx =
     sx_bind (sub ctx) (\<lambda>t.
     sx_bind (to_long env sz ctx) (\<lambda>n.
     sx_bind (to_long env start ctx) (\<lambda>st.
     sx_bind (to_long env subsize ctx) (\<lambda>ss.
     sx_return (Array t (size_of_long n) (size_of_long st) (size_of_long ss) atts)))))"

fun Record_evaluate_members ::
    "'x env \<Rightarrow> (expression \<times> (nat \<Rightarrow> ('x, dt) world_op) \<times> string) list \<Rightarrow> nat \<Rightarrow> ('x, dt member list) world_op" where
  "Record_evaluate_members env [] ctx = sx_return []"
| "Record_evaluate_members env ((disp, type, name) # ms) ctx =
     sx_bind (to_long env disp ctx) (\<lambda>d.
     sx_bind (type ctx) (\<lambda>t.
     sx_bind (Record_evaluate_members env ms ctx) (\<lambda>members.
     sx_return (Member (size_of_long d) t name # members))))"

definition Record_evaluate ::
    "'x env \<Rightarrow> (expression \<times> (nat \<Rightarrow> ('x, dt) world_op) \<times> string) list \<Rightarrow> expression \<Rightarrow> attributes_map \<Rightarrow> nat
      \<Rightarrow> ('x, dt) world_op" where
  "Record_evaluate env ms bufsize atts ctx =
     sx_bind (Record_evaluate_members env ms ctx) (\<lambda>members.
     sx_bind (to_long env bufsize ctx) (\<lambda>n.
     sx_return (Record members (size_of_long n) atts)))"

fun Struct_evaluate_members ::
    "((nat \<Rightarrow> ('x, dt) world_op) \<times> string) list \<Rightarrow> nat \<Rightarrow> size_t \<Rightarrow> size_t \<Rightarrow> ('x, dt member list \<times> size_t \<times> size_t) world_op" where
  "Struct_evaluate_members [] ctx disp al = sx_return ([], disp, al)"
| "Struct_evaluate_members ((type, name) # ms) ctx disp al =
     sx_bind (type ctx) (\<lambda>t.
     sx_bind (sx_lift (align_displacement disp (alignment t))) (\<lambda>d.
     sx_bind (Struct_evaluate_members ms ctx (sz_add d (buffersize t)) (max al (alignment t))) (\<lambda>(members, r).
     sx_return (Member d t name # members, r))))"

definition Struct_evaluate ::
    "((nat \<Rightarrow> ('x, dt) world_op) \<times> string) list \<Rightarrow> attributes_map \<Rightarrow> nat \<Rightarrow> ('x, dt) world_op" where
  "Struct_evaluate ms atts ctx =
     sx_bind (Struct_evaluate_members ms ctx 0 0) (\<lambda>(members, disp, al).
     sx_bind (sx_lift (align_displacement disp al)) (\<lambda>disp.
     sx_return (Record members (max 1 disp) atts)))"

definition Pointer_evaluate :: "(nat \<Rightarrow> ('x, dt) world_op) \<Rightarrow> attributes_map \<Rightarrow> nat \<Rightarrow> ('x, dt) world_op" where
  "Pointer_evaluate sub atts ctx = sx_bind (sub ctx) (\<lambda>t. sx_return (Pointer t None None atts))"

fun Tuple_evaluate_placed ::
    "'x env \<Rightarrow> (expression \<times> (nat \<Rightarrow> ('x, dt) world_op)) list \<Rightarrow> nat \<Rightarrow> ('x, dt element list) world_op" where
  "Tuple_evaluate_placed env [] ctx = sx_return []"
| "Tuple_evaluate_placed env ((disp, type) # es) ctx =
     sx_bind (to_long env disp ctx) (\<lambda>d.
     sx_bind (type ctx) (\<lambda>t.
     sx_bind (Tuple_evaluate_placed env es ctx) (\<lambda>elements.
     sx_return (Element (size_of_long d) t # elements))))"

fun Tuple_evaluate_elements ::
    "(nat \<Rightarrow> ('x, dt) world_op) list \<Rightarrow> nat \<Rightarrow> size_t \<Rightarrow> size_t \<Rightarrow> ('x, dt element list \<times> size_t \<times> size_t) world_op" where
  "Tuple_evaluate_elements [] ctx disp al = sx_return ([], disp, al)"
| "Tuple_evaluate_elements (type # es) ctx disp al =
     sx_bind (type ctx) (\<lambda>t.
     sx_bind (sx_lift (align_displacement disp (alignment t))) (\<lambda>d.
     sx_bind (Tuple_evaluate_elements es ctx (sz_add d (buffersize t)) (max al (alignment t))) (\<lambda>(elements, r).
     sx_return (Element d t # elements, r))))"

definition Tuple_evaluate ::
    "'x env \<Rightarrow> (expression \<times> (nat \<Rightarrow> ('x, dt) world_op)) list \<Rightarrow> expression \<Rightarrow> attributes_map \<Rightarrow> nat \<Rightarrow> ('x, dt) world_op" where
  "Tuple_evaluate env es bufsize atts ctx =
     (case es of
        [] \<Rightarrow> sx_fail UB
      | (disp, _) # _ \<Rightarrow>
          if disp \<noteq> None then
            sx_bind (to_long env bufsize ctx) (\<lambda>n.
            sx_bind (Tuple_evaluate_placed env es ctx) (\<lambda>elements.
            sx_return (Tuple elements (size_of_long n) atts)))
          else
            sx_bind (Tuple_evaluate_elements (map snd es) ctx 0 0) (\<lambda>(elements, disp, al).
            sx_bind (sx_lift (align_displacement disp al)) (\<lambda>disp.
            sx_return (Tuple elements (max 1 disp) atts))))"

fun evaluate :: "'x env \<Rightarrow> template \<Rightarrow> nat \<Rightarrow> ('x, dt) world_op" where
  "evaluate env (Scalar_template kind sz align atts) = Scalar_evaluate env kind sz align atts"
| "evaluate env (Array_template sub sz start subsize atts) = Array_evaluate env (evaluate env sub) sz start subsize atts"
| "evaluate env (Record_template ms bufsize atts) =
     Record_evaluate env (map (\<lambda>(d, t, n). (d, evaluate env t, n)) ms) bufsize atts"
| "evaluate env (Struct_template ms atts) = Struct_evaluate (map (\<lambda>(t, n). (evaluate env t, n)) ms) atts"
| "evaluate env (Pointer_template sub atts) = Pointer_evaluate (evaluate env sub) atts"
| "evaluate env (Tuple_template es bufsize atts) = Tuple_evaluate env (map (\<lambda>(d, t). (d, evaluate env t)) es) bufsize atts"
| "evaluate env (Evaluated t) = (\<lambda>ctx. sx_return t)"

section \<open>Attributes\<close>

text \<open>The keys of the tree that start with a plus, with the expressions of their values.\<close>

fun attributes_from :: "pc_tree \<Rightarrow> nat list \<Rightarrow> attributes_map \<Rightarrow> attributes_map res" where
  "attributes_from tree [] atts = Inr atts"
| "attributes_from tree (i # is) atts =
     rbind (tree_to_string (PC_get tree [Map_key (int i)])) (\<lambda>key.
     case key of
       c # name \<Rightarrow>
         if c = CHR ''+'' then
           rbind (Impl_parse_tree (PC_get tree [Map_val (int i)])) (\<lambda>e.
           attributes_from tree is (AList.update name e atts))
         else attributes_from tree is atts
     | [] \<Rightarrow> attributes_from tree is atts)"

definition template_attributes :: "pc_tree \<Rightarrow> attributes_map res" where
  "template_attributes tree =
     (if PC_status tree then Inr []
      else rbind (is_scalar tree) (\<lambda>scalar.
        if scalar then Inr [] else attributes_from tree [0 ..< nat (dflt (PC_len tree) 0)] []))"

definition template_atts :: "template \<Rightarrow> attributes_map" where
  "template_atts t = (case t of Scalar_template _ _ _ a \<Rightarrow> a | Array_template _ _ _ _ a \<Rightarrow> a | Record_template _ _ a \<Rightarrow> a
     | Struct_template _ a \<Rightarrow> a | Pointer_template _ a \<Rightarrow> a | Tuple_template _ _ a \<Rightarrow> a | Evaluated d \<Rightarrow> attributes d)"

definition template_attribute :: "template \<Rightarrow> string \<Rightarrow> expr res" where
  "template_attribute t name =
     (case map_of (template_atts t) name of
        Some e \<Rightarrow> Inr e
      | None \<Rightarrow> throw (Type_error (''`'' @ name @ [CHR 0x27] @ '' type attribute not found'')))"

section \<open>Parsing\<close>

fun res_list :: "('a \<Rightarrow> 'b res) \<Rightarrow> 'a list \<Rightarrow> 'b list res" where
  "res_list f [] = Inr []"
| "res_list f (x # xs) = rbind (f x) (\<lambda>y. rbind (res_list f xs) (\<lambda>ys. Inr (y # ys)))"

definition get_array_property :: "pc_tree \<Rightarrow> string \<Rightarrow> expression list res" where
  "get_array_property node property =
     (let config = PC_get node [Key property] in
      if \<not> PC_status (PC_get config [Idx 0]) then
        rbind (len config) (\<lambda>rank.
        res_list (\<lambda>i. rbind (tree_to_string (PC_get node [Key property, Idx (int i)])) (\<lambda>t.
          rbind (Impl_parse t) (\<lambda>e. Inr (Some e)))) [0 ..< nat rank])
      else
        let prop = tree_to_string_dflt config [] in
        if prop \<noteq> [] then rbind (Impl_parse prop) (\<lambda>e. Inr [Some e]) else Inr [])"

definition validate_array ::
    "pc_tree \<Rightarrow> expression list \<Rightarrow> expression list \<Rightarrow> expression list \<Rightarrow> (expression list \<times> expression list) res" where
  "validate_array node sizes subsize start =
     (if sizes = [] then throw (spectree_error node (''Array must have defined `size'' @ [CHR 0x27]))
      else if start \<noteq> [] \<and> subsize = [] then
        throw (spectree_error node (''Array with a `start` property must have a defined `subsize'' @ [CHR 0x27]))
      else
        let start = (if start = [] then replicate (length sizes) (Some (Int_literal 0)) else start);
            subsize = (if subsize = [] then sizes else subsize) in
        if length sizes \<noteq> length subsize then
          throw (spectree_error node (''`subsize'' @ [CHR 0x27] @ '' must have the same rank as `size'' @ [CHR 0x27] @ '': ''
            @ fmt_nat (length subsize) @ '' != '' @ fmt_nat (length sizes)))
        else if length sizes \<noteq> length start then
          throw (spectree_error node (''`start'' @ [CHR 0x27] @ '' must have the same rank as `size'' @ [CHR 0x27] @ '': ''
            @ fmt_nat (length start) @ '' != '' @ fmt_nat (length sizes)))
        else Inr (subsize, start))"

definition to_array_datatype_template ::
    "(pc_tree \<Rightarrow> ('x, template) world_op) \<Rightarrow> pc_tree \<Rightarrow> ('x, template) world_op" where
  "to_array_datatype_template dtp node =
     (let order_str = tree_to_string_dflt (PC_get node [Key ''order'']) [] in
      if order_str \<notin> {''c'', ''C'', []} then
        sx_fail (Throw (spectree_error node (''Incorrect array ordering: `'' @ order_str @ [CHR 0x27] @ '', only C order is supported'')))
      else
        sx_bind (sx_lift (get_array_property node ''size'')) (\<lambda>array_size.
        sx_bind (sx_lift (get_array_property node ''subsize'')) (\<lambda>array_subsize.
        sx_bind (sx_lift (get_array_property node ''start'')) (\<lambda>array_start.
        sx_bind (sx_lift (validate_array node array_size array_subsize array_start)) (\<lambda>(array_subsize, array_start).
        let config_elem = PC_get node [Key ''subtype''] in
        if PC_status config_elem then sx_fail (Throw (spectree_error node (''Array must have `subtype'' @ [CHR 0x27])))
        else
          sx_bind (dtp config_elem) (\<lambda>res_type.
          sx_bind (sx_lift (template_attributes node)) (\<lambda>atts.
          sx_return (foldr (\<lambda>(sz, st, ss) t. Array_template t sz st ss atts)
            (zip array_size (zip array_start array_subsize)) res_type))))))))"

fun get_tuple_elements_from ::
    "(pc_tree \<Rightarrow> ('x, template) world_op) \<Rightarrow> pc_tree \<Rightarrow> nat list \<Rightarrow> ('x, (expression \<times> template) list) world_op" where
  "get_tuple_elements_from dtp node [] = sx_return []"
| "get_tuple_elements_from dtp node (i # is) =
     (let element_node = PC_get node [Idx (int i)]; disp_conf = PC_get element_node [Key ''disp''] in
      sx_bind (if \<not> PC_status disp_conf
               then sx_lift (rbind (tree_to_string disp_conf) (\<lambda>t. rbind (Impl_parse t) (\<lambda>e. Inr (Some e))))
               else sx_return None) (\<lambda>disp.
      sx_bind (dtp element_node) (\<lambda>t.
      sx_bind (get_tuple_elements_from dtp node is) (\<lambda>es. sx_return ((disp, t) # es)))))"

definition get_tuple_elements ::
    "(pc_tree \<Rightarrow> ('x, template) world_op) \<Rightarrow> pc_tree \<Rightarrow> bool \<Rightarrow> ('x, (expression \<times> template) list) world_op" where
  "get_tuple_elements dtp elements_node buffersize_defined =
     (let nb_elements = nat (len_dflt elements_node 0) in
      sx_bind (sx_lift (is_list elements_node)) (\<lambda>l.
      if \<not> l then sx_fail (Throw (spectree_error elements_node ''Tuple elements subtree must be a seqence or ordered mapping''))
      else
        sx_bind (get_tuple_elements_from dtp elements_node [0 ..< nb_elements]) (\<lambda>result.
        let displacement_counter = length (filter (\<lambda>e. fst e \<noteq> None) result) in
        if displacement_counter \<noteq> 0 \<and> displacement_counter \<noteq> nb_elements then
          sx_fail (Throw (spectree_error elements_node (''None or all of tuple elements must to have `disp'' @ [CHR 0x27] @ '' defined'')))
        else if buffersize_defined \<and> displacement_counter = 0 then
          sx_fail (Throw (spectree_error elements_node (''If tuple buffersize is defined, all `disp'' @ [CHR 0x27] @ '' must be defined also'')))
        else if \<not> buffersize_defined \<and> displacement_counter \<noteq> 0 then
          sx_fail (Throw (spectree_error elements_node (''If tuple buffersize is not defined, `disp'' @ [CHR 0x27] @ '' cannot be defined also'')))
        else sx_return result)))"

definition to_tuple_datatype_template ::
    "(pc_tree \<Rightarrow> ('x, template) world_op) \<Rightarrow> pc_tree \<Rightarrow> ('x, template) world_op" where
  "to_tuple_datatype_template dtp node =
     (let buffersize_conf = PC_get node [Key ''buffersize''] in
      sx_bind (if \<not> PC_status buffersize_conf
               then sx_lift (rbind (tree_to_string buffersize_conf) (\<lambda>t. rbind (Impl_parse t) (\<lambda>e. Inr (Some e))))
               else sx_return None) (\<lambda>tuple_buffersize.
      let elements_node = PC_get node [Key ''elements''] in
      if PC_status elements_node then
        sx_fail (Throw (spectree_error node (''Tuple datatype must have `elements'' @ [CHR 0x27] @ '' subtree'')))
      else
        sx_bind (get_tuple_elements dtp elements_node (tuple_buffersize \<noteq> None)) (\<lambda>es.
        sx_bind (sx_lift (template_attributes node)) (\<lambda>atts.
        sx_return (Tuple_template es tuple_buffersize atts)))))"

fun get_members ::
    "(pc_tree \<Rightarrow> ('x, template) world_op) \<Rightarrow> pc_tree \<Rightarrow> nat list \<Rightarrow> ('x, (expression \<times> template \<times> string) list) world_op" where
  "get_members dtp node [] = sx_return []"
| "get_members dtp node (i # is) =
     sx_bind (sx_lift (tree_to_string (PC_get node [Map_key (int i)]))) (\<lambda>member_name.
     let member_node = PC_get node [Map_val (int i)]; disp_conf = PC_get member_node [Key ''disp''] in
     if PC_status disp_conf then sx_fail (Throw (spectree_error member_node ''All members must have displacements''))
     else
       sx_bind (sx_lift (rbind (tree_to_string disp_conf) Impl_parse)) (\<lambda>disp.
       sx_bind (dtp member_node) (\<lambda>t.
       sx_bind (get_members dtp node is) (\<lambda>ms. sx_return ((Some disp, t, member_name) # ms)))))"

definition to_record_datatype_template ::
    "(pc_tree \<Rightarrow> ('x, template) world_op) \<Rightarrow> pc_tree \<Rightarrow> ('x, template) world_op" where
  "to_record_datatype_template dtp node =
     (let buffersize_conf = PC_get node [Key ''buffersize''] in
      if PC_status buffersize_conf then sx_fail (Throw (spectree_error node ''Record must have defined buffersize''))
      else
        sx_bind (sx_lift (rbind (tree_to_string buffersize_conf) Impl_parse)) (\<lambda>record_buffersize.
        let member_list_node = PC_get node [Key ''members''] in
        sx_bind (get_members dtp member_list_node [0 ..< nat (len_dflt member_list_node 0)]) (\<lambda>ms.
        sx_bind (sx_lift (template_attributes node)) (\<lambda>atts.
        sx_return (Record_template ms (Some record_buffersize) atts)))))"

definition to_struct_datatype_template ::
    "(pc_tree \<Rightarrow> ('x, template) world_op) \<Rightarrow> pc_tree \<Rightarrow> ('x, template) world_op" where
  "to_struct_datatype_template dtp node =
     sx_bind (sx_with_local [] (each_in_omap (PC_get node [Key ''members'']) (\<lambda>member_name member_value_node.
       sx_bind (sx_outer (dtp member_value_node)) (\<lambda>t.
       sx_bind (sx_outer (sx_lift (tree_to_string member_name))) (\<lambda>name.
       sx_local (\<lambda>members. members @ [(t, name)])))))) (\<lambda>members.
     sx_bind (sx_lift (template_attributes node)) (\<lambda>atts.
     sx_return (Struct_template members atts)))"

definition to_pointer_datatype_template ::
    "(pc_tree \<Rightarrow> ('x, template) world_op) \<Rightarrow> pc_tree \<Rightarrow> ('x, template) world_op" where
  "to_pointer_datatype_template dtp node =
     (let subtype_conf = PC_get node [Key ''subtype''] in
      if PC_status subtype_conf then sx_fail (Throw (spectree_error node ''Pointer must have defined subtype''))
      else
        sx_bind (dtp subtype_conf) (\<lambda>t.
        sx_bind (sx_lift (template_attributes node)) (\<lambda>atts.
        sx_return (Pointer_template t atts))))"

definition scalar_parser :: "scalar_kind \<Rightarrow> size_t \<Rightarrow> pc_tree \<Rightarrow> template res" where
  "scalar_parser kind sz tree =
     rbind (template_attributes tree) (\<lambda>atts.
     Inr (Scalar_template kind (Some (Int_literal (int sz))) (Some (Int_literal (int sz))) atts))"

text \<open>The types of Fortran have a kind, which may be chosen in the tree.\<close>

definition kind_parser :: "scalar_kind \<Rightarrow> int \<Rightarrow> pc_tree \<Rightarrow> template res" where
  "kind_parser scalar default_kind tree =
     (let kind_tree = PC_get tree [Key ''kind'']; kind = tree_to_long_dflt kind_tree default_kind;
          kind = (if kind = 0 then default_kind else kind) in
      if kind < 0 then throw (spectree_error kind_tree (''`kind'' @ [CHR 0x27] @ '' of the datatype cannot be less than 0''))
      else rbind (template_attributes tree) (\<lambda>atts.
        Inr (Scalar_template scalar (Some (Int_literal kind)) (Some (Int_literal kind)) atts)))"

section \<open>Registration and lookup in the context\<close>

definition add_datatype :: "nat \<Rightarrow> string \<Rightarrow> parser \<Rightarrow> ('x, unit) world_op" where
  "add_datatype ctx name parser =
     sx_bind (sx_get (\<lambda>s. map_of (m_datatype_parsers (the_context ctx s)) name)) (\<lambda>old.
     if old \<noteq> None then sx_fail (Throw (Type_error (''Datatype already defined `'' @ name @ [CHR 0x27])))
     else sx_modify (upd_context ctx (\<lambda>c. c\<lparr>m_datatype_parsers := m_datatype_parsers c @ [(name, parser)]\<rparr>)))"

definition datatype_name :: "pc_tree \<Rightarrow> string res" where
  "datatype_name node =
     (case tree_to_string (PC_get node [Key ''type'']) of
        Inl (Throw e) \<Rightarrow> if is_pdi_error e then tree_to_string node else throw e
      | r \<Rightarrow> r)"

definition run_parser ::
    "'x env \<Rightarrow> (pc_tree \<Rightarrow> ('x, template) world_op) \<Rightarrow> nat \<Rightarrow> parser \<Rightarrow> pc_tree \<Rightarrow> ('x, template) world_op" where
  "run_parser env dtp ctx parser node =
     (case parser of
        Parse_array \<Rightarrow> to_array_datatype_template dtp node
      | Parse_struct \<Rightarrow> to_struct_datatype_template dtp node
      | Parse_record \<Rightarrow> to_record_datatype_template dtp node
      | Parse_pointer \<Rightarrow> to_pointer_datatype_template dtp node
      | Parse_tuple \<Rightarrow> to_tuple_datatype_template dtp node
      | Parse_scalar kind sz \<Rightarrow> sx_lift (scalar_parser kind sz node)
      | Parse_kind kind default_kind \<Rightarrow> sx_lift (kind_parser kind default_kind node)
      | Parse_user datatype_tree \<Rightarrow> dtp datatype_tree
      | Parse_plugin k \<Rightarrow> e_parser env k ctx node)"

text \<open>\<open>Global_context::datatype\<close>; the fuel is the depth of the recursion.\<close>

fun datatype_fuel :: "nat \<Rightarrow> 'x env \<Rightarrow> nat \<Rightarrow> pc_tree \<Rightarrow> ('x, template) world_op" where
  "datatype_fuel 0 env ctx node = sx_fail UB"
| "datatype_fuel (Suc n) env ctx node =
     sx_bind (sx_lift (datatype_name node)) (\<lambda>type.
     sx_bind (sx_get (\<lambda>s. map_of (m_datatype_parsers (the_context ctx s)) type)) (\<lambda>func.
     case func of
       Some parser \<Rightarrow> run_parser env (\<lambda>node. datatype_fuel n env ctx node) ctx parser node
     | None \<Rightarrow> sx_fail (Throw (spectree_error node (''Unknown data type: `'' @ type @ [CHR 0x27])))))"

definition datatype_of :: "'x env \<Rightarrow> nat \<Rightarrow> pc_tree \<Rightarrow> ('x, template) world_op" where
  "datatype_of env ctx node = datatype_fuel (e_fuel env) env ctx node"

section \<open>Predefined and user datatypes\<close>

definition signed_types :: "(string \<times> size_t) list" where
  "signed_types =
     [(''int'', 4), (''short'', 2), (''long'', 8), (''long long'', 8), (''intmax'', 8), (''intmax_t'', 8),
      (''int8'', 1), (''int16'', 2), (''int32'', 4), (''int64'', 8),
      (''int8_t'', 1), (''int16_t'', 2), (''int32_t'', 4), (''int64_t'', 8),
      (''int_least8'', 1), (''int_least16'', 2), (''int_least32'', 4), (''int_least64'', 8),
      (''int_least8_t'', 1), (''int_least16_t'', 2), (''int_least32_t'', 4), (''int_least64_t'', 8),
      (''int_fast8'', 1), (''int_fast16'', 8), (''int_fast32'', 8), (''int_fast64'', 8),
      (''int_fast8_t'', 1), (''int_fast16_t'', 8), (''int_fast32_t'', 8), (''int_fast64_t'', 8),
      (''intptr'', 8), (''intptr_t'', 8), (''ptrdiff'', 8), (''ptrdiff_t'', 8)]"

definition unsigned_types :: "(string \<times> size_t) list" where
  "unsigned_types =
     [(''char'', 1), (''unsigned short'', 2), (''unsigned long'', 8), (''unsigned long long'', 8),
      (''uintmax'', 8), (''uintmax_t'', 8),
      (''uint8'', 1), (''uint16'', 2), (''uint32'', 4), (''uint64'', 8),
      (''uint8_t'', 1), (''uint16_t'', 2), (''uint32_t'', 4), (''uint64_t'', 8),
      (''uint_least8'', 1), (''uint_least16'', 2), (''uint_least32'', 4), (''uint_least64'', 8),
      (''uint_least8_t'', 1), (''uint_least16_t'', 2), (''uint_least32_t'', 4), (''uint_least64_t'', 8),
      (''uint_fast8'', 1), (''uint_fast16'', 8), (''uint_fast32'', 8), (''uint_fast64'', 8),
      (''uint_fast8_t'', 1), (''uint_fast16_t'', 8), (''uint_fast32_t'', 8), (''uint_fast64_t'', 8),
      (''uintptr'', 8), (''uintptr_t'', 8), (''size_t'', 8)]"

definition fortran_types :: "(string \<Rightarrow> int) \<Rightarrow> (string \<times> parser) list" where
  "fortran_types default_kind =
     [(''character'', Parse_kind UNSIGNED (default_kind ''character'')),
      (''integer'', Parse_kind SIGNED (default_kind ''integer'')),
      (''logical'', Parse_kind UNSIGNED (default_kind ''logical'')),
      (''real'', Parse_kind FLOAT (default_kind ''real''))]"

definition basic_datatypes :: "'x env \<Rightarrow> (string \<times> parser) list" where
  "basic_datatypes env =
     [(''array'', Parse_array), (''struct'', Parse_struct), (''record'', Parse_record), (''pointer'', Parse_pointer),
      (''tuple'', Parse_tuple)]
     @ map (\<lambda>(n, sz). (n, Parse_scalar SIGNED sz)) signed_types
     @ map (\<lambda>(n, sz). (n, Parse_scalar UNSIGNED sz)) unsigned_types
     @ [(''float'', Parse_scalar FLOAT 4), (''double'', Parse_scalar FLOAT 8), (''byte'', Parse_scalar UNKNOWN 1)]
     @ (case e_fortran_kinds env of None \<Rightarrow> [] | Some default_kind \<Rightarrow> fortran_types default_kind)"

definition load_basic_datatypes :: "'x env \<Rightarrow> nat \<Rightarrow> ('x, unit) world_op" where
  "load_basic_datatypes env ctx = sx_each (\<lambda>(name, parser). add_datatype ctx name parser) (basic_datatypes env)"

definition load_user_datatypes :: "nat \<Rightarrow> pc_tree \<Rightarrow> ('x, unit) world_op" where
  "load_user_datatypes ctx types_tree =
     (if PC_status types_tree then sx_return ()
      else case PC_len types_tree of
          Inl _ \<Rightarrow> sx_fail UB
        | Inr types_len \<Rightarrow> sx_each (\<lambda>i.
            sx_bind (sx_lift (tree_to_string (PC_get types_tree [Map_key (int i)]))) (\<lambda>name.
            add_datatype ctx name (Parse_user (PC_get types_tree [Map_val (int i)])))) [0 ..< nat types_len])"

end
