(* ===== verification/Data_Descriptor.thy ===== *)
theory Data_Descriptor
  imports Datatype_Template
begin

text \<open>
  The descriptors of data (\<open>data_descriptor_impl.cxx\<close>): sharing, releasing and reclaiming references, with the
  notifications of the context and the placeholder that keeps the last value of a metadata. A
  descriptor is named by its context and its name.
\<close>

section \<open>The stack of references\<close>

definition push_ref :: "nat \<Rightarrow> string \<Rightarrow> nat \<Rightarrow> ('x, unit) world_op" where
  "push_ref ctx name r = sx_modify (upd_desc ctx name (\<lambda>d. d\<lparr>m_refs := r # m_refs d\<rparr>))"

text \<open>A new \<open>Ref_holder::Impl<R, W>\<close> made from a temporary reference, on top of the stack.\<close>

definition emplace_ref :: "nat \<Rightarrow> string \<Rightarrow> bool \<Rightarrow> bool \<Rightarrow> ('x, nat) world_op \<Rightarrow> ('x, unit) world_op" where
  "emplace_ref ctx name R W mk = sx_bind (ref_as R W mk) (\<lambda>r. push_ref ctx name r)"

text \<open>The top of the stack is destroyed; an empty stack has none.\<close>

definition pop_ref :: "nat \<Rightarrow> string \<Rightarrow> ('x, unit) world_op" where
  "pop_ref ctx name =
     sx_bind (sx_get (\<lambda>s. m_refs (descriptor_of ctx name s))) (\<lambda>rs.
     case rs of
       [] \<Rightarrow> sx_fail UB
     | r # rest \<Rightarrow>
         sx_bind (sx_modify (upd_desc ctx name (\<lambda>d. d\<lparr>m_refs := rest\<rparr>))) (\<lambda>_. destroy_ref r))"

section \<open>Properties of a descriptor\<close>

definition set_default_type :: "nat \<Rightarrow> string \<Rightarrow> template \<Rightarrow> ('x, unit) world_op" where
  "set_default_type ctx name type = sx_modify (upd_desc ctx name (\<lambda>d. d\<lparr>m_type := type\<rparr>))"

definition default_type :: "nat \<Rightarrow> string \<Rightarrow> ('x, template) world_op" where
  "default_type ctx name = sx_get (\<lambda>s. m_type (descriptor_of ctx name s))"

definition metadata :: "nat \<Rightarrow> string \<Rightarrow> ('x, bool) world_op" where
  "metadata ctx name = sx_get (\<lambda>s. m_metadata (descriptor_of ctx name s))"

definition set_metadata :: "nat \<Rightarrow> string \<Rightarrow> bool \<Rightarrow> ('x, unit) world_op" where
  "set_metadata ctx name b =
     sx_bind (sx_get (\<lambda>s. m_refs (descriptor_of ctx name s))) (\<lambda>rs.
     if rs \<noteq> [] then sx_fail (Throw (State_error ''Can not change the metadata status of a non-empty descriptor''))
     else
       sx_bind (sx_modify (upd_desc ctx name (\<lambda>d. d\<lparr>m_metadata := b\<rparr>))) (\<lambda>_.
       if b then emplace_ref ctx name True False (null_ref False False) else sx_return ()))"

definition desc_empty :: "nat \<Rightarrow> string \<Rightarrow> ('x, bool) world_op" where
  "desc_empty ctx name = sx_get (\<lambda>s. m_refs (descriptor_of ctx name s) = [])"

text \<open>The destructor: what is still shared is leaked, but the placeholder of a metadata goes.\<close>

definition destroy_descriptor :: "nat \<Rightarrow> string \<Rightarrow> ('x, unit) world_op" where
  "destroy_descriptor ctx name =
     sx_bind (sx_get (\<lambda>s. descriptor_of ctx name s)) (\<lambda>d.
     sx_bind (if m_metadata d \<and> length (m_refs d) = 1 then pop_ref ctx name else sx_return ()) (\<lambda>_.
     sx_modify (upd_desc ctx name (\<lambda>d. d\<lparr>m_refs := []\<rparr>))))"

section \<open>Sharing\<close>

definition unable_to :: "string \<Rightarrow> string \<Rightarrow> ('x, 'a) world_op \<Rightarrow> ('x, 'a) world_op" where
  "unable_to action name f =
     sx_catch f (\<lambda>e. sx_fail (Throw (rethrow_with_simple_context e
       (''Unable to '' @ action @ '' `'' @ name @ [CHR 0x27] @ '', ''))))"

definition share :: "'x env \<Rightarrow> nat \<Rightarrow> string \<Rightarrow> nat \<Rightarrow> bool \<Rightarrow> bool \<Rightarrow> ('x, addr) world_op" where
  "share env ctx name data_ref read write =
     unable_to ''share'' name
       (sx_bind (metadata ctx name) (\<lambda>meta.
        sx_bind (if meta then with_ref (copy_ref True False data_ref) is_null else sx_return False) (\<lambda>refused.
        if refused then sx_fail (Throw (Permission_error ''Metadata sharing must offer read access''))
        else
          sx_bind (if read \<or> write then with_ref (copy_ref read write data_ref) ref_get_nothrow else sx_return 0) (\<lambda>result.
          sx_bind (emplace_ref ctx name read write (copy_ref False False data_ref)) (\<lambda>_.
          sx_bind (is_null data_ref) (\<lambda>null.
          sx_bind (if null then sx_return False else with_ref (desc_ref env ctx name) is_null) (\<lambda>denied.
          if denied then
            sx_bind (pop_ref ctx name) (\<lambda>_. sx_fail (Throw (Permission_error ''Unable to grant requested rights'')))
          else
            sx_bind (sx_catch (with_ref (desc_ref env ctx name) (notify_data env ctx name))
              (\<lambda>e. sx_bind (pop_ref ctx name) (\<lambda>_. sx_fail (Throw e)))) (\<lambda>_.
            sx_return result))))))))"

definition share_data :: "'x env \<Rightarrow> nat \<Rightarrow> string \<Rightarrow> addr \<Rightarrow> bool \<Rightarrow> bool \<Rightarrow> ('x, unit) world_op" where
  "share_data env ctx name data read write =
     unable_to ''share'' name
       (sx_bind (default_type ctx name) (\<lambda>type.
        sx_bind (evaluate env type ctx) (\<lambda>t.
        with_ref (make_ref False False data Free t read write) (\<lambda>r.
          sx_catch
            (sx_bind (with_ref (copy_ref False False r) (\<lambda>data_ref. share env ctx name data_ref False False)) (\<lambda>_. sx_return ()))
            (\<lambda>e. sx_bind (release (e_refs env) r) (\<lambda>_. sx_fail (Throw e)))))))"

section \<open>Releasing and reclaiming\<close>

text \<open>Nothing is shared: the stack is empty or holds only the placeholder of a metadata.\<close>

definition nothing_shared :: "descriptor \<Rightarrow> bool" where
  "nothing_shared d \<longleftrightarrow> m_refs d = [] \<or> length (m_refs d) = 1 \<and> m_metadata d"

text \<open>Whether only the placeholder is left, to be replaced by the value that was removed.\<close>

definition placeholder_left :: "nat \<Rightarrow> string \<Rightarrow> ('x, bool) world_op" where
  "placeholder_left ctx name =
     sx_get (\<lambda>s. m_metadata (descriptor_of ctx name s) \<and> length (m_refs (descriptor_of ctx name s)) = 1)"

definition desc_release :: "'x env \<Rightarrow> nat \<Rightarrow> string \<Rightarrow> ('x, unit) world_op" where
  "desc_release env ctx name =
     unable_to ''release'' name
       (sx_bind (sx_get (\<lambda>s. nothing_shared (descriptor_of ctx name s))) (\<lambda>none.
        if none then sx_fail (Throw (State_error (''Cannot release a non shared value: `'' @ name @ [CHR 0x27])))
        else
          sx_bind (with_ref (desc_ref env ctx name) (notify_data_remove env ctx name)) (\<lambda>_.
          with_ref (desc_ref env ctx name) (\<lambda>oldref.
            sx_bind (pop_ref ctx name) (\<lambda>_.
            sx_bind (placeholder_left ctx name) (\<lambda>left.
            if left then
              sx_bind (pop_ref ctx name) (\<lambda>_. emplace_ref ctx name True False (copy_ref False False oldref))
            else sx_return ()))))))"

definition desc_reclaim :: "'x env \<Rightarrow> nat \<Rightarrow> string \<Rightarrow> ('x, addr) world_op" where
  "desc_reclaim env ctx name =
     unable_to ''reclaim'' name
       (sx_bind (sx_get (\<lambda>s. nothing_shared (descriptor_of ctx name s))) (\<lambda>none.
        if none then sx_fail (Throw (State_error (''Cannot reclaim a non shared value: `'' @ name @ [CHR 0x27])))
        else
          sx_bind (with_ref (desc_ref env ctx name) (notify_data_remove env ctx name)) (\<lambda>_.
          with_ref (desc_ref env ctx name) (\<lambda>oldref.
            sx_bind (pop_ref ctx name) (\<lambda>_.
            sx_bind (placeholder_left ctx name) (\<lambda>left.
            sx_bind (if left then
                       sx_bind (pop_ref ctx name) (\<lambda>_. emplace_ref ctx name True False (ref_copy oldref))
                     else sx_return ()) (\<lambda>_.
            release (e_refs env) oldref)))))))"

end
