(* ===== verification/Logger_Model.thy ===== *)
theory Logger_Model
  imports Data_Descriptor
begin

text \<open>
  Loggers (\<open>logger.cxx\<close>): how the sinks, the level and the pattern of a logger follow from its configuration, how
  a pattern goes to the loggers that observe it, and the references of a pattern. A logger is
  named by its position in the state. What is logged is not modelled.
\<close>

definition upd_logger :: "nat \<Rightarrow> (logger \<Rightarrow> logger) \<Rightarrow> 'x world_scheme \<Rightarrow> 'x world_scheme" where
  "upd_logger i f s = s\<lparr>loggers := (loggers s)[i := f (loggers s ! i)]\<rparr>"

definition fresh_logger :: logger where
  "fresh_logger = \<lparr>l_name = [], l_sinks = [], l_level = L_info, l_shown = [], l_parent = None,
     l_pattern = ''[%T][%n] *** %^%l%$: %v'', l_pattern_blocks = [], l_pattern_from_config = False, l_observers = []\<rparr>"

definition new_logger :: "('x, nat) world_op" where
  "new_logger s = (Inr (length (loggers s)), s\<lparr>loggers := loggers s @ [fresh_logger]\<rparr>)"

section \<open>Sinks and level\<close>

definition select_log_sinks :: "'x env \<Rightarrow> pc_tree \<Rightarrow> log_sink list res" where
  "select_log_sinks env logging_tree =
     (let output_tree = PC_get logging_tree [Key ''output''];
          file_tree = PC_get output_tree [Key ''file'']; console_tree = PC_get output_tree [Key ''console''] in
      rbind (if \<not> PC_status file_tree
             then rbind (tree_to_string file_tree) (\<lambda>filename. rbind (e_log_file env filename) (\<lambda>_. Inr [File_sink filename]))
             else Inr []) (\<lambda>sinks.
      Inr (if (\<not> PC_status console_tree \<or> sinks = []) \<and> tree_to_string_dflt console_tree ''on'' \<noteq> ''off''
           then sinks @ [Console_sink] else sinks)))"

definition level_map :: "(string \<times> log_level) list" where
  "level_map = [(''trace'', L_trace), (''debug'', L_debug), (''info'', L_info), (''warn'', L_warn), (''error'', L_err), (''off'', L_off)]"

text \<open>The level of a configuration; an unknown one, or none, leaves the level as it is.\<close>

definition read_log_level :: "pc_tree \<Rightarrow> log_level option res" where
  "read_log_level logging_tree =
     (let level_tree = PC_get logging_tree [Key ''level''] in
      if \<not> PC_status level_tree then rbind (tree_to_string level_tree) (\<lambda>level_str. Inr (map_of level_map level_str))
      else case tree_to_string logging_tree of
          Inr level_str \<Rightarrow> Inr (map_of level_map level_str)
        | Inl (Throw e) \<Rightarrow> if is_pdi_error e then Inr None else throw e
        | Inl UB \<Rightarrow> Inl UB)"

section \<open>Patterns\<close>

text \<open>The text before the first \<open>%{\<close> and the text from its bracket on.\<close>

fun find_ref :: "string \<Rightarrow> (string \<times> string) option" where
  "find_ref [] = None"
| "find_ref (c # s) =
     (if c = CHR ''%'' \<and> s \<noteq> [] \<and> hd s = CHR ''{'' then Some ([], s)
      else map_option (\<lambda>(before, rest). (c # before, rest)) (find_ref s))"

text \<open>Without a context, the references are removed; each round takes at least one character away.\<close>

fun remove_refs :: "nat \<Rightarrow> string \<Rightarrow> string res" where
  "remove_refs n pattern =
     (case find_ref pattern of
        None \<Rightarrow> Inr pattern
      | Some (before, rest) \<Rightarrow>
          (case n of
             0 \<Rightarrow> Inl UB
           | Suc n' \<Rightarrow> rbind (parse_reference (CHR ''$'' # rest)) (\<lambda>(_, k). remove_refs n' (before @ drop k (CHR ''$'' # rest)))))"

declare remove_refs.simps [simp del]

definition evaluate_refs_in_pattern :: "string \<Rightarrow> string res" where
  "evaluate_refs_in_pattern pattern = remove_refs (length pattern) pattern"

text \<open>With a context they are replaced by their values, which are searched for references again.\<close>

fun evaluate_refs :: "nat \<Rightarrow> 'x env \<Rightarrow> nat \<Rightarrow> string \<Rightarrow> ('x, string) world_op" where
  "evaluate_refs n env ctx pattern =
     (case find_ref pattern of
        None \<Rightarrow> sx_return pattern
      | Some (before, rest) \<Rightarrow>
          (case n of
             0 \<Rightarrow> sx_fail UB
           | Suc n' \<Rightarrow>
               sx_bind (sx_lift (parse_reference (CHR ''$'' # rest))) (\<lambda>(e, k).
               sx_bind (to_string env (Some e) ctx) (\<lambda>value.
               evaluate_refs n' env ctx (before @ value @ drop k (CHR ''$'' # rest))))))"

declare evaluate_refs.simps [simp del]

definition show_pattern :: "nat \<Rightarrow> ('x, unit) world_op" where
  "show_pattern i =
     sx_bind (sx_get (\<lambda>s. l_pattern (loggers s ! i))) (\<lambda>pattern.
     sx_bind (sx_lift (evaluate_refs_in_pattern pattern)) (\<lambda>shown.
     sx_modify (upd_logger i (\<lambda>l. l\<lparr>l_shown := shown\<rparr>))))"

text \<open>A pattern goes down to the loggers that have none of their own; the fuel bounds the depth of the tree.\<close>

fun default_pattern :: "nat \<Rightarrow> nat \<Rightarrow> string \<Rightarrow> ('x, unit) world_op" where
  "default_pattern 0 i pattern = sx_fail UB"
| "default_pattern (Suc n) i pattern =
     sx_bind (sx_get (\<lambda>s. loggers s ! i)) (\<lambda>l.
     if l_pattern_from_config l then sx_return ()
     else
       sx_bind (sx_modify (upd_logger i (\<lambda>l. l\<lparr>l_pattern := pattern\<rparr>))) (\<lambda>_.
       sx_bind (show_pattern i) (\<lambda>_.
       sx_each (\<lambda>observer. default_pattern n observer pattern) (l_observers l))))"

definition build_pattern :: "string list \<Rightarrow> string" where
  "build_pattern blocks = concat blocks @ ''[%n] *** %^%l%$: %v''"

definition add_pattern_block :: "'x env \<Rightarrow> nat \<Rightarrow> string \<Rightarrow> ('x, unit) world_op" where
  "add_pattern_block env i block =
     sx_bind (sx_modify (upd_logger i (\<lambda>l.
       let blocks = l_pattern_blocks l @ [''['' @ block @ '']''] in
       l\<lparr>l_pattern_blocks := blocks, l_pattern := build_pattern blocks\<rparr>))) (\<lambda>_.
     sx_bind (sx_get (\<lambda>s. l_pattern (loggers s ! i))) (\<lambda>pattern.
     default_pattern (e_fuel env) i pattern))"

definition set_pattern :: "'x env \<Rightarrow> nat \<Rightarrow> string \<Rightarrow> ('x, unit) world_op" where
  "set_pattern env i pattern_str =
     sx_bind (sx_modify (upd_logger i (\<lambda>l. l\<lparr>l_pattern := pattern_str, l_shown := pattern_str\<rparr>))) (\<lambda>_.
     sx_bind (sx_get (\<lambda>s. l_observers (loggers s ! i))) (\<lambda>observers.
     sx_bind (sx_each (\<lambda>observer. default_pattern (e_fuel env) observer pattern_str) observers) (\<lambda>_.
     show_pattern i)))"

text \<open>The logger without a parent above a logger.\<close>

fun root_logger :: "nat \<Rightarrow> nat \<Rightarrow> ('x, nat) world_op" where
  "root_logger 0 i = sx_fail UB"
| "root_logger (Suc n) i =
     sx_bind (sx_get (\<lambda>s. l_parent (loggers s ! i))) (\<lambda>parent.
     case parent of None \<Rightarrow> sx_return i | Some p \<Rightarrow> root_logger n p)"

definition global_pattern :: "'x env \<Rightarrow> nat \<Rightarrow> string \<Rightarrow> ('x, unit) world_op" where
  "global_pattern env i pattern_str = sx_bind (root_logger (e_fuel env) i) (\<lambda>r. set_pattern env r pattern_str)"

definition add_pattern_global_block :: "'x env \<Rightarrow> nat \<Rightarrow> string \<Rightarrow> ('x, unit) world_op" where
  "add_pattern_global_block env i block = sx_bind (root_logger (e_fuel env) i) (\<lambda>r. add_pattern_block env r block)"

fun evaluate_pattern_fuel :: "nat \<Rightarrow> 'x env \<Rightarrow> nat \<Rightarrow> nat \<Rightarrow> ('x, unit) world_op" where
  "evaluate_pattern_fuel 0 env i ctx = sx_fail UB"
| "evaluate_pattern_fuel (Suc n) env i ctx =
     sx_bind (sx_get (\<lambda>s. l_pattern (loggers s ! i))) (\<lambda>pattern.
     sx_bind (evaluate_refs (e_fuel env) env ctx pattern) (\<lambda>shown.
     sx_bind (sx_modify (upd_logger i (\<lambda>l. l\<lparr>l_shown := shown\<rparr>))) (\<lambda>_.
     sx_bind (sx_get (\<lambda>s. l_observers (loggers s ! i))) (\<lambda>observers.
     sx_each (\<lambda>observer. evaluate_pattern_fuel n env observer ctx) observers))))"

definition evaluate_pattern :: "'x env \<Rightarrow> nat \<Rightarrow> nat \<Rightarrow> ('x, unit) world_op" where
  "evaluate_pattern env i ctx = evaluate_pattern_fuel (e_fuel env) env i ctx"

definition evaluate_global_pattern :: "'x env \<Rightarrow> nat \<Rightarrow> nat \<Rightarrow> ('x, unit) world_op" where
  "evaluate_global_pattern env i ctx = sx_bind (root_logger (e_fuel env) i) (\<lambda>r. evaluate_pattern env r ctx)"

section \<open>Construction\<close>

definition Logger_setup :: "'x env \<Rightarrow> nat \<Rightarrow> string \<Rightarrow> pc_tree \<Rightarrow> log_level \<Rightarrow> ('x, unit) world_op" where
  "Logger_setup env i logger_name config level =
     sx_bind (sx_lift (select_log_sinks env config)) (\<lambda>sinks.
     sx_bind (sx_modify (upd_logger i (\<lambda>l. l\<lparr>l_name := logger_name, l_sinks := sinks, l_level := level\<rparr>))) (\<lambda>_.
     sx_bind (sx_lift (read_log_level config)) (\<lambda>read.
     sx_bind (sx_modify (upd_logger i (\<lambda>l. case read of None \<Rightarrow> l | Some v \<Rightarrow> l\<lparr>l_level := v\<rparr>))) (\<lambda>_.
     sx_bind (add_pattern_block env i ''%T'') (\<lambda>_.
     let pattern_tree = PC_get config [Key ''pattern''] in
     sx_bind (if PC_status pattern_tree then sx_return ()
              else
                sx_bind (sx_lift (tree_to_string pattern_tree)) (\<lambda>pattern.
                sx_bind (sx_modify (upd_logger i (\<lambda>l. l\<lparr>l_pattern := pattern\<rparr>))) (\<lambda>_.
                sx_bind (sx_get (\<lambda>s. l_observers (loggers s ! i))) (\<lambda>observers.
                sx_bind (sx_each (\<lambda>observer. default_pattern (e_fuel env) observer pattern) observers) (\<lambda>_.
                sx_modify (upd_logger i (\<lambda>l. l\<lparr>l_pattern_from_config := True\<rparr>))))))) (\<lambda>_.
     show_pattern i))))))"

definition Logger_setup_child :: "'x env \<Rightarrow> nat \<Rightarrow> nat \<Rightarrow> string \<Rightarrow> pc_tree \<Rightarrow> ('x, unit) world_op" where
  "Logger_setup_child env i parent_logger logger_name config =
     sx_bind (sx_modify (upd_logger i (\<lambda>l. l\<lparr>l_parent := Some parent_logger\<rparr>))) (\<lambda>_.
     sx_bind (sx_get (\<lambda>s. l_level (loggers s ! parent_logger))) (\<lambda>level.
     sx_bind (Logger_setup env i logger_name config level) (\<lambda>_.
     sx_bind (sx_modify (upd_logger parent_logger (\<lambda>l. l\<lparr>l_observers := l_observers l @ [i]\<rparr>))) (\<lambda>_.
     sx_bind (sx_get (\<lambda>s. l_pattern (loggers s ! parent_logger))) (\<lambda>pattern.
     default_pattern (e_fuel env) i pattern)))))"

definition Logger_ctor :: "'x env \<Rightarrow> string \<Rightarrow> pc_tree \<Rightarrow> log_level \<Rightarrow> ('x, nat) world_op" where
  "Logger_ctor env logger_name config level =
     sx_bind new_logger (\<lambda>i. sx_bind (Logger_setup env i logger_name config level) (\<lambda>_. sx_return i))"

end
