(* ===== verification/Plugin_Store.thy ===== *)
theory Plugin_Store
  imports Logger_Model
begin

text \<open>
  The store of plugins (\<open>plugin_store.cxx\<close>) and the splitting of a path (\<open>string_tools.cxx\<close>): where plugin libraries are
  searched, how their symbols are found, and in which order plugins are loaded and destroyed. The
  dynamic loader and the functions of a plugin belong to the environment.
\<close>

section \<open>Splitting a path\<close>

text \<open>
  The elements between colons, with a backslash before a colon or a backslash that belongs to an
  element. The first argument is the element that is being read.
\<close>

fun string_array_from :: "string \<Rightarrow> string \<Rightarrow> string list res" where
  "string_array_from cur_str [] = Inr [cur_str]"
| "string_array_from cur_str (c # s) =
     (if c = CHR '':'' then rbind (string_array_from [] s) (\<lambda>r. Inr (cur_str # r))
      else if c = CHR 0x5C then
        (case s of
           [] \<Rightarrow> throw (Value_error (''Unable to escape content ending in '' @ [CHR 0x5C]))
         | d # s' \<Rightarrow>
             if d = CHR 0x5C \<or> d = CHR '':'' then string_array_from (cur_str @ [d]) s'
             else throw (Value_error (''Unable to escape `'' @ cur_str @ [d] @ [CHR 0x27])))
      else string_array_from (cur_str @ [c]) s)"

definition string_array_parse :: "string \<Rightarrow> string list res" where
  "string_array_parse unescaped = string_array_from [] unescaped"

section \<open>Where plugins are searched\<close>

text \<open>Everything before the last slash; a text without one is kept whole.\<close>

definition dirname :: "string \<Rightarrow> string" where
  "dirname path =
     (if CHR ''/'' \<in> set path then rev (tl (dropWhile (\<lambda>c. c \<noteq> CHR ''/'') (rev path))) else path)"

definition config_paths :: "pc_tree \<Rightarrow> string list res" where
  "config_paths conf =
     (let plugin_path_node = PC_get conf [Key ''plugin_path''] in
      if PC_status plugin_path_node then Inr []
      else
        rbind (is_list plugin_path_node) (\<lambda>l.
        if l then
          rbind (len plugin_path_node) (\<lambda>n.
          res_list (\<lambda>i. tree_to_string (PC_get plugin_path_node [Idx (int i)])) [0 ..< nat n])
        else rbind (is_scalar plugin_path_node) (\<lambda>sc.
          if sc then rbind (tree_to_string plugin_path_node) (\<lambda>p. Inr [p])
          else throw (spectree_error plugin_path_node ''plugin_path must be a single path or an array of paths''))))"

definition default_paths :: "'x env \<Rightarrow> string list" where
  "default_paths env =
     (if e_default_path env \<noteq> [] \<and> hd (e_default_path env) = CHR ''/'' then [e_default_path env]
      else case e_libpdi env of None \<Rightarrow> [] | Some file \<Rightarrow> [dirname file @ ''/'' @ e_default_path env])"

definition initialize_path :: "'x env \<Rightarrow> pc_tree list \<Rightarrow> string list res" where
  "initialize_path env confs =
     rbind (case e_getenv env of None \<Rightarrow> Inr [] | Some p \<Rightarrow> string_array_parse p) (\<lambda>env_paths.
     rbind (res_list config_paths confs) (\<lambda>yaml_paths.
     Inr (env_paths @ concat yaml_paths @ default_paths env)))"

definition plugin_lib :: "string \<Rightarrow> string" where
  "plugin_lib plugin_name = ''libpdi_'' @ plugin_name @ ''_plugin.so''"

text \<open>The libraries that are tried, each with the end of the message when it cannot be opened.\<close>

definition plugin_candidates :: "'x env \<Rightarrow> string list \<Rightarrow> string \<Rightarrow> (string \<times> string) list" where
  "plugin_candidates env plugin_path plugin_name =
     map (\<lambda>path. (path @ ''/'' @ plugin_lib plugin_name, [])) plugin_path
     @ (if e_default_path env \<noteq> [] \<and> hd (e_default_path env) = CHR ''/'' then []
        else [(e_default_path env @ ''/'' @ plugin_lib plugin_name, '' relative to system path'')])
     @ [(plugin_lib plugin_name, '' from system path'')]"

fun try_dlopen :: "'x env \<Rightarrow> (string \<times> string) list \<Rightarrow> string list \<Rightarrow> string list + nat" where
  "try_dlopen env [] load_errors = Inl load_errors"
| "try_dlopen env ((libname, how) # libs) load_errors =
     (case e_dlopen env libname of
        Inr lib_handle \<Rightarrow> Inr lib_handle
      | Inl error_msg \<Rightarrow> try_dlopen env libs
          (load_errors @ [newline @ ''  * unable to load `'' @ libname @ [CHR 0x27] @ how @ '' '' @ error_msg]))"

definition plugin_dlopen :: "'x env \<Rightarrow> string list \<Rightarrow> string \<Rightarrow> nat res" where
  "plugin_dlopen env plugin_path plugin_name =
     (case try_dlopen env (plugin_candidates env plugin_path plugin_name) [] of
        Inr lib_handle \<Rightarrow> Inr lib_handle
      | Inl load_errors \<Rightarrow> throw (Plugin_error (''Unable to load plugin `'' @ plugin_name @ [CHR 0x27] @ '': ''
          @ fmt_join load_errors '', '')))"

section \<open>Pre-loading\<close>

text \<open>
  The three functions of a plugin are searched in what is already linked, then in its library. When
  the function with the pretty name is in neither, the check after the search looks at another
  function, and a null function is called.
\<close>

definition plugin_symbols :: "'x env \<Rightarrow> string list \<Rightarrow> string \<Rightarrow> unit res" where
  "plugin_symbols env plugin_path name =
     (let symbol = (\<lambda>what. ''PDI_plugin_'' @ name @ what);
          ctr = e_dlsym env None (symbol ''_loader''); deps = e_dlsym env None (symbol ''_dependencies'');
          pretty = e_dlsym env None (symbol ''_pretty_name'') in
      rbind (if \<not> ctr \<or> \<not> deps then rbind (plugin_dlopen env plugin_path name) (\<lambda>h. Inr (Some h)) else Inr None) (\<lambda>lib_handle.
      if \<not> ctr \<and> \<not> e_dlsym env lib_handle (symbol ''_loader'') then
        throw (Plugin_error (''Unable to load plugin constructor for `'' @ name @ [CHR 0x27] @ '': '' @ e_dlerror env))
      else if \<not> deps \<and> \<not> e_dlsym env lib_handle (symbol ''_dependencies'') then
        throw (Plugin_error (''Unable to load plugin dependencies for `'' @ name @ [CHR 0x27] @ '': '' @ e_dlerror env))
      else if \<not> pretty \<and> \<not> e_dlsym env lib_handle (symbol ''_pretty_name'') then Inl UB
      else Inr ()))"

definition Stored_plugin_ctor :: "'x env \<Rightarrow> nat \<Rightarrow> string \<Rightarrow> pc_tree \<Rightarrow> ('x, stored_plugin) world_op" where
  "Stored_plugin_ctor env ctx name conf =
     sx_bind (sx_get (\<lambda>s. m_plugin_path (the_context ctx s))) (\<lambda>plugin_path.
     sx_bind (sx_lift (plugin_symbols env plugin_path name)) (\<lambda>_.
     sx_bind new_logger (\<lambda>l.
     sx_bind (sx_get (\<lambda>s. m_logger (the_context ctx s))) (\<lambda>parent.
     sx_bind (Logger_setup_child env l parent (e_plugin_name env name) (PC_get conf [Key ''logging''])) (\<lambda>_.
     sx_return \<lparr>p_config = conf, p_logger = l, p_dependencies = [], p_loaded = False, p_state = PRELOADED\<rparr>)))))"

section \<open>Loading\<close>

definition find_plugin :: "nat \<Rightarrow> string \<Rightarrow> 'x world_scheme \<Rightarrow> stored_plugin option" where
  "find_plugin ctx name s = map_of (m_plugins (the_context ctx s)) name"

definition upd_plugin :: "nat \<Rightarrow> string \<Rightarrow> (stored_plugin \<Rightarrow> stored_plugin) \<Rightarrow> 'x world_scheme \<Rightarrow> 'x world_scheme" where
  "upd_plugin ctx name f =
     upd_context ctx (\<lambda>c. c\<lparr>m_plugins := map (\<lambda>(n, p). (n, if n = name then f p else p)) (m_plugins c)\<rparr>)"

definition set_plugin_state :: "nat \<Rightarrow> string \<Rightarrow> init_state \<Rightarrow> ('x, unit) world_op" where
  "set_plugin_state ctx name st = sx_modify (upd_plugin ctx name (\<lambda>p. p\<lparr>p_state := st\<rparr>))"

definition add_dependency :: "nat \<Rightarrow> string \<Rightarrow> string \<Rightarrow> ('x, unit) world_op" where
  "add_dependency ctx name dep = sx_modify (upd_plugin ctx name (\<lambda>p. p\<lparr>p_dependencies := p_dependencies p @ [dep]\<rparr>))"

text \<open>
  \<open>ensure_loaded\<close> of the plugin with a name: first what it requires, then what it must come after, then
  itself. A plugin that is met while it is loading is part of a cycle, so the recursion is never
  deeper than the number of plugins.
\<close>

fun ensure_loaded :: "nat \<Rightarrow> 'x env \<Rightarrow> nat \<Rightarrow> string \<Rightarrow> ('x, unit) world_op" where
  "ensure_loaded 0 env ctx name = sx_fail UB"
| "ensure_loaded (Suc n) env ctx name =
     sx_bind (sx_get (find_plugin ctx name)) (\<lambda>plugin.
     case plugin of
       None \<Rightarrow> sx_fail UB
     | Some p \<Rightarrow>
         (case p_state p of
            LOADED \<Rightarrow> sx_return ()
          | LOADING \<Rightarrow> sx_fail (Throw (Impl_error ''Error while initializing plugin: circular dependency between plugins''))
          | PRELOADED \<Rightarrow>
              sx_bind (set_plugin_state ctx name LOADING) (\<lambda>_.
              sx_bind (sx_each (\<lambda>req.
                sx_bind (sx_get (find_plugin ctx req)) (\<lambda>r.
                if r = None then sx_fail (Throw (System_error (''Error while loading plugin `'' @ name @ [CHR 0x27]
                  @ '': required plugin `'' @ req @ [CHR 0x27] @ '' is not loaded'')))
                else sx_bind (add_dependency ctx name req) (\<lambda>_. ensure_loaded n env ctx req)))
                (fst (e_plugin_deps env name))) (\<lambda>_.
              sx_bind (sx_each (\<lambda>pre.
                sx_bind (sx_get (find_plugin ctx pre)) (\<lambda>r.
                if r = None then sx_return ()
                else sx_bind (add_dependency ctx name pre) (\<lambda>_. ensure_loaded n env ctx pre)))
                (snd (e_plugin_deps env name))) (\<lambda>_.
              sx_bind (set_plugin_state ctx name LOADED) (\<lambda>_.
              sx_bind (e_plugin_ctor env name ctx (p_config p)) (\<lambda>_.
              sx_modify (upd_plugin ctx name (\<lambda>p. p\<lparr>p_loaded := True\<rparr>)))))))))"

text \<open>The map of plugins is ordered by name.\<close>

fun string_less :: "string \<Rightarrow> string \<Rightarrow> bool" where
  "string_less [] [] = False"
| "string_less [] (_ # _) = True"
| "string_less (_ # _) [] = False"
| "string_less (c # s) (d # t) =
     ((of_char c :: nat) < of_char d \<or> c = d \<and> string_less s t)"

fun insert_plugin :: "string \<Rightarrow> stored_plugin \<Rightarrow> (string \<times> stored_plugin) list \<Rightarrow> (string \<times> stored_plugin) list" where
  "insert_plugin name p [] = [(name, p)]"
| "insert_plugin name p ((n, q) # ps) =
     (if string_less name n then (name, p) # (n, q) # ps else (n, q) # insert_plugin name p ps)"

definition preload_plugins :: "'x env \<Rightarrow> nat \<Rightarrow> pc_tree \<Rightarrow> ('x, unit) world_op" where
  "preload_plugins env ctx conf =
     sx_each (\<lambda>plugin_id.
       sx_bind (sx_lift (tree_to_string (PC_get conf [Key ''plugins'', Map_key (int plugin_id)]))) (\<lambda>plugin_name.
       sx_bind (sx_get (find_plugin ctx plugin_name)) (\<lambda>old.
       if old \<noteq> None then
         sx_fail (Throw (spectree_error (PC_get conf [Key ''plugins'']) (''Duplicate load of plugin '' @ plugin_name)))
       else
         sx_bind (Stored_plugin_ctor env ctx plugin_name (PC_get conf [Key ''plugins'', Map_val (int plugin_id)])) (\<lambda>p.
         sx_modify (upd_context ctx (\<lambda>c. c\<lparr>m_plugins := insert_plugin plugin_name p (m_plugins c)\<rparr>))))))
       [0 ..< nat (len_dflt (PC_get conf [Key ''plugins'']) 0)]"

text \<open>Every plugin is tried; the exceptions are collected with the name of the plugin.\<close>

fun load_each :: "'x env \<Rightarrow> nat \<Rightarrow> string list \<Rightarrow> ('x, exn list) world_op" where
  "load_each env ctx [] = sx_return []"
| "load_each env ctx (name # names) =
     sx_bind (sx_get (\<lambda>s. length (m_plugins (the_context ctx s)))) (\<lambda>n.
     sx_bind (sx_catch (sx_bind (ensure_loaded (Suc n) env ctx name) (\<lambda>_. sx_return []))
       (\<lambda>e. sx_return [rethrow_with_simple_context e (''while loading plugin `'' @ name @ [CHR 0x27] @ '', '')])) (\<lambda>errors.
     sx_bind (load_each env ctx names) (\<lambda>more. sx_return (errors @ more))))"

definition load_plugins :: "'x env \<Rightarrow> nat \<Rightarrow> pc_tree list \<Rightarrow> ('x, unit) world_op" where
  "load_plugins env ctx confs =
     sx_bind (sx_lift (initialize_path env confs)) (\<lambda>paths.
     sx_bind (sx_modify (upd_context ctx (\<lambda>c. c\<lparr>m_plugin_path := paths\<rparr>))) (\<lambda>_.
     sx_bind (sx_each (preload_plugins env ctx) confs) (\<lambda>_.
     sx_bind (sx_get (\<lambda>s. map fst (m_plugins (the_context ctx s)))) (\<lambda>names.
     sx_bind (load_each env ctx names) (\<lambda>errors.
     sx_lift (rethrow_errors errors []))))))"

section \<open>Destruction\<close>

text \<open>
  A plugin is destroyed when the map has let it go and no plugin that depends on it is left. Plugins
  that depend on each other in a cycle keep each other and are never destroyed.
\<close>

definition unneeded :: "(string \<times> stored_plugin) list \<Rightarrow> string \<times> stored_plugin \<Rightarrow> bool" where
  "unneeded ps np \<longleftrightarrow> list_all (\<lambda>mq. fst np \<notin> set (p_dependencies (snd mq))) ps"

fun destroy_plugins :: "nat \<Rightarrow> 'x env \<Rightarrow> nat \<Rightarrow> ('x, unit) world_op" where
  "destroy_plugins 0 env ctx = sx_return ()"
| "destroy_plugins (Suc n) env ctx =
     sx_bind (sx_get (\<lambda>s. m_plugins (the_context ctx s))) (\<lambda>ps.
     case find (unneeded ps) ps of
       None \<Rightarrow> sx_return ()
     | Some (name, p) \<Rightarrow>
         sx_bind (if p_loaded p then sx_noexcept (e_plugin_dtor env name ctx) else sx_return ()) (\<lambda>_.
         sx_bind (sx_modify (upd_context ctx (\<lambda>c. c\<lparr>m_plugins := filter (\<lambda>mq. fst mq \<noteq> name) (m_plugins c)\<rparr>))) (\<lambda>_.
         destroy_plugins n env ctx)))"

end
