(* ===== verification/Global_Context.thy ===== *)
theory Global_Context
  imports Plugin_Store
begin

text \<open>
  The context (\<open>global_context.cxx\<close>): gathering of the included configurations, loading of the data and
  metadata, construction and destruction, and the singleton.
\<close>

section \<open>Paths in the specification tree\<close>

text \<open>
  \<open>PC_get\<close> with a path that is only known at run time. It is the format of \<open>printf\<close> with no arguments, so a
  percent sign must be followed by another one. A path that does not follow the grammar is an
  error behind the steps before it.
\<close>

fun printf_text :: "string \<Rightarrow> string option" where
  "printf_text [] = Some []"
| "printf_text (c # s) =
     (if c = CHR ''%'' then
        (case s of d # s' \<Rightarrow> if d = CHR ''%'' then map_option (Cons c) (printf_text s') else None | [] \<Rightarrow> None)
      else map_option (Cons c) (printf_text s))"

definition key_char :: "char \<Rightarrow> bool" where
  "key_char c \<longleftrightarrow> c \<notin> set ''.[{<''"

definition index_step :: "(int \<Rightarrow> step) \<Rightarrow> char \<Rightarrow> string \<Rightarrow> (step \<times> string) option" where
  "index_step mk close s =
     (case strtol s of (v, _, r) \<Rightarrow> if r = s then None else case r of c # r' \<Rightarrow> if c = close then Some (mk v, r') else None | [] \<Rightarrow> None)"

definition first_step :: "string \<Rightarrow> (step \<times> string) option" where
  "first_step s =
     (case s of
        [] \<Rightarrow> None
      | c # r \<Rightarrow>
          if c = CHR ''.'' then Some (Key (takeWhile key_char r), dropWhile key_char r)
          else if c = CHR ''['' then index_step Idx (CHR '']'') r
          else if c = CHR ''{'' then index_step Map_key (CHR ''}'') r
          else if c = CHR ''<'' then index_step Map_val (CHR ''>'') r
          else None)"

fun path_steps :: "nat \<Rightarrow> string \<Rightarrow> step list \<times> bool" where
  "path_steps n [] = ([], True)"
| "path_steps 0 s = ([], False)"
| "path_steps (Suc n) s =
     (case first_step s of
        None \<Rightarrow> ([], False)
      | Some (x, r) \<Rightarrow> case path_steps n r of (xs, ok) \<Rightarrow> (x # xs, ok))"

definition PC_get_text :: "pc_tree \<Rightarrow> string \<Rightarrow> pc_tree res" where
  "PC_get_text t path =
     (case printf_text path of
        None \<Rightarrow> Inl UB
      | Some p \<Rightarrow>
          case path_steps (length p) p of (steps, ok) \<Rightarrow>
            let r = PC_get t steps in
            Inr (if ok \<or> PC_status r then r else r\<lparr>pc_err := Some (''Invalid path'' @ newline)\<rparr>))"

section \<open>Included configurations\<close>

text \<open>
  The identity of an \<open>Include_path\<close>: a file path compares by its root, its elements and whether it ends
  with a separator.
\<close>

record include_path =
  ip_file :: string
  ip_ypath :: string

fun split_slash :: "string \<Rightarrow> string \<Rightarrow> string list" where
  "split_slash cur_str [] = [cur_str]"
| "split_slash cur_str (c # s) = (if c = CHR ''/'' then cur_str # split_slash [] s else split_slash (cur_str @ [c]) s)"

definition path_key :: "string \<Rightarrow> bool \<times> string list \<times> bool" where
  "path_key p =
     (let parts = split_slash [] p in
      (p \<noteq> [] \<and> hd p = CHR ''/'', filter (\<lambda>x. x \<noteq> []) parts, p \<noteq> [] \<and> last p = CHR ''/''))"

definition same_path :: "include_path \<Rightarrow> include_path \<Rightarrow> bool" where
  "same_path a b \<longleftrightarrow> path_key (ip_file a) = path_key (ip_file b) \<and> ip_ypath a = ip_ypath b"

definition Include_path_entry :: "pc_tree \<Rightarrow> pc_tree \<Rightarrow> (string option \<times> string option, exn, unit) sx" where
  "Include_path_entry key_tree value_tree =
     sx_bind (sx_lift (tree_to_string key_tree)) (\<lambda>key.
     sx_bind (sx_lift (tree_to_string value_tree)) (\<lambda>value.
     if key = ''file'' then sx_modify (\<lambda>(f, y). (Some value, y))
     else if key = ''subtree'' then sx_modify (\<lambda>(f, y). (f, Some value))
     else sx_fail (Throw (spectree_error key_tree (''unexpected key in include directive: `'' @ key @ [CHR 0x27]
       @ '', only `file'' @ [CHR 0x27] @ '' and `subtree'' @ [CHR 0x27] @ '' allowed'')))))"

definition Include_path_map :: "pc_tree \<Rightarrow> include_path res" where
  "Include_path_map include_directive =
     (case each_pair include_directive Include_path_entry (None, None) of
        (Inl e, _) \<Rightarrow> Inl e
      | (Inr _, (None, _)) \<Rightarrow> throw (spectree_error include_directive (''missing `'' @ [CHR 0x27] @ ''file` key in include directive''))
      | (Inr _, (_, None)) \<Rightarrow> throw (spectree_error include_directive (''missing `'' @ [CHR 0x27] @ ''subtree` key in include directive''))
      | (Inr _, (Some f, Some y)) \<Rightarrow> Inr \<lparr>ip_file = f, ip_ypath = y\<rparr>)"

definition Include_path :: "pc_tree \<Rightarrow> include_path res" where
  "Include_path include_directive =
     rbind (is_map include_directive) (\<lambda>m.
     if m then Include_path_map include_directive
     else rbind (tree_to_string include_directive) (\<lambda>f. Inr \<lparr>ip_file = f, ip_ypath = []\<rparr>))"

definition pc_message :: "pc_tree \<Rightarrow> string" where
  "pc_message t = (case pc_err t of Some e \<Rightarrow> e | None \<Rightarrow> [])"

definition include_tree :: "'x env \<Rightarrow> include_path \<Rightarrow> pc_tree res" where
  "include_tree env path =
     (let result = e_file env (ip_file path) in
      if PC_status result then
        throw (System_error (''Unable to include file `'' @ ip_file path @ [CHR 0x27] @ '': '' @ pc_message result))
      else rbind (PC_get_text result (ip_ypath path)) (\<lambda>result.
        if PC_status result then
          throw (System_error (''Unable to include subtree `'' @ ip_ypath path @ [CHR 0x27] @ '' from file `''
            @ ip_file path @ [CHR 0x27] @ '': '' @ pc_message result))
        else Inr result))"

text \<open>
  The variables of the search: the paths that are being included, the ones that have been, and the
  configurations found, each after the ones it includes.
\<close>

record include_search =
  parents :: "include_path list"
  result_path :: "include_path list"
  result_confs :: "pc_tree list"

definition includes_contain :: "include_path list \<Rightarrow> include_path \<Rightarrow> bool" where
  "includes_contain paths p \<longleftrightarrow> list_ex (same_path p) paths"

text \<open>The context that an error inside an included configuration gets.\<close>

definition included_from :: "include_path \<Rightarrow> exn \<Rightarrow> exn" where
  "included_from p e =
     (case e of
        Spectree_error l w \<Rightarrow> rethrow_with_simple_context e (''included from ('' @ ip_file p @ '')'' @ ip_ypath p)
      | _ \<Rightarrow> e)"

fun get_includes_fuel :: "nat \<Rightarrow> 'x env \<Rightarrow> pc_tree \<Rightarrow> (include_search, exn, unit) sx" where
  "get_includes_fuel 0 env conf = sx_fail UB"
| "get_includes_fuel (Suc n) env conf =
     (let inc_tree = PC_get conf [Key ''include''] in
      sx_bind (if PC_status inc_tree then sx_return ()
               else opt_each inc_tree (\<lambda>include_directive.
                 sx_bind (sx_lift (Include_path include_directive)) (\<lambda>p.
                 sx_bind (sx_get (\<lambda>i. i)) (\<lambda>i.
                 if includes_contain (parents i) p then
                   sx_fail (Throw (spectree_error include_directive (''Circular include of `('' @ ip_file p @ '')'' @ ip_ypath p @ [CHR 0x27])))
                 else if includes_contain (result_path i) p then sx_return ()
                 else
                   sx_bind (sx_modify (\<lambda>i. i\<lparr>parents := p # parents i\<rparr>)) (\<lambda>_.
                   sx_bind (sx_catch
                     (sx_bind (sx_lift (include_tree env p)) (\<lambda>t. (\<lambda>i. get_includes_fuel n env t i)))
                     (\<lambda>e. sx_fail (Throw (included_from p e)))) (\<lambda>_.
                   sx_modify (\<lambda>i. i\<lparr>parents := filter (\<lambda>q. \<not> same_path p q) (parents i),
                     result_path := p # result_path i\<rparr>))))))) (\<lambda>_.
      sx_modify (\<lambda>i. i\<lparr>result_confs := result_confs i @ [conf]\<rparr>)))"

definition get_includes :: "'x env \<Rightarrow> pc_tree \<Rightarrow> pc_tree list res" where
  "get_includes env conf =
     (case get_includes_fuel (e_fuel env) env conf \<lparr>parents = [], result_path = [], result_confs = []\<rparr> of
        (Inl e, _) \<Rightarrow> Inl e
      | (Inr _, i) \<Rightarrow> Inr (result_confs i))"

section \<open>Data and metadata\<close>

text \<open>The local variable is the map with the place where each name was defined.\<close>

definition load_data ::
    "'x env \<Rightarrow> nat \<Rightarrow> pc_tree \<Rightarrow> bool \<Rightarrow> ('x world_scheme \<times> (string \<times> yaml_region option) list, exn, unit) sx" where
  "load_data env ctx node is_metadata =
     each_pair node (\<lambda>key_node value_node.
       sx_bind (sx_lift (tree_to_string key_node)) (\<lambda>data_name.
       sx_bind (sx_get (\<lambda>sl. map_of (snd sl) data_name)) (\<lambda>old.
       case old of
         Some region \<Rightarrow>
           sx_fail (Throw (spectree_error key_node (''redefinition of '' @ [CHR 0x27] @ data_name @ [CHR 0x27]
             @ (if region \<noteq> None then '' previously defined in `'' else []) @ opt_region_to_string region
             @ (if region \<noteq> None then [CHR 0x27] else []))))
       | None \<Rightarrow>
           sx_bind (sx_local (\<lambda>l. l @ [(data_name, Yaml_region_make value_node)])) (\<lambda>_.
           sx_outer (sx_bind (desc ctx data_name) (\<lambda>name.
             sx_bind (set_metadata ctx name is_metadata) (\<lambda>_.
             sx_bind (datatype_of env ctx value_node) (\<lambda>t. set_default_type ctx name t))))))))"

definition load_all_data ::
    "'x env \<Rightarrow> nat \<Rightarrow> string \<Rightarrow> bool \<Rightarrow> pc_tree list \<Rightarrow> ('x world_scheme \<times> (string \<times> yaml_region option) list, exn, unit) sx" where
  "load_all_data env ctx key is_metadata confs =
     sx_each (\<lambda>conf.
       let node = PC_get conf [Key key] in
       if PC_status node then sx_return () else load_data env ctx node is_metadata) confs"

section \<open>Life of a context\<close>

definition empty_context :: "nat \<Rightarrow> global_context" where
  "empty_context l = \<lparr>m_datatype_parsers = [], m_descriptors = [], m_init_callbacks = [],
     m_data_callbacks = [], m_named_data_callbacks = [], m_data_remove_callbacks = [],
     m_named_data_remove_callbacks = [], m_event_callbacks = [], m_named_event_callbacks = [],
     m_empty_desc_access_callbacks = [], m_named_empty_desc_access_callbacks = [],
     m_logger = l, m_plugin_path = [], m_plugins = [], next_key = 0\<rparr>"

definition new_context :: "nat \<Rightarrow> ('x, nat) world_op" where
  "new_context l s = (Inr (length (contexts s)), s\<lparr>contexts := contexts s @ [empty_context l]\<rparr>)"

text \<open>
  The members are destroyed in the reverse of their declaration: the callbacks, then the plugins, then
  the descriptors.
\<close>

definition clear_callbacks :: "nat \<Rightarrow> ('x, unit) world_op" where
  "clear_callbacks ctx = sx_modify (upd_context ctx (\<lambda>c. c\<lparr>m_init_callbacks := [],
     m_data_callbacks := [], m_named_data_callbacks := [], m_data_remove_callbacks := [],
     m_named_data_remove_callbacks := [], m_event_callbacks := [], m_named_event_callbacks := [],
     m_empty_desc_access_callbacks := [], m_named_empty_desc_access_callbacks := []\<rparr>))"

definition destroy_context :: "'x env \<Rightarrow> nat \<Rightarrow> ('x, unit) world_op" where
  "destroy_context env ctx =
     sx_bind (clear_callbacks ctx) (\<lambda>_.
     sx_bind (sx_get (\<lambda>s. length (m_plugins (the_context ctx s)))) (\<lambda>n.
     sx_bind (destroy_plugins n env ctx) (\<lambda>_.
     sx_bind (sx_get (\<lambda>s. map fst (m_descriptors (the_context ctx s)))) (\<lambda>names.
     sx_bind (sx_each (destroy_descriptor ctx) names) (\<lambda>_.
     sx_modify (upd_context ctx (\<lambda>c. c\<lparr>m_descriptors := [], m_datatype_parsers := []\<rparr>)))))))"

definition context_body :: "'x env \<Rightarrow> nat \<Rightarrow> pc_tree \<Rightarrow> ('x, unit) world_op" where
  "context_body env ctx conf =
     sx_bind (sx_lift (get_includes env conf)) (\<lambda>confs.
     sx_bind (load_basic_datatypes env ctx) (\<lambda>_.
     sx_bind (sx_each (\<lambda>conf. load_user_datatypes ctx (PC_get conf [Key ''types''])) confs) (\<lambda>_.
     sx_bind (load_plugins env ctx confs) (\<lambda>_.
     sx_bind (sx_get (\<lambda>s. m_logger (the_context ctx s))) (\<lambda>l.
     sx_bind (evaluate_pattern env l ctx) (\<lambda>_.
     sx_bind (sx_with_local [] (sx_bind (load_all_data env ctx ''metadata'' True confs) (\<lambda>_.
       load_all_data env ctx ''data'' False confs))) (\<lambda>_.
     notify_init env ctx)))))))"

text \<open>The constructor; when its body throws, the members that exist are destroyed.\<close>

definition Global_context_ctor :: "'x env \<Rightarrow> pc_tree \<Rightarrow> ('x, nat) world_op" where
  "Global_context_ctor env conf =
     sx_bind (Logger_ctor env ''PDI'' (PC_get conf [Key ''logging'']) L_info) (\<lambda>l.
     sx_bind (new_context l) (\<lambda>ctx.
     sx_bind (sx_catch (context_body env ctx conf)
       (\<lambda>e. sx_bind (destroy_context env ctx) (\<lambda>_. sx_fail (Throw e)))) (\<lambda>_.
     sx_return ctx)))"

section \<open>The singleton\<close>

definition set_context :: "'x env \<Rightarrow> nat option \<Rightarrow> ('x, unit) world_op" where
  "set_context env c =
     sx_bind (sx_get s_context) (\<lambda>old.
     sx_bind (sx_modify (\<lambda>s. s\<lparr>s_context := c\<rparr>)) (\<lambda>_.
     case old of None \<Rightarrow> sx_return () | Some ctx \<Rightarrow> destroy_context env ctx))"

definition Global_context_init :: "'x env \<Rightarrow> pc_tree \<Rightarrow> ('x, unit) world_op" where
  "Global_context_init env conf = sx_bind (Global_context_ctor env conf) (\<lambda>ctx. set_context env (Some ctx))"

definition initialized :: "('x, bool) world_op" where
  "initialized = sx_get (\<lambda>s. s_context s \<noteq> None)"

definition current_context :: "('x, nat) world_op" where
  "current_context =
     sx_bind (sx_get s_context) (\<lambda>c.
     case c of None \<Rightarrow> sx_fail (Throw (State_error ''PDI not initialized'')) | Some ctx \<Rightarrow> sx_return ctx)"

definition Global_context_finalize :: "'x env \<Rightarrow> ('x, unit) world_op" where
  "Global_context_finalize env = set_context env None"

section \<open>The context of a plugin\<close>

text \<open>
  A \<open>Context_proxy\<close> forwards everything to the real context and has its own logger; a \<open>Timer_event_handler\<close>
  triggers an event at its construction and at its destruction.
\<close>

definition with_timer :: "'x env \<Rightarrow> nat \<Rightarrow> string \<Rightarrow> ('x, 'a) world_op \<Rightarrow> ('x, 'a) world_op" where
  "with_timer env ctx plugin_name f =
     sx_bind (event env ctx (plugin_name @ ''_start_timer'')) (\<lambda>_.
     sx_bind (sx_catch f (\<lambda>e. sx_bind (sx_noexcept (event env ctx (plugin_name @ ''_stop_timer''))) (\<lambda>_. sx_fail (Throw e)))) (\<lambda>x.
     sx_bind (sx_noexcept (event env ctx (plugin_name @ ''_stop_timer''))) (\<lambda>_. sx_return x)))"

end
