(* ===== verification/PDI_API.thy ===== *)
theory PDI_API
  imports Global_Context
begin

text \<open>
  The C interface (\<open>pdi.cxx\<close>): every function catches all exceptions, keeps their message, calls the error
  handler and returns a status; transactions expose data until their end.
\<close>

section \<open>Errors\<close>

text \<open>
  The verbose message. The text of the indentation is made with the arguments of the constructor
  swapped: 32 characters with the code of twice the depth.
\<close>

definition indstr :: "nat \<Rightarrow> string" where
  "indstr indent = replicate 32 (char_of (2 * indent))"

definition verbose_line :: "string \<Rightarrow> nat \<Rightarrow> string" where
  "verbose_line w indent =
     indstr indent @ ''* '' @ concat (map (\<lambda>c. if c = CHR 0x0A then newline @ indstr indent else [c]) w) @ newline"

fun build_verbosemsg :: "exn \<Rightarrow> nat \<Rightarrow> string" where
  "build_verbosemsg (Nested_system_error w e) indent =
     verbose_line w indent @ (if what e = None then [] else build_verbosemsg e (Suc indent))"
| "build_verbosemsg e indent = (case what e of None \<Rightarrow> [] | Some w \<Rightarrow> verbose_line w indent)"

text \<open>The handler; the assert handler ends the process.\<close>

definition call_handler :: "'x env \<Rightarrow> pdi_status \<Rightarrow> string \<Rightarrow> ('x, unit) world_op" where
  "call_handler env status message =
     sx_bind (sx_get g_handler) (\<lambda>h.
     case h of
       PDI_NULL_HANDLER \<Rightarrow> sx_return ()
     | PDI_ASSERT_HANDLER \<Rightarrow> if status \<noteq> PDI_OK then sx_fail UB else sx_return ()
     | PDI_WARN_HANDLER \<Rightarrow> sx_return ()
     | User_handler k \<Rightarrow> e_handler env k status message)"

definition return_err :: "'x env \<Rightarrow> exn \<Rightarrow> ('x, pdi_status) world_op" where
  "return_err env e =
     (let status = (case error_status e of Some s \<Rightarrow> s | None \<Rightarrow> PDI_ERR_SYSTEM);
          message = (if is_pdi_error e then full_msg e else case what e of Some w \<Rightarrow> w | None \<Rightarrow> ''Unexpected error'') in
      sx_bind (sx_modify (\<lambda>s. if is_pdi_error e then s\<lparr>g_verbosemsg := build_verbosemsg e 0\<rparr> else s)) (\<lambda>_.
      sx_bind (sx_modify (\<lambda>s. s\<lparr>g_errmsg := message\<rparr>)) (\<lambda>_.
      sx_bind (call_handler env status message) (\<lambda>_.
      sx_return status))))"

definition guarded :: "'x env \<Rightarrow> ('x, pdi_status) world_op \<Rightarrow> ('x, pdi_status) world_op" where
  "guarded env f = sx_catch f (return_err env)"

definition returning_ok :: "('x, 'a) world_op \<Rightarrow> ('x, pdi_status) world_op" where
  "returning_ok f = sx_bind f (\<lambda>_. sx_return PDI_OK)"

definition PDI_errmsg :: "('x, string) world_op" where
  "PDI_errmsg = sx_get g_errmsg"

definition PDI_errhandler :: "handler \<Rightarrow> ('x, handler) world_op" where
  "PDI_errhandler new_handler =
     sx_bind (sx_get g_handler) (\<lambda>old_handler.
     sx_bind (sx_modify (\<lambda>s. s\<lparr>g_handler := new_handler\<rparr>)) (\<lambda>_. sx_return old_handler))"

section \<open>Initialisation\<close>

definition clear_transaction :: "('x, unit) world_op" where
  "clear_transaction = sx_modify (\<lambda>s. s\<lparr>g_transaction := [], g_transaction_data := []\<rparr>)"

definition PDI_init :: "'x env \<Rightarrow> pc_tree \<Rightarrow> ('x, pdi_status) world_op" where
  "PDI_init env conf =
     guarded env (returning_ok
       (sx_bind clear_transaction (\<lambda>_.
        sx_bind (Global_context_init env conf) (\<lambda>_.
        sx_bind current_context (\<lambda>ctx. event env ctx ''pdi_start_timer'')))))"

definition PDI_finalize :: "'x env \<Rightarrow> ('x, pdi_status) world_op" where
  "PDI_finalize env =
     guarded env (returning_ok
       (sx_bind clear_transaction (\<lambda>_.
        sx_bind current_context (\<lambda>ctx.
        sx_bind (event env ctx ''pdi_stop_timer'') (\<lambda>_.
        Global_context_finalize env)))))"

definition version_number :: "nat \<times> nat \<times> nat \<Rightarrow> nat" where
  "version_number v = (case v of (major, minor, patch) \<Rightarrow> major * 2 ^ 24 + minor * 2 ^ 16 + patch * 2 ^ 8)"

definition PDI_version :: "'x env \<Rightarrow> addr \<Rightarrow> nat \<Rightarrow> ('x, pdi_status) world_op" where
  "PDI_version env provided expected =
     guarded env (returning_ok
       (case e_version env of (major, minor, patch) \<Rightarrow>
        let expected_major = expected div 2 ^ 24 mod 256; expected_minor = expected div 2 ^ 16 mod 256;
            expected_patch = expected div 2 ^ 8 mod 256 in
        sx_bind (if provided \<noteq> 0 then write_mem provided 8 (version_number (e_version env)) else sx_return ()) (\<lambda>_.
        if expected \<noteq> 0 \<and> (expected_major \<noteq> major \<or> minor < expected_minor) then
          sx_fail (Throw (Plugin_error (''Invalid PDI API version: '' @ fmt_nat expected_major @ ''.'' @ fmt_nat expected_minor
            @ ''.'' @ fmt_nat expected_patch @ '', PDI provided version is '' @ fmt_nat major @ ''.'' @ fmt_nat minor @ ''.'' @ fmt_nat patch)))
        else sx_bind current_context (\<lambda>_. sx_return ()))))"

section \<open>Data\<close>

text \<open>The access rights of \<open>PDI_inout_t\<close>: bit 0 is \<open>PDI_IN\<close>, bit 1 is \<open>PDI_OUT\<close>.\<close>

definition pdi_in :: "nat \<Rightarrow> bool" where
  "pdi_in inout \<longleftrightarrow> bit inout 0"

definition pdi_out :: "nat \<Rightarrow> bool" where
  "pdi_out inout \<longleftrightarrow> bit inout 1"

definition PDI_event :: "'x env \<Rightarrow> string \<Rightarrow> ('x, pdi_status) world_op" where
  "PDI_event env name = guarded env (returning_ok (sx_bind current_context (\<lambda>ctx. event env ctx name)))"

definition PDI_share :: "'x env \<Rightarrow> string \<Rightarrow> addr \<Rightarrow> nat \<Rightarrow> ('x, pdi_status) world_op" where
  "PDI_share env name buffer inout =
     guarded env (returning_ok
       (sx_bind current_context (\<lambda>ctx.
        sx_bind (desc ctx name) (\<lambda>d.
        share_data env ctx d buffer (pdi_out inout) (pdi_in inout)))))"

text \<open>The pointer is only set when the access succeeds.\<close>

definition PDI_access :: "'x env \<Rightarrow> string \<Rightarrow> addr \<Rightarrow> nat \<Rightarrow> ('x, pdi_status) world_op" where
  "PDI_access env name buffer inout =
     guarded env (returning_ok
       (sx_bind current_context (\<lambda>ctx.
        sx_bind (desc ctx name) (\<lambda>d.
        sx_bind (with_ref (desc_ref env ctx d) (\<lambda>r. share env ctx d r (pdi_in inout) (pdi_out inout))) (\<lambda>p.
        write_mem buffer 8 p)))))"

definition PDI_release :: "'x env \<Rightarrow> string \<Rightarrow> ('x, pdi_status) world_op" where
  "PDI_release env name =
     guarded env (returning_ok
       (sx_bind current_context (\<lambda>ctx. sx_bind (desc ctx name) (\<lambda>d. desc_release env ctx d))))"

definition PDI_reclaim :: "'x env \<Rightarrow> string \<Rightarrow> ('x, pdi_status) world_op" where
  "PDI_reclaim env name =
     guarded env (returning_ok
       (sx_bind current_context (\<lambda>ctx. sx_bind (desc ctx name) (\<lambda>d. desc_reclaim env ctx d))))"

text \<open>The first error of a transaction is kept.\<close>

definition note_status :: "pdi_status \<Rightarrow> ('x, unit) world_op" where
  "note_status status =
     sx_modify (\<lambda>s. if g_transaction s \<noteq> [] \<and> g_transaction_status s = PDI_OK then s\<lparr>g_transaction_status := status\<rparr> else s)"

definition PDI_expose :: "'x env \<Rightarrow> string \<Rightarrow> addr \<Rightarrow> nat \<Rightarrow> ('x, pdi_status) world_op" where
  "PDI_expose env name data inout =
     sx_catch
       (sx_bind (PDI_share env name data inout) (\<lambda>status.
        if status \<noteq> PDI_OK then sx_bind (note_status status) (\<lambda>_. sx_return status)
        else
          sx_bind (sx_get g_transaction) (\<lambda>t.
          if t \<noteq> [] then
            sx_bind (sx_modify (\<lambda>s. s\<lparr>g_transaction_data := g_transaction_data s @ [c_str name]\<rparr>)) (\<lambda>_. sx_return PDI_OK)
          else PDI_reclaim env name)))
       (\<lambda>e. sx_bind (return_err env e) (\<lambda>status. sx_bind (note_status status) (\<lambda>_. sx_return status)))"

text \<open>The data after the first; the names that were shared are returned with the status.\<close>

fun multi_share :: "'x env \<Rightarrow> (string \<times> addr \<times> nat) list \<Rightarrow> ('x, pdi_status \<times> string list) world_op" where
  "multi_share env [] = sx_return (PDI_OK, [])"
| "multi_share env ((name, data, inout) # rest) =
     sx_bind current_context (\<lambda>_.
     sx_bind (PDI_share env name data inout) (\<lambda>status.
     if status \<noteq> PDI_OK then sx_return (status, [])
     else sx_bind (multi_share env rest) (\<lambda>(status, names). sx_return (status, c_str name # names))))"

fun multi_reclaim :: "'x env \<Rightarrow> string list \<Rightarrow> pdi_status \<Rightarrow> ('x, pdi_status) world_op" where
  "multi_reclaim env [] status = sx_return status"
| "multi_reclaim env (name # names) status =
     sx_bind current_context (\<lambda>_.
     sx_bind (PDI_reclaim env name) (\<lambda>r_status.
     multi_reclaim env names (if status = PDI_OK then r_status else status)))"

definition PDI_multi_expose ::
    "'x env \<Rightarrow> string \<Rightarrow> string \<Rightarrow> addr \<Rightarrow> nat \<Rightarrow> (string \<times> addr \<times> nat) list \<Rightarrow> ('x, pdi_status) world_op" where
  "PDI_multi_expose env event_name name data inout rest =
     guarded env
       (sx_bind (PDI_share env name data inout) (\<lambda>status.
        if status \<noteq> PDI_OK then sx_return status
        else
          sx_bind (multi_share env rest) (\<lambda>(status, names).
          sx_bind (if status = PDI_OK then sx_bind current_context (\<lambda>_. PDI_event env event_name) else sx_return status) (\<lambda>status.
          multi_reclaim env (rev (c_str name # names)) status))))"

section \<open>Transactions\<close>

definition PDI_transaction_begin :: "'x env \<Rightarrow> string \<Rightarrow> ('x, pdi_status) world_op" where
  "PDI_transaction_begin env name =
     guarded env
       (sx_bind (sx_get g_transaction) (\<lambda>t.
        if t \<noteq> [] then sx_fail (Throw (State_error ''Transaction already in progress, cannot start a new one''))
        else
          sx_bind (sx_modify (\<lambda>s. s\<lparr>g_transaction := c_str name, g_transaction_status := PDI_OK\<rparr>)) (\<lambda>_.
          sx_return PDI_OK)))"

text \<open>
  The reclaim of the data walks the list itself from its end: what a callback exposes meanwhile is
  behind the walk, and a callback that clears the list leaves an iterator to nothing. The
  status of the transaction is kept in the state.
\<close>

fun transaction_reclaim :: "'x env \<Rightarrow> nat \<Rightarrow> ('x, unit) world_op" where
  "transaction_reclaim env 0 = sx_return ()"
| "transaction_reclaim env (Suc n) =
     sx_bind (sx_get g_transaction_data) (\<lambda>names.
     if length names \<le> n then sx_fail UB
     else
       sx_bind (PDI_reclaim env (names ! n)) (\<lambda>r_status.
       sx_bind (sx_modify (\<lambda>s. if g_transaction_status s = PDI_OK then s\<lparr>g_transaction_status := r_status\<rparr> else s)) (\<lambda>_.
       transaction_reclaim env n)))"

definition PDI_transaction_end :: "'x env \<Rightarrow> ('x, pdi_status) world_op" where
  "PDI_transaction_end env =
     sx_catch
       (sx_bind (sx_get g_transaction) (\<lambda>t.
        if t = [] then sx_fail (Throw (State_error ''No transaction in progress, cannot end one''))
        else
          sx_bind (sx_get g_transaction_status) (\<lambda>status.
          sx_bind (if status = PDI_OK then
                     sx_bind (PDI_event env t) (\<lambda>r. sx_modify (\<lambda>s. s\<lparr>g_transaction_status := r\<rparr>))
                   else sx_return ()) (\<lambda>_.
          sx_bind (sx_get g_transaction_data) (\<lambda>names.
          sx_bind (transaction_reclaim env (length names)) (\<lambda>_.
          sx_bind clear_transaction (\<lambda>_.
          sx_get g_transaction_status)))))))
       (\<lambda>e. sx_bind (return_err env e) (\<lambda>status.
         sx_bind (sx_modify (\<lambda>s. if g_transaction_status s = PDI_OK then s\<lparr>g_transaction_status := status\<rparr> else s)) (\<lambda>_.
         sx_get g_transaction_status)))"

end
