(* ===== verification/Sample_World.thy ===== *)
theory Sample_World
  imports Context_State
begin

text \<open>
  An environment in which every function of users and plugins does nothing, and a state in which nothing has been
  initialised: the starting points of concrete runs.
\<close>

definition null_env :: "'x env" where
  "null_env =
     \<lparr>e_refs = \<lparr>env_nullify = (\<lambda>_ _. sx_return ()), env_fuel = 10\<rparr>,
      e_init = (\<lambda>_. sx_return ()), e_data = (\<lambda>_ _ _. sx_return ()), e_event = (\<lambda>_ _. sx_return ()),
      e_parser = (\<lambda>_ _ _. sx_return (Evaluated UNDEF_TYPE)), e_handler = (\<lambda>_ _ _. sx_return ()),
      e_format = (\<lambda>_ _. Inr []), e_file = (\<lambda>_. \<lparr>pc_err = Some ''no file'', pc_node = None\<rparr>),
      e_log_file = (\<lambda>_. Inr ()), e_version = (1, 8, 0), e_fortran_kinds = None,
      e_getenv = None, e_default_path = ''/usr/lib/pdi'', e_libpdi = None,
      e_dlopen = (\<lambda>_. Inl ''not found''), e_dlsym = (\<lambda>_ _. False), e_dlerror = [],
      e_plugin_deps = (\<lambda>_. ([], [])), e_plugin_name = (\<lambda>n. n),
      e_plugin_ctor = (\<lambda>_ _ _. sx_return ()), e_plugin_dtor = (\<lambda>_ _. sx_return ()), e_fuel = 10\<rparr>"

definition null_context :: global_context where
  "null_context = \<lparr>m_datatype_parsers = [], m_descriptors = [], m_init_callbacks = [],
     m_data_callbacks = [], m_named_data_callbacks = [], m_data_remove_callbacks = [],
     m_named_data_remove_callbacks = [], m_event_callbacks = [], m_named_event_callbacks = [],
     m_empty_desc_access_callbacks = [], m_named_empty_desc_access_callbacks = [],
     m_logger = 0, m_plugin_path = [], m_plugins = [], next_key = 0\<rparr>"

text \<open>A state with one context, which is the current one.\<close>

definition null_world :: "global_context \<Rightarrow> world" where
  "null_world c =
     \<lparr>refs = [], contents = [], buffers = [], memory = (\<lambda>_. 0), heap_top = 4096, allocated = [], freed = [],
      contexts = [c], s_context = Some 0, loggers = [], g_handler = PDI_NULL_HANDLER, g_errmsg = [], g_verbosemsg = [],
      g_transaction = [], g_transaction_status = PDI_OK, g_transaction_data = []\<rparr>"

end
