(* ===== verification/Plugin_Correct.thy ===== *)
theory Plugin_Correct
  imports Plugin_Store Sample_World
begin

text \<open>
  Correctness of the plugin store: a path written with escapes is read back, every plugin is loaded after the
  ones it depends on, and loading comes to an end. The last lemma records what happens when the
  constructor of a plugin fails.
\<close>

section \<open>Paths\<close>

definition escape_path :: "string \<Rightarrow> string" where
  "escape_path p = concat (map (\<lambda>c. if c = CHR '':'' \<or> c = CHR 0x5C then [CHR 0x5C, c] else [c]) p)"

fun join_paths :: "string list \<Rightarrow> string" where
  "join_paths [] = []"
| "join_paths [p] = escape_path p"
| "join_paths (p # ps) = escape_path p @ '':'' @ join_paths ps"

lemma string_array_from_escape:
  "string_array_from cur_str (escape_path p @ rest) = string_array_from (cur_str @ p) rest"
  by (induction p arbitrary: cur_str) (auto simp: escape_path_def)

lemma string_array_from_join:
  "ps \<noteq> [] \<Longrightarrow> string_array_from cur_str (join_paths ps) = Inr ((cur_str @ hd ps) # tl ps)"
proof (induction ps arbitrary: cur_str rule: join_paths.induct)
  case (2 p)
  then show ?case using string_array_from_escape [of cur_str p "[]"] by simp
next
  case (3 p q ps)
  have "string_array_from [] (join_paths (q # ps)) = Inr (q # ps)" using 3(1) [of "[]"] by simp
  then show ?case by (simp add: string_array_from_escape)
qed simp

text \<open>
  (C38) A list of paths that is written with colons between the elements and a backslash before each colon and
  backslash of an element is read back by \<open>string_array_parse\<close> as the same list.
\<close>

theorem string_array_round_trip: "ps \<noteq> [] \<Longrightarrow> string_array_parse (join_paths ps) = Inr ps"
  by (simp add: string_array_parse_def string_array_from_join)

theorem string_array_round_trip_witness:
  "string_array_parse ''/usr/lib:C'' = Inr [''/usr/lib'', ''C'']
   \<and> join_paths [''C:'', ''/usr/lib''] = [CHR ''C'', CHR 0x5C, CHR '':''] @ '':/usr/lib''
   \<and> string_array_parse ([CHR ''C'', CHR 0x5C, CHR '':''] @ '':/usr/lib'') = Inr [''C:'', ''/usr/lib'']"
proof -
  have "join_paths [''C:'', ''/usr/lib''] = [CHR ''C'', CHR 0x5C, CHR '':''] @ '':/usr/lib''"
    "join_paths [''/usr/lib'', ''C''] = ''/usr/lib:C''" by code_simp+
  with string_array_round_trip [of "[''C:'', ''/usr/lib'']"] string_array_round_trip [of "[''/usr/lib'', ''C'']"]
  show ?thesis by simp
qed

section \<open>The store of plugins\<close>

lemma the_context_upd [simp]: "ctx < length (contexts s) \<Longrightarrow> the_context ctx (upd_context ctx f s) = f (the_context ctx s)"
  by (simp add: the_context_def upd_context_def)

lemma contexts_upd [simp]: "length (contexts (upd_context ctx f s)) = length (contexts s)"
  by (simp add: upd_context_def)

lemma map_of_map_update:
  "map_of (map (\<lambda>(n, p). (n, if n = name then f p else p)) xs) k = map_option (if k = name then f else (\<lambda>p. p)) (map_of xs k)"
  by (induction xs) auto

lemma find_plugin_upd:
  "ctx < length (contexts s) \<Longrightarrow>
   find_plugin ctx k (upd_plugin ctx name f s) = map_option (if k = name then f else (\<lambda>p. p)) (find_plugin ctx k s)"
  by (simp add: find_plugin_def upd_plugin_def map_of_map_update)

lemma contexts_upd_plugin [simp]: "length (contexts (upd_plugin ctx name f s)) = length (contexts s)"
  by (simp add: upd_plugin_def)

definition plugin_loaded :: "nat \<Rightarrow> string \<Rightarrow> 'x world_scheme \<Rightarrow> bool" where
  "plugin_loaded ctx name s = (case find_plugin ctx name s of Some p \<Rightarrow> p_state p = LOADED \<and> p_loaded p | None \<Rightarrow> False)"

text \<open>What a plugin requires, and what it must come after among the plugins of the store, is loaded.\<close>

definition plugin_ready :: "'x env \<Rightarrow> nat \<Rightarrow> string \<Rightarrow> 'x world_scheme \<Rightarrow> bool" where
  "plugin_ready env ctx name s \<longleftrightarrow>
     list_all (\<lambda>r. plugin_loaded ctx r s) (fst (e_plugin_deps env name))
     \<and> list_all (\<lambda>r. find_plugin ctx r s = None \<or> plugin_loaded ctx r s) (snd (e_plugin_deps env name))"

text \<open>
  Constructors that succeed once their plugin is ready, and that leave the store of plugins alone.
  Nothing is known about one that is called too early.
\<close>

definition good_constructors :: "'x env \<Rightarrow> nat \<Rightarrow> bool" where
  "good_constructors env ctx \<longleftrightarrow>
     (\<forall>name conf s. plugin_ready env ctx name s \<longrightarrow>
       (\<exists>s'. e_plugin_ctor env name ctx conf s = (Inr (), s') \<and> length (contexts s') = length (contexts s)
         \<and> m_plugins (the_context ctx s') = m_plugins (the_context ctx s)))"

definition waiting :: "nat \<Rightarrow> 'x world_scheme \<Rightarrow> string set" where
  "waiting ctx s = {name. \<exists>p. find_plugin ctx name s = Some p \<and> p_state p = PRELOADED}"

definition in_store :: "nat \<Rightarrow> 'x world_scheme \<Rightarrow> string set" where
  "in_store ctx s = {name. find_plugin ctx name s \<noteq> None}"

text \<open>What one step of loading may change: fewer plugins wait, the loaded ones stay, the store holds the same names.\<close>

definition loads :: "nat \<Rightarrow> 'x world_scheme \<Rightarrow> 'x world_scheme \<Rightarrow> bool" where
  "loads ctx s s' \<longleftrightarrow> ctx < length (contexts s') \<and> in_store ctx s' = in_store ctx s \<and> waiting ctx s' \<subseteq> waiting ctx s
     \<and> (\<forall>name. plugin_loaded ctx name s \<longrightarrow> plugin_loaded ctx name s')
     \<and> (\<forall>name p. find_plugin ctx name s' = Some p \<and> p_state p = LOADED \<longrightarrow> p_loaded p)"

definition store_ok :: "nat \<Rightarrow> 'x world_scheme \<Rightarrow> bool" where
  "store_ok ctx s \<longleftrightarrow> ctx < length (contexts s)
     \<and> (\<forall>name p. find_plugin ctx name s = Some p \<and> p_state p = LOADED \<longrightarrow> p_loaded p)"

lemma store_ok_loads: "store_ok ctx s \<longleftrightarrow> loads ctx s s"
  by (auto simp: store_ok_def loads_def)

lemma loads_trans: "loads ctx s s' \<Longrightarrow> loads ctx s' s'' \<Longrightarrow> loads ctx s s''"
  unfolding loads_def by blast

lemma loads_ok: "loads ctx s s' \<Longrightarrow> store_ok ctx s'"
  unfolding loads_def store_ok_def by blast

lemma waiting_finite: "finite (waiting ctx s)"
proof -
  have "waiting ctx s \<subseteq> fst ` set (m_plugins (the_context ctx s))"
    by (auto simp: waiting_def find_plugin_def dest!: map_of_SomeD intro: rev_image_eqI)
  then show ?thesis using finite_subset by blast
qed

lemma waiting_card: "card (waiting ctx s) \<le> length (m_plugins (the_context ctx s))"
proof -
  have "waiting ctx s \<subseteq> fst ` set (m_plugins (the_context ctx s))"
    by (auto simp: waiting_def find_plugin_def dest!: map_of_SomeD intro: rev_image_eqI)
  then have "card (waiting ctx s) \<le> card (fst ` set (m_plugins (the_context ctx s)))" by (intro card_mono) auto
  also have "\<dots> \<le> length (m_plugins (the_context ctx s))"
    by (metis card_length length_map list.set_map)
  finally show ?thesis .
qed

lemma loads_upd:
  assumes "store_ok ctx s" "\<And>p. p_state (f p) = p_state p" "\<And>p. p_loaded (f p) = p_loaded p"
  shows "loads ctx s (upd_plugin ctx name f s)"
  using assms by (auto simp: loads_def store_ok_def in_store_def waiting_def plugin_loaded_def find_plugin_upd split: option.splits if_splits)

text \<open>A step of a loop over dependencies that keeps the store in order.\<close>

lemma sx_each_loads:
  assumes "store_ok ctx s" and
    "\<And>x s'. x \<in> set xs \<Longrightarrow> loads ctx s s' \<Longrightarrow> fst (f x s') \<noteq> Inl UB \<and> loads ctx s' (snd (f x s'))
       \<and> (fst (f x s') = Inr () \<longrightarrow> P x (snd (f x s')))"
    and "\<And>x s' s''. P x s' \<Longrightarrow> loads ctx s' s'' \<Longrightarrow> P x s''"
  shows "fst (sx_each f xs s) \<noteq> Inl UB \<and> loads ctx s (snd (sx_each f xs s))
    \<and> (fst (sx_each f xs s) = Inr () \<longrightarrow> (\<forall>x \<in> set xs. P x (snd (sx_each f xs s))))"
  using assms(1,2)
proof (induction xs arbitrary: s)
  case Nil
  then show ?case by (simp add: sx_return_def store_ok_loads)
next
  case (Cons x xs)
  obtain r s1 where f: "f x s = (r, s1)" by fastforce
  have l: "loads ctx s s1" "r \<noteq> Inl UB" "r = Inr () \<longrightarrow> P x s1"
    using Cons.prems(2) [of x s] Cons.prems(1) f by (auto simp: store_ok_loads)
  show ?case
  proof (cases r)
    case (Inl e)
    then show ?thesis using f l by (simp add: sx_bind_def)
  next
    case (Inr u)
    have "loads ctx s1 s' \<Longrightarrow> loads ctx s s'" for s' using l(1) loads_trans by blast
    then have IH: "fst (sx_each f xs s1) \<noteq> Inl UB \<and> loads ctx s1 (snd (sx_each f xs s1))
        \<and> (fst (sx_each f xs s1) = Inr () \<longrightarrow> (\<forall>x \<in> set xs. P x (snd (sx_each f xs s1))))"
      using Cons.prems(2) loads_ok [OF l(1)] by (intro Cons.IH) auto
    have "P x (snd (sx_each f xs s1))" using IH l(3) Inr assms(3) by simp
    then show ?thesis using f Inr IH l(1) loads_trans by (auto simp: sx_bind_def)
  qed
qed

lemma absent_iff: "find_plugin ctx x s = None \<longleftrightarrow> x \<notin> in_store ctx s"
  by (simp add: in_store_def)

lemma loaded_mono: "plugin_loaded ctx x s \<Longrightarrow> loads ctx s s' \<Longrightarrow> plugin_loaded ctx x s'"
  by (simp add: loads_def)

text \<open>The end of \<open>ensure_loaded\<close>: the plugin itself.\<close>

definition construct_plugin :: "'x env \<Rightarrow> nat \<Rightarrow> string \<Rightarrow> pc_tree \<Rightarrow> ('x, unit) world_op" where
  "construct_plugin env ctx name conf =
     sx_bind (set_plugin_state ctx name LOADED) (\<lambda>_.
     sx_bind (e_plugin_ctor env name ctx conf) (\<lambda>_.
     sx_modify (upd_plugin ctx name (\<lambda>p. p\<lparr>p_loaded := True\<rparr>))))"

lemma construct_plugin_loads:
  assumes "good_constructors env ctx" "store_ok ctx s" "name \<in> in_store ctx s" "plugin_ready env ctx name s"
  shows "fst (construct_plugin env ctx name conf s) = Inr () \<and> loads ctx s (snd (construct_plugin env ctx name conf s))
    \<and> plugin_loaded ctx name (snd (construct_plugin env ctx name conf s))"
proof -
  define s1 where "s1 = upd_plugin ctx name (\<lambda>p. p\<lparr>p_state := LOADED\<rparr>) s"
  have ctx: "ctx < length (contexts s)" using assms(2) by (simp add: store_ok_def)
  have "plugin_loaded ctx x s \<Longrightarrow> plugin_loaded ctx x s1" "find_plugin ctx x s = None \<Longrightarrow> find_plugin ctx x s1 = None" for x
    using ctx by (auto simp: s1_def plugin_loaded_def find_plugin_upd split: option.splits)
  then have "plugin_ready env ctx name s1"
    using assms(4) unfolding plugin_ready_def list_all_iff by metis
  then obtain s2 where s2: "e_plugin_ctor env name ctx conf s1 = (Inr (), s2)" "length (contexts s2) = length (contexts s1)"
      "m_plugins (the_context ctx s2) = m_plugins (the_context ctx s1)"
    using assms(1) unfolding good_constructors_def by blast
  have find: "find_plugin ctx x (upd_plugin ctx name (\<lambda>p. p\<lparr>p_loaded := True\<rparr>) s2) =
      map_option (if x = name then (\<lambda>p. p\<lparr>p_state := LOADED, p_loaded := True\<rparr>) else (\<lambda>p. p)) (find_plugin ctx x s)" for x
  proof -
    have "find_plugin ctx x s2 = find_plugin ctx x s1" using s2(3) by (simp add: find_plugin_def)
    then show ?thesis using ctx s2(2) by (auto simp: find_plugin_upd s1_def option.map_comp comp_def)
  qed
  obtain p where p: "find_plugin ctx name s = Some p" using assms(3) by (auto simp: in_store_def)
  have "construct_plugin env ctx name conf s = (Inr (), upd_plugin ctx name (\<lambda>p. p\<lparr>p_loaded := True\<rparr>) s2)"
    using s2(1) by (simp add: construct_plugin_def set_plugin_state_def sx_bind_def sx_modify_def s1_def)
  then show ?thesis
    using assms(2) ctx s2(2) p
    by (auto simp: loads_def store_ok_def in_store_def waiting_def plugin_loaded_def find s1_def split: option.splits if_splits)
qed

text \<open>An operation that does not end the process, only loads, and makes a predicate true when it returns.\<close>

definition loading :: "nat \<Rightarrow> ('x world_scheme \<Rightarrow> bool) \<Rightarrow> ('x, unit) world_op \<Rightarrow> 'x world_scheme \<Rightarrow> bool" where
  "loading ctx P f s \<longleftrightarrow> fst (f s) \<noteq> Inl UB \<and> loads ctx s (snd (f s)) \<and> (fst (f s) = Inr () \<longrightarrow> P (snd (f s)))"

lemma loading_bind:
  assumes f: "loading ctx P f s" and g: "\<And>s'. loads ctx s s' \<Longrightarrow> P s' \<Longrightarrow> loading ctx Q (g ()) s'"
  shows "loading ctx Q (sx_bind f g) s"
proof -
  obtain r s' where "f s = (r, s')" by fastforce
  then show ?thesis using f g [of s'] loads_trans by (cases r) (auto simp: loading_def sx_bind_def)
qed

lemma loading_each:
  assumes "store_ok ctx s" "\<And>x s'. loads ctx s s' \<Longrightarrow> loading ctx (P x) (f x) s'" "\<And>x s' s''. P x s' \<Longrightarrow> loads ctx s' s'' \<Longrightarrow> P x s''"
  shows "loading ctx (\<lambda>s'. \<forall>x \<in> set xs. P x s') (sx_each f xs) s"
  using sx_each_loads [of ctx s xs f P] assms unfolding loading_def by blast

text \<open>The treatment of a dependency; \<open>missing\<close> is what happens when it is not in the store.\<close>

definition load_dependency :: "nat \<Rightarrow> 'x env \<Rightarrow> nat \<Rightarrow> string \<Rightarrow> (string \<Rightarrow> ('x, unit) world_op) \<Rightarrow> string \<Rightarrow> ('x, unit) world_op" where
  "load_dependency n env ctx name missing x =
     sx_bind (sx_get (find_plugin ctx x)) (\<lambda>r.
     if r = None then missing x else sx_bind (add_dependency ctx name x) (\<lambda>_. ensure_loaded n env ctx x))"

lemma loading_dependency:
  assumes l: "store_ok ctx s" and step: "\<And>s'. loads ctx s s' \<Longrightarrow> x \<in> in_store ctx s' \<Longrightarrow> loading ctx (plugin_loaded ctx x) (ensure_loaded n env ctx x) s'"
    and missing: "find_plugin ctx x s = None \<Longrightarrow> loading ctx Q (missing x) s" and Q: "\<And>s. plugin_loaded ctx x s \<Longrightarrow> Q s"
  shows "loading ctx Q (load_dependency n env ctx name missing x) s"
proof (cases "find_plugin ctx x s = None")
  case True
  with missing show ?thesis by (simp add: load_dependency_def loading_def sx_bind_def [of "sx_get _"])
next
  case False
  define t where "t = upd_plugin ctx name (\<lambda>p. p\<lparr>p_dependencies := p_dependencies p @ [x]\<rparr>) s"
  have t: "loads ctx s t" unfolding t_def using l by (intro loads_upd) auto
  then have "x \<in> in_store ctx t" using False by (simp add: loads_def in_store_def)
  from step [OF t this] show ?thesis
    using False Q loads_trans [OF t] by (auto simp: load_dependency_def loading_def sx_bind_def add_dependency_def sx_modify_def t_def)
qed

lemma ensure_loaded_preloaded:
  assumes "find_plugin ctx name s = Some p" "p_state p = PRELOADED"
  shows "ensure_loaded (Suc n) env ctx name s =
    sx_bind (sx_each (load_dependency n env ctx name (\<lambda>x. sx_fail (Throw (System_error (''Error while loading plugin `'' @ name @ [CHR 0x27]
        @ '': required plugin `'' @ x @ [CHR 0x27] @ '' is not loaded''))))) (fst (e_plugin_deps env name))) (\<lambda>_.
    sx_bind (sx_each (load_dependency n env ctx name (\<lambda>_. sx_return ())) (snd (e_plugin_deps env name))) (\<lambda>_.
    construct_plugin env ctx name (p_config p))) (upd_plugin ctx name (\<lambda>p. p\<lparr>p_state := LOADING\<rparr>) s)"
  unfolding load_dependency_def [abs_def] construct_plugin_def using assms by (simp add: set_plugin_state_def)

lemma loads_mark:
  assumes "store_ok ctx s" "find_plugin ctx name s = Some p" "p_state p = PRELOADED"
  shows "loads ctx s (upd_plugin ctx name (\<lambda>p. p\<lparr>p_state := LOADING\<rparr>) s)" "card (waiting ctx (upd_plugin ctx name (\<lambda>p. p\<lparr>p_state := LOADING\<rparr>) s)) < card (waiting ctx s)"
proof -
  let ?s1 = "upd_plugin ctx name (\<lambda>p. p\<lparr>p_state := LOADING\<rparr>) s"
  show "loads ctx s ?s1"
    using assms by (auto simp: loads_def store_ok_def in_store_def waiting_def plugin_loaded_def find_plugin_upd split: option.splits if_splits)
  have w: "waiting ctx ?s1 = waiting ctx s - {name}"
    using assms(1) by (auto simp: store_ok_def waiting_def find_plugin_upd split: if_splits)
  show "card (waiting ctx ?s1) < card (waiting ctx s)"
    unfolding w by (rule card_Diff1_less [OF waiting_finite]) (use assms in \<open>simp add: waiting_def\<close>)
qed

lemma ensure_loaded_loads:
  assumes "good_constructors env ctx"
  shows "store_ok ctx s \<Longrightarrow> name \<in> in_store ctx s \<Longrightarrow> card (waiting ctx s) < n \<Longrightarrow> loading ctx (plugin_loaded ctx name) (ensure_loaded n env ctx name) s"
proof (induction n arbitrary: name s)
  case 0
  then show ?case by simp
next
  case (Suc n)
  obtain p where p: "find_plugin ctx name s = Some p" using Suc.prems(2) by (auto simp: in_store_def)
  show ?case
  proof (cases "p_state p = PRELOADED")
    case False
    have "p_state p = LOADED \<Longrightarrow> p_loaded p" using Suc.prems(1) p by (auto simp: store_ok_def)
    then show ?thesis using False p Suc.prems(1)
      by (cases "p_state p") (simp_all add: loading_def sx_bind_def sx_get_def sx_return_def sx_fail_def plugin_loaded_def store_ok_loads)
  next
    case True
    define s1 where "s1 = upd_plugin ctx name (\<lambda>p. p\<lparr>p_state := LOADING\<rparr>) s"
    note mark = loads_mark [OF Suc.prems(1) p True, folded s1_def]
    let ?Q = "\<lambda>x s'. find_plugin ctx x s' = None \<or> plugin_loaded ctx x s'"
    have step: "loading ctx (plugin_loaded ctx x) (ensure_loaded n env ctx x) s'" if "loads ctx s1 s'" "x \<in> in_store ctx s'" for x s'
    proof (rule Suc.IH [OF loads_ok [OF that(1)] that(2)])
      have "card (waiting ctx s') \<le> card (waiting ctx s1)" using that(1) by (intro card_mono waiting_finite) (simp add: loads_def)
      then show "card (waiting ctx s') < n" using mark(2) Suc.prems(3) by linarith
    qed
    have Q_mono: "?Q x s' \<Longrightarrow> loads ctx s' s'' \<Longrightarrow> ?Q x s''" for x s' s''
      using loaded_mono [of ctx x s' s''] unfolding absent_iff loads_def by blast
    have construct: "loading ctx (plugin_loaded ctx name) (construct_plugin env ctx name (p_config p)) s3"
      if "loads ctx s1 s3" "\<forall>x \<in> set (fst (e_plugin_deps env name)). plugin_loaded ctx x s3" "\<forall>x \<in> set (snd (e_plugin_deps env name)). ?Q x s3" for s3
      using construct_plugin_loads [OF assms loads_ok [OF that(1)], of name "p_config p"] that loads_trans [OF mark(1) that(1)] Suc.prems(2)
      unfolding plugin_ready_def list_all_iff loading_def by (auto simp: loads_def)
    have "loading ctx (plugin_loaded ctx name)
      (sx_bind (sx_each (load_dependency n env ctx name (\<lambda>x. sx_fail (Throw (System_error (''Error while loading plugin `'' @ name @ [CHR 0x27]
        @ '': required plugin `'' @ x @ [CHR 0x27] @ '' is not loaded''))))) (fst (e_plugin_deps env name))) (\<lambda>_.
      sx_bind (sx_each (load_dependency n env ctx name (\<lambda>_. sx_return ())) (snd (e_plugin_deps env name))) (\<lambda>_.
      construct_plugin env ctx name (p_config p)))) s1"
    proof (rule loading_bind [OF loading_each [where P = "plugin_loaded ctx"]])
      show "loading ctx (plugin_loaded ctx x) (load_dependency n env ctx name (\<lambda>x. sx_fail (Throw (System_error (''Error while loading plugin `'' @ name @ [CHR 0x27]
        @ '': required plugin `'' @ x @ [CHR 0x27] @ '' is not loaded'')))) x) s'" if "loads ctx s1 s'" for x s'
        using loads_ok [OF that] loads_trans [OF that] step
        by (intro loading_dependency) (auto simp: loading_def sx_fail_def store_ok_loads)
      fix s2 assume 2: "loads ctx s1 s2" and req: "\<forall>x \<in> set (fst (e_plugin_deps env name)). plugin_loaded ctx x s2"
      show "loading ctx (plugin_loaded ctx name) (sx_bind (sx_each (load_dependency n env ctx name (\<lambda>_. sx_return ())) (snd (e_plugin_deps env name))) (\<lambda>_.
        construct_plugin env ctx name (p_config p))) s2"
      proof (rule loading_bind [OF loading_each [where P = ?Q]])
        show "loading ctx (?Q x) (load_dependency n env ctx name (\<lambda>_. sx_return ()) x) s'" if "loads ctx s2 s'" for x s'
          using loads_ok [OF that] loads_trans [OF loads_trans [OF 2 that]] step
          by (intro loading_dependency) (auto simp: loading_def sx_return_def store_ok_loads)
        show "store_ok ctx s2" by (rule loads_ok [OF 2])
        show "?Q x s'' " if "?Q x s'" "loads ctx s' s''" for x s' s'' by (rule Q_mono [OF that])
        fix s3 assume 3: "loads ctx s2 s3" and pre: "\<forall>x \<in> set (snd (e_plugin_deps env name)). ?Q x s3"
        have "\<forall>x \<in> set (fst (e_plugin_deps env name)). plugin_loaded ctx x s3" using req 3 loaded_mono by blast
        then show "loading ctx (plugin_loaded ctx name) (construct_plugin env ctx name (p_config p)) s3"
          by (rule construct [OF loads_trans [OF 2 3] _ pre])
      qed
    qed (rule loads_ok [OF mark(1)], rule loaded_mono)
    then show ?thesis unfolding loading_def ensure_loaded_preloaded [OF p True] s1_def [symmetric] using loads_trans [OF mark(1)] by blast
  qed
qed

text \<open>Loading of all plugins in the order of the map.\<close>

lemma load_each_loads:
  assumes "good_constructors env ctx"
  shows "store_ok ctx s \<Longrightarrow> set names \<subseteq> in_store ctx s \<Longrightarrow>
    (\<exists>errors. fst (load_each env ctx names s) = Inr errors \<and>
       (errors = [] \<longrightarrow> (\<forall>name \<in> set names. plugin_loaded ctx name (snd (load_each env ctx names s)))))
    \<and> loads ctx s (snd (load_each env ctx names s))"
proof (induction names arbitrary: s)
  case Nil
  then show ?case by (simp add: sx_return_def store_ok_loads)
next
  case (Cons name names)
  let ?n = "Suc (length (m_plugins (the_context ctx s)))"
  have "card (waiting ctx s) < ?n" using waiting_card [of ctx s] by simp
  then have e: "fst (ensure_loaded ?n env ctx name s) \<noteq> Inl UB" "loads ctx s (snd (ensure_loaded ?n env ctx name s))"
      "fst (ensure_loaded ?n env ctx name s) = Inr () \<Longrightarrow> plugin_loaded ctx name (snd (ensure_loaded ?n env ctx name s))"
    using ensure_loaded_loads [OF assms Cons.prems(1), of name ?n] Cons.prems(2) by (auto simp: loading_def)
  obtain r s1 where s1: "ensure_loaded ?n env ctx name s = (r, s1)" by fastforce
  define es where "es = (case r of Inr _ \<Rightarrow> [] | Inl (Throw x) \<Rightarrow>
    [rethrow_with_simple_context x (''while loading plugin `'' @ name @ [CHR 0x27] @ '', '')] | Inl UB \<Rightarrow> [])"
  have "set names \<subseteq> in_store ctx s1" using Cons.prems(2) e(2) s1 by (simp add: loads_def)
  then obtain errors where IH: "fst (load_each env ctx names s1) = Inr errors"
      "errors = [] \<Longrightarrow> \<forall>name \<in> set names. plugin_loaded ctx name (snd (load_each env ctx names s1))"
      "loads ctx s1 (snd (load_each env ctx names s1))"
    using Cons.IH [OF loads_ok [OF e(2)]] s1 by auto
  obtain s2 where s2: "load_each env ctx names s1 = (Inr errors, s2)" using IH(1) by (metis prod.collapse)
  have "load_each env ctx (name # names) s = (Inr (es @ errors), s2)"
    using s1 e(1) s2
    by (auto simp: sx_bind_def sx_get_def sx_catch_def sx_return_def es_def simp del: ensure_loaded.simps split: sum.splits fault.splits)
  moreover have "plugin_loaded ctx name s2" if "es = []"
  proof -
    have "r = Inr ()" using that e(1) s1 by (auto simp: es_def split: sum.splits fault.splits)
    then show ?thesis using e(3) s1 s2 IH(3) loaded_mono by (metis fst_conv snd_conv)
  qed
  ultimately show ?case using IH s2 loads_trans [OF e(2)] s1 by auto
qed


definition sample_plugin :: stored_plugin where
  "sample_plugin = \<lparr>p_config = \<lparr>pc_err = None, pc_node = None\<rparr>, p_logger = 0, p_dependencies = [], p_loaded = False,
     p_state = PRELOADED\<rparr>"

text \<open>Three plugins; the first two require the third, whose constructor is given.\<close>

definition sample_plugins :: world where
  "sample_plugins = null_world (null_context\<lparr>m_plugins := [(''a'', sample_plugin), (''b'', sample_plugin), (''c'', sample_plugin)]\<rparr>)"

definition sample_plugin_env :: "(string \<Rightarrow> world \<Rightarrow> exn fault + unit) \<Rightarrow> unit env" where
  "sample_plugin_env ctor = null_env\<lparr>e_plugin_deps := (\<lambda>n. if n = ''c'' then ([], []) else ([''c''], [])),
     e_plugin_ctor := (\<lambda>n ctx conf s. (ctor n s, s))\<rparr>"


text \<open>
  The state of a plugin is set to loaded before its constructor runs. When the constructor throws, the
  next plugin that requires it is loaded all the same.
\<close>

lemma loaded_after_failed_requirement:
  "let (r, s') = load_each (sample_plugin_env (\<lambda>n s. if n = ''c'' then throw (System_error ''no'') else Inr ()))
         0 [''a'', ''b'', ''c''] sample_plugins
   in map_option p_loaded (find_plugin 0 ''b'' s') = Some True \<and> map_option p_loaded (find_plugin 0 ''c'' s') = Some False
     \<and> fst (e_plugin_deps (sample_plugin_env (\<lambda>n s. Inr ())) ''b'') = [''c'']"
  by code_simp

end
