(* ===== verification/Context_Correct.thy ===== *)
theory Context_Correct
  imports Global_Context Sample_World
begin

text \<open>
  Correctness of the context: a notification calls every callback whatever the ones before it did, and the
  search for included configurations ends and puts every configuration behind the ones it includes.
\<close>

section \<open>Notification\<close>

text \<open>All functions in turn, with the exceptions they throw.\<close>

fun run_all :: "(nat \<Rightarrow> ('s, exn, unit) sx) \<Rightarrow> nat list \<Rightarrow> 's \<Rightarrow> exn list \<times> 's" where
  "run_all call [] s = ([], s)"
| "run_all call (cb # cbs) s =
     (case call cb s of (r, s1) \<Rightarrow>
        case run_all call cbs s1 of (es, s2) \<Rightarrow> ((case r of Inl (Throw e) \<Rightarrow> [e] | _ \<Rightarrow> []) @ es, s2))"

lemma call_all_run_all:
  assumes "\<And>cb s. fst (call cb s) \<noteq> Inl UB" "\<And>cb s k. valid s k \<Longrightarrow> valid (snd (call cb s)) k"
  shows "\<forall>kc \<in> set cbs. valid s (fst kc) \<Longrightarrow>
    call_all valid call cbs s = (Inr (fst (run_all call (map snd cbs) s)), snd (run_all call (map snd cbs) s))"
proof (induction cbs arbitrary: s)
  case Nil
  then show ?case by (simp add: sx_return_def)
next
  case (Cons kc cbs)
  obtain k cb where kc: "kc = (k, cb)" by fastforce
  obtain r s1 where c: "call cb s = (r, s1)" by fastforce
  have "\<forall>kc \<in> set cbs. valid s1 (fst kc)" using Cons.prems assms(2) [of s _ cb] c by auto
  from Cons.IH [OF this] show ?case
    using Cons.prems c kc assms(1) [of cb s]
    by (cases r) (auto simp: sx_bind_def sx_get_def sx_catch_def sx_return_def split: fault.splits prod.splits)
qed

text \<open>Callbacks that return or throw, and that leave the registered callbacks in place.\<close>

definition event_callbacks_return :: "'x env \<Rightarrow> nat \<Rightarrow> string \<Rightarrow> bool" where
  "event_callbacks_return env ctx name \<longleftrightarrow>
     (\<forall>cb s. fst (e_event env cb name s) \<noteq> Inl UB \<and>
       (\<forall>k. registered (m_event_callbacks (the_context ctx s)) (m_named_event_callbacks (the_context ctx s)) k \<longrightarrow>
            registered (m_event_callbacks (the_context ctx (snd (e_event env cb name s))))
              (m_named_event_callbacks (the_context ctx (snd (e_event env cb name s)))) k))"

text \<open>
  (C26) An event calls the callbacks that are registered for its name, in the order of their registration, then those for
  every event, each exactly once and also when one before has thrown; what it throws is the
  aggregate of what they threw.
\<close>

theorem event_calls_every_callback:
  assumes "event_callbacks_return env ctx name"
  shows "notify_event env ctx name s =
    (let c = the_context ctx s;
         (errors, s') = run_all (\<lambda>cb. e_event env cb name)
           (map (snd \<circ> snd) (filter (\<lambda>nkc. fst nkc = name) (m_named_event_callbacks c)) @ map snd (m_event_callbacks c)) s
     in (rethrow_errors errors (''while triggering `'' @ name @ [CHR 0x27] @ '', ''), s'))"
proof -
  let ?cbs = "gather (m_named_event_callbacks (the_context ctx s)) (m_event_callbacks (the_context ctx s)) name"
  have "\<forall>kc \<in> set ?cbs. registered (m_event_callbacks (the_context ctx s)) (m_named_event_callbacks (the_context ctx s)) (fst kc)"
    by (force simp: gather_def registered_def)
  then have "call_all (\<lambda>s. registered (m_event_callbacks (the_context ctx s)) (m_named_event_callbacks (the_context ctx s)))
      (\<lambda>cb. e_event env cb name) ?cbs s =
    (Inr (fst (run_all (\<lambda>cb. e_event env cb name) (map snd ?cbs) s)), snd (run_all (\<lambda>cb. e_event env cb name) (map snd ?cbs) s))"
    using assms unfolding event_callbacks_return_def by (intro call_all_run_all) blast+
  moreover have "map snd ?cbs = map (snd \<circ> snd) (filter (\<lambda>nkc. fst nkc = name) (m_named_event_callbacks (the_context ctx s)))
      @ map snd (m_event_callbacks (the_context ctx s))"
    by (simp add: gather_def)
  ultimately show ?thesis
    by (simp add: notify_event_def sx_bind_def sx_get_def sx_lift_def Let_def split_beta)
qed

definition sample_event_env :: "string list env" where
  "sample_event_env = null_env\<lparr>e_event := (\<lambda>cb name s. (if cb = 1 then throw (System_error ''cb 1'') else Inr (),
     s\<lparr>world.more := world.more s @ [fmt_nat cb]\<rparr>))\<rparr>"

definition sample_event_world :: "string list world_scheme" where
  "sample_event_world = world.extend (null_world (null_context\<lparr>m_event_callbacks := [(0, 1), (1, 2)],
     m_named_event_callbacks := [(''go'', 2, 3), (''stop'', 3, 4), (''go'', 4, 5)]\<rparr>)) []"

theorem event_calls_every_callback_witness:
  "let (r, s') = notify_event sample_event_env 0 ''go'' sample_event_world
   in r = throw (System_error (''while triggering `go'' @ [CHR 0x27] @ '', cb 1''))
     \<and> world.more s' = [''3'', ''5'', ''1'', ''2'']"
proof -
  have r: "event_callbacks_return sample_event_env 0 ''go''"
    by (simp add: event_callbacks_return_def sample_event_env_def the_context_def)
  have "let c = the_context 0 sample_event_world;
      (errors, s') = run_all (\<lambda>cb. e_event sample_event_env cb ''go'')
        (map (snd \<circ> snd) (filter (\<lambda>nkc. fst nkc = ''go'') (m_named_event_callbacks c)) @ map snd (m_event_callbacks c)) sample_event_world
    in rethrow_errors errors (''while triggering `'' @ ''go'' @ [CHR 0x27] @ '', '') = throw (System_error (''while triggering `go'' @ [CHR 0x27] @ '', cb 1''))
      \<and> world.more s' = [''3'', ''5'', ''1'', ''2'']"
    by code_simp
  then show ?thesis unfolding event_calls_every_callback [OF r] by (simp add: Let_def split_beta)
qed

section \<open>Included configurations\<close>

text \<open>The include directives of a configuration.\<close>

definition directives :: "pc_tree \<Rightarrow> pc_tree list" where
  "directives conf =
     (let inc = PC_get conf [Key ''include''] in
      if PC_status inc then []
      else if \<not> PC_status (PC_get inc [Idx 0]) then map (\<lambda>i. PC_get inc [Idx (int i)]) [0 ..< nat (dflt (PC_len inc) 0)]
      else [inc])"

text \<open>
  Configurations that are closed under inclusion: the paths their directives name are listed, and the
  trees at these paths, where there are any, are among them.
\<close>

definition closed_confs :: "'x env \<Rightarrow> pc_tree list \<Rightarrow> include_path list \<Rightarrow> bool" where
  "closed_confs env confs paths \<longleftrightarrow>
     list_all (\<lambda>conf. list_all (\<lambda>d.
       case Include_path d of
         Inr p \<Rightarrow> p \<in> set paths \<and> (case include_tree env p of Inr t \<Rightarrow> t \<in> set confs | Inl f \<Rightarrow> f \<noteq> UB)
       | Inl f \<Rightarrow> True) (directives conf)) confs"

definition included :: "'x env \<Rightarrow> pc_tree list \<Rightarrow> include_path \<Rightarrow> bool" where
  "included env confs p \<longleftrightarrow> (\<exists>q t. same_path p q \<and> include_tree env q = Inr t \<and> t \<in> set confs)"

text \<open>Every configuration of a list comes after those it includes.\<close>

fun include_order :: "'x env \<Rightarrow> pc_tree list \<Rightarrow> pc_tree list \<Rightarrow> bool" where
  "include_order env before [] = True"
| "include_order env before (conf # confs) =
     ((\<forall>d \<in> set (directives conf). \<forall>p. Include_path d = Inr p \<longrightarrow> included env before p)
      \<and> include_order env (before @ [conf]) confs)"

lemma include_order_append:
  "include_order env before (xs @ ys) \<longleftrightarrow> include_order env before xs \<and> include_order env (before @ xs) ys"
  by (induction xs arbitrary: before) auto

lemma sx_each_rule:
  assumes "J s" and "\<And>x s. x \<in> set xs \<Longrightarrow> J s \<Longrightarrow> fst (f x s) \<noteq> Inl UB \<and>
      (fst (f x s) = Inr () \<longrightarrow> J (snd (f x s)) \<and> P x (snd (f x s)) \<and> (\<forall>y. P y s \<longrightarrow> P y (snd (f x s))))"
  shows "fst (sx_each f xs s) \<noteq> Inl UB \<and> (fst (sx_each f xs s) = Inr () \<longrightarrow>
    J (snd (sx_each f xs s)) \<and> (\<forall>x \<in> set xs. P x (snd (sx_each f xs s))) \<and> (\<forall>y. P y s \<longrightarrow> P y (snd (sx_each f xs s))))"
  using assms
proof (induction xs arbitrary: s)
  case Nil
  then show ?case by (simp add: sx_return_def)
next
  case (Cons x xs)
  obtain r s1 where f: "f x s = (r, s1)" by fastforce
  note step = Cons.prems(2) [of x s]
  show ?case
  proof (cases r)
    case (Inl e)
    then show ?thesis using f step Cons.prems(1) by (simp add: sx_bind_def)
  next
    case (Inr u)
    then have "J s1" "P x s1" "\<forall>y. P y s \<longrightarrow> P y s1" using step Cons.prems(1) f by auto
    moreover have "fst (sx_each f xs s1) \<noteq> Inl UB \<and> (fst (sx_each f xs s1) = Inr () \<longrightarrow>
        J (snd (sx_each f xs s1)) \<and> (\<forall>x \<in> set xs. P x (snd (sx_each f xs s1))) \<and> (\<forall>y. P y s1 \<longrightarrow> P y (snd (sx_each f xs s1))))"
      using \<open>J s1\<close> Cons.prems(2) by (intro Cons.IH) auto
    ultimately show ?thesis using f Inr by (simp add: sx_bind_def)
  qed
qed

lemma sx_each_map: "sx_each f (map g xs) = sx_each (\<lambda>x. f (g x)) xs"
  by (induction xs) auto

lemma PC_walk_node: "pc_node (PC_walk at n path) \<noteq> None"
  by (induction path arbitrary: at n) (auto simp: pc_ok_def split: sum.splits)

lemma PC_get_node: "pc_node t \<noteq> None \<Longrightarrow> pc_node (PC_get t path) \<noteq> None"
  using PC_walk_node by (auto simp: PC_get_def pc_ok_def split: option.splits)

lemma PC_get_ok_node: "\<not> PC_status (PC_get t (x # path)) \<Longrightarrow> pc_node (PC_get t (x # path)) \<noteq> None"
  using PC_walk_node [of "[]" _ "x # path"] by (auto simp: PC_get_def PC_status_def split: option.splits if_splits)

lemma opt_each_directives:
  assumes "\<not> PC_status (PC_get conf [Key ''include''])"
  shows "opt_each (PC_get conf [Key ''include'']) f = sx_each f (directives conf)"
proof -
  obtain n where n: "pc_node (PC_get conf [Key ''include'']) = Some n" using PC_get_ok_node [OF assms] by blast
  then have "PC_len (PC_get conf [Key ''include'']) = Inr (int (yaml_len n))"
    using assms by (auto simp: PC_len_def pc_value_def PC_status_def)
  then show ?thesis
    using assms
    by (auto simp: opt_each_def each_def directives_def Let_def len_def do_pc_def sx_bind_def sx_lift_def sx_return_def sx_each_map
      dflt_def fun_eq_iff split: prod.splits sum.splits)
qed

lemma directives_node: "d \<in> set (directives conf) \<Longrightarrow> pc_node d \<noteq> None"
  using PC_get_node [of "PC_get conf [Key ''include'']"] PC_get_ok_node [of conf "Key ''include''" "[]"]
  by (auto simp: directives_def Let_def split: if_splits)

lemma do_pc_not_UB: "do_pc t r \<noteq> Inl UB"
  by (simp add: do_pc_def split: sum.splits)

lemma each_pair_not_UB:
  assumes "\<And>k v s. fst (f k v s) \<noteq> Inl UB"
  shows "fst (each_pair t f s) \<noteq> Inl UB"
proof (cases "len t")
  case (Inl e)
  then show ?thesis using do_pc_not_UB by (auto simp: each_pair_def sx_bind_def sx_lift_def len_def)
next
  case (Inr n)
  show ?thesis
    using sx_each_rule [of "\<lambda>_. True" s "[0 ..< nat n]"
      "\<lambda>i. f (PC_get t [Map_key (int i)]) (PC_get t [Map_val (int i)])" "\<lambda>_ _. True"] assms Inr
    by (simp add: each_pair_def sx_bind_def sx_lift_def)
qed

lemma Include_path_not_UB: "pc_node d \<noteq> None \<Longrightarrow> Include_path d \<noteq> Inl UB"
proof -
  have "fst (Include_path_entry k v s) \<noteq> Inl UB" for k v s
    using do_pc_not_UB
    by (auto simp: Include_path_entry_def sx_bind_def sx_lift_def sx_modify_def sx_fail_def tree_to_string_def split: sum.splits)
  then have "fst (each_pair d Include_path_entry (None, None)) \<noteq> Inl UB" by (rule each_pair_not_UB)
  then have "Include_path_map d \<noteq> Inl UB"
    by (auto simp: Include_path_map_def split: prod.splits sum.splits option.splits)
  then show "pc_node d \<noteq> None \<Longrightarrow> ?thesis"
    using do_pc_not_UB by (auto simp: Include_path_def is_map_def tree_to_string_def rbind_Inl_iff split: option.splits yaml.splits)
qed

lemma same_path_refl [simp]: "same_path p p"
  by (simp add: same_path_def)

definition missing :: "include_path list \<Rightarrow> include_path list \<Rightarrow> include_path set" where
  "missing paths ps = {u \<in> set paths. \<not> includes_contain ps u}"

lemma missing_less: "p \<in> set paths \<Longrightarrow> \<not> includes_contain ps p \<Longrightarrow> card (missing paths (p # ps)) < card (missing paths ps)"
proof -
  assume "p \<in> set paths" "\<not> includes_contain ps p"
  then have "p \<in> missing paths ps" "p \<notin> missing paths (p # ps)" "missing paths (p # ps) \<subseteq> missing paths ps"
    by (auto simp: missing_def includes_contain_def)
  then have "missing paths (p # ps) \<subset> missing paths ps" by blast
  then show ?thesis by (intro psubset_card_mono) (simp_all add: missing_def)
qed

text \<open>The state of the search.\<close>

definition search_ok :: "'x env \<Rightarrow> include_search \<Rightarrow> bool" where
  "search_ok env i \<longleftrightarrow> (\<forall>q \<in> set (result_path i). included env (result_confs i) q) \<and> include_order env [] (result_confs i)"

lemma included_mono: "included env xs p \<Longrightarrow> set xs \<subseteq> set ys \<Longrightarrow> included env ys p"
  unfolding included_def by blast

lemma included_same: "same_path p q \<Longrightarrow> included env xs q \<Longrightarrow> included env xs p"
  unfolding included_def same_path_def by auto

lemma filter_not_contained: "\<not> includes_contain ps p \<Longrightarrow> filter (\<lambda>q. \<not> same_path p q) ps = ps"
  by (induction ps) (auto simp: includes_contain_def)

text \<open>The treatment of one directive; \<open>rec\<close> is the search in the included configuration.\<close>

definition include_step :: "'x env \<Rightarrow> (pc_tree \<Rightarrow> (include_search, exn, unit) sx) \<Rightarrow> pc_tree \<Rightarrow> (include_search, exn, unit) sx" where
  "include_step env rec d = sx_bind (sx_lift (Include_path d)) (\<lambda>p.
    sx_bind (sx_get (\<lambda>i. i)) (\<lambda>i.
    if includes_contain (parents i) p then
      sx_fail (Throw (spectree_error d (''Circular include of `('' @ ip_file p @ '')'' @ ip_ypath p @ [CHR 0x27])))
    else if includes_contain (result_path i) p then sx_return ()
    else
      sx_bind (sx_modify (\<lambda>i. i\<lparr>parents := p # parents i\<rparr>)) (\<lambda>_.
      sx_bind (sx_catch
        (sx_bind (sx_lift (include_tree env p)) (\<lambda>t. (\<lambda>i. rec t i)))
        (\<lambda>e. sx_fail (Throw (included_from p e)))) (\<lambda>_.
      sx_modify (\<lambda>i. i\<lparr>parents := filter (\<lambda>q. \<not> same_path p q) (parents i),
        result_path := p # result_path i\<rparr>)))))"

lemma get_includes_steps:
  "get_includes_fuel (Suc n) env conf = sx_bind (sx_each (include_step env (get_includes_fuel n env)) (directives conf)) (\<lambda>_.
     sx_modify (\<lambda>i. i\<lparr>result_confs := result_confs i @ [conf]\<rparr>))"
  using opt_each_directives [of conf "include_step env (get_includes_fuel n env)"]
  by (auto simp: Let_def include_step_def [abs_def] directives_def)

text \<open>What a step of the search keeps, what it achieves, and what the search in a configuration does.\<close>

definition search_kept :: "'x env \<Rightarrow> include_search \<Rightarrow> include_search \<Rightarrow> bool" where
  "search_kept env i j \<longleftrightarrow> search_ok env j \<and> parents j = parents i \<and> (\<exists>more. result_confs j = result_confs i @ more)"

definition directive_done :: "'x env \<Rightarrow> pc_tree \<Rightarrow> include_search \<Rightarrow> bool" where
  "directive_done env d j \<longleftrightarrow> (\<forall>p. Include_path d = Inr p \<longrightarrow> included env (result_confs j) p)"

definition searches :: "'x env \<Rightarrow> pc_tree \<Rightarrow> include_search \<Rightarrow> (include_search, exn, unit) sx \<Rightarrow> bool" where
  "searches env conf i f \<longleftrightarrow> fst (f i) \<noteq> Inl UB \<and>
    (fst (f i) = Inr () \<longrightarrow>
      (let i' = snd (f i) in
       search_ok env i' \<and> parents i' = parents i \<and> (\<exists>more. result_confs i' = result_confs i @ more @ [conf])))"

lemma include_step_enter:
  assumes p: "Include_path d = Inr p" "include_tree env p = Inr t" and new: "\<not> includes_contain (parents j) p" "\<not> includes_contain (result_path j) p"
    and rec: "searches env t (j\<lparr>parents := p # parents j\<rparr>) (rec t)"
  shows "fst (include_step env rec d j) \<noteq> Inl UB \<and> (fst (include_step env rec d j) = Inr () \<longrightarrow>
    search_kept env j (snd (include_step env rec d j)) \<and> directive_done env d (snd (include_step env rec d j)))"
proof -
  obtain r j2 where g: "rec t (j\<lparr>parents := p # parents j\<rparr>) = (r, j2)" by fastforce
  define j3 where "j3 = j2\<lparr>parents := filter (\<lambda>q. \<not> same_path p q) (parents j2), result_path := p # result_path j2\<rparr>"
  have s: "include_step env rec d j
      = (case r of Inr _ \<Rightarrow> (Inr (), j3) | Inl (Throw e) \<Rightarrow> (throw (included_from p e), j2) | Inl UB \<Rightarrow> (Inl UB, j2))"
    using p new g
    by (auto simp: include_step_def sx_bind_def sx_lift_def sx_get_def sx_modify_def sx_catch_def sx_fail_def j3_def split: sum.splits fault.splits)
  show ?thesis
  proof (cases r)
    case (Inl e)
    then show ?thesis using s rec g by (cases e) (simp_all add: searches_def)
  next
    case (Inr u)
    obtain more where more: "result_confs j2 = result_confs j @ more @ [t]" and ok2: "search_ok env j2" "parents j2 = p # parents j"
      using rec g Inr by (auto simp: searches_def Let_def)
    have inc: "included env (result_confs j3) p" using p(2) more by (auto simp: j3_def included_def intro!: exI [of _ p] exI [of _ t])
    moreover have "search_ok env j3" using ok2(1) inc by (simp add: search_ok_def j3_def)
    moreover have "parents j3 = parents j" using ok2(2) new filter_not_contained by (simp add: j3_def)
    moreover have "result_confs j3 = result_confs j @ more @ [t]" using more by (simp add: j3_def)
    ultimately show ?thesis using s Inr p(1) by (auto simp: search_kept_def directive_done_def)
  qed
qed

lemma include_step_skip:
  assumes "Include_path d = Inr p" "includes_contain (parents j) p \<or> includes_contain (result_path j) p" "search_ok env j"
  shows "fst (include_step env rec d j) \<noteq> Inl UB \<and> (fst (include_step env rec d j) = Inr () \<longrightarrow>
    search_kept env j (snd (include_step env rec d j)) \<and> directive_done env d (snd (include_step env rec d j)))"
proof -
  have "included env (result_confs j) p" if c: "includes_contain (result_path j) p"
  proof -
    obtain q where "q \<in> set (result_path j)" "same_path p q" using c by (auto simp: includes_contain_def list_ex_iff)
    then show ?thesis using assms(3) included_same unfolding search_ok_def by blast
  qed
  moreover have "include_step env rec d j = (if includes_contain (parents j) p
      then (throw (spectree_error d (''Circular include of `('' @ ip_file p @ '')'' @ ip_ypath p @ [CHR 0x27])), j)
      else (Inr (), j))"
    using assms by (auto simp: include_step_def sx_bind_def sx_lift_def sx_get_def sx_fail_def sx_return_def)
  ultimately show ?thesis using assms by (auto simp: search_kept_def directive_done_def)
qed

lemma include_step_ok:
  assumes closed: "closed_confs env confs paths" "conf \<in> set confs" "d \<in> set (directives conf)"
    and j: "search_ok env j" "card (missing paths (parents j)) < Suc n"
    and rec: "\<And>t i. t \<in> set confs \<Longrightarrow> search_ok env i \<Longrightarrow> card (missing paths (parents i)) < n \<Longrightarrow> searches env t i (rec t)"
  shows "fst (include_step env rec d j) \<noteq> Inl UB \<and> (fst (include_step env rec d j) = Inr () \<longrightarrow>
    search_kept env j (snd (include_step env rec d j)) \<and> directive_done env d (snd (include_step env rec d j)))"
proof (cases "Include_path d")
  case (Inl e)
  then show ?thesis using Include_path_not_UB [OF directives_node [OF closed(3)]] by (simp add: include_step_def sx_bind_def sx_lift_def)
next
  case (Inr p)
  have p: "p \<in> set paths \<and> (case include_tree env p of Inr t \<Rightarrow> t \<in> set confs | Inl f \<Rightarrow> f \<noteq> UB)"
    using closed Inr unfolding closed_confs_def list_all_iff by force
  show ?thesis
  proof (cases "includes_contain (parents j) p \<or> includes_contain (result_path j) p")
    case True
    from include_step_skip [OF Inr True j(1)] show ?thesis .
  next
    case False
    have less: "card (missing paths (p # parents j)) < n" using missing_less [of p paths "parents j"] p False j(2) by simp
    show ?thesis
    proof (cases "include_tree env p")
      case (Inl e)
      then show ?thesis
        using p Inr False by (cases e) (simp_all add: include_step_def sx_bind_def sx_lift_def sx_get_def sx_modify_def sx_catch_def sx_fail_def)
    next
      case t: (Inr t)
      have "searches env t (j\<lparr>parents := p # parents j\<rparr>) (rec t)"
        using p t j(1) less by (intro rec) (simp_all add: search_ok_def)
      then show ?thesis using include_step_enter [OF Inr t] False by blast
    qed
  qed
qed

lemma get_includes_ok:
  assumes "closed_confs env confs paths"
  shows "conf \<in> set confs \<Longrightarrow> search_ok env i \<Longrightarrow> card (missing paths (parents i)) < n \<Longrightarrow> searches env conf i (get_includes_fuel n env conf)"
proof (induction n arbitrary: conf i)
  case 0
  then show ?case by simp
next
  case (Suc n)
  let ?f = "include_step env (get_includes_fuel n env)"
  have mono: "directive_done env y j \<Longrightarrow> search_kept env j k \<Longrightarrow> directive_done env y k" for y j k
    by (auto simp: directive_done_def search_kept_def intro: included_mono)
  have "fst (sx_each ?f (directives conf) i) \<noteq> Inl UB \<and> (fst (sx_each ?f (directives conf) i) = Inr () \<longrightarrow>
      search_kept env i (snd (sx_each ?f (directives conf) i)) \<and> (\<forall>d \<in> set (directives conf). directive_done env d (snd (sx_each ?f (directives conf) i)))
      \<and> (\<forall>y. directive_done env y i \<longrightarrow> directive_done env y (snd (sx_each ?f (directives conf) i))))"
  proof (rule sx_each_rule [where J = "search_kept env i" and P = "directive_done env"])
    show "search_kept env i i" using Suc.prems(2) by (simp add: search_kept_def)
    fix d j assume d: "d \<in> set (directives conf)" and j: "search_kept env i j"
    have "fst (?f d j) \<noteq> Inl UB \<and> (fst (?f d j) = Inr () \<longrightarrow> search_kept env j (snd (?f d j)) \<and> directive_done env d (snd (?f d j)))"
      using j Suc.prems(3) by (intro include_step_ok [OF assms Suc.prems(1) d _ _ Suc.IH]) (auto simp: search_kept_def)
    then show "fst (?f d j) \<noteq> Inl UB \<and> (fst (?f d j) = Inr () \<longrightarrow> search_kept env i (snd (?f d j)) \<and> directive_done env d (snd (?f d j))
        \<and> (\<forall>y. directive_done env y j \<longrightarrow> directive_done env y (snd (?f d j))))"
      using j mono by (auto simp: search_kept_def)
  qed
  then show ?case
    unfolding searches_def get_includes_steps
    by (cases "sx_each ?f (directives conf) i")
      (auto simp: sx_bind_def Let_def search_kept_def search_ok_def include_order_append directive_done_def
        intro: included_mono split: sum.splits)
qed

text \<open>
  (C27) The search for included configurations ends, with circular includes reported as errors, and orders what it finds:
  when the configurations that can be reached name no more than as many paths as the fuel, the search gives an
  exception, or a list that ends with the given configuration and has every other one behind those
  that its include directives name.
\<close>

theorem includes_ordered:
  assumes "closed_confs env confs paths" "conf \<in> set confs" "length paths < e_fuel env"
  shows "case get_includes env conf of
      Inr result \<Rightarrow> result \<noteq> [] \<and> last result = conf \<and> include_order env [] result
    | Inl f \<Rightarrow> f \<noteq> UB"
proof -
  let ?i = "\<lparr>parents = [], result_path = [], result_confs = []\<rparr>"
  have "card (missing paths (parents ?i)) < e_fuel env"
    using assms(3) card_length [of paths] by (simp add: missing_def includes_contain_def)
  moreover have "search_ok env ?i" by (simp add: search_ok_def)
  ultimately show ?thesis
    using get_includes_ok [OF assms(1,2), of ?i "e_fuel env"]
    by (auto simp: get_includes_def searches_def Let_def search_ok_def split: prod.splits sum.splits)
qed

definition sample_region :: yaml_region where
  "sample_region = \<lparr>m_file = [], m_start = \<lparr>line = 0, column = 0\<rparr>, m_end = \<lparr>line = 0, column = 0\<rparr>\<rparr>"

text \<open>A configuration with a list of included files.\<close>

definition sample_conf :: "string list \<Rightarrow> pc_tree" where
  "sample_conf files = pc_ok (Y_map sample_region (if files = [] then [] else [(Y_scalar sample_region ''include'',
     Y_seq sample_region (map (Y_scalar sample_region) files))]))"

definition sample_files_env :: "unit env" where
  "sample_files_env = null_env\<lparr>e_file := (\<lambda>f. if f = ''a'' then sample_conf [''b'', ''c''] else if f = ''b'' then sample_conf [''c'']
     else if f = ''c'' then sample_conf [] else if f = ''loop'' then sample_conf [''./loop'', ''loop'']
     else \<lparr>pc_err = Some ''no file'', pc_node = None\<rparr>)\<rparr>"

theorem includes_ordered_witness:
  "get_includes sample_files_env (sample_conf [''c'', ''a'']) = Inr [sample_conf [], sample_conf [''c''], sample_conf [''b'', ''c''], sample_conf [''c'', ''a'']]
   \<and> include_order sample_files_env [] [sample_conf [], sample_conf [''c''], sample_conf [''b'', ''c''], sample_conf [''c'', ''a'']]"
proof -
  have "closed_confs sample_files_env [sample_conf [], sample_conf [''c''], sample_conf [''b'', ''c''], sample_conf [''c'', ''a'']]
      (map (\<lambda>f. \<lparr>ip_file = f, ip_ypath = []\<rparr>) [''a'', ''b'', ''c''])"
    "get_includes sample_files_env (sample_conf [''c'', ''a'']) = Inr [sample_conf [], sample_conf [''c''], sample_conf [''b'', ''c''], sample_conf [''c'', ''a'']]"
    by code_simp+
  moreover have "e_fuel sample_files_env = 10" by code_simp
  ultimately show ?thesis using includes_ordered [of sample_files_env _ _ "sample_conf [''c'', ''a'']"] by fastforce
qed

end
