(* ===== verification/World_Frame.thy ===== *)
theory World_Frame
  imports PDI_API
begin

text \<open>
  What the operations leave alone. Operations on references change nothing but the store; the locale \<open>frame\<close>
  lifts this to every relation between states that ignores the store and the creation of empty
  descriptors: when the callbacks of the environment keep such a relation, so do the evaluation of
  expressions and templates, notifications and accesses to descriptors.
\<close>

named_theorems kept_intros \<open>rules for the relation between the states before and after an operation\<close>
named_theorems store_only_intros \<open>operations that change nothing but the store\<close>

section \<open>Operations on the store\<close>

definition kept :: "('s \<Rightarrow> 's \<Rightarrow> bool) \<Rightarrow> ('s, 'e, 'a) sx \<Rightarrow> bool" where
  "kept K f \<longleftrightarrow> (\<forall>s. K s (snd (f s)))"

abbreviation store_only :: "('x store_scheme, 'e, 'a) sx \<Rightarrow> bool" where
  "store_only \<equiv> kept (\<lambda>s s'. store.more s' = store.more s)"

lemma kept_bind:
  assumes trans: "\<And>s t u. K s t \<Longrightarrow> K t u \<Longrightarrow> K s u" and f: "kept K f" and g: "\<And>x. kept K (g x)"
  shows "kept K (sx_bind f g)"
  unfolding kept_def
proof
  fix s
  obtain r s1 where fs: "f s = (r, s1)" by fastforce
  then have "K s s1" using f by (metis kept_def snd_conv)
  then show "K s (snd (sx_bind f g s))"
    using fs g trans by (cases r) (auto simp: sx_bind_def kept_def)
qed

lemma kept_catch:
  assumes trans: "\<And>s t u. K s t \<Longrightarrow> K t u \<Longrightarrow> K s u" and f: "kept K f" and h: "\<And>e. kept K (h e)"
  shows "kept K (sx_catch f h)"
  unfolding kept_def
proof
  fix s
  obtain r s1 where fs: "f s = (r, s1)" by fastforce
  then have "K s s1" using f by (metis kept_def snd_conv)
  then show "K s (snd (sx_catch f h s))"
    using fs h trans by (auto simp: sx_catch_def kept_def split: sum.splits fault.splits)
qed

lemma kept_noexcept: "kept K f \<Longrightarrow> kept K (sx_noexcept f)"
  by (auto simp: kept_def sx_noexcept_def split: prod.splits sum.splits) (metis snd_conv)+

lemma kept_same:
  assumes "\<And>s. K s s"
  shows "kept K (sx_return x)" "kept K (sx_fail e)" "kept K (sx_lift r)" "kept K (sx_get h)"
  using assms by (simp_all add: kept_def)

lemma kept_modify: "(\<And>s. K s (f s)) \<Longrightarrow> kept K (sx_modify f)"
  by (simp add: kept_def)

lemma store_only_bind [store_only_intros]: "store_only f \<Longrightarrow> (\<And>x. store_only (g x)) \<Longrightarrow> store_only (sx_bind f g)"
  by (rule kept_bind) simp_all

lemma store_only_catch [store_only_intros]: "store_only f \<Longrightarrow> (\<And>e. store_only (h e)) \<Longrightarrow> store_only (sx_catch f h)"
  by (rule kept_catch) simp_all

lemmas store_only_base [store_only_intros] = kept_same [where K = "\<lambda>s s'. store.more s' = store.more s", simplified]
  kept_modify [where K = "\<lambda>s s'. store.more s' = store.more s"] kept_noexcept

lemma store_only_memory [store_only_intros]: "store_only (on_memory f)"
  by (simp add: kept_def on_memory_def split: prod.splits)

lemma more_upd [simp]:
  "store.more (upd_ref i f s) = store.more s" "store.more (upd_data c g s) = store.more s"
  "store.more (upd_buffer b h s) = store.more s"
  by (simp_all add: upd_ref_def upd_data_def upd_buffer_def)

lemma store_only_dealloc:
  "store_only (sx_bind (on_memory (destroy_data t p)) (\<lambda>_. sx_modify (\<lambda>s. s\<lparr>freed := freed s @ [x]\<rparr>)))"
  by (intro store_only_intros) simp

lemma store_only_deallocator [store_only_intros]: "store_only (run_deallocator b)"
  by (auto simp: run_deallocator_def kept_def store_only_dealloc [unfolded kept_def, rule_format] split: option.splits)

lemma store_only_destroy: "store_only (destroy_buffer b)"
  unfolding destroy_buffer_def by (intro store_only_intros) simp

lemma store_only_collect: "store.more (snd (collect b s)) = store.more s"
  by (simp add: collect_def store_only_destroy [unfolded kept_def, rule_format])

lemma store_only_linking [store_only_intros]:
  "store_only (unlink i)" "store_only (link i c)" "store_only (is_null i)" "store_only (reset i)" "store_only (destroy_ref i)"
  "store_only (null_ref R W)" "store_only (steal i j)" "store_only (new_rdata b p t)" "store_only (new_rdata_buffer p ff t rd wr)"
proof -
  show unlink: "store_only (unlink i)" for i
    by (auto simp: kept_def unlink_def Let_def store_only_collect split: option.splits)
  show "store_only (link i c)"
    by (auto simp: kept_def link_def Let_def store_only_collect split: option.splits)
  have "store_only (sx_bind (unlink i) (\<lambda>_. sx_return True))" by (intro store_only_intros unlink)
  then show "store_only (is_null i)"
    by (auto simp: kept_def is_null_def split: option.splits)
  show "store_only (reset i)" "store_only (destroy_ref i)"
    using unlink by (auto simp: kept_def reset_def destroy_ref_def)
  show "store_only (null_ref R W)" "store_only (steal i j)" "store_only (new_rdata b p t)" "store_only (new_rdata_buffer p ff t rd wr)"
    by (auto simp: kept_def null_ref_def steal_def new_rdata_def new_rdata_buffer_def split: option.splits)
qed

lemma store_only_unlink_return: "store_only (sx_bind (unlink i) (\<lambda>_. sx_return p))"
  by (intro store_only_intros)

lemma store_only_release_content: "store_only (release_content i)"
  by (auto simp: kept_def release_content_def Let_def store_only_unlink_return [unfolded kept_def, rule_format] split: option.splits)

lemma store_only_if [store_only_intros]: "(c \<Longrightarrow> store_only f) \<Longrightarrow> (\<not> c \<Longrightarrow> store_only g) \<Longrightarrow> store_only (if c then f else g)"
  by simp

lemma store_only_construction [store_only_intros]:
  "store_only (copy_ref R W i)" "store_only (move_ref i)" "store_only (make_ref R W p ff t rd wr)"
  "store_only (move_assign i j)" "store_only (copy_assign i j)"
  unfolding copy_ref_def move_ref_def make_ref_def move_assign_def copy_assign_def
  by (intro store_only_intros)+

lemma store_only_with_ref [store_only_intros]:
  "store_only mk \<Longrightarrow> (\<And>t. store_only (f t)) \<Longrightarrow> store_only (with_ref mk f)"
  unfolding with_ref_def by (intro store_only_intros)

lemma store_only_subref [store_only_intros]: "store_only (make_subref i acc)"
  unfolding kept_def
proof
  fix s
  have "store_only (sx_bind (sx_lift r) (\<lambda>(data, type). sx_bind (null_ref False False) (\<lambda>result.
     sx_bind (new_rdata b data type) (\<lambda>sub. sx_bind (link result (Some sub)) (\<lambda>_. sx_return result)))))" for r b
    by (intro store_only_intros) (simp add: split_beta, intro store_only_intros)
  then show "store.more (snd (make_subref i acc s)) = store.more s"
    by (auto simp: kept_def make_subref_def split: option.splits)
qed

lemma store_only_access [store_only_intros]:
  "store_only (ref_member i nm)" "store_only (ref_index i k)" "store_only (ref_slice i k1 k2)" "store_only (ref_get i)"
  "store_only (ref_get_nothrow i)" "store_only (operator_new n)" "store_only (operator_delete p)"
  "store_only (operator_new_aligned n al)" "store_only (write_mem p n v)"
  unfolding ref_member_def ref_index_def ref_slice_def ref_get_def ref_get_nothrow_def operator_delete_def write_mem_def
  by ((intro store_only_intros; simp) | simp add: kept_def operator_new_def operator_new_aligned_def Let_def)+

lemma store_only_scalar_value [store_only_intros]: "store_only (scalar_value i)"
  by (auto simp: kept_def scalar_value_def Let_def split: dt.splits)

lemma store_only_copy [store_only_intros]: "store_only (do_copy i)" "store_only (ref_copy i)"
proof -
  show *: "store_only (do_copy i)" for i
    unfolding do_copy_def Let_def by (intro store_only_intros)
  show "store_only (ref_copy i)" unfolding ref_copy_def by (intro store_only_intros *)
qed

lemma store_only_values [store_only_intros]:
  "store_only (scalar_value_int b sg i)" "store_only (scalar_value_float i)" "store_only (scalar_value_double i)"
  "store_only (Operation_result v)" "store_only (Operation_evalp v op i)" "store_only (scalar_operand t i)"
proof -
  show v: "store_only (scalar_value_int b sg i)" "store_only (scalar_value_float i)" "store_only (scalar_value_double i)" for b sg
    unfolding scalar_value_int_def scalar_value_float_def scalar_value_double_def by (intro store_only_intros)+
  show r: "store_only (Operation_result v)" for v
    unfolding Operation_result_def by (cases "cnum_kind v") (simp, intro store_only_intros)
  show s: "store_only (scalar_operand t i)" for t
    unfolding scalar_operand_def Let_def by (cases t) (simp_all only: dt.case, (intro store_only_intros v)+)
  show "store_only (Operation_evalp v op i)" unfolding Operation_evalp_def by (intro store_only_intros r s)
qed

section \<open>Frames\<close>

text \<open>The functions that the environment registers: callbacks for data, for events and for nullification.\<close>

definition callbacks_keep :: "('x world_scheme \<Rightarrow> 'x world_scheme \<Rightarrow> bool) \<Rightarrow> 'x env \<Rightarrow> bool" where
  "callbacks_keep K env \<longleftrightarrow> (\<forall>cb name r. kept K (e_data env cb name r)) \<and> (\<forall>cb name. kept K (e_event env cb name))
     \<and> (\<forall>cb r. kept K (env_nullify (e_refs env) cb r))"

lemma callbacks_keepD:
  assumes "callbacks_keep K env"
  shows "kept K (e_data env cb name r)" "kept K (e_event env cb name)" "kept K (env_nullify (e_refs env) cb r)"
  using assms by (auto simp: callbacks_keep_def)

definition methods_keep :: "('x world_scheme \<Rightarrow> 'x world_scheme \<Rightarrow> bool) \<Rightarrow> 'x methods \<Rightarrow> bool" where
  "methods_keep K m \<longleftrightarrow> (\<forall>ctx. kept K (v_to_long m ctx) \<and> kept K (v_to_double m ctx) \<and> kept K (v_to_string m ctx)
     \<and> kept K (v_to_ref m ctx) \<and> (\<forall>p t. kept K (v_copy_value m ctx p t)))"

lemma methods_keepD:
  assumes "methods_keep K m"
  shows "kept K (v_to_long m ctx)" "kept K (v_to_double m ctx)" "kept K (v_to_string m ctx)" "kept K (v_to_ref m ctx)"
    "kept K (v_copy_value m ctx p t)"
  using assms by (auto simp: methods_keep_def)

locale frame =
  fixes K :: "'x world_scheme \<Rightarrow> 'x world_scheme \<Rightarrow> bool"
  assumes K_refl: "K s s"
    and K_trans: "K s t \<Longrightarrow> K t u \<Longrightarrow> K s u"
    and K_store: "store.more s' = store.more s \<Longrightarrow> K s s'"
    and K_desc: "K s (snd (desc ctx name s))"
begin

lemma frame_bind [kept_intros]: "kept K f \<Longrightarrow> (\<And>x. kept K (g x)) \<Longrightarrow> kept K (sx_bind f g)"
  by (rule kept_bind [OF K_trans])

lemma frame_catch [kept_intros]: "kept K f \<Longrightarrow> (\<And>e. kept K (h e)) \<Longrightarrow> kept K (sx_catch f h)"
  by (rule kept_catch [OF K_trans])

lemmas frame_base [kept_intros] = kept_same [where K = K, OF K_refl] kept_noexcept

lemma frame_store: "store_only f \<Longrightarrow> kept K f"
  by (simp add: kept_def K_store)

lemmas frame_ops [kept_intros] = store_only_linking [THEN frame_store] store_only_construction [THEN frame_store]
  store_only_access [THEN frame_store] store_only_scalar_value [THEN frame_store] store_only_copy [THEN frame_store]
  store_only_values [THEN frame_store] store_only_memory [THEN frame_store]

lemma frame_if [kept_intros]: "(c \<Longrightarrow> kept K f) \<Longrightarrow> (\<not> c \<Longrightarrow> kept K g) \<Longrightarrow> kept K (if c then f else g)"
  by simp

lemma frame_desc [kept_intros]: "kept K (desc ctx name)"
  by (simp add: kept_def K_desc)

lemma frame_with_ref [kept_intros]: "kept K mk \<Longrightarrow> (\<And>t. kept K (f t)) \<Longrightarrow> kept K (with_ref mk f)"
  unfolding with_ref_def by (intro kept_intros)

lemma frame_ref_as [kept_intros]: "kept K mk \<Longrightarrow> kept K (ref_as R W mk)"
  unfolding ref_as_def by (intro kept_intros)

lemma frame_holding [kept_intros]: "kept K f \<Longrightarrow> kept K (holding r f)"
  unfolding holding_def by (intro kept_intros)

lemma frame_call_all [kept_intros]: "(\<And>cb. kept K (call cb)) \<Longrightarrow> kept K (call_all valid call cbs)"
proof (induction valid call cbs rule: call_all.induct)
  case (1 valid call)
  show ?case by (simp only: call_all.simps, intro kept_intros)
next
  case (2 valid call k cb cbs)
  show ?case by (simp only: call_all.simps, intro kept_intros 2)
qed

lemma frame_notify [kept_intros]:
  assumes "callbacks_keep K env"
  shows "kept K (notify_data env ctx name r)" "kept K (notify_data_remove env ctx name r)" "kept K (notify_event env ctx name)"
    "kept K (notify_missing_data env ctx name)" "kept K (event env ctx name)"
  unfolding notify_data_def notify_data_remove_def notify_event_def notify_missing_data_def event_def
  by (intro kept_intros callbacks_keepD assms)+

lemma frame_desc_ref [kept_intros]: "callbacks_keep K env \<Longrightarrow> kept K (desc_ref env ctx name)"
proof -
  assume env: "callbacks_keep K env"
  have "kept K (case rs of [] \<Rightarrow> sx_fail e | r # _ \<Rightarrow> copy_ref False False r)" for rs e
    by (cases rs) (simp_all, (intro kept_intros)+)
  then show ?thesis unfolding desc_ref_def by (intro kept_intros env) simp
qed

lemma frame_notify_loop:
  assumes "callbacks_keep K env"
  shows "kept K (notify_loop (e_refs env) n i)"
proof (induction n)
  case 0
  show ?case by (auto simp: kept_def K_refl notify_loop.simps split: option.splits list.splits)
next
  case (Suc n)
  have "store_only (erase_notification i key)" for key
    by (auto simp: kept_def erase_notification_def split: option.splits)
  then have "kept K (sx_bind (with_ref (copy_ref False False i) (\<lambda>t. env_nullify (e_refs env) notifier t)) (\<lambda>_.
      sx_bind (erase_notification i key) (\<lambda>_. (\<lambda>s. notify_loop (e_refs env) n i s))))" for key notifier
    by (intro kept_intros callbacks_keepD [OF assms] frame_store Suc)
  then show ?case
    unfolding kept_def by (subst notify_loop.simps) (auto simp: K_refl split: option.splits list.splits)
qed

lemma frame_release [kept_intros]: "callbacks_keep K env \<Longrightarrow> kept K (release (e_refs env) i)"
proof -
  assume env: "callbacks_keep K env"
  show ?thesis
    unfolding release_def by (intro kept_intros frame_notify_loop env store_only_release_content [THEN frame_store])
qed

text \<open>Evaluation of expressions.\<close>

lemma frame_impl [kept_intros]:
  assumes "\<And>ctx. kept K (tr ctx)" "\<And>ctx. kept K (tlg ctx)" "\<And>ctx. kept K (td ctx)"
  shows "kept K (Impl_to_string tr tlg td ctx)"
proof -
  have "kept K (case t of Array sub sz a b c \<Rightarrow> if is_char_scalar sub then sx_bind (ref_get r) (\<lambda>p. sx_get (\<lambda>s. read_chars (memory s) p sz))
      else sx_bind (tlg ctx) (\<lambda>lres. sx_bind (td ctx) (\<lambda>dres. sx_return (show_number lres dres)))
    | _ \<Rightarrow> sx_bind (tlg ctx) (\<lambda>lres. sx_bind (td ctx) (\<lambda>dres. sx_return (show_number lres dres))))" for t r
    by (cases t) (simp_all only: dt.case, (intro kept_intros assms)+)
  then show ?thesis unfolding Impl_to_string_def by (intro kept_intros assms)
qed

lemma frame_impl_to_ref [kept_intros]:
  "(\<And>ctx p t. kept K (cv ctx p t)) \<Longrightarrow> kept K (Impl_to_ref cv ctx t)"
  unfolding Impl_to_ref_def by (intro kept_intros)

lemma frame_int_literal: "methods_keep K (Int_literal_methods v)"
proof -
  have c: "kept K (Int_literal_copy_value v ctx p t)" for ctx p t
    unfolding Int_literal_copy_value_def Let_def by (cases t) (simp_all only: dt.case, (intro kept_intros)+)
  have r: "kept K (Int_literal_to_ref v ctx)" for ctx
    unfolding Int_literal_to_ref_def by (intro kept_intros c)
  show ?thesis
    unfolding methods_keep_def Int_literal_methods_def methods.simps Int_literal_to_long_def Int_literal_to_double_def
    by (intro allI conjI kept_intros c r)
qed

lemma frame_float_literal: "methods_keep K (Float_literal_methods v)"
proof -
  have c: "kept K (Float_literal_copy_value v ctx p t)" for ctx p t
    unfolding Float_literal_copy_value_def Let_def by (cases t) (simp_all only: dt.case, (intro kept_intros)+)
  have r: "kept K (Float_literal_to_ref v ctx)" for ctx
    unfolding Float_literal_to_ref_def by (intro kept_intros c)
  show ?thesis
    unfolding methods_keep_def Float_literal_methods_def methods.simps Float_literal_to_long_def Float_literal_to_double_def
    by (intro allI conjI kept_intros c r)
qed

lemma frame_pieces: "(\<And>m. m \<in> set ms \<Longrightarrow> kept K (m ctx)) \<Longrightarrow> kept K (String_literal_pieces ms ctx)"
  by (induction ms) (simp_all only: String_literal_pieces.simps, (intro kept_intros; simp)+)

lemma frame_string_literal:
  assumes "\<And>m. m \<in> fst ` set ms \<Longrightarrow> methods_keep K m"
  shows "methods_keep K (String_literal_methods st ms)"
proof -
  have s: "kept K (String_literal_to_string st ms ctx)" for ctx
    unfolding String_literal_to_string_def
    by (intro kept_intros frame_pieces) (use assms in \<open>force simp: methods_keep_def\<close>)
  have c: "kept K (String_literal_copy_value st ms ctx p t)" for ctx p t
    unfolding String_literal_copy_value_def
    by (auto split: dt.split intro!: kept_intros s)
  have r: "kept K (String_literal_to_ref st ms ctx)" for ctx
    unfolding String_literal_to_ref_def by (intro kept_intros c s)
  show ?thesis
    unfolding methods_keep_def String_literal_methods_def methods.simps String_literal_to_long_def String_literal_to_double_def
    by (intro allI conjI kept_intros c r s)
qed

lemma frame_operation:
  assumes f: "methods_keep K f" and ops: "\<And>m. m \<in> snd ` set ops \<Longrightarrow> methods_keep K m"
  shows "methods_keep K (Operation_methods f ops)"
proof -
  have "kept K (Operation_loop ctx r os)" if "\<And>m. m \<in> snd ` set os \<Longrightarrow> methods_keep K m" for ctx r os
    using that
  proof (induction os)
    case Nil
    show ?case by (simp only: Operation_loop.simps, intro kept_intros)
  next
    case (Cons x os)
    obtain oper m where x: "x = (oper, m)" by fastforce
    have m: "kept K (v_to_ref m ctx)" using Cons.prems x by (force simp: methods_keep_def)
    have IH: "kept K (Operation_loop ctx r os)" using Cons by force
    have "kept K (case t of Scalar d a \<Rightarrow>
         sx_bind (with_ref (ref_as True False (v_to_ref m ctx)) (\<lambda>operand_ref.
           sx_bind (scalar_operand (Scalar d a) r) (\<lambda>computed_value.
           with_ref (with_ref (copy_ref True False operand_ref) (Operation_evalp computed_value oper)) (\<lambda>result.
             with_ref (copy_ref True False result) (\<lambda>readable. move_assign r readable))))) (\<lambda>_.
         Operation_loop ctx r os)
       | _ \<Rightarrow> sx_fail e)" for t e
      by (cases t) (simp_all only: dt.case, (intro kept_intros m IH)+)
    then show ?case unfolding x Operation_loop.simps by (intro kept_intros)
  qed
  then have r: "kept K (Operation_to_ref f ops ctx)" for ctx
    unfolding Operation_to_ref_def by (intro kept_intros methods_keepD [OF f]) (use ops in blast)
  have l: "kept K (Operation_to_long f ops ctx)" "kept K (Operation_to_double f ops ctx)" for ctx
    unfolding Operation_to_long_def Operation_to_double_def by (intro kept_intros r)+
  have c: "kept K (Operation_copy_value f ops ctx p t)" for ctx p t
    unfolding Operation_copy_value_def Let_def
    by (intro kept_intros r, cases t) (simp_all only: dt.case, (intro kept_intros)+)
  show ?thesis
    unfolding methods_keep_def Operation_methods_def methods.simps
    by (intro allI conjI kept_intros c r l)
qed

lemma frame_access_all:
  assumes "\<And>a. a \<in> set as \<Longrightarrow> case a of Index_accessor m \<Rightarrow> methods_keep K m | Member_accessor m \<Rightarrow> methods_keep K m"
  shows "kept K (access_all as ctx r)"
  using assms
proof (induction as)
  case Nil
  show ?case by (simp only: access_all.simps, intro kept_intros)
next
  case (Cons a as)
  have "kept K (access a ctx t)" for t
    using Cons.prems [of a] unfolding access_def
    by (cases a) (auto intro!: kept_intros simp: methods_keep_def)
  moreover have "kept K (access_all as ctx r)" using Cons by simp
  ultimately show ?case by (simp only: access_all.simps, intro kept_intros)
qed

lemma frame_reference:
  assumes env: "callbacks_keep K env"
    and as: "\<And>a. a \<in> set as \<Longrightarrow> case a of Index_accessor m \<Rightarrow> methods_keep K m | Member_accessor m \<Rightarrow> methods_keep K m"
  shows "methods_keep K (Reference_methods env n as f)"
proof -
  have r: "kept K (Reference_to_ref env n as ctx)" for ctx
    unfolding Reference_to_ref_def by (intro kept_intros env frame_access_all) (rule as)
  have l: "kept K (Reference_to_long env n as ctx)" "kept K (Reference_to_double env n as ctx)" for ctx
    unfolding Reference_to_long_def Reference_to_double_def while_referencing_def by (intro kept_intros r)+
  have s: "kept K (Reference_to_string env n as f ctx)" for ctx
    unfolding Reference_to_string_def fmt_runtime_def
    by (intro kept_intros r) (auto split: dt.split intro!: kept_intros l)
  have c: "kept K (Reference_copy_value env n as ctx p t)" for ctx p t
    unfolding Reference_copy_value_def Let_def
    by (intro kept_intros r) (auto split: dt.split intro!: kept_intros)
  show ?thesis
    unfolding methods_keep_def Reference_methods_def methods.simps by (intro allI conjI r l s c)
qed

lemma frame_sequence:
  assumes ms: "\<And>m. m \<in> set ms \<Longrightarrow> methods_keep K m"
  shows "methods_keep K (Sequence_methods ms)"
proof -
  have t: "kept K (element_types ms ctx)" for ctx
    using ms
  proof (induction ms)
    case (Cons m ms)
    have "kept K (v_to_ref m ctx)" using Cons.prems by (simp add: methods_keep_def)
    with Cons show ?case by (simp only: element_types.simps, intro kept_intros) simp_all
  qed (simp only: element_types.simps, intro kept_intros)
  have a: "kept K (copy_array_elements ms ctx p n sub)" for ctx p n sub
    using ms
  proof (induction ms arbitrary: n)
    case (Cons m ms)
    have "kept K (v_copy_value m ctx q sub)" for q using Cons.prems by (simp add: methods_keep_def)
    with Cons show ?case by (simp only: copy_array_elements.simps, intro kept_intros) simp_all
  qed (simp only: copy_array_elements.simps, intro kept_intros)
  have u: "kept K (copy_tuple_elements ms es ctx p)" for es ctx p
    using ms
  proof (induction ms es ctx p rule: copy_tuple_elements.induct)
    case (3 m ms e es ctx p)
    have "kept K (v_copy_value m ctx q t)" for q t using "3.prems" by (simp add: methods_keep_def)
    with 3 show ?case by (simp only: copy_tuple_elements.simps, intro kept_intros) simp_all
  qed (simp_all only: copy_tuple_elements.simps, (intro kept_intros)+)
  have c: "kept K (Sequence_copy_value ms ctx p t)" for ctx p t
    unfolding Sequence_copy_value_def by (cases t) (simp_all only: dt.case, (intro kept_intros a u)+)
  have r: "kept K (Sequence_to_ref ms ctx)" for ctx
    unfolding Sequence_to_ref_def by (intro kept_intros t c)
  have s: "kept K (Sequence_to_string ms ctx)" for ctx
    unfolding Sequence_to_string_def
    by (intro kept_intros frame_pieces) (use ms in \<open>force simp: methods_keep_def\<close>)
  show ?thesis
    unfolding methods_keep_def Sequence_methods_def methods.simps Sequence_to_long_def Sequence_to_double_def
    by (intro allI conjI kept_intros r s c)
qed

lemma frame_each [kept_intros]: "(\<And>x. x \<in> set xs \<Longrightarrow> kept K (f x)) \<Longrightarrow> kept K (sx_each f xs)"
  by (induction xs) (simp_all only: sx_each.simps, (intro kept_intros; simp)+)

lemma frame_mapping:
  assumes ms: "\<And>m. m \<in> snd ` set ms \<Longrightarrow> methods_keep K m"
  shows "methods_keep K (Mapping_methods ms)"
proof -
  have t: "kept K (Mapping_members ms ctx disp al)" for ctx disp al
    using ms
  proof (induction ms ctx disp al rule: Mapping_members.induct)
    case (2 name m ms ctx disp al)
    have "kept K (v_to_ref m ctx)" using "2.prems" by (force simp: methods_keep_def)
    with 2 show ?case
      by (simp only: Mapping_members.simps, intro kept_intros) (auto intro!: kept_intros)
  qed (simp only: Mapping_members.simps, intro kept_intros)
  have "kept K (v_copy_value m ctx p t)" if "(n, m) \<in> set ms" for n m ctx p t
    using that ms by (force simp: methods_keep_def)
  then have c: "kept K (Mapping_copy_value ms ctx p t)" for ctx p t
    unfolding Mapping_copy_value_def
    by (cases t) (auto intro!: kept_intros split: option.split)
  have r: "kept K (Mapping_to_ref ms ctx)" for ctx
    unfolding Mapping_to_ref_def by (auto intro!: kept_intros t c)
  show ?thesis
    unfolding methods_keep_def Mapping_methods_def methods.simps Mapping_to_long_def Mapping_to_double_def Mapping_to_string_def
    by (intro allI conjI kept_intros r c)
qed

lemma frame_methods: "callbacks_keep K env \<Longrightarrow> methods_keep K (methods_of env e)"
proof (induction env e rule: methods_of.induct)
  case (3 env st vs)
  then show ?case by (auto intro!: frame_string_literal)
next
  case (4 env e ops)
  then show ?case by (auto intro!: frame_operation)
next
  case (5 env n as f)
  have "case a of Index_accessor m \<Rightarrow> methods_keep K m | Member_accessor m \<Rightarrow> methods_keep K m"
    if "a \<in> (\<lambda>a. case a of Index_accessor e \<Rightarrow> Index_accessor (methods_of env e) | Member_accessor e \<Rightarrow> Member_accessor (methods_of env e)) ` set as"
    for a using that 5 by (auto split: accessor.splits)
  then show ?case using 5 by (simp only: methods_of.simps, intro frame_reference) simp_all
next
  case (6 env es)
  then show ?case by (auto intro!: frame_sequence)
next
  case (7 env ps)
  then show ?case by (auto intro!: frame_mapping)
qed (auto intro: frame_int_literal frame_float_literal)

lemma frame_expression [kept_intros]:
  assumes "callbacks_keep K env"
  shows "kept K (to_long env e ctx)" "kept K (to_double env e ctx)" "kept K (to_string env e ctx)" "kept K (to_ref env e ctx)"
    "kept K (to_ref_typed env e ctx t)"
proof -
  note m = frame_methods [OF assms, THEN methods_keepD(1)] frame_methods [OF assms, THEN methods_keepD(2)]
    frame_methods [OF assms, THEN methods_keepD(3)] frame_methods [OF assms, THEN methods_keepD(4)]
    frame_methods [OF assms, THEN methods_keepD(5)]
  show "kept K (to_long env e ctx)" "kept K (to_double env e ctx)" "kept K (to_string env e ctx)" "kept K (to_ref env e ctx)"
    "kept K (to_ref_typed env e ctx t)"
    unfolding to_long_def to_double_def to_string_def to_ref_def to_ref_typed_def
    by (cases e; simp only: option.case; intro kept_intros m)+
qed

text \<open>Evaluation of templates.\<close>

lemma frame_record_members:
  assumes "callbacks_keep K env" "\<forall>m \<in> set ms. kept K (fst (snd m) ctx)"
  shows "kept K (Record_evaluate_members env ms ctx)"
  using assms(2) by (induction ms) (auto intro!: kept_intros assms(1))

lemma frame_struct_members:
  assumes "\<forall>m \<in> set ms. kept K (fst m ctx)"
  shows "kept K (Struct_evaluate_members ms ctx disp al)"
  using assms
proof (induction ms ctx disp al rule: Struct_evaluate_members.induct)
  case (2 f n ms ctx disp al)
  have "kept K (f ctx)" using "2.prems" by simp
  with 2 show ?case by (simp only: Struct_evaluate_members.simps, intro kept_intros) (auto intro!: kept_intros)
qed (simp only: Struct_evaluate_members.simps, intro kept_intros)

lemma frame_tuple_placed:
  assumes "callbacks_keep K env" "\<forall>e \<in> set es. kept K (snd e ctx)"
  shows "kept K (Tuple_evaluate_placed env es ctx)"
  using assms(2) by (induction es) (auto intro!: kept_intros assms(1))

lemma frame_tuple_elements:
  assumes "\<forall>f \<in> set fs. kept K (f ctx)"
  shows "kept K (Tuple_evaluate_elements fs ctx disp al)"
  using assms
proof (induction fs ctx disp al rule: Tuple_evaluate_elements.induct)
  case (2 f fs ctx disp al)
  have "kept K (f ctx)" using "2.prems" by simp
  with 2 show ?case by (simp only: Tuple_evaluate_elements.simps, intro kept_intros) (auto intro!: kept_intros)
qed (simp only: Tuple_evaluate_elements.simps, intro kept_intros)

lemma frame_evaluate [kept_intros]: "callbacks_keep K env \<Longrightarrow> kept K (evaluate env t ctx)"
proof (induction env t arbitrary: ctx rule: evaluate.induct)
  case (1 env kind sz align atts)
  then show ?case by (auto simp: Scalar_evaluate_def intro!: kept_intros)
next
  case (2 env sub sz start subsize atts)
  then show ?case by (auto simp: Array_evaluate_def intro!: kept_intros)
next
  case (3 env ms bufsize atts)
  then have "kept K (Record_evaluate_members env (map (\<lambda>(d, t, n). (d, evaluate env t, n)) ms) ctx)"
    by (intro frame_record_members) auto
  then show ?case using 3 by (auto simp: Record_evaluate_def intro!: kept_intros)
next
  case (4 env ms atts)
  then have "kept K (Struct_evaluate_members (map (\<lambda>(t, n). (evaluate env t, n)) ms) ctx disp al)" for disp al
    by (intro frame_struct_members) auto
  then show ?case by (auto simp: Struct_evaluate_def intro!: kept_intros)
next
  case (5 env sub atts)
  then show ?case by (auto simp: Pointer_evaluate_def intro!: kept_intros)
next
  case (6 env es bufsize atts)
  have "kept K (Tuple_evaluate_placed env (map (\<lambda>(d, t). (d, evaluate env t)) es) ctx)"
    using 6 by (intro frame_tuple_placed) auto
  moreover have "kept K (Tuple_evaluate_elements (map snd (map (\<lambda>(d, t). (d, evaluate env t)) es)) ctx disp al)" for disp al
    using 6 by (intro frame_tuple_elements) auto
  ultimately show ?case
    using 6(2) unfolding evaluate.simps Tuple_evaluate_def
    by (auto split: list.split prod.split intro!: kept_intros simp del: Tuple_evaluate_elements.simps Tuple_evaluate_placed.simps list.map)
next
  case (7 env t)
  then show ?case by (simp only: evaluate.simps, intro kept_intros)
qed

end

section \<open>Instances\<close>

text \<open>The part of the state that belongs to the session: the current context, the error handler and the transaction.\<close>

definition same_session :: "'x world_scheme \<Rightarrow> 'x world_scheme \<Rightarrow> bool" where
  "same_session s s' \<longleftrightarrow> s_context s' = s_context s \<and> g_handler s' = g_handler s \<and> g_transaction s' = g_transaction s
     \<and> g_transaction_status s' = g_transaction_status s \<and> g_transaction_data s' = g_transaction_data s"

lemma same_more:
  assumes "store.more s' = store.more (s :: 'x world_scheme)"
  shows "contexts s' = contexts s" "s_context s' = s_context s" "g_handler s' = g_handler s" "g_transaction s' = g_transaction s"
    "g_transaction_status s' = g_transaction_status s" "g_transaction_data s' = g_transaction_data s"
  using assms by (cases s; cases s'; simp)+

interpretation session: frame same_session
proof
  show "same_session s (snd (desc ctx name s))" for s :: "'x world_scheme" and ctx name
    by (simp add: same_session_def desc_def Let_def upd_context_def)
qed (auto simp: same_session_def dest: same_more)

text \<open>The stacks of the descriptors.\<close>

definition stack :: "nat \<Rightarrow> string \<Rightarrow> 'x world_scheme \<Rightarrow> nat list" where
  "stack ctx name s = m_refs (descriptor_of ctx name s)"

definition is_metadata :: "nat \<Rightarrow> string \<Rightarrow> 'x world_scheme \<Rightarrow> bool" where
  "is_metadata ctx name s = m_metadata (descriptor_of ctx name s)"

definition known :: "nat \<Rightarrow> string \<Rightarrow> 'x world_scheme \<Rightarrow> bool" where
  "known ctx name s \<longleftrightarrow> ctx < length (contexts s) \<and> find_desc ctx name s \<noteq> None"

definition same_stacks :: "'x world_scheme \<Rightarrow> 'x world_scheme \<Rightarrow> bool" where
  "same_stacks s s' \<longleftrightarrow> length (contexts s') = length (contexts s) \<and>
     (\<forall>ctx name. stack ctx name s' = stack ctx name s \<and> is_metadata ctx name s' = is_metadata ctx name s
        \<and> (known ctx name s \<longrightarrow> known ctx name s'))"

lemma find_desc_desc:
  "find_desc c n (snd (desc ctx name s)) =
     (if c = ctx \<and> ctx < length (contexts s) \<and> n = c_str name \<and> find_desc c n s = None
      then Some (Data_descriptor_impl n) else find_desc c n s)"
  by (cases "ctx < length (contexts s)"; cases "c = ctx")
    (auto simp: desc_def Let_def upd_context_def find_desc_def the_context_def map_add_def not_less list_update_beyond split: option.splits)

interpretation stacks: frame same_stacks
proof
  show "same_stacks s (snd (desc ctx name s))" for s :: "'x world_scheme" and ctx name
  proof -
    have "length (contexts (snd (desc ctx name s))) = length (contexts s)"
      by (simp add: desc_def Let_def upd_context_def)
    then show ?thesis
      by (auto simp: same_stacks_def stack_def is_metadata_def known_def descriptor_of_def find_desc_desc Data_descriptor_impl_def
        split: option.splits)
  qed
next
  show "store.more s' = store.more s \<Longrightarrow> same_stacks s s'" for s s' :: "'x world_scheme"
    using same_more(1) [of s' s]
    by (simp add: same_stacks_def stack_def is_metadata_def known_def descriptor_of_def find_desc_def the_context_def)
qed (auto simp: same_stacks_def)

end
