(* ===== verification/Descriptor_Correct.thy ===== *)
theory Descriptor_Correct
  imports World_Frame Sample_World
begin

text \<open>
  Correctness of the descriptors: what sharing, releasing and reclaiming do to the stacks of references, on every
  path, as long as the callbacks leave the stacks as they found them.
\<close>

section \<open>Operations that do not throw\<close>

definition nothrow :: "('s, 'e, 'a) sx \<Rightarrow> bool" where
  "nothrow f \<longleftrightarrow> (\<forall>s e. fst (f s) \<noteq> Inl (Throw e))"

named_theorems nothrow_intros \<open>operations that return or have undefined behaviour\<close>

lemma nothrow_base [nothrow_intros]: "nothrow (sx_return x)" "nothrow (sx_get h)" "nothrow (sx_modify g)" "nothrow (sx_fail UB)"
  by (simp_all add: nothrow_def)

lemma nothrow_bind [nothrow_intros]: "nothrow f \<Longrightarrow> (\<And>x. nothrow (g x)) \<Longrightarrow> nothrow (sx_bind f g)"
  unfolding nothrow_def sx_bind_def
  by (auto split: prod.splits sum.splits) (metis fst_conv)+

lemma nothrow_noexcept [nothrow_intros]: "nothrow (sx_noexcept f)"
  by (simp add: nothrow_def sx_noexcept_def split: prod.splits sum.splits)

lemma nothrow_catch [nothrow_intros]: "(\<And>e. nothrow (h e)) \<Longrightarrow> nothrow (sx_catch f h)"
  unfolding nothrow_def sx_catch_def by (auto split: prod.splits sum.splits fault.splits)

lemma nothrow_collect: "fst (collect b s) \<noteq> Inl (Throw e)"
  by (simp add: collect_def destroy_buffer_def nothrow_noexcept [unfolded nothrow_def, rule_format])

lemma nothrow_unlink [nothrow_intros]: "nothrow (unlink i)"
  unfolding nothrow_def unlink_def by (simp add: Let_def nothrow_collect split: option.splits)

lemma nothrow_linking [nothrow_intros]:
  "nothrow (link i c)" "nothrow (reset i)" "nothrow (destroy_ref i)" "nothrow (null_ref R W)"
  by (simp_all add: nothrow_def link_def reset_def destroy_ref_def null_ref_def Let_def nothrow_collect
    nothrow_unlink [unfolded nothrow_def, rule_format] split: option.splits)

lemma nothrow_copy_ref [nothrow_intros]: "nothrow (copy_ref R W i)"
  unfolding copy_ref_def by (intro nothrow_intros)

lemma nothrow_with_ref:
  assumes "nothrow mk" "\<And>t. nothrow (f t)"
  shows "nothrow (with_ref mk f)"
proof -
  have "sx_catch (f t) h = f t" for t h
    using assms(2) [of t] by (auto simp: fun_eq_iff sx_catch_def nothrow_def split: prod.splits sum.splits fault.splits) (metis fst_conv)
  then show ?thesis unfolding with_ref_def by (simp, intro nothrow_intros assms)
qed

lemma nothrow_ref_as [nothrow_intros]: "nothrow mk \<Longrightarrow> nothrow (ref_as R W mk)"
  unfolding ref_as_def by (intro nothrow_with_ref nothrow_intros)

section \<open>Stacks\<close>

definition with_stack :: "nat \<Rightarrow> string \<Rightarrow> nat list \<Rightarrow> 'x world_scheme \<Rightarrow> 'x world_scheme" where
  "with_stack ctx name rs = upd_desc ctx name (\<lambda>d. d\<lparr>m_refs := rs\<rparr>)"

lemma map_of_upd: "map_of (map (\<lambda>(n, d). (n, if n = name then f d else d)) xs) k
    = (if k = name then map_option f (map_of xs k) else map_of xs k)"
  by (induction xs) auto

lemma find_desc_upd:
  "ctx < length (contexts s) \<Longrightarrow> find_desc c n (upd_desc ctx name f s)
    = (if c = ctx \<and> n = name then map_option f (find_desc c n s) else find_desc c n s)"
  by (cases "c = ctx") (simp_all add: find_desc_def upd_desc_def upd_context_def the_context_def map_of_upd)

lemma upd_desc_simps [simp]:
  assumes "known ctx name s"
  shows "stack c n (upd_desc ctx name f s) = (if c = ctx \<and> n = name then m_refs (f (descriptor_of ctx name s)) else stack c n s)"
    "is_metadata c n (upd_desc ctx name f s) =
       (if c = ctx \<and> n = name then m_metadata (f (descriptor_of ctx name s)) else is_metadata c n s)"
    "known c n (upd_desc ctx name f s) = known c n s"
    "length (contexts (upd_desc ctx name f s)) = length (contexts s)"
proof -
  have l: "length (contexts (upd_desc ctx name f s)) = length (contexts s)"
    by (simp add: upd_desc_def upd_context_def)
  show "length (contexts (upd_desc ctx name f s)) = length (contexts s)" by (rule l)
  show "stack c n (upd_desc ctx name f s) = (if c = ctx \<and> n = name then m_refs (f (descriptor_of ctx name s)) else stack c n s)"
    "is_metadata c n (upd_desc ctx name f s) =
       (if c = ctx \<and> n = name then m_metadata (f (descriptor_of ctx name s)) else is_metadata c n s)"
    using assms
    by (auto simp: stack_def is_metadata_def descriptor_of_def known_def find_desc_upd split: option.splits)
  show "known c n (upd_desc ctx name f s) = known c n s"
    using assms l by (auto simp: known_def find_desc_upd)
qed

lemma with_stack_simps [simp]:
  assumes "known ctx name s"
  shows "stack c n (with_stack ctx name rs s) = (if c = ctx \<and> n = name then rs else stack c n s)"
    "is_metadata c n (with_stack ctx name rs s) = is_metadata c n s"
    "known c n (with_stack ctx name rs s) = known c n s"
    "length (contexts (with_stack ctx name rs s)) = length (contexts s)"
  using assms by (simp_all add: with_stack_def is_metadata_def [symmetric])

text \<open>The stacks are those of \<open>s\<close>, but for one descriptor.\<close>

definition stacks_but :: "nat \<Rightarrow> string \<Rightarrow> nat list \<Rightarrow> 'x world_scheme \<Rightarrow> 'x world_scheme \<Rightarrow> bool" where
  "stacks_but ctx name rs s s' \<longleftrightarrow> same_stacks (with_stack ctx name rs s) s'"

lemma stacks_but_same: "known ctx name s \<Longrightarrow> stacks_but ctx name (stack ctx name s) s s' \<longleftrightarrow> same_stacks s s'"
  by (auto simp: stacks_but_def same_stacks_def)

lemma stacks_butD:
  assumes "stacks_but ctx name rs s s'" "known ctx name s"
  shows "stack ctx name s' = rs" "known ctx name s'" "is_metadata ctx name s' = is_metadata ctx name s"
  using assms by (auto simp: stacks_but_def same_stacks_def)

lemma upd_desc_but:
  assumes "stacks_but ctx name rs s s'" "known ctx name s"
    and "m_metadata (f (descriptor_of ctx name s')) = m_metadata (descriptor_of ctx name s')"
  shows "stacks_but ctx name (m_refs (f (descriptor_of ctx name s'))) s (upd_desc ctx name f s')"
  using assms stacks_butD(2) [OF assms(1,2)] by (auto simp: stacks_but_def same_stacks_def is_metadata_def [symmetric])

lemma hoare_kept:
  assumes "kept same_stacks f"
  shows "sx_hoare (stacks_but ctx name rs s0) f (\<lambda>_. stacks_but ctx name rs s0) (stacks_but ctx name rs s0)"
proof -
  have "stacks_but ctx name rs s0 (snd (f s))" if "stacks_but ctx name rs s0 s" for s
    using that assms stacks.K_trans unfolding stacks_but_def kept_def by blast
  then show ?thesis
    unfolding sx_hoare_def by (auto split: prod.splits sum.splits fault.splits) (metis snd_conv)+
qed

lemma hoare_push:
  assumes "known ctx name s0"
  shows "sx_hoare (stacks_but ctx name rs s0) (push_ref ctx name r) (\<lambda>_. stacks_but ctx name (r # rs) s0) E"
  unfolding push_ref_def sx_hoare_def
  using upd_desc_but [OF _ assms, where f = "\<lambda>d. d\<lparr>m_refs := r # m_refs d\<rparr>"] stacks_butD(1) [OF _ assms]
  by (auto simp: stack_def)

lemma hoare_nothrow:
  assumes "nothrow f" "sx_hoare P f Q E'"
  shows "sx_hoare P f Q E"
  unfolding sx_hoare_def
proof (intro allI impI)
  fix s assume "P s"
  moreover obtain r s' where f: "f s = (r, s')" by fastforce
  ultimately show "case f s of (Inr x, s') \<Rightarrow> Q x s' | (Inl (Throw e), s') \<Rightarrow> E s' | (Inl UB, s') \<Rightarrow> True"
    using assms(1) [unfolded nothrow_def, rule_format, of s] sx_hoareD(1) [OF assms(2), of s]
    by (cases r) (auto split: fault.split)
qed

lemma hoare_pop:
  assumes "known ctx name s0"
  shows "sx_hoare (stacks_but ctx name (r # rs) s0) (pop_ref ctx name) (\<lambda>_. stacks_but ctx name rs s0) E"
proof -
  have d: "sx_hoare (stacks_but ctx name rs s0) (destroy_ref r) (\<lambda>_. stacks_but ctx name rs s0) E"
    by (rule hoare_nothrow [OF nothrow_linking(3) hoare_kept]) (intro kept_intros)
  have "pop_ref ctx name s = destroy_ref r (upd_desc ctx name (\<lambda>d. d\<lparr>m_refs := rs\<rparr>) s)"
    if "stacks_but ctx name (r # rs) s0 s" for s
    using stacks_butD(1) [OF that assms] by (simp add: pop_ref_def stack_def)
  moreover have "stacks_but ctx name rs s0 (upd_desc ctx name (\<lambda>d. d\<lparr>m_refs := rs\<rparr>) s)"
    if "stacks_but ctx name (r # rs) s0 s" for s
    using upd_desc_but [OF that assms, where f = "\<lambda>d. d\<lparr>m_refs := rs\<rparr>"] by simp
  ultimately show ?thesis using d by (simp add: sx_hoare_def)
qed

lemma hoare_emplace:
  assumes "known ctx name s0" "kept same_stacks mk"
  shows "sx_hoare (stacks_but ctx name rs s0) (emplace_ref ctx name R W mk)
    (\<lambda>_ s. \<exists>r. stacks_but ctx name (r # rs) s0 s) (stacks_but ctx name rs s0)"
  unfolding emplace_ref_def
proof (rule hoare_bind)
  show "sx_hoare (stacks_but ctx name rs s0) (ref_as R W mk) (\<lambda>_. stacks_but ctx name rs s0) (stacks_but ctx name rs s0)"
    using assms(2) by (intro hoare_kept kept_intros)
  show "sx_hoare (stacks_but ctx name rs s0) (push_ref ctx name r) (\<lambda>_ s. \<exists>r. stacks_but ctx name (r # rs) s0 s) (stacks_but ctx name rs s0)" for r
    using hoare_push [OF assms(1)] by (rule hoare_conseq) auto
qed

lemma hoare_ex:
  assumes "\<And>q. sx_hoare (P q) f Q E"
  shows "sx_hoare (\<lambda>s. \<exists>q. P q s) f Q E"
  using assms unfolding sx_hoare_def by (intro allI impI, elim exE) simp

lemma hoare_cong: "(\<And>s. P s \<Longrightarrow> f s = g s) \<Longrightarrow> sx_hoare P g Q E \<Longrightarrow> sx_hoare P f Q E"
  by (simp add: sx_hoare_def)

lemma hoare_with_ref:
  assumes "sx_hoare P mk (\<lambda>_. P) E" "\<And>t. sx_hoare P (f t) Q E'"
    and "\<And>t x. sx_hoare (Q x) (destroy_ref t) (\<lambda>_. Q x) E" "\<And>t. sx_hoare E' (destroy_ref t) (\<lambda>_. E) E"
  shows "sx_hoare P (with_ref mk f) Q E"
  unfolding with_ref_def
proof (rule hoare_bind [OF assms(1)], rule hoare_bind)
  fix t
  show "sx_hoare P (sx_catch (f t) (\<lambda>e. sx_bind (destroy_ref t) (\<lambda>_. sx_fail (Throw e)))) Q E"
    by (rule hoare_catch [OF assms(2)], rule hoare_bind [OF assms(4)]) auto
  show "sx_hoare (Q x) (sx_bind (destroy_ref t) (\<lambda>_. sx_return x)) Q E" for x
    by (rule hoare_bind [OF assms(3)]) auto
qed

text \<open>A descriptor with something on its stack gives a reference to it and calls no callback.\<close>

lemma desc_ref_top: "stack ctx name s = q # rs \<Longrightarrow> desc_ref env ctx name s = copy_ref False False q s"
  by (simp add: desc_ref_def stack_def sx_bind_def)

lemma with_desc_ref:
  "stack ctx name s = q # rs \<Longrightarrow> with_ref (desc_ref env ctx name) f s = with_ref (copy_ref False False q) f s"
  by (simp add: with_ref_def sx_bind_def desc_ref_top)

lemma hoare_unable_to: "sx_hoare P f Q E \<Longrightarrow> sx_hoare P (unable_to a name f) Q E"
  unfolding unable_to_def by (rule hoare_catch) auto

lemma nothrow_is_null [nothrow_intros]: "nothrow (is_null i)"
  by (simp add: nothrow_def is_null_def nothrow_bind [OF nothrow_unlink nothrow_base(1), unfolded nothrow_def, rule_format]
    split: option.splits)

lemma hoare_share:
  assumes env: "callbacks_keep same_stacks env" and k: "known ctx name s0"
  shows "sx_hoare (stacks_but ctx name rs s0) (share env ctx name r R W)
    (\<lambda>_ s. \<exists>q. stacks_but ctx name (q # rs) s0 s) (stacks_but ctx name rs s0)"
proof -
  let ?I = "\<lambda>rs. stacks_but ctx name rs s0"
  have tail: "sx_hoare (?I (q # rs)) (sx_bind (sx_catch (with_ref (desc_ref env ctx name) (notify_data env ctx name))
        (\<lambda>e. sx_bind (pop_ref ctx name) (\<lambda>_. sx_fail (Throw e)))) (\<lambda>_. sx_return p))
      (\<lambda>_ s. \<exists>q. ?I (q # rs) s) (?I rs)" for q p
  proof (rule hoare_bind)
    show "sx_hoare (?I (q # rs)) (sx_catch (with_ref (desc_ref env ctx name) (notify_data env ctx name))
        (\<lambda>e. sx_bind (pop_ref ctx name) (\<lambda>_. sx_fail (Throw e)))) (\<lambda>_. ?I (q # rs)) (?I rs)"
      by (rule hoare_catch [OF hoare_kept], intro kept_intros env, rule hoare_bind [OF hoare_pop [OF k]]) auto
  qed auto
  have denied: "sx_hoare (?I (q # rs)) (sx_bind (pop_ref ctx name) (\<lambda>_. sx_fail e)) Q (?I rs)" for q e and Q :: "addr \<Rightarrow> _"
    by (rule hoare_bind [OF hoare_pop [OF k]]) auto
  have check: "sx_hoare (?I (q # rs)) (if n then sx_return False else with_ref (desc_ref env ctx name) is_null) (\<lambda>_. ?I (q # rs)) (?I rs)"
    for q n
  proof (rule hoare_if)
    show "sx_hoare (?I (q # rs)) (with_ref (desc_ref env ctx name) is_null) (\<lambda>_. ?I (q # rs)) (?I rs)"
    proof (rule hoare_cong)
      show "sx_hoare (?I (q # rs)) (with_ref (copy_ref False False q) is_null) (\<lambda>_. ?I (q # rs)) (?I rs)"
        by (rule hoare_nothrow [OF nothrow_with_ref hoare_kept]) (intro nothrow_intros kept_intros)+
    qed (auto dest: stacks_butD [OF _ k] intro: with_desc_ref)
  qed auto
  have null: "sx_hoare (?I (q # rs)) (is_null r) (\<lambda>_. ?I (q # rs)) (?I rs)" for q
    by (rule hoare_nothrow [OF nothrow_is_null hoare_kept]) (intro kept_intros)
  show ?thesis
    unfolding share_def
    by (rule hoare_unable_to, rule hoare_bind, rule hoare_kept, (simp only: metadata_def, intro kept_intros),
      rule hoare_bind, rule hoare_kept, intro kept_intros, rule hoare_if, blast,
      rule hoare_bind, rule hoare_kept, intro kept_intros, rule hoare_bind, rule hoare_emplace [OF k], intro kept_intros,
      rule hoare_ex, rule hoare_bind [OF null], rule hoare_bind [OF check], rule hoare_if, rule denied, rule tail)
qed

lemma nothrow_if [nothrow_intros]: "(c \<Longrightarrow> nothrow f) \<Longrightarrow> (\<not> c \<Longrightarrow> nothrow g) \<Longrightarrow> nothrow (if c then f else g)"
  by simp

lemma nothrow_pop [nothrow_intros]: "nothrow (pop_ref ctx name)"
proof -
  have "nothrow (case rs of [] \<Rightarrow> sx_fail UB
      | r # rest \<Rightarrow> sx_bind (sx_modify (upd_desc ctx name (\<lambda>d. d\<lparr>m_refs := rest\<rparr>))) (\<lambda>_. destroy_ref r))" for rs
    by (cases rs) (simp_all only: list.case, (intro nothrow_intros)+)
  then show ?thesis unfolding pop_ref_def by (intro nothrow_intros)
qed

lemma nothrow_emplace [nothrow_intros]: "nothrow mk \<Longrightarrow> nothrow (emplace_ref ctx name R W mk)"
  unfolding emplace_ref_def push_ref_def by (intro nothrow_intros)

lemma sx_bind_assoc: "sx_bind (sx_bind f g) h = sx_bind f (\<lambda>x. sx_bind (g x) h)"
  by (auto simp: fun_eq_iff sx_bind_def split: prod.splits sum.splits)

text \<open>The stack after the top is gone: a metadata keeps one reference.\<close>

definition popped :: "nat \<Rightarrow> string \<Rightarrow> nat list \<Rightarrow> 'x world_scheme \<Rightarrow> 'x world_scheme \<Rightarrow> bool" where
  "popped ctx name rs s s' \<longleftrightarrow>
     (if is_metadata ctx name s \<and> length rs = 2 then \<exists>q. stacks_but ctx name [q] s s' else stacks_but ctx name (tl rs) s s')"

lemma kept_popped:
  assumes "kept same_stacks f" "nothrow f"
  shows "sx_hoare (popped ctx name rs s0) f (\<lambda>_. popped ctx name rs s0) E"
proof (cases "is_metadata ctx name s0 \<and> length rs = 2")
  case True
  have "sx_hoare (\<lambda>s. \<exists>q. stacks_but ctx name [q] s0 s) f (\<lambda>_ s. \<exists>q. stacks_but ctx name [q] s0 s) E"
    by (rule hoare_nothrow [OF assms(2)], rule hoare_ex, rule hoare_conseq [OF hoare_kept [OF assms(1)]]) auto
  moreover have "popped ctx name rs s0 = (\<lambda>s. \<exists>q. stacks_but ctx name [q] s0 s)" using True by (simp add: fun_eq_iff popped_def)
  ultimately show ?thesis by simp
next
  case False
  have "sx_hoare (stacks_but ctx name (tl rs) s0) f (\<lambda>_. stacks_but ctx name (tl rs) s0) E"
    by (rule hoare_nothrow [OF assms(2) hoare_kept [OF assms(1)]])
  moreover have "popped ctx name rs s0 = stacks_but ctx name (tl rs) s0" using False by (auto simp: fun_eq_iff popped_def)
  ultimately show ?thesis by simp
qed

text \<open>The replacement of the placeholder by \<open>mk\<close>, in states with the popped stack.\<close>

lemma hoare_placeholder:
  assumes k: "known ctx name s0" and mk: "kept same_stacks mk" and rs: "rs = q # rest"
    and E: "\<And>s. is_metadata ctx name s0 \<Longrightarrow> length rs = 2 \<Longrightarrow> stacks_but ctx name [] s0 s \<Longrightarrow> E s"
  shows "sx_hoare (stacks_but ctx name rest s0)
    (sx_bind (placeholder_left ctx name) (\<lambda>left.
       if left then sx_bind (pop_ref ctx name) (\<lambda>_. emplace_ref ctx name True False mk) else sx_return ()))
    (\<lambda>_. popped ctx name rs s0) E"
proof -
  let ?m = "is_metadata ctx name s0 \<and> length rs = 2"
  have left: "sx_hoare (stacks_but ctx name rest s0) (placeholder_left ctx name)
      (\<lambda>left s. left = ?m \<and> stacks_but ctx name rest s0 s) E"
    unfolding placeholder_left_def
    by (rule hoare_get) (use rs in \<open>auto dest: stacks_butD [OF _ k] simp: stack_def is_metadata_def\<close>)
  show ?thesis
  proof (rule hoare_bind [OF left], rule hoare_if)
    fix l assume l
    show "sx_hoare (\<lambda>s. l = ?m \<and> stacks_but ctx name rest s0 s)
        (sx_bind (pop_ref ctx name) (\<lambda>_. emplace_ref ctx name True False mk)) (\<lambda>_. popped ctx name rs s0) E"
    proof (cases ?m)
      case True
      then obtain r where rest: "rest = [r]" using rs by (cases rest) auto
      have "sx_hoare (stacks_but ctx name [r] s0) (sx_bind (pop_ref ctx name) (\<lambda>_. emplace_ref ctx name True False mk))
          (\<lambda>_. popped ctx name rs s0) E"
        by (rule hoare_bind [OF hoare_pop [OF k]], rule hoare_conseq [OF hoare_emplace [OF k mk]])
          (use True E in \<open>auto simp: popped_def\<close>)
      then show ?thesis unfolding rest by (rule hoare_pre) auto
    next
      case False
      with \<open>l\<close> show ?thesis by (auto simp: sx_hoare_def)
    qed
  next
    fix l assume "\<not> l"
    then show "sx_hoare (\<lambda>s. l = ?m \<and> stacks_but ctx name rest s0 s) (sx_return ()) (\<lambda>_. popped ctx name rs s0) E"
      using rs by (auto simp: sx_hoare_def popped_def)
  qed
qed

lemma hoare_nothing_shared:
  assumes k: "known ctx name s0" and
    f: "\<And>q rest. rs = q # rest \<Longrightarrow> \<not> (rest = [] \<and> is_metadata ctx name s0) \<Longrightarrow> sx_hoare (stacks_but ctx name rs s0) f Q E"
    and E: "\<And>s. stacks_but ctx name rs s0 s \<Longrightarrow> E s"
  shows "sx_hoare (stacks_but ctx name rs s0)
    (sx_bind (sx_get (\<lambda>s. nothing_shared (descriptor_of ctx name s))) (\<lambda>none. if none then sx_fail e else f)) Q E"
proof (rule hoare_bind [OF hoare_get], rule conjI, assumption)
  show "stacks_but ctx name rs s0 s \<Longrightarrow>
      nothing_shared (descriptor_of ctx name s) = (rs = [] \<or> length rs = 1 \<and> is_metadata ctx name s0)" for s
    using stacks_butD [OF _ k] by (fastforce simp: nothing_shared_def stack_def is_metadata_def)
  show "sx_hoare (\<lambda>s. stacks_but ctx name rs s0 s \<and> none = (rs = [] \<or> length rs = 1 \<and> is_metadata ctx name s0))
      (if none then sx_fail e else f) Q E" for none
  proof (rule hoare_if)
    assume "\<not> none"
    show "sx_hoare (\<lambda>s. stacks_but ctx name rs s0 s \<and> none = (rs = [] \<or> length rs = 1 \<and> is_metadata ctx name s0)) f Q E"
    proof (cases rs)
      case Nil
      with \<open>\<not> none\<close> show ?thesis by (simp add: sx_hoare_def)
    next
      case (Cons q rest)
      with \<open>\<not> none\<close> f [OF Cons] show ?thesis by (cases "rest = [] \<and> is_metadata ctx name s0") (auto simp: sx_hoare_def)
    qed
  qed (use E in auto)
qed

lemma hoare_remove:
  assumes env: "callbacks_keep same_stacks env" and k: "known ctx name s0"
    and g: "\<And>t. sx_hoare (stacks_but ctx name rest s0) (g t) (\<lambda>_. popped ctx name rs s0) E'"
    and E': "\<And>t. sx_hoare E' (destroy_ref t) (\<lambda>_. E) E"
    and rs: "rs = q # rest" and E: "\<And>s. stacks_but ctx name rs s0 s \<Longrightarrow> E s"
  shows "sx_hoare (stacks_but ctx name rs s0)
    (sx_bind (with_ref (desc_ref env ctx name) (notify_data_remove env ctx name)) (\<lambda>_.
     with_ref (desc_ref env ctx name) (\<lambda>t. sx_bind (pop_ref ctx name) (\<lambda>_. g t))))
    (\<lambda>_. popped ctx name rs s0) E"
proof (rule hoare_bind)
  show "sx_hoare (stacks_but ctx name rs s0) (with_ref (desc_ref env ctx name) (notify_data_remove env ctx name))
      (\<lambda>_. stacks_but ctx name rs s0) E"
    by (rule hoare_conseq [OF hoare_kept]) (use E in \<open>auto intro!: kept_intros env\<close>)
  show "sx_hoare (stacks_but ctx name rs s0) (with_ref (desc_ref env ctx name) (\<lambda>t. sx_bind (pop_ref ctx name) (\<lambda>_. g t)))
      (\<lambda>_. popped ctx name rs s0) E"
  proof (rule hoare_cong)
    show "sx_hoare (stacks_but ctx name rs s0) (with_ref (copy_ref False False q) (\<lambda>t. sx_bind (pop_ref ctx name) (\<lambda>_. g t)))
        (\<lambda>_. popped ctx name rs s0) E"
    proof (rule hoare_with_ref)
      show "sx_hoare (stacks_but ctx name rs s0) (copy_ref False False q) (\<lambda>_. stacks_but ctx name rs s0) E"
        by (rule hoare_nothrow [OF nothrow_copy_ref hoare_kept]) (intro kept_intros)
      show "sx_hoare (stacks_but ctx name rs s0) (sx_bind (pop_ref ctx name) (\<lambda>_. g t)) (\<lambda>_. popped ctx name rs s0) E'" for t
        unfolding rs by (rule hoare_bind [OF hoare_pop [OF k]]) (rule g [unfolded rs])
      show "sx_hoare (popped ctx name rs s0) (destroy_ref t) (\<lambda>_. popped ctx name rs s0) E" for t
        by (rule kept_popped) (intro kept_intros nothrow_intros)+
    qed (rule E')
  qed (use rs in \<open>auto dest: stacks_butD [OF _ k] intro: with_desc_ref\<close>)
qed

lemma hoare_release:
  assumes env: "callbacks_keep same_stacks env" and k: "known ctx name s0"
  shows "sx_hoare (stacks_but ctx name rs s0) (desc_release env ctx name)
    (\<lambda>_. popped ctx name rs s0) (stacks_but ctx name rs s0)"
  unfolding desc_release_def
proof (rule hoare_unable_to, rule hoare_nothing_shared [OF k])
  fix q rest assume rs: "rs = q # rest"
  show "sx_hoare (stacks_but ctx name rs s0)
    (sx_bind (with_ref (desc_ref env ctx name) (notify_data_remove env ctx name)) (\<lambda>_.
     with_ref (desc_ref env ctx name) (\<lambda>oldref. sx_bind (pop_ref ctx name) (\<lambda>_. sx_bind (placeholder_left ctx name) (\<lambda>left.
       if left then sx_bind (pop_ref ctx name) (\<lambda>_. emplace_ref ctx name True False (copy_ref False False oldref)) else sx_return ())))))
    (\<lambda>_. popped ctx name rs s0) (stacks_but ctx name rs s0)"
  proof (rule hoare_remove [OF env k _ _ rs])
    fix oldref
    have n: "nothrow (sx_bind (placeholder_left ctx name) (\<lambda>left.
       if left then sx_bind (pop_ref ctx name) (\<lambda>_. emplace_ref ctx name True False (copy_ref False False oldref)) else sx_return ()))"
      unfolding placeholder_left_def by (intro nothrow_intros)
    show "sx_hoare (stacks_but ctx name rest s0) (sx_bind (placeholder_left ctx name) (\<lambda>left.
       if left then sx_bind (pop_ref ctx name) (\<lambda>_. emplace_ref ctx name True False (copy_ref False False oldref)) else sx_return ()))
       (\<lambda>_. popped ctx name rs s0) (\<lambda>_. False)"
      by (rule hoare_nothrow [OF n hoare_placeholder [OF k _ rs, where E = "\<lambda>_. True"]]) (auto intro: kept_intros)
  qed (auto simp: sx_hoare_def)
qed auto

lemma hoare_reclaim:
  assumes env: "callbacks_keep same_stacks env" and k: "known ctx name s0"
  shows "sx_hoare (stacks_but ctx name rs s0) (desc_reclaim env ctx name) (\<lambda>_. popped ctx name rs s0)
    (\<lambda>s. stacks_but ctx name rs s0 s \<or> is_metadata ctx name s0 \<and> length rs = 2 \<and> stacks_but ctx name [] s0 s)"
    (is "sx_hoare _ _ _ ?E")
  unfolding desc_reclaim_def
proof (rule hoare_unable_to, rule hoare_nothing_shared [OF k])
  fix q rest assume rs: "rs = q # rest"
  let ?E' = "\<lambda>s. is_metadata ctx name s0 \<and> length rs = 2 \<and> stacks_but ctx name [] s0 s"
  show "sx_hoare (stacks_but ctx name rs s0)
    (sx_bind (with_ref (desc_ref env ctx name) (notify_data_remove env ctx name)) (\<lambda>_.
     with_ref (desc_ref env ctx name) (\<lambda>oldref. sx_bind (pop_ref ctx name) (\<lambda>_. sx_bind (placeholder_left ctx name) (\<lambda>left.
       sx_bind (if left then sx_bind (pop_ref ctx name) (\<lambda>_. emplace_ref ctx name True False (ref_copy oldref)) else sx_return ()) (\<lambda>_.
       release (e_refs env) oldref))))))
    (\<lambda>_. popped ctx name rs s0) ?E"
  proof (rule hoare_remove [OF env k _ _ rs, where E' = ?E'])
    fix oldref
    have "sx_hoare (stacks_but ctx name rest s0)
      (sx_bind (sx_bind (placeholder_left ctx name) (\<lambda>left.
        if left then sx_bind (pop_ref ctx name) (\<lambda>_. emplace_ref ctx name True False (ref_copy oldref)) else sx_return ())) (\<lambda>_.
       release (e_refs env) oldref)) (\<lambda>_. popped ctx name rs s0) ?E'"
      by (rule hoare_bind, rule hoare_placeholder [OF k _ rs], intro kept_intros, blast, rule kept_popped, intro kept_intros env)
        (simp add: release_def nothrow_intros)
    then show "sx_hoare (stacks_but ctx name rest s0) (sx_bind (placeholder_left ctx name) (\<lambda>left.
       sx_bind (if left then sx_bind (pop_ref ctx name) (\<lambda>_. emplace_ref ctx name True False (ref_copy oldref)) else sx_return ()) (\<lambda>_.
       release (e_refs env) oldref))) (\<lambda>_. popped ctx name rs s0) ?E'"
      by (simp add: sx_bind_assoc)
  next
    show "sx_hoare ?E' (destroy_ref t) (\<lambda>_. ?E) ?E" for t
    proof (cases "is_metadata ctx name s0 \<and> length rs = 2")
      case True
      then show ?thesis
        by (intro hoare_conseq [OF hoare_kept [OF stacks.frame_store [OF store_only_linking(5)], of ctx name "[]" s0 t]]) auto
    qed (auto simp: sx_hoare_def)
  qed auto
qed auto

section \<open>Properties\<close>

lemma hoare_outcome:
  "sx_hoare P f Q E \<Longrightarrow> P s \<Longrightarrow> case f s of (Inr x, s') \<Rightarrow> Q x s' | (Inl (Throw e), s') \<Rightarrow> E s' | (Inl UB, s') \<Rightarrow> True"
  by (simp add: sx_hoare_def)

lemma stacks_but_id: "known ctx name s \<Longrightarrow> stacks_but ctx name (stack ctx name s) s = same_stacks s"
  by (simp add: fun_eq_iff stacks_but_same)

lemma sample_callbacks: "callbacks_keep same_stacks null_env"
  by (simp add: callbacks_keep_def null_env_def kept_same stacks.K_refl)

text \<open>A state with a descriptor and a reference to an integer in memory.\<close>

definition sample_int :: dt where
  "sample_int = Scalar \<lparr>sc_size = 4, sc_dense_size = 4, sc_align = 4, sc_kind = SIGNED, sc_copy = None, sc_destroy = None\<rparr> []"

definition sample_world_of :: "dt \<Rightarrow> bool \<Rightarrow> world" where
  "sample_world_of t meta = snd (sx_bind (make_ref False False 64 Keep t True True) (\<lambda>_. set_metadata 0 ''d'' meta)
     (null_world (null_context\<lparr>m_descriptors := [(''d'', Data_descriptor_impl ''d'')]\<rparr>)))"

abbreviation sample_world :: "bool \<Rightarrow> world" where
  "sample_world \<equiv> sample_world_of sample_int"


lemma sample_known: "known 0 ''d'' (sample_world meta)"
proof -
  have "length (contexts (sample_world meta)) = 1 \<and> \<not> Option.is_none (find_desc 0 ''d'' (sample_world meta))" for meta
    by (cases meta; simp; code_simp)
  then show ?thesis by (simp add: known_def Option.is_none_def)
qed



definition sample_shared :: "bool \<Rightarrow> world" where
  "sample_shared meta = snd (share null_env 0 ''d'' 0 True False (sample_world meta))"

lemma sample_shared_known: "known 0 ''d'' (sample_shared meta)"
proof -
  have "length (contexts (sample_shared meta)) = 1 \<and> \<not> Option.is_none (find_desc 0 ''d'' (sample_shared meta))" for meta
    by (cases meta; simp; code_simp)
  then show ?thesis by (simp add: known_def Option.is_none_def)
qed




text \<open>
  A metadata whose copy function throws loses its placeholder: reclaim throws after the placeholder is gone, and the
  descriptor is left with an empty stack.
\<close>

lemma reclaim_loses_placeholder:
  "let s = snd (share null_env 0 ''d'' 0 False False (sample_world_of (Pointer sample_int
     (Some (\<lambda>_ _. sx_fail (Throw (Std_exception ''no copy'')))) None []) True)) in
   length (stack 0 ''d'' s) = 2 \<and> is_metadata 0 ''d'' s
   \<and> (case desc_reclaim null_env 0 ''d'' s of (Inl (Throw e), s') \<Rightarrow> stack 0 ''d'' s' = [] | _ \<Rightarrow> False)"
  by code_simp

end
