(* ===== verification/API_Correct.thy ===== *)
theory API_Correct
  imports Descriptor_Correct
begin

text \<open>
  Correctness of the C interface: no exception crosses it, calls before the initialisation fail with a message
  and change nothing, and the functions that expose several data make exactly the calls of an abstract
  program, in its order, and return the first error.
\<close>

section \<open>Calls\<close>

datatype api_call =
    Call_init pc_tree | Call_finalize | Call_version addr nat | Call_event string | Call_share string addr nat
  | Call_access string addr nat | Call_release string | Call_reclaim string | Call_expose string addr nat
  | Call_multi_expose string string addr nat "(string \<times> addr \<times> nat) list" | Call_begin string | Call_end

fun api :: "'x env \<Rightarrow> api_call \<Rightarrow> ('x, pdi_status) world_op" where
  "api env (Call_init conf) = PDI_init env conf"
| "api env Call_finalize = PDI_finalize env"
| "api env (Call_version provided expected) = PDI_version env provided expected"
| "api env (Call_event name) = PDI_event env name"
| "api env (Call_share name buffer inout) = PDI_share env name buffer inout"
| "api env (Call_access name buffer inout) = PDI_access env name buffer inout"
| "api env (Call_release name) = PDI_release env name"
| "api env (Call_reclaim name) = PDI_reclaim env name"
| "api env (Call_expose name data inout) = PDI_expose env name data inout"
| "api env (Call_multi_expose event_name name data inout rest) = PDI_multi_expose env event_name name data inout rest"
| "api env (Call_begin name) = PDI_transaction_begin env name"
| "api env Call_end = PDI_transaction_end env"

text \<open>A function of the user that is called for errors is a C function: it returns.\<close>

definition handlers_return :: "'x env \<Rightarrow> bool" where
  "handlers_return env \<longleftrightarrow> (\<forall>k status message. nothrow (e_handler env k status message))"

lemma nothrow_return_err [nothrow_intros]: "handlers_return env \<Longrightarrow> nothrow (return_err env e)"
proof -
  assume env: "handlers_return env"
  have "nothrow (case h of PDI_NULL_HANDLER \<Rightarrow> sx_return () | PDI_ASSERT_HANDLER \<Rightarrow> if status \<noteq> PDI_OK then sx_fail UB else sx_return ()
     | PDI_WARN_HANDLER \<Rightarrow> sx_return () | User_handler k \<Rightarrow> e_handler env k status message)" for h status message
    using env by (cases h) (auto simp: handlers_return_def intro: nothrow_intros)
  then have "nothrow (call_handler env status message)" for status message
    unfolding call_handler_def by (intro nothrow_intros)
  then show ?thesis unfolding return_err_def Let_def by (intro nothrow_intros)
qed

lemma nothrow_guarded [nothrow_intros]: "handlers_return env \<Longrightarrow> nothrow (guarded env f)"
  unfolding guarded_def by (intro nothrow_intros)

text \<open>
  (C23) No exception crosses the C interface: whatever the call and the state, it returns a status, or its behaviour is undefined or
  ends the process. This needs error handlers that return, as C functions do.
\<close>

theorem calls_return_status:
  assumes "handlers_return env"
  shows "(\<exists>status. fst (api env c s) = Inr status) \<or> fst (api env c s) = Inl UB"
proof -
  have "nothrow (api env c)"
    by (cases c) (auto simp: PDI_init_def PDI_finalize_def PDI_version_def PDI_event_def PDI_share_def PDI_access_def PDI_release_def
      PDI_reclaim_def PDI_expose_def PDI_multi_expose_def PDI_transaction_begin_def PDI_transaction_end_def note_status_def
      intro!: nothrow_intros assms)
  then show ?thesis by (metis fault.exhaust nothrow_def sum.exhaust)
qed

theorem calls_return_status_witness:
  "fst (api null_env (Call_reclaim ''d'') (sample_world False)) = Inr PDI_ERR_STATE"
proof -
  have "handlers_return null_env" by (simp add: handlers_return_def null_env_def nothrow_base)
  from calls_return_status [OF this, of "Call_reclaim ''d''" "sample_world False"]
  have "fst (api null_env (Call_reclaim ''d'') (sample_world False)) \<noteq> Inl (Throw e)" for e by auto
  moreover have "fst (api null_env (Call_reclaim ''d'') (sample_world False)) = Inr PDI_ERR_STATE"
    unfolding api.simps by code_simp
  ultimately show ?thesis by simp
qed

section \<open>Calls before the initialisation\<close>

definition error_noted :: "exn \<Rightarrow> 'x world_scheme \<Rightarrow> 'x world_scheme" where
  "error_noted e s = s\<lparr>g_verbosemsg := build_verbosemsg e 0, g_errmsg := full_msg e\<rparr>"



section \<open>Sequences of calls\<close>

fun run_calls :: "('s, 'e, 'a) sx list \<Rightarrow> ('s, 'e, 'a list) sx" where
  "run_calls [] = sx_return []"
| "run_calls (c # cs) = sx_bind c (\<lambda>x. sx_bind (run_calls cs) (\<lambda>xs. sx_return (x # xs)))"

text \<open>The calls up to and with the first one that fails.\<close>

fun run_until_error :: "('s, 'e, pdi_status) sx list \<Rightarrow> ('s, 'e, pdi_status list) sx" where
  "run_until_error [] = sx_return []"
| "run_until_error (c # cs) =
     sx_bind c (\<lambda>x. if x \<noteq> PDI_OK then sx_return [x] else sx_bind (run_until_error cs) (\<lambda>xs. sx_return (x # xs)))"

fun first_error :: "pdi_status list \<Rightarrow> pdi_status" where
  "first_error [] = PDI_OK"
| "first_error (x # xs) = (if x = PDI_OK then first_error xs else x)"

lemma first_error_append: "first_error (xs @ ys) = (if first_error xs = PDI_OK then first_error ys else first_error xs)"
  by (induction xs) auto

text \<open>The callbacks and the error handler leave the session alone.\<close>

definition session_kept :: "'x env \<Rightarrow> bool" where
  "session_kept env \<longleftrightarrow> callbacks_keep same_session env \<and> handlers_return env
     \<and> (\<forall>k status message. kept same_session (e_handler env k status message))"

lemma session_upd_desc [kept_intros]: "kept same_session (sx_modify (upd_desc ctx name f))"
  by (rule kept_modify) (simp add: same_session_def upd_desc_def upd_context_def)

lemma session_kept_descriptor [kept_intros]:
  "kept same_session (pop_ref ctx name)" "kept same_session mk \<Longrightarrow> kept same_session (emplace_ref ctx name R W mk)"
  "kept same_session (placeholder_left ctx name)" "kept same_session (metadata ctx name)" "kept same_session (default_type ctx name)"
proof -
  have "kept same_session (case rs of [] \<Rightarrow> sx_fail UB
      | r # rest \<Rightarrow> sx_bind (sx_modify (upd_desc ctx name (\<lambda>d. d\<lparr>m_refs := rest\<rparr>))) (\<lambda>_. destroy_ref r))" for rs
    by (cases rs) (simp_all only: list.case, (intro kept_intros)+)
  then show "kept same_session (pop_ref ctx name)" unfolding pop_ref_def by (intro kept_intros)
  show "kept same_session mk \<Longrightarrow> kept same_session (emplace_ref ctx name R W mk)"
    "kept same_session (placeholder_left ctx name)" "kept same_session (metadata ctx name)" "kept same_session (default_type ctx name)"
    unfolding emplace_ref_def push_ref_def placeholder_left_def metadata_def default_type_def by (assumption | intro kept_intros)+
qed

lemma session_unable_to [kept_intros]: "kept same_session f \<Longrightarrow> kept same_session (unable_to a name f)"
  unfolding unable_to_def by (intro kept_intros)

lemma session_guarded [kept_intros]: "session_kept env \<Longrightarrow> kept same_session f \<Longrightarrow> kept same_session (guarded env f)"
proof -
  assume env: "session_kept env" and f: "kept same_session f"
  have "kept same_session (case h of PDI_NULL_HANDLER \<Rightarrow> sx_return () | PDI_ASSERT_HANDLER \<Rightarrow> if status \<noteq> PDI_OK then sx_fail UB else sx_return ()
     | PDI_WARN_HANDLER \<Rightarrow> sx_return () | User_handler k \<Rightarrow> e_handler env k status message)" for h status message
    using env by (cases h) (auto simp: session_kept_def intro!: kept_intros)
  then have "kept same_session (call_handler env status message)" for status message
    unfolding call_handler_def by (intro kept_intros)
  moreover have "kept same_session (sx_modify (\<lambda>s. if b then s\<lparr>g_verbosemsg := m\<rparr> else s))" "kept same_session (sx_modify (\<lambda>s. s\<lparr>g_errmsg := m\<rparr>))" for b m
    by (rule kept_modify, simp add: same_session_def)+
  ultimately show ?thesis
    unfolding guarded_def return_err_def Let_def by (intro kept_intros f)
qed

lemma session_current_context [kept_intros]: "kept same_session current_context"
  unfolding current_context_def kept_def by (auto simp: same_session_def split: option.splits)

lemma session_calls:
  assumes "session_kept env"
  shows "kept same_session (PDI_event env name)" "kept same_session (PDI_share env name p inout)" "kept same_session (PDI_reclaim env name)"
proof -
  have env: "callbacks_keep same_session env" using assms by (simp add: session_kept_def)
  have s: "kept same_session (share env ctx name r R W)" for ctx name r R W
    unfolding share_def by (intro kept_intros env)
  show "kept same_session (PDI_event env name)" "kept same_session (PDI_share env name p inout)" "kept same_session (PDI_reclaim env name)"
    unfolding PDI_event_def PDI_share_def PDI_reclaim_def returning_ok_def share_data_def desc_reclaim_def
    by (intro kept_intros assms env s)+
qed

lemma kept_context: "kept same_session f \<Longrightarrow> s_context s \<noteq> None \<Longrightarrow> f s = (r, s') \<Longrightarrow> s_context s' \<noteq> None"
  unfolding kept_def same_session_def by (metis snd_conv)

lemma current_context_some: "s_context s = Some c \<Longrightarrow> current_context s = (Inr c, s)"
  by (simp add: current_context_def sx_bind_def)

abbreviation share_item :: "'x env \<Rightarrow> string \<times> addr \<times> nat \<Rightarrow> ('x, pdi_status) world_op" where
  "share_item env x \<equiv> PDI_share env (fst x) (fst (snd x)) (snd (snd x))"

text \<open>The names that were shared before the first failure.\<close>

definition shared_names :: "(string \<times> addr \<times> nat) list \<Rightarrow> pdi_status list \<Rightarrow> string list" where
  "shared_names items statuses = map (\<lambda>x. c_str (fst x)) (take (length (takeWhile ((=) PDI_OK) statuses)) items)"

lemma multi_share_runs:
  assumes env: "session_kept env"
  shows "s_context s \<noteq> None \<Longrightarrow>
    multi_share env items s = sx_bind (run_until_error (map (share_item env) items)) (\<lambda>sts.
      sx_return (first_error sts, shared_names items sts)) s"
proof (induction items arbitrary: s)
  case Nil
  then show ?case by (simp add: shared_names_def)
next
  case (Cons x items)
  obtain name p inout where x: "x = (name, p, inout)" by (metis prod.exhaust)
  obtain r s1 where sh: "PDI_share env name p inout s = (r, s1)" by fastforce
  have "s_context s1 \<noteq> None" using kept_context [OF session_calls(2) [OF env] Cons.prems sh] .
  from Cons.IH [OF this] show ?case
    using Cons.prems x sh
    by (cases r) (auto simp: current_context_some sx_bind_def shared_names_def split: prod.splits sum.splits)
qed

lemma run_until_error_context:
  assumes env: "session_kept env"
  shows "kept same_session (run_until_error (map (share_item env) items))"
  by (induction items) (simp_all only: list.map run_until_error.simps, (intro kept_intros session_calls [OF env]; assumption?)+)

lemma multi_reclaim_runs:
  assumes env: "session_kept env"
  shows "s_context s \<noteq> None \<Longrightarrow>
    multi_reclaim env names status s = sx_bind (run_calls (map (PDI_reclaim env) names)) (\<lambda>sts. sx_return (first_error (status # sts))) s"
proof (induction names arbitrary: s status)
  case Nil
  then show ?case by simp
next
  case (Cons name names)
  obtain r s1 where rc: "PDI_reclaim env name s = (r, s1)" by fastforce
  have "s_context s1 \<noteq> None" using kept_context [OF session_calls(3) [OF env] Cons.prems rc] .
  from Cons.IH [OF this] show ?case
    using Cons.prems rc
    by (cases r) (auto simp: current_context_some sx_bind_def split: prod.splits sum.splits)
qed

lemma nothrow_run_calls: "(\<And>c. c \<in> set cs \<Longrightarrow> nothrow c) \<Longrightarrow> nothrow (run_calls cs)"
  by (induction cs) (simp_all only: run_calls.simps, (intro nothrow_intros; simp)+)

lemma nothrow_run_until_error: "(\<And>c. c \<in> set cs \<Longrightarrow> nothrow c) \<Longrightarrow> nothrow (run_until_error cs)"
  by (induction cs) (simp_all only: run_until_error.simps, (intro nothrow_intros; simp)+)

text \<open>
  The abstract program of a multi-expose: the data are shared in order up to the first failure, the event is triggered when all
  are shared, then what was shared is reclaimed in the reverse order, whatever fails meanwhile. The
  status is that of the first call that failed.
\<close>

definition multi_expose_spec :: "'x env \<Rightarrow> string \<Rightarrow> (string \<times> addr \<times> nat) list \<Rightarrow> ('x, pdi_status) world_op" where
  "multi_expose_spec env event_name items =
     sx_bind (run_until_error (map (share_item env) items)) (\<lambda>shares.
     sx_bind (run_calls ((if first_error shares = PDI_OK then [PDI_event env event_name] else [])
       @ map (PDI_reclaim env) (rev (shared_names items shares)))) (\<lambda>others.
     sx_return (first_error (shares @ others))))"

text \<open>
  (C4) \<open>PDI_multi_expose\<close> implements its abstract program: the same calls in the same order, the first error as its status.
\<close>

theorem multi_expose_refines:
  assumes "session_kept env" "s_context s \<noteq> None"
  shows "PDI_multi_expose env event_name name data inout rest s = multi_expose_spec env event_name ((name, data, inout) # rest) s"
proof -
  have nothrow: "nothrow (PDI_share env n p io)" "nothrow (PDI_event env n)" "nothrow (PDI_reclaim env n)" for n p io
    using assms(1) by (auto simp: PDI_share_def PDI_event_def PDI_reclaim_def session_kept_def intro: nothrow_guarded)
  obtain r1 s1 where 1: "PDI_share env name data inout s = (r1, s1)" by fastforce
  have c1: "s_context s1 \<noteq> None" using kept_context [OF session_calls(2) [OF assms(1)] assms(2) 1] .
  let ?all = "run_until_error (map (share_item env) rest)"
  obtain r2 s2 where 2: "?all s1 = (r2, s2)" by fastforce
  have c2: "s_context s2 \<noteq> None" using kept_context [OF run_until_error_context [OF assms(1)] c1 2] .
  obtain r3 s3 where 3: "PDI_event env event_name s2 = (r3, s3)" by fastforce
  have c3: "s_context s3 \<noteq> None" using kept_context [OF session_calls(1) [OF assms(1)] c2 3] .
  note c = c2 c3
  let ?body = "sx_bind (PDI_share env name data inout) (\<lambda>status. if status \<noteq> PDI_OK then sx_return status
        else sx_bind (multi_share env rest) (\<lambda>(status, names).
          sx_bind (if status = PDI_OK then sx_bind current_context (\<lambda>_. PDI_event env event_name) else sx_return status) (\<lambda>status.
          multi_reclaim env (rev (c_str name # names)) status)))"
  have body: "?body s = multi_expose_spec env event_name ((name, data, inout) # rest) s"
    using 1 2 3 c
    by (cases r1; cases r2; cases r3)
      (auto simp: multi_expose_spec_def sx_bind_def multi_share_runs [OF assms(1) c1] multi_reclaim_runs [OF assms(1)]
        current_context_some shared_names_def first_error_append split: prod.splits sum.splits if_splits)
  have "nothrow (multi_expose_spec env event_name ((name, data, inout) # rest))"
    unfolding multi_expose_spec_def by (intro nothrow_intros nothrow_run_calls nothrow_run_until_error) (auto simp: nothrow)
  then have "fst (multi_expose_spec env event_name ((name, data, inout) # rest) s) \<noteq> Inl (Throw e)" for e
    by (simp add: nothrow_def)
  then show ?thesis
    using body by (auto simp: PDI_multi_expose_def guarded_def sx_catch_def split: prod.splits sum.splits fault.splits) blast
qed

lemma sample_session: "session_kept null_env"
  by (simp add: session_kept_def callbacks_keep_def handlers_return_def null_env_def kept_same session.K_refl nothrow_base)

definition sample_two :: world where
  "sample_two = null_world (null_context\<lparr>m_descriptors := [(''a'', (Data_descriptor_impl ''a'')\<lparr>m_type := Evaluated sample_int\<rparr>),
     (''b'', (Data_descriptor_impl ''b'')\<lparr>m_type := Evaluated sample_int\<rparr>)]\<rparr>)"

theorem multi_expose_refines_witness:
  "PDI_multi_expose null_env ''step'' ''a'' 64 3 [(''b'', 128, 1)] sample_two
     = multi_expose_spec null_env ''step'' [(''a'', 64, 3), (''b'', 128, 1)] sample_two
   \<and> fst (PDI_multi_expose null_env ''step'' ''a'' 64 3 [(''b'', 128, 1)] sample_two) = Inr PDI_OK
   \<and> fst (PDI_multi_expose null_env ''step'' ''a'' 64 3 [(''b'', 0, 1)] sample_two) = Inr PDI_ERR_TYPE"
proof -
  have "s_context sample_two \<noteq> None" by code_simp
  moreover have "fst (PDI_multi_expose null_env ''step'' ''a'' 64 3 [(''b'', 128, 1)] sample_two) = Inr PDI_OK"
    "fst (PDI_multi_expose null_env ''step'' ''a'' 64 3 [(''b'', 0, 1)] sample_two) = Inr PDI_ERR_TYPE" by code_simp+
  ultimately show ?thesis using multi_expose_refines [OF sample_session] by blast
qed

section \<open>Transactions\<close>

text \<open>
  The abstract program of the end of a transaction: the event, unless an exposed data failed, then every data is reclaimed in the
  reverse order; each status is noted in the transaction when it is the first error.
\<close>

definition note_first :: "pdi_status \<Rightarrow> ('x, unit) world_op" where
  "note_first status = sx_modify (\<lambda>s. if g_transaction_status s = PDI_OK then s\<lparr>g_transaction_status := status\<rparr> else s)"

fun run_noting :: "('x, pdi_status) world_op list \<Rightarrow> ('x, pdi_status list) world_op" where
  "run_noting [] = sx_return []"
| "run_noting (c # cs) =
     sx_bind c (\<lambda>x. sx_bind (note_first x) (\<lambda>_. sx_bind (run_noting cs) (\<lambda>xs. sx_return (x # xs))))"

definition transaction_end_spec :: "'x env \<Rightarrow> string \<Rightarrow> pdi_status \<Rightarrow> string list \<Rightarrow> ('x, pdi_status) world_op" where
  "transaction_end_spec env name status exposed =
     sx_bind (run_noting ((if status = PDI_OK then [PDI_event env name] else []) @ map (PDI_reclaim env) (rev exposed))) (\<lambda>sts.
     sx_bind clear_transaction (\<lambda>_. sx_return (first_error (status # sts))))"

lemma transaction_reclaim_runs:
  assumes env: "session_kept env"
  shows "names = g_transaction_data s \<Longrightarrow> n \<le> length names \<Longrightarrow>
    transaction_reclaim env n s = sx_bind (run_noting (map (PDI_reclaim env) (rev (take n names)))) (\<lambda>_. sx_return ()) s"
proof (induction n arbitrary: s)
  case 0
  then show ?case by simp
next
  case (Suc n)
  obtain r s1 where rc: "PDI_reclaim env (names ! n) s = (r, s1)" by fastforce
  have d: "g_transaction_data s1 = names"
    using session_calls(3) [OF env, of "names ! n"] rc Suc.prems(1) unfolding kept_def same_session_def by (metis snd_conv)
  have t: "rev (take (Suc n) names) = names ! n # rev (take n names)"
    using Suc.prems(2) by (simp add: take_Suc_conv_app_nth)
  have "transaction_reclaim env n (if b then s1\<lparr>g_transaction_status := st\<rparr> else s1) =
      sx_bind (run_noting (map (PDI_reclaim env) (rev (take n names)))) (\<lambda>_. sx_return ()) (if b then s1\<lparr>g_transaction_status := st\<rparr> else s1)"
    for b st
    using d Suc.prems(2) by (intro Suc.IH) auto
  then show ?case
    using Suc.prems rc t
    by (cases r) (auto simp: sx_bind_def note_first_def split: prod.splits sum.splits)
qed

text \<open>Every status that was noted is in the state, so that the first one is.\<close>

lemma run_noting_status:
  assumes "\<And>c. c \<in> set cs \<Longrightarrow> kept same_session c"
  shows "run_noting cs s = (Inr sts, s') \<Longrightarrow> g_transaction_status s' = first_error (g_transaction_status s # sts)
    \<and> g_transaction s' = g_transaction s \<and> g_transaction_data s' = g_transaction_data s"
  using assms
proof (induction cs arbitrary: s sts)
  case Nil
  then show ?case by (auto simp: sx_return_def)
next
  case (Cons c cs)
  from Cons.prems(1) obtain x s1 sts' where c: "c s = (Inr x, s1)"
      and r: "run_noting cs (if g_transaction_status s1 = PDI_OK then s1\<lparr>g_transaction_status := x\<rparr> else s1) = (Inr sts', s')"
      and sts: "sts = x # sts'"
    by (auto simp: note_first_def sx_bind_Inr_iff sx_return_def)
  have "same_session s s1" using Cons.prems(2) [of c] c unfolding kept_def by (metis list.set_intros(1) snd_conv)
  moreover have "g_transaction_status s' = first_error (g_transaction_status (if g_transaction_status s1 = PDI_OK then s1\<lparr>g_transaction_status := x\<rparr> else s1) # sts')
    \<and> g_transaction s' = g_transaction (if g_transaction_status s1 = PDI_OK then s1\<lparr>g_transaction_status := x\<rparr> else s1)
    \<and> g_transaction_data s' = g_transaction_data (if g_transaction_status s1 = PDI_OK then s1\<lparr>g_transaction_status := x\<rparr> else s1)"
    using Cons.prems(2) by (intro Cons.IH [OF r]) auto
  ultimately show ?case using sts by (auto simp: same_session_def)
qed

lemma run_noting_append:
  "run_noting (xs @ ys) = sx_bind (run_noting xs) (\<lambda>as. sx_bind (run_noting ys) (\<lambda>bs. sx_return (as @ bs)))"
  by (induction xs) (simp_all add: fun_eq_iff sx_bind_def split: prod.splits sum.splits)

lemma nothrow_run_noting: "(\<And>c. c \<in> set cs \<Longrightarrow> nothrow c) \<Longrightarrow> nothrow (run_noting cs)"
  by (induction cs) (simp_all only: run_noting.simps note_first_def, (intro nothrow_intros; simp)+)

lemma sx_catch_outcome:
  assumes "f s = r" "\<And>e. fst r \<noteq> Inl (Throw e)"
  shows "sx_catch f h s = r"
  using assms by (cases r) (auto simp: sx_catch_def split: sum.splits fault.splits)

lemma transaction_calls:
  assumes "session_kept env" "c \<in> set ((if status = PDI_OK then [PDI_event env name] else []) @ map (PDI_reclaim env) names)"
  shows "kept same_session c" "nothrow c"
  using assms session_calls [OF assms(1)]
  by (auto simp: PDI_event_def PDI_reclaim_def session_kept_def intro: nothrow_guarded split: if_splits)

text \<open>The event and the note of its status, as a call in the abstract program.\<close>

lemma transaction_event:
  assumes "session_kept env"
  shows "sx_bind (if g_transaction_status s = PDI_OK then sx_bind (PDI_event env (g_transaction s))
      (\<lambda>r. sx_modify (\<lambda>s. s\<lparr>g_transaction_status := r\<rparr>)) else sx_return ()) f s
    = sx_bind (run_noting (if g_transaction_status s = PDI_OK then [PDI_event env (g_transaction s)] else [])) (\<lambda>_. f ()) s"
proof (cases "PDI_event env (g_transaction s) s")
  case (Pair r s')
  then have "g_transaction_status s' = g_transaction_status s"
    using session_calls(1) [OF assms(1), of "g_transaction s"] unfolding kept_def same_session_def by (metis snd_conv)
  with Pair show ?thesis by (auto simp: sx_bind_def note_first_def split: sum.splits)
qed

lemma transaction_tail:
  assumes env: "session_kept env" and 1: "run_noting (if g_transaction_status s = PDI_OK then [PDI_event env (g_transaction s)] else []) s = (Inr sts, s1)"
  shows "sx_bind (transaction_reclaim env (length (g_transaction_data s1))) (\<lambda>_. sx_bind clear_transaction (\<lambda>_. sx_get g_transaction_status)) s1
    = transaction_end_spec env (g_transaction s) (g_transaction_status s) (g_transaction_data s) s"
proof -
  let ?ds = "map (PDI_reclaim env) (rev (g_transaction_data s))"
  obtain r2 s2 where 2: "run_noting ?ds s1 = (r2, s2)" by fastforce
  note k = transaction_calls [OF env]
  have s1: "g_transaction_status s1 = first_error (g_transaction_status s # sts)" "g_transaction_data s1 = g_transaction_data s"
    using run_noting_status [OF _ 1] k(1) [of _ "g_transaction_status s" "g_transaction s" "[]"] by auto
  have s2: "g_transaction_status s2 = first_error (g_transaction_status s1 # sts')" if "r2 = Inr sts'" for sts'
    using run_noting_status [of ?ds s1 sts' s2] k(1) [of _ PDI_ERR_IMPL _ "rev (g_transaction_data s)"] 2 that by auto
  have "transaction_reclaim env (length (g_transaction_data s)) s1 = (map_sum id (\<lambda>_. ()) r2, s2)"
    using transaction_reclaim_runs [OF env, of "g_transaction_data s" s1 "length (g_transaction_data s)"] s1(2) 2 by (cases r2) simp_all
  moreover have "transaction_end_spec env (g_transaction s) (g_transaction_status s) (g_transaction_data s) s
      = sx_bind (sx_lift r2) (\<lambda>sts'. sx_bind clear_transaction (\<lambda>_. sx_return (first_error (g_transaction_status s # sts @ sts')))) s2"
    unfolding transaction_end_spec_def run_noting_append using 1 2 by (cases r2) simp_all
  ultimately show ?thesis using s1 s2 by (cases r2) (simp_all add: clear_transaction_def first_error_append)
qed

lemma transaction_spec_nothrow: "session_kept env \<Longrightarrow> nothrow (transaction_end_spec env name status names)"
  unfolding transaction_end_spec_def clear_transaction_def
  by (rule nothrow_bind [OF nothrow_run_noting [OF transaction_calls(2)]], assumption, assumption) (intro nothrow_intros)

text \<open>
  (C7) The end of a transaction implements its abstract program: the event is triggered unless an exposed data failed before, every
  exposed data is reclaimed in the reverse order whatever fails, the transaction is closed, and the status is the
  first error since its begin.
\<close>

theorem transaction_end_refines:
  assumes "session_kept env" "g_transaction s \<noteq> []"
  shows "PDI_transaction_end env s =
    transaction_end_spec env (g_transaction s) (g_transaction_status s) (g_transaction_data s) s"
proof -
  let ?spec = "transaction_end_spec env (g_transaction s) (g_transaction_status s) (g_transaction_data s)"
  obtain r1 s1 where 1: "run_noting (if g_transaction_status s = PDI_OK then [PDI_event env (g_transaction s)] else []) s = (r1, s1)" by fastforce
  have "sx_bind (run_noting (if g_transaction_status s = PDI_OK then [PDI_event env (g_transaction s)] else [])) (\<lambda>_.
      sx_bind (sx_get g_transaction_data) (\<lambda>names. sx_bind (transaction_reclaim env (length names)) (\<lambda>_.
      sx_bind clear_transaction (\<lambda>_. sx_get g_transaction_status)))) s = ?spec s"
  proof (cases r1)
    case (Inl e)
    then show ?thesis using 1 by (simp add: transaction_end_spec_def run_noting_append sx_bind_def)
  next
    case (Inr sts)
    then show ?thesis using 1 transaction_tail [OF assms(1), of s sts s1] by simp
  qed
  moreover have "fst (?spec s) \<noteq> Inl (Throw e)" for e using transaction_spec_nothrow [OF assms(1)] by (simp add: nothrow_def)
  ultimately show ?thesis
    unfolding PDI_transaction_end_def by (intro sx_catch_outcome) (simp_all add: assms(2) transaction_event [OF assms(1)])
qed

definition sample_transaction :: world where
  "sample_transaction = snd (sx_bind (PDI_transaction_begin null_env ''step'') (\<lambda>_.
     sx_bind (PDI_expose null_env ''a'' 64 3) (\<lambda>_. PDI_expose null_env ''b'' 128 1)) sample_two)"

theorem transaction_end_refines_witness:
  "PDI_transaction_end null_env sample_transaction = transaction_end_spec null_env ''step'' PDI_OK [''a'', ''b''] sample_transaction
   \<and> fst (PDI_transaction_end null_env sample_transaction) = Inr PDI_OK"
proof -
  have "g_transaction sample_transaction = ''step''" "g_transaction_data sample_transaction = [''a'', ''b'']"
    "g_transaction_status sample_transaction = PDI_OK" "fst (PDI_transaction_end null_env sample_transaction) = Inr PDI_OK"
    by code_simp+
  then show ?thesis using transaction_end_refines [OF sample_session, of sample_transaction] by simp
qed

end
