(* ===== verification/Expr_Bounds.thy ===== *)
theory Expr_Bounds
  imports Expr_Eval Sample_World
begin

text \<open>
  Bounds of the values of expressions: every integer that an operator computes is a value of its C++ type, and every
  integer an expression evaluates to is a \<open>long\<close>.
\<close>

fun cnum_ok :: "cnum \<Rightarrow> bool" where
  "cnum_ok (C_int b sg v) \<longleftrightarrow> b \<in> {1, 2, 4, 8} \<and> int_range b sg v"
| "cnum_ok _ \<longleftrightarrow> True"

lemma int_wrap_range: "0 < b \<Longrightarrow> int_range b sg (int_wrap b sg v)"
proof -
  assume "0 < b"
  then obtain k where k: "8 * b = Suc k" by (cases "8 * b") auto
  define u where "u = v mod 2 ^ Suc k"
  have "u < 2 * 2 ^ k" "0 \<le> u" using pos_mod_bound [of "2 ^ Suc k" v] by (simp_all add: u_def)
  moreover have "(0 :: int) < 2 ^ k" by simp
  ultimately show ?thesis unfolding int_range_def int_wrap_def Let_def k u_def [symmetric] by (auto simp del: zero_less_power)
qed

lemma int_result_ok: "b \<in> {1, 2, 4, 8} \<Longrightarrow> int_result b sg z = Inr w \<Longrightarrow> cnum_ok w"
  by (auto simp: int_result_def int_range_def split: if_splits)

lemma smod_range:
  assumes "int_range b sg x" "int_range b sg y" "y \<noteq> 0"
  shows "int_range b sg (x smod y)"
proof (cases sg)
  case True
  have "\<bar>y\<bar> \<le> 2 ^ (8 * b - 1)" using assms(2) True by (auto simp: int_range_def)
  then show ?thesis using smod_int_range [OF assms(3), of x] True by (auto simp: int_range_def)
next
  case False
  then have "0 \<le> x" "0 < y" "y < 2 ^ (8 * b)" using assms by (auto simp: int_range_def)
  then show ?thesis using smod_int_compares(1,2) [of x y] False by (simp add: int_range_def)
qed

lemma c_bool_ok [simp]: "cnum_ok (c_bool c)"
  by (simp add: c_bool_def int_range_def)

lemma eval_int_ok:
  assumes "b \<in> {1, 2, 4, 8}" "int_range b sg x" "int_range b sg y" "eval_int b sg x op y = Inr w"
  shows "cnum_ok w"
  using assms smod_range [OF assms(2,3)] int_result_ok [OF assms(1)] by (cases op) (auto split: if_splits)

lemma eval_compare_ok: "eval_compare x op y = Inr w \<Longrightarrow> cnum_ok w"
  by (cases op) auto

lemma eval_float_ok: "eval_f64 u op v = Inr w \<Longrightarrow> cnum_ok w" "eval_f32 u' op v' = Inr w' \<Longrightarrow> cnum_ok w'"
  by (auto simp: eval_f64_def eval_f32_def split: operator.splits intro: eval_compare_ok)

lemma common_size: "b \<in> {1, 2, 4, 8} \<Longrightarrow> b' \<in> {1, 2, 4, 8} \<Longrightarrow> fst (common_int (promoted b sg) (promoted b' sg')) \<in> {1, 2, 4, 8}"
  by (auto simp: common_int_def promoted_def)



section \<open>Evaluation to an integer\<close>

lemma with_ref_value:
  assumes "\<And>t s x s'. f t s = (Inr x, s') \<Longrightarrow> Q x" "with_ref mk f s = (Inr x, s')"
  shows "Q x"
proof -
  obtain t s1 s2 where "sx_catch (f t) (\<lambda>e. sx_bind (destroy_ref t) (\<lambda>_. sx_fail (Throw e))) s1 = (Inr x, s2)"
    using assms(2) by (auto simp: with_ref_def sx_bind_Inr_iff sx_return_def)
  then have "f t s1 = (Inr x, s2)"
    by (auto simp: sx_catch_def sx_bind_def split: prod.splits sum.splits fault.splits)
  then show ?thesis by (rule assms(1))
qed

lemma cnum_to_int_range: "cnum_to_int 8 True c = Inr v \<Longrightarrow> int_range 8 True v"
  by (cases c) (auto simp: trunc_to_def int_wrap_range split: option.splits if_splits)

lemma scalar_value_range: "scalar_value_int 8 True r s = (Inr v, s') \<Longrightarrow> int_range 8 True v"
  by (auto simp: scalar_value_int_def sx_bind_Inr_iff sx_lift_def intro: cnum_to_int_range)

lemma read_long_range:
  assumes "with_ref mk (\<lambda>r. sx_bind (is_null r) (\<lambda>n. if n then sx_fail (Throw e) else scalar_value_int 8 True r)) s = (Inr v, s')"
  shows "int_range 8 True v"
  by (rule with_ref_value [OF _ assms])
    (auto simp: sx_bind_Inr_iff sx_fail_def split: if_splits intro: scalar_value_range)



end
