(* ===== verification/Serialize_Plugin.thy ===== *)
theory Serialize_Plugin
  imports Global_Context
begin

text \<open>
  The plugin \<open>serialize\<close> (\<open>serialize.cxx\<close>): types without pointers and sparse arrays, the copies to and from them,
  and the sharing of a serialized copy beside each configured data.
\<close>

section \<open>Types\<close>

text \<open>The padding before a field; a zero alignment is a zero divisor.\<close>

definition serialize_spacing :: "size_t \<Rightarrow> size_t \<Rightarrow> size_t res" where
  "serialize_spacing al off = (if al = 0 then Inl UB else Inr ((al - off mod al) mod al))"

text \<open>The loops return the serialized fields and the variables \<open>offset\<close>, \<open>alignment\<close> and \<open>serialized_buffersize\<close>.\<close>

function serialize_type :: "dt \<Rightarrow> dt res"
  and Record_serialize :: "size_t \<Rightarrow> size_t \<Rightarrow> size_t \<Rightarrow> dt member list \<Rightarrow> (dt member list \<times> size_t \<times> size_t \<times> size_t) res"
  and Tuple_serialize :: "size_t \<Rightarrow> size_t \<Rightarrow> size_t \<Rightarrow> dt element list \<Rightarrow> (dt element list \<times> size_t \<times> size_t \<times> size_t) res" where
  "serialize_type (Scalar d atts) = Inr (Scalar d atts)"
| "serialize_type (Array sub _ _ subsize atts) =
     rbind (serialize_type sub) (\<lambda>sub'. Inr (Array_make sub' subsize atts))"
| "serialize_type (Record ms _ atts) =
     rbind (Record_serialize 0 0 0 ms) (\<lambda>(ms', off, al, bufsize).
     rbind (serialize_spacing al off) (\<lambda>spacing.
     Inr (Record ms' (sz_add bufsize spacing) atts)))"
| "serialize_type (Pointer sub _ _ _) = serialize_type sub"
| "serialize_type (Tuple es _ atts) =
     rbind (Tuple_serialize 0 0 0 es) (\<lambda>(es', off, al, bufsize).
     rbind (serialize_spacing al off) (\<lambda>spacing.
     Inr (Tuple es' (sz_add bufsize spacing) atts)))"
| "Record_serialize off al bufsize [] = Inr ([], off, al, bufsize)"
| "Record_serialize off al bufsize (Member d t n # ms) =
     rbind (serialize_type t) (\<lambda>t'.
     rbind (serialize_spacing (alignment t') off) (\<lambda>spacing.
     let off = sz_add off spacing; bufsize = sz_add bufsize spacing in
     rbind (Record_serialize (sz_add off (buffersize t')) (max al (alignment t')) (sz_add bufsize (buffersize t')) ms) (\<lambda>(ms', r).
     Inr (Member off t' n # ms', r))))"
| "Tuple_serialize off al bufsize [] = Inr ([], off, al, bufsize)"
| "Tuple_serialize off al bufsize (Element d t # es) =
     rbind (serialize_type t) (\<lambda>t'.
     rbind (serialize_spacing (alignment t') off) (\<lambda>spacing.
     let off = sz_add off spacing; bufsize = sz_add bufsize spacing in
     rbind (Tuple_serialize (sz_add off (buffersize t')) (max al (alignment t')) (sz_add bufsize (buffersize t')) es) (\<lambda>(es', r).
     Inr (Element off t' # es', r))))"
  by pat_completeness auto
termination
  by (relation "measure (case_sum size (case_sum (\<lambda>(d, a, b, ms). members_size ms) (\<lambda>(d, a, b, es). elements_size es)))") auto

section \<open>Copies\<close>

text \<open>The loop over the elements of an array; the first argument copies one of them.\<close>

fun serialize_loop :: "(addr \<Rightarrow> addr \<Rightarrow> size_t memory_op) \<Rightarrow> size_t \<Rightarrow> nat \<Rightarrow> size_t \<Rightarrow> addr \<Rightarrow> addr \<Rightarrow> size_t memory_op" where
  "serialize_loop copy sub_bufsize 0 all_bytes to from = sx_return all_bytes"
| "serialize_loop copy sub_bufsize (Suc n) all_bytes to from =
     sx_bind (copy to from) (\<lambda>bytes_copied.
     serialize_loop copy sub_bufsize n (sz_add all_bytes bytes_copied) (to + bytes_copied) (from + sub_bufsize))"

text \<open>The displacements of the serialized type of a record or tuple; it is a type of the same class.\<close>

definition field_offsets :: "dt \<Rightarrow> size_t list res" where
  "field_offsets t =
     rbind (serialize_type t) (\<lambda>t'. case t' of
        Record ms _ _ \<Rightarrow> Inr (map displacement ms)
      | Tuple es _ _ \<Rightarrow> Inr (map offset es)
      | _ \<Rightarrow> Inl UB)"

function serialize_copy :: "dt \<Rightarrow> addr \<Rightarrow> addr \<Rightarrow> size_t memory_op"
  and Record_serialize_copy :: "dt member list \<Rightarrow> size_t list \<Rightarrow> size_t \<Rightarrow> addr \<Rightarrow> addr \<Rightarrow> size_t memory_op"
  and Tuple_serialize_copy :: "dt element list \<Rightarrow> size_t list \<Rightarrow> size_t \<Rightarrow> addr \<Rightarrow> addr \<Rightarrow> size_t memory_op" where
  "serialize_copy (Scalar d atts) to from =
     sx_bind (sx_modify (memcpy to from (Scalar_buffersize d))) (\<lambda>_. sx_return (Scalar_buffersize d))"
| "serialize_copy (Array sub _ start subsize _) to from =
     sx_bind (sx_lift (serialize_type sub)) (\<lambda>sub'.
     sx_bind (sx_lift (std_align (alignment sub') 0 to (alignment sub'))) (\<lambda>to.
     serialize_loop (\<lambda>to from. serialize_copy sub to from) (buffersize sub) subsize 0 to
       (from + sz_mul start (buffersize sub))))"
| "serialize_copy (Record ms b atts) to from =
     sx_bind (sx_lift (field_offsets (Record ms b atts))) (\<lambda>offs. Record_serialize_copy ms offs 0 to from)"
| "serialize_copy (Pointer sub _ _ _) to from = (\<lambda>m. serialize_copy sub to (read_uint m from 8) m)"
| "serialize_copy (Tuple es b atts) to from =
     sx_bind (sx_lift (field_offsets (Tuple es b atts))) (\<lambda>offs. Tuple_serialize_copy es offs 0 to from)"
| "Record_serialize_copy [] offs all_bytes to from = sx_return all_bytes"
| "Record_serialize_copy (Member d t n # ms) [] all_bytes to from = sx_fail UB"
| "Record_serialize_copy (Member d t n # ms) (off # offs) all_bytes to from =
     sx_bind (serialize_copy t (to + off) (from + d)) (\<lambda>bytes_copied.
     Record_serialize_copy ms offs (sz_add all_bytes bytes_copied) to from)"
| "Tuple_serialize_copy [] offs all_bytes to from = sx_return all_bytes"
| "Tuple_serialize_copy (Element d t # es) [] all_bytes to from = sx_fail UB"
| "Tuple_serialize_copy (Element d t # es) (off # offs) all_bytes to from =
     sx_bind (serialize_copy t (to + off) (from + d)) (\<lambda>bytes_copied.
     Tuple_serialize_copy es offs (sz_add all_bytes bytes_copied) to from)"
  by pat_completeness auto
termination
  by (relation "measure (case_sum (\<lambda>(t, to, from). size t)
        (case_sum (\<lambda>(ms, offs, n, to, from). members_size ms) (\<lambda>(es, offs, n, to, from). elements_size es)))") auto

text \<open>The loop of \<open>deserialize_copy\<close> counts with an \<open>int\<close>, whose overflow is undefined.\<close>

fun deserialize_loop :: "(addr \<Rightarrow> addr \<Rightarrow> size_t memory_op) \<Rightarrow> size_t \<Rightarrow> nat \<Rightarrow> nat \<Rightarrow> size_t \<Rightarrow> addr \<Rightarrow> addr \<Rightarrow> size_t memory_op" where
  "deserialize_loop copy sub_bufsize 0 i all_bytes to from = sx_return all_bytes"
| "deserialize_loop copy sub_bufsize (Suc n) i all_bytes to from =
     sx_bind (copy to from) (\<lambda>bytes_copied.
     if i = int_max then sx_fail UB
     else deserialize_loop copy sub_bufsize n (Suc i) (sz_add all_bytes bytes_copied) (to + sub_bufsize) (from + bytes_copied))"

function deserialize_copy :: "dt \<Rightarrow> addr \<Rightarrow> addr \<Rightarrow> size_t memory_op"
  and Record_deserialize_copy :: "dt member list \<Rightarrow> size_t list \<Rightarrow> size_t \<Rightarrow> addr \<Rightarrow> addr \<Rightarrow> size_t memory_op"
  and Tuple_deserialize_copy :: "dt element list \<Rightarrow> size_t list \<Rightarrow> size_t \<Rightarrow> addr \<Rightarrow> addr \<Rightarrow> size_t memory_op" where
  "deserialize_copy (Scalar d atts) to from =
     sx_bind (sx_modify (memcpy to from (Scalar_buffersize d))) (\<lambda>_. sx_return (Scalar_buffersize d))"
| "deserialize_copy (Array sub _ start subsize _) to from =
     sx_bind (sx_lift (serialize_type sub)) (\<lambda>_.
     deserialize_loop (\<lambda>to from. deserialize_copy sub to from) (buffersize sub) subsize 0 0
       (to + sz_mul start (buffersize sub)) from)"
| "deserialize_copy (Record ms b atts) to from =
     sx_bind (sx_lift (field_offsets (Record ms b atts))) (\<lambda>offs. Record_deserialize_copy ms offs 0 to from)"
| "deserialize_copy (Pointer sub _ _ _) to from = (\<lambda>m. deserialize_copy sub (read_uint m to 8) from m)"
| "deserialize_copy (Tuple es b atts) to from =
     sx_bind (sx_lift (field_offsets (Tuple es b atts))) (\<lambda>offs. Tuple_deserialize_copy es offs 0 to from)"
| "Record_deserialize_copy [] offs all_bytes to from = sx_return all_bytes"
| "Record_deserialize_copy (Member d t n # ms) [] all_bytes to from = sx_fail UB"
| "Record_deserialize_copy (Member d t n # ms) (off # offs) all_bytes to from =
     sx_bind (deserialize_copy t (to + d) (from + off)) (\<lambda>bytes_copied.
     Record_deserialize_copy ms offs (sz_add all_bytes bytes_copied) to from)"
| "Tuple_deserialize_copy [] offs all_bytes to from = sx_return all_bytes"
| "Tuple_deserialize_copy (Element d t # es) [] all_bytes to from = sx_fail UB"
| "Tuple_deserialize_copy (Element d t # es) (off # offs) all_bytes to from =
     sx_bind (deserialize_copy t (to + d) (from + off)) (\<lambda>bytes_copied.
     Tuple_deserialize_copy es offs (sz_add all_bytes bytes_copied) to from)"
  by pat_completeness auto
termination
  by (relation "measure (case_sum (\<lambda>(t, to, from). size t)
        (case_sum (\<lambda>(ms, offs, n, to, from). members_size ms) (\<lambda>(es, offs, n, to, from). elements_size es)))") auto

section \<open>Sharing\<close>

text \<open>
  The members of the plugin extend the state: the serialized name of each data, and for each shared copy its name, the key of its
  registered callback and the rights of the original. The two callbacks of the plugin are functions
  of the environment with the identifiers \<open>share_cb\<close> and \<open>release_cb\<close>.
\<close>

record serialize_world = world +
  m_desc_to_serialize :: "(string \<times> string) list"
  m_serialized_remove_callback :: "(string \<times> nat \<times> nat) list"

type_synonym ('x, 'a) serialize_op = "('x serialize_world_scheme, exn, 'a) sx"
type_synonym 'x serialize_env = "'x serialize_world_ext env"

text \<open>The subscript operator of the map: a missing key is inserted with an empty name.\<close>

definition serialized_name_of :: "string \<Rightarrow> ('x, string) serialize_op" where
  "serialized_name_of desc_name =
     sx_bind (sx_modify (\<lambda>s. if map_of (m_desc_to_serialize s) desc_name = None
       then s\<lparr>m_desc_to_serialize := (desc_name, []) # m_desc_to_serialize s\<rparr> else s)) (\<lambda>_.
     sx_get (\<lambda>s. case map_of (m_desc_to_serialize s) desc_name of Some n \<Rightarrow> n | None \<Rightarrow> []))"

text \<open>A buffer for the serialized type, the copy into it from a readable reference, and its share with the callback for its removal.\<close>

definition serialize_into :: "string \<Rightarrow> string \<Rightarrow> dt \<Rightarrow> dt \<Rightarrow> nat \<Rightarrow> nat \<Rightarrow> ('x, unit) store_op" where
  "serialize_into suffix desc_name type serialized_type serialized_ref readable =
     sx_bind (with_ref (copy_ref False True serialized_ref) (\<lambda>w.
       sx_bind (ref_get w) (\<lambda>to. sx_bind (ref_get readable) (\<lambda>from. on_memory (serialize_copy type to from))))) (\<lambda>bytes_copied.
     if bytes_copied \<noteq> datasize serialized_type then
       sx_fail (Throw (Value_error (''Serialize plugin: `'' @ desc_name @ [CHR 0x27] @ '' Serialized '' @ fmt_nat bytes_copied
         @ '' B of '' @ fmt_nat (buffersize serialized_type) @ suffix)))
     else sx_return ())"

definition share_copy ::
    "'x serialize_env \<Rightarrow> nat \<Rightarrow> nat \<Rightarrow> string \<Rightarrow> string \<Rightarrow> nat \<Rightarrow> bool \<Rightarrow> nat \<Rightarrow> ('x, unit) serialize_op" where
  "share_copy env ctx release_cb desc_name serialized_name serialized_ref read rights =
     sx_bind (desc ctx serialized_name) (\<lambda>d.
     sx_bind (with_ref (copy_ref False False serialized_ref) (\<lambda>r. share env ctx d r read False)) (\<lambda>_.
     sx_bind (on_data_remove ctx release_cb desc_name) (\<lambda>remove_callback.
     sx_modify (\<lambda>s. s\<lparr>m_serialized_remove_callback :=
       m_serialized_remove_callback s @ [(serialized_name, remove_callback, rights)]\<rparr>))))"

definition with_buffer :: "dt \<Rightarrow> bool \<Rightarrow> (nat \<Rightarrow> ('x, 'a) store_op) \<Rightarrow> ('x, 'a) store_op" where
  "with_buffer serialized_type readable f =
     sx_bind (operator_new (buffersize serialized_type)) (\<lambda>p.
     with_ref (make_ref False False p (Delete_buffer p) serialized_type readable True) f)"

text \<open>The values of \<open>PDI_inout_t\<close>.\<close>

abbreviation (input) PDI_IN :: nat where
  "PDI_IN \<equiv> 1"

abbreviation (input) PDI_OUT :: nat where
  "PDI_OUT \<equiv> 2"

abbreviation (input) PDI_INOUT :: nat where
  "PDI_INOUT \<equiv> 3"

text \<open>A reference declared in a condition lives until the end of all its branches.\<close>

definition share_serialized :: "'x serialize_env \<Rightarrow> nat \<Rightarrow> nat \<Rightarrow> string \<Rightarrow> nat \<Rightarrow> ('x, unit) serialize_op" where
  "share_serialized env ctx release_cb desc_name ref =
     with_timer env ctx ''serialize''
       (sx_bind (serialized_name_of desc_name) (\<lambda>serialized_name.
        sx_bind (sx_get (ref_type ref)) (\<lambda>type.
        sx_bind (sx_lift (serialize_type type)) (\<lambda>serialized_type.
        with_ref (copy_ref True True ref) (\<lambda>ref_rw.
          sx_bind (is_null ref_rw) (\<lambda>null_rw.
          if \<not> null_rw then
            with_buffer serialized_type True (\<lambda>serialized_ref.
              sx_bind (serialize_into '' B'' desc_name type serialized_type serialized_ref ref_rw) (\<lambda>_.
              share_copy env ctx release_cb desc_name serialized_name serialized_ref False PDI_INOUT))
          else
            with_ref (copy_ref True False ref) (\<lambda>ref_r.
              sx_bind (is_null ref_r) (\<lambda>null_r.
              if \<not> null_r then
                with_buffer serialized_type True (\<lambda>serialized_ref.
                  sx_bind (serialize_into '' B '' desc_name type serialized_type serialized_ref ref_r) (\<lambda>_.
                  share_copy env ctx release_cb desc_name serialized_name serialized_ref True PDI_OUT))
              else
                with_ref (copy_ref False True ref) (\<lambda>ref_w.
                  sx_bind (is_null ref_w) (\<lambda>null_w.
                  if \<not> null_w then
                    with_buffer serialized_type False (\<lambda>serialized_ref.
                      share_copy env ctx release_cb desc_name serialized_name serialized_ref False PDI_IN)
                  else sx_return ()))))))))))"

text \<open>The last entry with a name, searched from the end.\<close>

fun last_entry :: "string \<Rightarrow> (string \<times> 'a) list \<Rightarrow> nat \<Rightarrow> (nat \<times> 'a) option" where
  "last_entry name xs 0 = None"
| "last_entry name xs (Suc i) = (if name = fst (xs ! i) then Some (i, snd (xs ! i)) else last_entry name xs i)"

definition erase_at :: "nat \<Rightarrow> 'a list \<Rightarrow> 'a list" where
  "erase_at i xs = take i xs @ drop (Suc i) xs"

definition deserialize_from :: "'x serialize_env \<Rightarrow> nat \<Rightarrow> string \<Rightarrow> string \<Rightarrow> nat \<Rightarrow> ('x, unit) serialize_op" where
  "deserialize_from env ctx desc_name serialized_name ref =
     with_ref (copy_ref False True ref) (\<lambda>ref_w.
       sx_bind (is_null ref_w) (\<lambda>null.
       if null then sx_fail (Throw (Permission_error (''Serialize plugin: Cannot get write access to data: '' @ desc_name)))
       else
         sx_bind (desc ctx serialized_name) (\<lambda>d.
         with_ref (ref_as False True (desc_ref env ctx d)) (\<lambda>serialized_ref.
           sx_bind (is_null serialized_ref) (\<lambda>null.
           if null then sx_fail (Throw (Permission_error (''Serialize plugin: Cannot get write access to serialized data: '' @ serialized_name)))
           else
             sx_bind (sx_get (ref_type ref)) (\<lambda>type.
             sx_bind (ref_get ref_w) (\<lambda>to.
             sx_bind (ref_get serialized_ref) (\<lambda>from.
             sx_bind (on_memory (deserialize_copy type to from)) (\<lambda>bytes_copied.
             sx_bind (sx_get (ref_type serialized_ref)) (\<lambda>serialized_type.
             if bytes_copied \<noteq> datasize serialized_type then
               sx_fail (Throw (Value_error (''Serialize plugin: `'' @ desc_name @ [CHR 0x27] @ '' Deserialized '' @ fmt_nat bytes_copied
                 @ '' B of '' @ fmt_nat (datasize serialized_type) @ '' B'')))
             else sx_return ()))))))))))"

definition release_serialized :: "'x serialize_env \<Rightarrow> nat \<Rightarrow> string \<Rightarrow> nat \<Rightarrow> ('x, unit) serialize_op" where
  "release_serialized env ctx desc_name ref =
     sx_bind (serialized_name_of desc_name) (\<lambda>serialized_name.
     sx_bind (sx_get (\<lambda>s. last_entry serialized_name (m_serialized_remove_callback s) (length (m_serialized_remove_callback s)))) (\<lambda>found.
     case found of
       None \<Rightarrow> sx_fail (Throw (Value_error (''Serialize plugin: Cannot release not shared serialized data: '' @ serialized_name)))
     | Some (i, key, rights) \<Rightarrow>
         sx_bind (remove_data_remove ctx key) (\<lambda>_.
         sx_bind (if bit rights 0 then deserialize_from env ctx desc_name serialized_name ref else sx_return ()) (\<lambda>_.
         sx_bind (desc ctx serialized_name) (\<lambda>d.
         sx_bind (desc_release env ctx d) (\<lambda>_.
         sx_modify (\<lambda>s. s\<lparr>m_serialized_remove_callback := erase_at i (m_serialized_remove_callback s)\<rparr>)))))))"

definition serialize_load_config :: "nat \<Rightarrow> nat \<Rightarrow> pc_tree \<Rightarrow> ('x, unit) serialize_op" where
  "serialize_load_config ctx share_cb config =
     each_pair config (\<lambda>key value.
       sx_bind (sx_lift (tree_to_string key)) (\<lambda>desc_name.
       sx_bind (sx_lift (tree_to_string value)) (\<lambda>serialized_name.
       sx_bind (sx_modify (\<lambda>s. if map_of (m_desc_to_serialize s) desc_name = None
         then s\<lparr>m_desc_to_serialize := (desc_name, serialized_name) # m_desc_to_serialize s\<rparr> else s)) (\<lambda>_.
       sx_bind (on_data ctx share_cb desc_name) (\<lambda>_. sx_return ())))))"

end
