(* ===== verification/Serialize_Correct.thy ===== *)
theory Serialize_Correct
  imports Serialize_Plugin Datatype_From_Dense
begin

text \<open>
  Correctness of the copies of the plugin \<open>serialize\<close>: the serialized type has the packed layout of the type without
  its pointers, the copy to it holds the data that the value reaches through its pointers, and the copy back
  restores them.
\<close>

section \<open>The serialized layout\<close>

text \<open>The type with every pointer replaced by what it points to.\<close>

fun flat :: "dt \<Rightarrow> dt" where
  "flat (Scalar d a) = Scalar d a"
| "flat (Array sub sz st n a) = Array (flat sub) sz st n a"
| "flat (Record ms b a) = Record (map (\<lambda>m. Member (displacement m) (flat (mtype m)) (mname m)) ms) b a"
| "flat (Tuple es b a) = Tuple (map (\<lambda>e. Element (offset e) (flat (etype e))) es) b a"
| "flat (Pointer sub _ _ _) = flat sub"

abbreviation flat_members :: "dt member list \<Rightarrow> dt member list" where
  "flat_members \<equiv> map (\<lambda>m. Member (displacement m) (flat (mtype m)) (mname m))"

abbreviation flat_elements :: "dt element list \<Rightarrow> dt element list" where
  "flat_elements \<equiv> map (\<lambda>e. Element (offset e) (flat (etype e)))"

abbreviation ser_size :: "dt \<Rightarrow> nat" where
  "ser_size t \<equiv> packed_size (flat t)"

abbreviation ser_offsets :: "dt \<Rightarrow> nat list" where
  "ser_offsets t \<equiv> packed_offsets (flat t)"

text \<open>
  The types the plugin copies correctly: no null scalars, no padding inside the elements of an array, at least one field in a
  record or tuple, and sizes that fit.
\<close>

fun serializable :: "dt \<Rightarrow> bool" where
  "serializable (Scalar d _) \<longleftrightarrow> sc_size d = sc_dense_size d \<and> sc_size d < size_max \<and> ispow2 (sc_align d)"
| "serializable (Array sub _ st n _) \<longleftrightarrow> serializable sub \<and> length (ser_offsets sub) = ser_size sub
     \<and> alignment (flat sub) dvd ser_size sub \<and> st * buffersize sub < size_max \<and> n * ser_size sub < size_max \<and> n \<le> int_max"
| "serializable (Record ms b a) \<longleftrightarrow> (\<forall>m \<in> set ms. serializable (mtype m)) \<and> 0 < packed_members 0 (flat_members ms)
     \<and> ser_size (Record ms b a) < size_max"
| "serializable (Tuple es b a) \<longleftrightarrow> (\<forall>e \<in> set es. serializable (etype e)) \<and> 0 < packed_elements 0 (flat_elements es)
     \<and> ser_size (Tuple es b a) < size_max"
| "serializable (Pointer sub _ _ _) \<longleftrightarrow> serializable sub"

text \<open>The fields of a serialized record or tuple, from the offset \<open>d\<close> on: where each begins, where they end, and where their data are.\<close>

fun field_places :: "nat \<Rightarrow> dt list \<Rightarrow> nat list" where
  "field_places d [] = []"
| "field_places d (t # ts) = round_up (alignment (flat t)) d # field_places (round_up (alignment (flat t)) d + ser_size t) ts"

fun fields_end :: "nat \<Rightarrow> dt list \<Rightarrow> nat" where
  "fields_end d [] = d"
| "fields_end d (t # ts) = fields_end (round_up (alignment (flat t)) d + ser_size t) ts"

fun fields_offsets :: "nat \<Rightarrow> dt list \<Rightarrow> nat list" where
  "fields_offsets d [] = []"
| "fields_offsets d (t # ts) = map ((+) (round_up (alignment (flat t)) d)) (ser_offsets t)
     @ fields_offsets (round_up (alignment (flat t)) d + ser_size t) ts"

lemma fields_of_members [simp]:
  "packed_members d (flat_members ms) = fields_end d (map mtype ms)"
  "packed_member_offsets d (flat_members ms) = fields_offsets d (map mtype ms)"
  by (induction ms arbitrary: d) simp_all

lemma fields_of_elements [simp]:
  "packed_elements d (flat_elements es) = fields_end d (map etype es)"
  "packed_element_offsets d (flat_elements es) = fields_offsets d (map etype es)"
  by (induction es arbitrary: d) simp_all

lemma length_packed_offsets:
  "length (packed_offsets t) \<le> packed_size t"
  "d + length (packed_member_offsets d ms) \<le> packed_members d ms"
  "d + length (packed_element_offsets d es) \<le> packed_elements d es"
proof (induction t and d ms and d es rule: packed_offsets_packed_member_offsets_packed_element_offsets.induct)
  case (2 sub uu uv n uw)
  then show ?case by (simp add: length_concat o_def sum_list_triv)
next
  case (3 ms b a)
  then show ?case using round_up_ge [of "packed_members 0 ms" "alignment (Record ms b a)"] by simp
next
  case (4 es b a)
  then show ?case using round_up_ge [of "packed_elements 0 es" "alignment (Tuple es b a)"] by simp
next
  case (7 d x t n ms)
  then show ?case using round_up_ge [of d "alignment t"] by simp
next
  case (9 d x t es)
  then show ?case using round_up_ge [of d "alignment t"] by simp
qed simp_all

lemma spacing_eq: "al \<noteq> 0 \<Longrightarrow> serialize_spacing al d = Inr (round_up al d - d)"
  by (simp add: serialize_spacing_def round_up_def)

lemma sz_add_spacing: "round_up al d < size_max \<Longrightarrow> sz_add d (round_up al d - d) = round_up al d"
  using round_up_ge [of d al] by (simp add: sz_add_def)

text \<open>What the serialized type has in common with the packed layout.\<close>

definition serialized_as :: "dt \<Rightarrow> dt \<Rightarrow> bool" where
  "serialized_as t t' \<longleftrightarrow> buffersize t' = ser_size t \<and> alignment t' = alignment (flat t) \<and> datasize t' = length (ser_offsets t)
     \<and> data_offsets t' = ser_offsets t \<and> ser_size t < size_max \<and> ispow2 (alignment t')"

fun serialized_fields :: "nat \<Rightarrow> dt list \<Rightarrow> (nat \<times> dt) list \<Rightarrow> bool" where
  "serialized_fields d [] fs \<longleftrightarrow> fs = []"
| "serialized_fields d (t # ts) fs \<longleftrightarrow> (case fs of [] \<Rightarrow> False | (x, t') # fs' \<Rightarrow> x = round_up (alignment (flat t)) d
     \<and> serialized_as t t' \<and> serialized_fields (round_up (alignment (flat t)) d + ser_size t) ts fs')"

lemma fields_end_ge: "d \<le> fields_end d ts"
proof (induction ts arbitrary: d)
  case (Cons t ts)
  have "d \<le> round_up (alignment (flat t)) d + ser_size t" by (simp add: round_up_ge trans_le_add1)
  also have "\<dots> \<le> fields_end \<dots> ts" by (rule Cons.IH)
  finally show ?case by simp
qed simp

lemma length_fields_offsets: "d + length (fields_offsets d ts) \<le> fields_end d ts"
proof (induction ts arbitrary: d)
  case (Cons t ts)
  from Cons.IH [of "round_up (alignment (flat t)) d + ser_size t"] length_packed_offsets(1) [of "flat t"]
    round_up_ge [of d "alignment (flat t)"]
  show ?case by simp
qed simp

lemma serialized_fieldsD:
  assumes "serialized_fields d ts fs"
  shows "map fst fs = field_places d ts"
    and "concat (map (\<lambda>(x, t). map ((+) x) (data_offsets t)) fs) = fields_offsets d ts"
    and "sum_list (map (\<lambda>(x, t). datasize t) fs) = length (fields_offsets d ts)"
    and "map (\<lambda>(x, t). alignment t) fs = map (\<lambda>t. alignment (flat t)) ts"
    and "t \<in> set ts \<Longrightarrow> ispow2 (alignment (flat t))"
  using assms by (induction ts arbitrary: d fs) (auto simp: serialized_as_def split: list.splits)

lemma foldl_max_0: "xs \<noteq> [] \<Longrightarrow> (\<And>x. x \<in> set xs \<Longrightarrow> 0 < x) \<Longrightarrow> foldl max 0 xs = foldl max 1 (xs :: nat list)"
  by (cases xs) (simp_all add: Suc_le_eq max_absorb2)

lemma serialized_record_tail:
  assumes fs: "serialized_fields 0 ts fs" and pos: "0 < fields_end 0 ts"
    and fits: "max 1 (round_up (foldl max 1 (map (\<lambda>t. alignment (flat t)) ts)) (fields_end 0 ts)) < size_max"
  shows "serialize_spacing (foldl max 0 (map (\<lambda>t. alignment (flat t)) ts)) (fields_end 0 ts) = Inr
      (round_up (foldl max 1 (map (\<lambda>t. alignment (flat t)) ts)) (fields_end 0 ts) - fields_end 0 ts)"
    and "sz_add (fields_end 0 ts) (round_up (foldl max 1 (map (\<lambda>t. alignment (flat t)) ts)) (fields_end 0 ts) - fields_end 0 ts)
      = max 1 (round_up (foldl max 1 (map (\<lambda>t. alignment (flat t)) ts)) (fields_end 0 ts))"
    and "foldl sz_add 0 (map (\<lambda>(x, t). datasize t) fs) = length (fields_offsets 0 ts)"
    and "ispow2 (foldl max 1 (map (\<lambda>t. alignment (flat t)) ts))"
proof -
  let ?als = "map (\<lambda>t. alignment (flat t)) ts"
  have pow: "ispow2 y" if "y \<in> set ?als" for y using that serialized_fieldsD(5) [OF fs] by auto
  have max: "foldl max 0 ?als = foldl max 1 ?als" using pos pow by (intro foldl_max_0) (auto simp: ispow2_pos)
  show p: "ispow2 (foldl max 1 ?als)" using pow by (intro ispow2_foldl_max) auto
  then show "serialize_spacing (foldl max 0 ?als) (fields_end 0 ts) =
      Inr (round_up (foldl max 1 ?als) (fields_end 0 ts) - fields_end 0 ts)"
    unfolding max by (intro spacing_eq) (use ispow2_pos in fastforce)
  have ge: "fields_end 0 ts \<le> round_up (foldl max 1 ?als) (fields_end 0 ts)" by (rule round_up_ge)
  show "sz_add (fields_end 0 ts) (round_up (foldl max 1 ?als) (fields_end 0 ts) - fields_end 0 ts)
      = max 1 (round_up (foldl max 1 ?als) (fields_end 0 ts))"
    using fits pos ge by (simp add: sz_add_spacing)
  show "foldl sz_add 0 (map (\<lambda>(x, t). datasize t) fs) = length (fields_offsets 0 ts)"
    using length_fields_offsets [of 0 ts] fits ge by (simp add: foldl_sz_add serialized_fieldsD(3) [OF fs])
qed

lemma serialized_Record:
  assumes "Record_serialize 0 0 0 ms = Inr (ms', fields_end 0 (map mtype ms), foldl max 0 (map (\<lambda>t. alignment (flat t)) (map mtype ms)),
      fields_end 0 (map mtype ms))" "serialized_fields 0 (map mtype ms) (map (\<lambda>m. (displacement m, mtype m)) ms')"
    and "serializable (Record ms b a)"
  shows "serialize_type (Record ms b a) = Inr (Record ms' (ser_size (Record ms b a)) a)"
    and "serialized_as (Record ms b a) (Record ms' (ser_size (Record ms b a)) a)"
proof -
  let ?ts = "map mtype ms"
  have al: "alignment (flat (Record ms b a)) = foldl max 1 (map (\<lambda>t. alignment (flat t)) ?ts)"
    by (simp add: Record_alignment_def o_def)
  have fits: "max 1 (round_up (foldl max 1 (map (\<lambda>t. alignment (flat t)) ?ts)) (fields_end 0 ?ts)) < size_max" "0 < fields_end 0 ?ts"
    using assms(3) by (simp_all add: Record_alignment_def o_def)
  note tail = serialized_record_tail [OF assms(2) fits(2,1)] and D = serialized_fieldsD [OF assms(2)]
  show "serialize_type (Record ms b a) = Inr (Record ms' (ser_size (Record ms b a)) a)"
    using tail al by (simp add: assms(1))
  show "serialized_as (Record ms b a) (Record ms' (ser_size (Record ms b a)) a)"
    using D tail al fits by (simp add: serialized_as_def size_query_defs Record_alignment_def Record_datasize_def o_def del: map_eq_conv)
qed

lemma serialized_Tuple:
  assumes "Tuple_serialize 0 0 0 es = Inr (es', fields_end 0 (map etype es), foldl max 0 (map (\<lambda>t. alignment (flat t)) (map etype es)),
      fields_end 0 (map etype es))" "serialized_fields 0 (map etype es) (map (\<lambda>m. (offset m, etype m)) es')"
    and "serializable (Tuple es b a)"
  shows "serialize_type (Tuple es b a) = Inr (Tuple es' (ser_size (Tuple es b a)) a)"
    and "serialized_as (Tuple es b a) (Tuple es' (ser_size (Tuple es b a)) a)"
proof -
  let ?ts = "map etype es"
  have al: "alignment (flat (Tuple es b a)) = foldl max 1 (map (\<lambda>t. alignment (flat t)) ?ts)"
    by (simp add: Tuple_alignment_def o_def)
  have fits: "max 1 (round_up (foldl max 1 (map (\<lambda>t. alignment (flat t)) ?ts)) (fields_end 0 ?ts)) < size_max" "0 < fields_end 0 ?ts"
    using assms(3) by (simp_all add: Tuple_alignment_def o_def)
  note tail = serialized_record_tail [OF assms(2) fits(2,1)] and D = serialized_fieldsD [OF assms(2)]
  show "serialize_type (Tuple es b a) = Inr (Tuple es' (ser_size (Tuple es b a)) a)"
    using tail al by (simp add: assms(1))
  show "serialized_as (Tuple es b a) (Tuple es' (ser_size (Tuple es b a)) a)"
    using D tail al fits by (simp add: serialized_as_def size_query_defs Tuple_alignment_def Tuple_datasize_def o_def del: map_eq_conv)
qed

lemma serialize_type_layout:
  "serializable t \<Longrightarrow> \<exists>t'. serialize_type t = Inr t' \<and> serialized_as t t'"
  "bufsize = off \<Longrightarrow> (\<forall>m \<in> set ms. serializable (mtype m)) \<Longrightarrow> fields_end off (map mtype ms) < size_max \<Longrightarrow>
    \<exists>ms'. Record_serialize off al bufsize ms = Inr (ms', fields_end off (map mtype ms),
        foldl max al (map (\<lambda>t. alignment (flat t)) (map mtype ms)), fields_end off (map mtype ms))
      \<and> serialized_fields off (map mtype ms) (map (\<lambda>m. (displacement m, mtype m)) ms')"
  "bufsize = off \<Longrightarrow> (\<forall>e \<in> set es. serializable (etype e)) \<Longrightarrow> fields_end off (map etype es) < size_max \<Longrightarrow>
    \<exists>es'. Tuple_serialize off al bufsize es = Inr (es', fields_end off (map etype es),
        foldl max al (map (\<lambda>t. alignment (flat t)) (map etype es)), fields_end off (map etype es))
      \<and> serialized_fields off (map etype es) (map (\<lambda>e. (offset e, etype e)) es')"
proof (induction t and off al bufsize ms and off al bufsize es rule: serialize_type_Record_serialize_Tuple_serialize.induct)
  case (1 d a)
  then show ?case by (simp add: serialized_as_def size_query_defs)
next
  case (2 sub sz st n a)
  then obtain sub' where s: "serialize_type sub = Inr sub'" "serialized_as sub sub'" by auto
  have "ispow2 (alignment (flat sub))" using s(2) by (auto simp: serialized_as_def)
  with s "2.prems" show ?case
    by (simp add: serialized_as_def Array_make_def size_query_defs sz_mul_eq length_concat o_def sum_list_triv)
next
  case (3 ms b a)
  have "fields_end 0 (map mtype ms) < size_max"
    using "3.prems" round_up_ge [of "fields_end 0 (map mtype ms)" "alignment (flat (Record ms b a))"] by simp
  with 3 obtain ms' where "Record_serialize 0 0 0 ms = Inr (ms', fields_end 0 (map mtype ms),
      foldl max 0 (map (\<lambda>t. alignment (flat t)) (map mtype ms)), fields_end 0 (map mtype ms))"
    "serialized_fields 0 (map mtype ms) (map (\<lambda>m. (displacement m, mtype m)) ms')" by auto
  from serialized_Record [OF this "3.prems"] show ?case by blast
next
  case (4 sub c d a)
  then show ?case by (simp add: serialized_as_def)
next
  case (5 es b a)
  have "fields_end 0 (map etype es) < size_max"
    using "5.prems" round_up_ge [of "fields_end 0 (map etype es)" "alignment (flat (Tuple es b a))"] by simp
  with 5 obtain es' where "Tuple_serialize 0 0 0 es = Inr (es', fields_end 0 (map etype es),
      foldl max 0 (map (\<lambda>t. alignment (flat t)) (map etype es)), fields_end 0 (map etype es))"
    "serialized_fields 0 (map etype es) (map (\<lambda>m. (offset m, etype m)) es')" by auto
  from serialized_Tuple [OF this "5.prems"] show ?case by blast
next
  case (7 off al bufsize d t n ms)
  let ?d = "round_up (alignment (flat t)) off"
  from 7 obtain t' where t': "serialize_type t = Inr t'" "serialized_as t t'" by auto
  then have al: "alignment t' = alignment (flat t)" "alignment (flat t) \<noteq> 0" "buffersize t' = ser_size t"
    by (auto simp: serialized_as_def dest: ispow2_pos)
  have lt: "?d + ser_size t < size_max" using "7.prems"(3) fields_end_ge [of "?d + ser_size t" "map mtype ms"] by simp
  have sz: "sz_add off (?d - off) = ?d" "sz_add ?d (ser_size t) = ?d + ser_size t"
    using lt by (simp_all add: sz_add_spacing sz_add_eq)
  have "\<exists>ms'. Record_serialize (?d + ser_size t) (max al (alignment (flat t))) (?d + ser_size t) ms =
      Inr (ms', fields_end (?d + ser_size t) (map mtype ms), foldl max (max al (alignment (flat t)))
        (map (\<lambda>t. alignment (flat t)) (map mtype ms)), fields_end (?d + ser_size t) (map mtype ms))
      \<and> serialized_fields (?d + ser_size t) (map mtype ms) (map (\<lambda>m. (displacement m, mtype m)) ms')"
    using "7.IH"(2) [of ?d "?d - off" ?d t'] "7.prems" al sz by simp
  with t' al sz "7.prems"(1) show ?case by (auto simp: spacing_eq Let_def)
next
  case (9 off al bufsize d t es)
  let ?d = "round_up (alignment (flat t)) off"
  from 9 obtain t' where t': "serialize_type t = Inr t'" "serialized_as t t'" by auto
  then have al: "alignment t' = alignment (flat t)" "alignment (flat t) \<noteq> 0" "buffersize t' = ser_size t"
    by (auto simp: serialized_as_def dest: ispow2_pos)
  have lt: "?d + ser_size t < size_max" using "9.prems"(3) fields_end_ge [of "?d + ser_size t" "map etype es"] by simp
  have sz: "sz_add off (?d - off) = ?d" "sz_add ?d (ser_size t) = ?d + ser_size t"
    using lt by (simp_all add: sz_add_spacing sz_add_eq)
  have "\<exists>es'. Tuple_serialize (?d + ser_size t) (max al (alignment (flat t))) (?d + ser_size t) es =
      Inr (es', fields_end (?d + ser_size t) (map etype es), foldl max (max al (alignment (flat t)))
        (map (\<lambda>t. alignment (flat t)) (map etype es)), fields_end (?d + ser_size t) (map etype es))
      \<and> serialized_fields (?d + ser_size t) (map etype es) (map (\<lambda>e. (offset e, etype e)) es')"
    using "9.IH"(2) [of ?d "?d - off" ?d t'] "9.prems" al sz by simp
  with t' al sz "9.prems"(1) show ?case by (auto simp: spacing_eq Let_def)
qed simp_all

section \<open>The data a value reaches\<close>

text \<open>The addresses of the data bytes of a value, through its pointers, and of the pointers on the way.\<close>

fun data_addrs :: "dt \<Rightarrow> mem \<Rightarrow> addr \<Rightarrow> addr list" where
  "data_addrs (Scalar d _) m p = map ((+) p) [0 ..< sc_size d]"
| "data_addrs (Array sub _ start n _) m p = concat (map (\<lambda>i. data_addrs sub m (p + start * buffersize sub + i * buffersize sub)) [0 ..< n])"
| "data_addrs (Record ms _ _) m p = concat (map (\<lambda>f. data_addrs (mtype f) m (p + displacement f)) ms)"
| "data_addrs (Tuple es _ _) m p = concat (map (\<lambda>f. data_addrs (etype f) m (p + offset f)) es)"
| "data_addrs (Pointer sub _ _ _) m p = data_addrs sub m (read_uint m p 8)"

fun pointer_addrs :: "dt \<Rightarrow> mem \<Rightarrow> addr \<Rightarrow> addr list" where
  "pointer_addrs (Scalar d _) m p = []"
| "pointer_addrs (Array sub _ start n _) m p = concat (map (\<lambda>i. pointer_addrs sub m (p + start * buffersize sub + i * buffersize sub)) [0 ..< n])"
| "pointer_addrs (Record ms _ _) m p = concat (map (\<lambda>f. pointer_addrs (mtype f) m (p + displacement f)) ms)"
| "pointer_addrs (Tuple es _ _) m p = concat (map (\<lambda>f. pointer_addrs (etype f) m (p + offset f)) es)"
| "pointer_addrs (Pointer sub _ _ _) m p = map ((+) p) [0 ..< 8] @ pointer_addrs sub m (read_uint m p 8)"

lemma read_uint_same_bytes: "(\<And>i. i < n \<Longrightarrow> m' (p + i) = m (p + i)) \<Longrightarrow> read_uint m' p n = read_uint m p n"
proof (induction n arbitrary: p)
  case (Suc n)
  have "read_uint m' (Suc p) n = read_uint m (Suc p) n" using Suc.prems [of "Suc _"] by (intro Suc.IH) simp
  then show ?case using Suc.prems [of 0] by simp
qed simp

text \<open>
  What the copies rely on: the addresses depend on the memory only through the pointers that are followed.
\<close>

locale reach =
  fixes addrs pointers :: "mem \<Rightarrow> addr \<Rightarrow> addr list"
  assumes addrs_stable: "(\<And>a. a \<in> set (pointers m p) \<Longrightarrow> m' a = m a) \<Longrightarrow> addrs m' p = addrs m p"
    and pointers_stable: "(\<And>a. a \<in> set (pointers m p) \<Longrightarrow> m' a = m a) \<Longrightarrow> pointers m' p = pointers m p"

lemma reach_stable:
  "(\<And>a. a \<in> set (pointer_addrs t m p) \<Longrightarrow> m' a = m a) \<Longrightarrow> data_addrs t m' p = data_addrs t m p \<and> pointer_addrs t m' p = pointer_addrs t m p"
proof (induction t m p rule: data_addrs.induct)
  case (2 sub sz st n a m p)
  then have "data_addrs sub m' (p + st * buffersize sub + i * buffersize sub) = data_addrs sub m (p + st * buffersize sub + i * buffersize sub)
      \<and> pointer_addrs sub m' (p + st * buffersize sub + i * buffersize sub) = pointer_addrs sub m (p + st * buffersize sub + i * buffersize sub)"
    if "i \<in> set [0 ..< n]" for i using that by fastforce
  then show ?case by (auto intro!: arg_cong [where f = concat] map_cong)
next
  case (3 ms b a m p)
  then have "data_addrs (mtype f) m' (p + displacement f) = data_addrs (mtype f) m (p + displacement f)
      \<and> pointer_addrs (mtype f) m' (p + displacement f) = pointer_addrs (mtype f) m (p + displacement f)"
    if "f \<in> set ms" for f using that by fastforce
  then show ?case by (auto intro!: arg_cong [where f = concat] map_cong)
next
  case (4 es b a m p)
  then have "data_addrs (etype f) m' (p + offset f) = data_addrs (etype f) m (p + offset f)
      \<and> pointer_addrs (etype f) m' (p + offset f) = pointer_addrs (etype f) m (p + offset f)"
    if "f \<in> set es" for f using that by fastforce
  then show ?case by (auto intro!: arg_cong [where f = concat] map_cong)
next
  case (5 sub c d a m p)
  have "read_uint m' p 8 = read_uint m p 8" using "5.prems" by (intro read_uint_same_bytes) auto
  with 5 show ?case by simp
qed simp

interpretation data: reach "data_addrs t" "pointer_addrs t" for t
  proof
  show "data_addrs t m' p = data_addrs t m p" if "\<And>a. a \<in> set (pointer_addrs t m p) \<Longrightarrow> m' a = m a" for m m' p
    using reach_stable [of t m p m'] that by blast
  show "pointer_addrs t m' p = pointer_addrs t m p" if "\<And>a. a \<in> set (pointer_addrs t m p) \<Longrightarrow> m' a = m a" for m m' p
    using reach_stable [of t m p m'] that by blast
qed

section \<open>The copy to the serialized type\<close>

text \<open>
  The contract of a copy: with an aligned target away from what is read, the data are copied to their serialized offsets, their
  number is returned, and nothing outside the target changes.
\<close>

abbreviation apart :: "addr \<Rightarrow> addr \<Rightarrow> addr list \<Rightarrow> bool" where
  "apart lo hi as \<equiv> \<forall>a \<in> set as. a < lo \<or> hi \<le> a"

lemma apart_mono: "apart lo hi as \<Longrightarrow> lo \<le> lo' \<Longrightarrow> hi' \<le> hi \<Longrightarrow> apart lo' hi' as"
  by fastforce

definition gathers :: "(addr \<Rightarrow> addr \<Rightarrow> size_t memory_op) \<Rightarrow> nat \<Rightarrow> nat \<Rightarrow> nat list \<Rightarrow> (mem \<Rightarrow> addr \<Rightarrow> addr list) \<Rightarrow>
    (mem \<Rightarrow> addr \<Rightarrow> addr list) \<Rightarrow> bool" where
  "gathers copy al n offs addrs pointers \<longleftrightarrow> (\<forall>dst src m. al dvd dst \<longrightarrow>
     apart dst (dst + n) (addrs m src @ pointers m src) \<longrightarrow>
     (\<exists>m'. copy dst src m = (Inr (length offs), m') \<and> copied m m' dst (dst + n) (map ((+) dst) offs) (addrs m src)))"

context reach
begin

lemma outside_stable:
  assumes "copied m m' lo hi ds ss" "apart lo hi (pointers m p)"
  shows "addrs m' p = addrs m p" and "pointers m' p = pointers m p"
  using assms by (auto simp: copied_def intro!: addrs_stable pointers_stable)

lemma gathers_loop:
  assumes copy: "gathers copy al ps offs addrs pointers" and len: "length offs = ps" and "al dvd ps"
    and offs: "\<And>off. off \<in> set offs \<Longrightarrow> off < ps"
  shows "al dvd dst \<Longrightarrow> acc + n * ps < size_max \<Longrightarrow>
    (\<And>i. i < n \<Longrightarrow> apart dst (dst + n * ps) (addrs m (src + i * bs) @ pointers m (src + i * bs))) \<Longrightarrow>
    \<exists>m'. serialize_loop copy bs n acc dst src m = (Inr (acc + n * ps), m')
      \<and> copied m m' dst (dst + n * ps) (map ((+) dst) (strided ps offs n)) (concat (map (\<lambda>i. addrs m (src + i * bs)) [0 ..< n]))"
proof (induction n arbitrary: acc dst src m)
  case 0
  then show ?case by (simp add: copied_Nil)
next
  case (Suc n)
  have ap: "apart dst (dst + ps) (addrs m src @ pointers m src)" using Suc.prems(3) [of 0] by fastforce
  with copy Suc.prems(1) obtain m1 where m1: "copy dst src m = (Inr ps, m1)"
      "copied m m1 dst (dst + ps) (map ((+) dst) offs) (addrs m src)"
    unfolding gathers_def len by meson
  have rest: "apart dst (dst + (ps + n * ps)) (addrs m (src + bs + i * bs) @ pointers m (src + bs + i * bs))" if "i < n" for i
    using Suc.prems(3) [of "Suc i"] that by (simp add: add.assoc)
  have st: "addrs m1 (src + bs + i * bs) = addrs m (src + bs + i * bs)" "pointers m1 (src + bs + i * bs) = pointers m (src + bs + i * bs)"
    if "i < n" for i
    using rest [OF that] outside_stable [OF m1(2), of "src + bs + i * bs"] by fastforce+
  have sz: "sz_add acc ps = acc + ps" using Suc.prems(2) by (simp add: sz_add_eq)
  have rest': "apart (dst + ps) (dst + ps + n * ps) (addrs m1 (src + bs + i * bs) @ pointers m1 (src + bs + i * bs))" if "i < n" for i
    unfolding st [OF that] using rest [OF that] by (fastforce simp: add.assoc)
  from Suc.IH [of "dst + ps" "acc + ps" m1 "src + bs", OF _ _ rest'] Suc.prems(1,2) \<open>al dvd ps\<close> obtain m2 where
    m2: "serialize_loop copy bs n (acc + ps) (dst + ps) (src + bs) m1 = (Inr (acc + ps + n * ps), m2)"
      "copied m1 m2 (dst + ps) (dst + ps + n * ps) (map ((+) (dst + ps)) (strided ps offs n))
         (concat (map (\<lambda>i. addrs m1 (src + bs + i * bs)) [0 ..< n]))" by auto
  have eq: "concat (map (\<lambda>i. addrs m1 (src + bs + i * bs)) [0 ..< n]) = concat (map (\<lambda>i. addrs m (src + bs + i * bs)) [0 ..< n])"
    using st(1) by (intro arg_cong [where f = concat] map_cong) auto
  have "copied m m2 dst (dst + ps + n * ps) (map ((+) dst) offs @ map ((+) (dst + ps)) (strided ps offs n))
      (addrs m src @ concat (map (\<lambda>i. addrs m (src + bs + i * bs)) [0 ..< n]))"
    using rest offs by (intro copied_append [OF m1(2) m2(2) [unfolded eq]]) fastforce+
  moreover have "[0 ..< Suc n] = 0 # map Suc [0 ..< n]" by (simp add: map_Suc_upt upt_conv_Cons)
  ultimately show ?case using m1(1) m2(1) by (simp add: strided_Suc sz o_def map_plus_plus add.assoc del: upt_Suc)
qed

end

text \<open>The loops over members and elements, with the copy of each field, its place in the target and in the source.\<close>

fun run_fields :: "((addr \<Rightarrow> addr \<Rightarrow> size_t memory_op) \<times> nat \<times> nat) list \<Rightarrow> size_t \<Rightarrow> addr \<Rightarrow> addr \<Rightarrow> size_t memory_op" where
  "run_fields [] all_bytes dst src = sx_return all_bytes"
| "run_fields ((copy, x, y) # fs) all_bytes dst src =
     sx_bind (copy (dst + x) (src + y)) (\<lambda>bytes_copied. run_fields fs (sz_add all_bytes bytes_copied) dst src)"

lemma field_steps:
  "Record_serialize_copy (f # ms) (off # offs) acc dst src = sx_bind (serialize_copy (mtype f) (dst + off) (src + displacement f))
     (\<lambda>n. Record_serialize_copy ms offs (sz_add acc n) dst src)"
  "Tuple_serialize_copy (e # es) (off # offs) acc dst src = sx_bind (serialize_copy (etype e) (dst + off) (src + offset e))
     (\<lambda>n. Tuple_serialize_copy es offs (sz_add acc n) dst src)"
  "Record_deserialize_copy (f # ms) (off # offs) acc dst src = sx_bind (deserialize_copy (mtype f) (dst + displacement f) (src + off))
     (\<lambda>n. Record_deserialize_copy ms offs (sz_add acc n) dst src)"
  "Tuple_deserialize_copy (e # es) (off # offs) acc dst src = sx_bind (deserialize_copy (etype e) (dst + offset e) (src + off))
     (\<lambda>n. Tuple_deserialize_copy es offs (sz_add acc n) dst src)"
  by (cases f; cases e; simp)+

lemma field_loops_Record:
  assumes "length ms = length offs"
  shows "Record_serialize_copy ms offs acc dst src =
      run_fields (map2 (\<lambda>(d, t) off. (serialize_copy t, off, d)) (map (\<lambda>f. (displacement f, mtype f)) ms) offs) acc dst src"
    and "Record_deserialize_copy ms offs acc dst src =
      run_fields (map2 (\<lambda>(d, t) off. (deserialize_copy t, d, off)) (map (\<lambda>f. (displacement f, mtype f)) ms) offs) acc dst src"
  using assms by (induction ms offs arbitrary: acc rule: list_induct2) (simp_all add: field_steps)

lemma field_loops_Tuple:
  assumes "length es = length offs"
  shows "Tuple_serialize_copy es offs acc dst src =
      run_fields (map2 (\<lambda>(d, t) off. (serialize_copy t, off, d)) (map (\<lambda>f. (offset f, etype f)) es) offs) acc dst src"
    and "Tuple_deserialize_copy es offs acc dst src =
      run_fields (map2 (\<lambda>(d, t) off. (deserialize_copy t, d, off)) (map (\<lambda>f. (offset f, etype f)) es) offs) acc dst src"
  using assms by (induction es offs arbitrary: acc rule: list_induct2) (simp_all add: field_steps)

lemma length_field_places [simp]: "length (field_places d ts) = length ts"
  by (induction ts arbitrary: d) simp_all

lemma field_offsets_eq:
  "serializable (Record ms b a) \<Longrightarrow> field_offsets (Record ms b a) = Inr (field_places 0 (map mtype ms))"
  "serializable (Tuple es b a) \<Longrightarrow> field_offsets (Tuple es b a) = Inr (field_places 0 (map etype es))"
proof -
  assume t: "serializable (Record ms b a)"
  then have "fields_end 0 (map mtype ms) < size_max"
    using round_up_ge [of "fields_end 0 (map mtype ms)" "alignment (flat (Record ms b a))"] by simp
  with serialize_type_layout(2) [OF refl, of ms 0 0] t obtain ms' where
    ms': "Record_serialize 0 0 0 ms = Inr (ms', fields_end 0 (map mtype ms), foldl max 0 (map (\<lambda>t. alignment (flat t)) (map mtype ms)),
      fields_end 0 (map mtype ms))" "serialized_fields 0 (map mtype ms) (map (\<lambda>m. (displacement m, mtype m)) ms')" by auto
  show "field_offsets (Record ms b a) = Inr (field_places 0 (map mtype ms))"
    using serialized_Record(1) [OF ms' t] serialized_fieldsD(1) [OF ms'(2)] by (simp add: field_offsets_def o_def del: serialize_type.simps)
next
  assume t: "serializable (Tuple es b a)"
  then have "fields_end 0 (map etype es) < size_max"
    using round_up_ge [of "fields_end 0 (map etype es)" "alignment (flat (Tuple es b a))"] by simp
  with serialize_type_layout(3) [OF refl, of es 0 0] t obtain es' where
    es': "Tuple_serialize 0 0 0 es = Inr (es', fields_end 0 (map etype es), foldl max 0 (map (\<lambda>t. alignment (flat t)) (map etype es)),
      fields_end 0 (map etype es))" "serialized_fields 0 (map etype es) (map (\<lambda>m. (offset m, etype m)) es')" by auto
  show "field_offsets (Tuple es b a) = Inr (field_places 0 (map etype es))"
    using serialized_Tuple(1) [OF es' t] serialized_fieldsD(1) [OF es'(2)] by (simp add: field_offsets_def o_def del: serialize_type.simps)
qed

lemma fields_offsets_bound: "off \<in> set (fields_offsets d ts) \<Longrightarrow> d \<le> off \<and> off < fields_end d ts"
proof (induction ts arbitrary: d)
  case (Cons t ts)
  let ?d = "round_up (alignment (flat t)) d"
  from Cons.prems consider o' where "off = ?d + o'" "o' \<in> set (ser_offsets t)" | "off \<in> set (fields_offsets (?d + ser_size t) ts)"
    by auto
  then show ?case
  proof cases
    case 1
    then have "o' < ser_size t" by (simp add: packed_offsets_bound(1))
    with 1 fields_end_ge [of "?d + ser_size t" ts] round_up_ge [of d "alignment (flat t)"] show ?thesis by simp
  next
    case 2
    with Cons.IH [of "?d + ser_size t"] round_up_ge [of d "alignment (flat t)"] show ?thesis by simp
  qed
qed simp

abbreviation gathers_type :: "dt \<Rightarrow> bool" where
  "gathers_type t \<equiv> gathers (serialize_copy t) (alignment (flat t)) (ser_size t) (ser_offsets t) (data_addrs t) (pointer_addrs t)"

lemma gathers_fields:
  "(\<And>d t. (d, t) \<in> set fs \<Longrightarrow> gathers_type t \<and> 0 < alignment (flat t) \<and> alignment (flat t) dvd dst) \<Longrightarrow>
    acc + length (fields_offsets x (map snd fs)) < size_max \<Longrightarrow>
    (\<And>d t. (d, t) \<in> set fs \<Longrightarrow> apart (dst + x) (dst + fields_end x (map snd fs)) (data_addrs t m (src + d) @ pointer_addrs t m (src + d))) \<Longrightarrow>
    \<exists>m'. run_fields (map2 (\<lambda>(d, t) off. (serialize_copy t, off, d)) fs (field_places x (map snd fs))) acc dst src m
        = (Inr (acc + length (fields_offsets x (map snd fs))), m')
      \<and> copied m m' (dst + x) (dst + fields_end x (map snd fs)) (map ((+) dst) (fields_offsets x (map snd fs)))
          (concat (map (\<lambda>(d, t). data_addrs t m (src + d)) fs))"
proof (induction fs arbitrary: x acc m)
  case (Cons f fs)
  obtain d t where f: "f = (d, t)" by fastforce
  let ?x = "round_up (alignment (flat t)) x" and ?ts = "map snd fs"
  let ?e = "fields_end (?x + ser_size t) ?ts"
  have g: "gathers_type t" "0 < alignment (flat t)" "alignment (flat t) dvd dst" using Cons.prems(1) f by auto
  have le: "x \<le> ?x" "?x + ser_size t \<le> ?e" by (simp_all add: round_up_ge fields_end_ge)
  have ap: "apart (dst + x) (dst + ?e) (data_addrs u m (src + c) @ pointer_addrs u m (src + c))" if "(c, u) \<in> set (f # fs)" for c u
    using Cons.prems(3) [OF that] f by simp
  have "apart (dst + ?x) (dst + ?x + ser_size t) (data_addrs t m (src + d) @ pointer_addrs t m (src + d))"
    using f le by (intro apart_mono [OF ap [of d t]]) auto
  moreover have "alignment (flat t) dvd dst + ?x" using g by (simp add: round_up_dvd)
  ultimately obtain m1 where m1: "serialize_copy t (dst + ?x) (src + d) m = (Inr (length (ser_offsets t)), m1)"
      "copied m m1 (dst + ?x) (dst + ?x + ser_size t) (map ((+) (dst + ?x)) (ser_offsets t)) (data_addrs t m (src + d))"
    using g(1) unfolding gathers_def by meson
  have ap1: "apart (dst + ?x) (dst + ?x + ser_size t) (data_addrs u m (src + c) @ pointer_addrs u m (src + c))" if "(c, u) \<in> set fs" for c u
    using le that by (intro apart_mono [OF ap [of c u]]) auto
  have st: "data_addrs u m1 (src + c) = data_addrs u m (src + c)" "pointer_addrs u m1 (src + c) = pointer_addrs u m (src + c)"
    if "(c, u) \<in> set fs" for c u
    using ap1 [OF that] data.outside_stable [OF m1(2), where t = u and p = "src + c"] by auto
  have ap': "apart (dst + (?x + ser_size t)) (dst + ?e) (data_addrs u m1 (src + c) @ pointer_addrs u m1 (src + c))"
    if "(c, u) \<in> set fs" for c u
    unfolding st [OF that] using that le by (intro apart_mono [OF ap [of c u]]) auto
  have sz: "sz_add acc (length (ser_offsets t)) = acc + length (ser_offsets t)" using Cons.prems(2) f by (simp add: sz_add_eq)
  obtain m2 where m2: "run_fields (map2 (\<lambda>(d, t) off. (serialize_copy t, off, d)) fs (field_places (?x + ser_size t) ?ts))
        (acc + length (ser_offsets t)) dst src m1 = (Inr (acc + length (ser_offsets t) + length (fields_offsets (?x + ser_size t) ?ts)), m2)"
      "copied m1 m2 (dst + (?x + ser_size t)) (dst + ?e) (map ((+) dst) (fields_offsets (?x + ser_size t) ?ts))
         (concat (map (\<lambda>(d, t). data_addrs t m1 (src + d)) fs))"
    using Cons.IH [of "acc + length (ser_offsets t)" "?x + ser_size t" m1, OF _ _ ap'] Cons.prems(1,2) f by auto
  have eq: "concat (map (\<lambda>(d, t). data_addrs t m1 (src + d)) fs) = concat (map (\<lambda>(d, t). data_addrs t m (src + d)) fs)"
    using st(1) by (intro arg_cong [where f = concat] map_cong) auto
  have "copied m m2 (dst + x) (dst + ?e) (map ((+) (dst + ?x)) (ser_offsets t) @ map ((+) dst) (fields_offsets (?x + ser_size t) ?ts))
      (data_addrs t m (src + d) @ concat (map (\<lambda>(d, t). data_addrs t m (src + d)) fs))"
  proof (rule copied_append [OF copied_widen [OF m1(2)] m2(2) [unfolded eq]])
    show "a < dst + (?x + ser_size t)" if "a \<in> set (map ((+) (dst + ?x)) (ser_offsets t))" for a
      using that packed_offsets_bound(1) [of _ "flat t"] by fastforce
    show "a < dst + x \<or> dst + (?x + ser_size t) \<le> a" if "a \<in> set (concat (map (\<lambda>(d, t). data_addrs t m (src + d)) fs))" for a
      using that ap le by fastforce
  qed (use le in auto)
  then show ?case using m1(1) m2(1) by (simp add: f sz o_def map_plus_plus add.assoc)
qed (simp add: copied_Nil)

lemma serializable_alignment: "serializable t \<Longrightarrow> ispow2 (alignment (flat t))"
  using serialize_type_layout(1) [of t] by (auto simp: serialized_as_def)

lemma field_alignment_dvd:
  "serializable (Record ms b a) \<Longrightarrow> f \<in> set ms \<Longrightarrow> alignment (flat (mtype f)) dvd alignment (flat (Record ms b a))"
  "serializable (Tuple es b a) \<Longrightarrow> e \<in> set es \<Longrightarrow> alignment (flat (etype e)) dvd alignment (flat (Tuple es b a))"
proof -
  show "alignment (flat (mtype f)) dvd alignment (flat (Record ms b a))" if "serializable (Record ms b a)" "f \<in> set ms"
  proof (rule ispow2_dvd)
    show "ispow2 (alignment (flat (mtype f)))" using that by (intro serializable_alignment) simp
    show "ispow2 (alignment (flat (Record ms b a)))" by (rule serializable_alignment [OF that(1)])
    show "alignment (flat (mtype f)) \<le> alignment (flat (Record ms b a))"
      using that(2) by (auto simp: Record_alignment_def intro!: foldl_max_le)
  qed
  show "alignment (flat (etype e)) dvd alignment (flat (Tuple es b a))" if "serializable (Tuple es b a)" "e \<in> set es"
  proof (rule ispow2_dvd)
    show "ispow2 (alignment (flat (etype e)))" using that by (intro serializable_alignment) simp
    show "ispow2 (alignment (flat (Tuple es b a)))" by (rule serializable_alignment [OF that(1)])
    show "alignment (flat (etype e)) \<le> alignment (flat (Tuple es b a))"
      using that(2) by (auto simp: Tuple_alignment_def intro!: foldl_max_le)
  qed
qed

lemma gathers_record:
  assumes "\<And>d t. (d, t) \<in> set fs \<Longrightarrow> gathers_type t \<and> 0 < alignment (flat t) \<and> alignment (flat t) dvd al"
    and "length (fields_offsets 0 (map snd fs)) < size_max" and "fields_end 0 (map snd fs) \<le> n"
    and "\<And>dst src m. copy dst src m = run_fields (map2 (\<lambda>(d, t) off. (serialize_copy t, off, d)) fs (field_places 0 (map snd fs))) 0 dst src m"
    and "\<And>m p. addrs m p = concat (map (\<lambda>(d, t). data_addrs t m (p + d)) fs)"
    and "\<And>m p. pointers m p = concat (map (\<lambda>(d, t). pointer_addrs t m (p + d)) fs)"
  shows "gathers copy al n (fields_offsets 0 (map snd fs)) addrs pointers"
  unfolding gathers_def
proof (intro allI impI)
  fix dst src m
  assume dst: "al dvd dst" and ap: "apart dst (dst + n) (addrs m src @ pointers m src)"
  have ap': "apart (dst + 0) (dst + fields_end 0 (map snd fs)) (data_addrs t m (src + d) @ pointer_addrs t m (src + d))"
    if "(d, t) \<in> set fs" for d t
  proof (rule apart_mono)
    show "apart dst (dst + n) (data_addrs t m (src + d) @ pointer_addrs t m (src + d))" using ap that by (auto simp: assms(5,6))
  qed (use assms(3) in auto)
  have g: "gathers_type t \<and> 0 < alignment (flat t) \<and> alignment (flat t) dvd dst" if "(d, t) \<in> set fs" for d t
    using assms(1) [OF that] dst dvd_trans by blast
  have "\<exists>m'. run_fields (map2 (\<lambda>(d, t) off. (serialize_copy t, off, d)) fs (field_places 0 (map snd fs))) 0 dst src m
        = (Inr (0 + length (fields_offsets 0 (map snd fs))), m')
      \<and> copied m m' (dst + 0) (dst + fields_end 0 (map snd fs)) (map ((+) dst) (fields_offsets 0 (map snd fs)))
          (concat (map (\<lambda>(d, t). data_addrs t m (src + d)) fs))"
    by (rule gathers_fields [OF g _ ap']) (assumption | use assms(2) in simp)+
  then obtain m' where "copy dst src m = (Inr (length (fields_offsets 0 (map snd fs))), m')"
    "copied m m' dst (dst + fields_end 0 (map snd fs)) (map ((+) dst) (fields_offsets 0 (map snd fs))) (addrs m src)"
    by (auto simp: assms(4,5))
  with assms(3) show "\<exists>m'. copy dst src m = (Inr (length (fields_offsets 0 (map snd fs))), m')
      \<and> copied m m' dst (dst + n) (map ((+) dst) (fields_offsets 0 (map snd fs))) (addrs m src)"
    by (auto intro: copied_widen)
qed

lemma fields_fit:
  "serializable (Record ms b a) \<Longrightarrow> length (fields_offsets 0 (map mtype ms)) < size_max \<and> fields_end 0 (map mtype ms) \<le> ser_size (Record ms b a)"
  "serializable (Tuple es b a) \<Longrightarrow> length (fields_offsets 0 (map etype es)) < size_max \<and> fields_end 0 (map etype es) \<le> ser_size (Tuple es b a)"
proof -
  assume "serializable (Record ms b a)"
  then have "ser_size (Record ms b a) < size_max" "fields_end 0 (map mtype ms) \<le> ser_size (Record ms b a)"
    using round_up_ge [of "fields_end 0 (map mtype ms)" "alignment (flat (Record ms b a))"] by simp_all
  with length_fields_offsets [of 0 "map mtype ms"]
  show "length (fields_offsets 0 (map mtype ms)) < size_max \<and> fields_end 0 (map mtype ms) \<le> ser_size (Record ms b a)" by linarith
next
  assume "serializable (Tuple es b a)"
  then have "ser_size (Tuple es b a) < size_max" "fields_end 0 (map etype es) \<le> ser_size (Tuple es b a)"
    using round_up_ge [of "fields_end 0 (map etype es)" "alignment (flat (Tuple es b a))"] by simp_all
  with length_fields_offsets [of 0 "map etype es"]
  show "length (fields_offsets 0 (map etype es)) < size_max \<and> fields_end 0 (map etype es) \<le> ser_size (Tuple es b a)" by linarith
qed

lemma gathers_serialize: "serializable t \<Longrightarrow> gathers_type t"
proof (induction t rule: serializable.induct)
  case (1 d a)
  then show ?case by (auto simp: gathers_def size_query_defs intro!: copied_memcpy)
next
  case (2 sub sz st n a)
  then have g: "gathers_type sub" and len: "length (ser_offsets sub) = ser_size sub" "alignment (flat sub) dvd ser_size sub"
    and fits: "st * buffersize sub < size_max" "n * ser_size sub < size_max" by auto
  obtain sub' where s: "serialize_type sub = Inr sub'" "serialized_as sub sub'"
    using serialize_type_layout(1) [of sub] "2.prems" by auto
  show ?case unfolding gathers_def
  proof (intro allI impI)
    fix dst src m
    assume dst: "alignment (flat (Array sub sz st n a)) dvd dst"
      and ap: "apart dst (dst + ser_size (Array sub sz st n a)) (data_addrs (Array sub sz st n a) m src @ pointer_addrs (Array sub sz st n a) m src)"
    have "apart dst (dst + n * ser_size sub) (data_addrs sub m (src + st * buffersize sub + i * buffersize sub)
        @ pointer_addrs sub m (src + st * buffersize sub + i * buffersize sub))" if "i < n" for i
      using ap that by fastforce
    from data.gathers_loop [OF g len packed_offsets_bound(1), where dst = dst and acc = 0 and n = n and m = m
        and src = "src + st * buffersize sub" and bs = "buffersize sub", OF _ _ _ this]
      dst fits obtain m' where
      "serialize_loop (serialize_copy sub) (buffersize sub) n 0 dst (src + st * buffersize sub) m = (Inr (n * ser_size sub), m')"
      "copied m m' dst (dst + n * ser_size sub) (map ((+) dst) (strided (ser_size sub) (ser_offsets sub) n))
        (data_addrs (Array sub sz st n a) m src)" by (auto simp: size_query_defs)
    moreover have "round_up (alignment (flat sub)) dst = dst" using dst by (simp add: size_query_defs)
    moreover have "length (strided (ser_size sub) (ser_offsets sub) n) = n * ser_size sub"
      using len(1) by (simp add: strided_def length_concat o_def sum_list_triv)
    ultimately show "\<exists>m'. serialize_copy (Array sub sz st n a) dst src m = (Inr (length (ser_offsets (Array sub sz st n a))), m')
        \<and> copied m m' dst (dst + ser_size (Array sub sz st n a)) (map ((+) dst) (ser_offsets (Array sub sz st n a)))
            (data_addrs (Array sub sz st n a) m src)"
      using s fits serializable_alignment [of sub] "2.prems"
      by (auto simp: serialized_as_def std_align_eq sz_mul_eq offsets_Array(1) simp del: packed_offsets.simps)
  qed
next
  case (3 ms b a)
  let ?fs = "map (\<lambda>f. (displacement f, mtype f)) ms"
  have ts: "map snd ?fs = map mtype ms" by simp
  have "length (fields_offsets 0 (map snd ?fs)) < size_max" "fields_end 0 (map snd ?fs) \<le> ser_size (Record ms b a)"
    unfolding ts using fields_fit(1) [OF "3.prems"] by blast+
  moreover have "gathers_type t \<and> 0 < alignment (flat t) \<and> alignment (flat t) dvd alignment (flat (Record ms b a))" if "(d, t) \<in> set ?fs" for d t
    using that 3 field_alignment_dvd(1) [OF "3.prems"] by (auto intro!: ispow2_pos serializable_alignment)
  ultimately have "gathers (serialize_copy (Record ms b a)) (alignment (flat (Record ms b a))) (ser_size (Record ms b a))
      (fields_offsets 0 (map snd ?fs)) (data_addrs (Record ms b a)) (pointer_addrs (Record ms b a))"
    by (intro gathers_record) (auto simp: field_offsets_eq(1) [OF "3.prems"] field_loops_Record(1) o_def)
  moreover have "fields_offsets 0 (map snd ?fs) = ser_offsets (Record ms b a)" by (simp add: o_def)
  ultimately show ?case by (simp only:)
next
  case (4 es b a)
  let ?fs = "map (\<lambda>f. (offset f, etype f)) es"
  have ts: "map snd ?fs = map etype es" by simp
  have "length (fields_offsets 0 (map snd ?fs)) < size_max" "fields_end 0 (map snd ?fs) \<le> ser_size (Tuple es b a)"
    unfolding ts using fields_fit(2) [OF "4.prems"] by blast+
  moreover have "gathers_type t \<and> 0 < alignment (flat t) \<and> alignment (flat t) dvd alignment (flat (Tuple es b a))" if "(d, t) \<in> set ?fs" for d t
    using that 4 field_alignment_dvd(2) [OF "4.prems"] by (auto intro!: ispow2_pos serializable_alignment)
  ultimately have "gathers (serialize_copy (Tuple es b a)) (alignment (flat (Tuple es b a))) (ser_size (Tuple es b a))
      (fields_offsets 0 (map snd ?fs)) (data_addrs (Tuple es b a)) (pointer_addrs (Tuple es b a))"
    by (intro gathers_record) (auto simp: field_offsets_eq(2) [OF "4.prems"] field_loops_Tuple(1) o_def)
  moreover have "fields_offsets 0 (map snd ?fs) = ser_offsets (Tuple es b a)" by (simp add: o_def)
  ultimately show ?case by (simp only:)
next
  case (5 sub c d a)
  then have g: "gathers_type sub" by simp
  have "\<exists>m'. serialize_copy (Pointer sub c d a) dst src m = (Inr (length (ser_offsets sub)), m')
      \<and> copied m m' dst (dst + ser_size sub) (map ((+) dst) (ser_offsets sub)) (data_addrs (Pointer sub c d a) m src)"
    if "alignment (flat sub) dvd dst" "apart dst (dst + ser_size sub) (data_addrs (Pointer sub c d a) m src @ pointer_addrs (Pointer sub c d a) m src)"
    for dst src m
  proof -
    have "apart dst (dst + ser_size sub) (data_addrs sub m (read_uint m src 8) @ pointer_addrs sub m (read_uint m src 8))"
      using that(2) by (simp add: ball_Un)
    with g that(1) show ?thesis unfolding gathers_def serialize_copy.simps data_addrs.simps by meson
  qed
  then show ?case unfolding gathers_def flat.simps by blast
qed

section \<open>The copy back\<close>

text \<open>
  The contract: when the data are apart from the serialized buffer, from the pointers and from each other, they get the bytes at the
  serialized offsets, and nothing else changes.
\<close>

definition stored :: "mem \<Rightarrow> mem \<Rightarrow> addr list \<Rightarrow> byte list \<Rightarrow> bool" where
  "stored m m' ds bs \<longleftrightarrow> map m' ds = bs \<and> (\<forall>a. a \<notin> set ds \<longrightarrow> m' a = m a)"

definition scatters :: "(addr \<Rightarrow> addr \<Rightarrow> size_t memory_op) \<Rightarrow> nat \<Rightarrow> nat list \<Rightarrow> (mem \<Rightarrow> addr \<Rightarrow> addr list) \<Rightarrow>
    (mem \<Rightarrow> addr \<Rightarrow> addr list) \<Rightarrow> bool" where
  "scatters copy n offs addrs pointers \<longleftrightarrow> (\<forall>dst src m. apart src (src + n) (addrs m dst) \<longrightarrow> distinct (addrs m dst) \<longrightarrow>
     set (addrs m dst) \<inter> set (pointers m dst) = {} \<longrightarrow>
     (\<exists>m'. copy dst src m = (Inr (length offs), m') \<and> stored m m' (addrs m dst) (map (\<lambda>off. m (src + off)) offs)))"

lemma stored_append:
  assumes "stored m m1 d1 b1" "stored m1 m2 d2 b2" "set d1 \<inter> set d2 = {}"
  shows "stored m m2 (d1 @ d2) (b1 @ b2)"
proof -
  have "map m2 d1 = map m1 d1" using assms by (auto simp: stored_def disjoint_iff)
  then show ?thesis using assms by (auto simp: stored_def)
qed

lemma stored_memcpy:
  "stored m (memcpy dst src n m) (map ((+) dst) [0 ..< n]) (map (\<lambda>off. m (src + off)) [0 ..< n])"
  by (auto simp: stored_def memcpy_def)

context reach
begin

lemma stored_stable:
  assumes "stored m m' ds bs" "set ds \<inter> set (pointers m p) = {}"
  shows "addrs m' p = addrs m p" and "pointers m' p = pointers m p"
  using assms by (auto simp: stored_def intro!: addrs_stable pointers_stable)

lemma scatters_loop:
  assumes copy: "scatters copy ps offs addrs pointers" and len: "length offs = ps"
    and offs: "\<And>off. off \<in> set offs \<Longrightarrow> off < ps"
  shows "k + n \<le> int_max \<Longrightarrow> acc + n * ps < size_max \<Longrightarrow>
    apart src (src + n * ps) (concat (map (\<lambda>i. addrs m (dst + i * bs)) [0 ..< n])) \<Longrightarrow>
    distinct (concat (map (\<lambda>i. addrs m (dst + i * bs)) [0 ..< n])) \<Longrightarrow>
    set (concat (map (\<lambda>i. addrs m (dst + i * bs)) [0 ..< n])) \<inter> set (concat (map (\<lambda>i. pointers m (dst + i * bs)) [0 ..< n])) = {} \<Longrightarrow>
    \<exists>m'. deserialize_loop copy bs n k acc dst src m = (Inr (acc + n * ps), m')
      \<and> stored m m' (concat (map (\<lambda>i. addrs m (dst + i * bs)) [0 ..< n])) (map (\<lambda>off. m (src + off)) (strided ps offs n))"
proof (induction n arbitrary: k acc dst src m)
  case 0
  then show ?case by (simp add: stored_def)
next
  case (Suc n)
  have up: "concat (map (\<lambda>i. f (dst + i * bs)) [0 ..< Suc n]) = f dst @ concat (map (\<lambda>i. f (dst + bs + i * bs)) [0 ..< n])"
    for f :: "nat \<Rightarrow> addr list"
  proof -
    have "[0 ..< Suc n] = 0 # map Suc [0 ..< n]" by (simp add: map_Suc_upt upt_conv_Cons)
    then show ?thesis by (simp add: o_def add.assoc del: upt_Suc)
  qed
  let ?rest = "concat (map (\<lambda>i. addrs m (dst + bs + i * bs)) [0 ..< n])"
  note ups = up [of "addrs m"] up [of "pointers m"]
  note prems = Suc.prems(3-5) [unfolded ups]
  have "apart src (src + ps) (addrs m dst)"
    by (rule apart_mono [OF prems(1) [unfolded set_append ball_Un, THEN conjunct1]]) simp_all
  moreover have "distinct (addrs m dst)" using prems(2) by simp
  moreover have "set (addrs m dst) \<inter> set (pointers m dst) = {}" using prems(3) unfolding set_append by blast
  ultimately obtain m1 where m1: "copy dst src m = (Inr ps, m1)" "stored m m1 (addrs m dst) (map (\<lambda>off. m (src + off)) offs)"
    using copy unfolding scatters_def len by meson
  have dj: "set (addrs m dst) \<inter> set (pointers m (dst + bs + i * bs)) = {}" if "i < n" for i
    using prems(3) that unfolding disjoint_iff set_append set_concat by force
  have st: "addrs m1 (dst + bs + i * bs) = addrs m (dst + bs + i * bs)" "pointers m1 (dst + bs + i * bs) = pointers m (dst + bs + i * bs)"
    if "i < n" for i
    using stored_stable [OF m1(2) dj [OF that]] by auto
  have eq: "map (\<lambda>i. addrs m1 (dst + bs + i * bs)) [0 ..< n] = map (\<lambda>i. addrs m (dst + bs + i * bs)) [0 ..< n]"
    "map (\<lambda>i. pointers m1 (dst + bs + i * bs)) [0 ..< n] = map (\<lambda>i. pointers m (dst + bs + i * bs)) [0 ..< n]"
    using st by auto
  have r1: "apart (src + ps) (src + ps + n * ps) ?rest"
    by (rule apart_mono [OF prems(1) [unfolded set_append ball_Un, THEN conjunct2]]) simp_all
  have r2: "distinct ?rest" using prems(2) by simp
  have r3: "set ?rest \<inter> set (concat (map (\<lambda>i. pointers m (dst + bs + i * bs)) [0 ..< n])) = {}" using prems(3) unfolding set_append by blast
  have fits: "Suc k + n \<le> int_max" "acc + ps + n * ps < size_max" using Suc.prems(1,2) by simp_all
  obtain m2 where m2: "deserialize_loop copy bs n (Suc k) (acc + ps) (dst + bs) (src + ps) m1 = (Inr (acc + ps + n * ps), m2)"
      "stored m1 m2 ?rest (map (\<lambda>off. m1 (src + ps + off)) (strided ps offs n))"
    using Suc.IH [where k = "Suc k" and acc = "acc + ps" and dst = "dst + bs" and src = "src + ps" and m = m1, unfolded eq, OF fits r1 r2 r3]
    by blast
  have same: "map (\<lambda>off. m1 (src + ps + off)) (strided ps offs n) = map (\<lambda>off. m (src + ps + off)) (strided ps offs n)"
  proof (rule map_cong [OF refl])
    fix off assume "off \<in> set (strided ps offs n)"
    then have "off < n * ps" by (rule strided_bound [OF _ offs])
    then have "src + ps + off \<notin> set (addrs m dst)" using prems(1) [unfolded set_append ball_Un, THEN conjunct1] by fastforce
    then show "m1 (src + ps + off) = m (src + ps + off)" using m1(2) by (simp add: stored_def)
  qed
  have "stored m m2 (addrs m dst @ ?rest) (map (\<lambda>off. m (src + off)) offs @ map (\<lambda>off. m (src + ps + off)) (strided ps offs n))"
    using prems(2) by (intro stored_append [OF m1(2) m2(2) [unfolded same]]) auto
  moreover have "sz_add acc ps = acc + ps" "k \<noteq> int_max" using Suc.prems(1,2) by (simp_all add: sz_add_eq)
  ultimately show ?case unfolding ups using m1(1) m2(1) by (simp add: strided_Suc o_def add.assoc)
qed

end

abbreviation scatters_type :: "dt \<Rightarrow> bool" where
  "scatters_type t \<equiv> scatters (deserialize_copy t) (ser_size t) (ser_offsets t) (data_addrs t) (pointer_addrs t)"

lemma scatters_fields:
  "(\<And>d t. (d, t) \<in> set fs \<Longrightarrow> scatters_type t) \<Longrightarrow>
    acc + length (fields_offsets x (map snd fs)) < size_max \<Longrightarrow>
    apart (src + x) (src + fields_end x (map snd fs)) (concat (map (\<lambda>(d, t). data_addrs t m (dst + d)) fs)) \<Longrightarrow>
    distinct (concat (map (\<lambda>(d, t). data_addrs t m (dst + d)) fs)) \<Longrightarrow>
    set (concat (map (\<lambda>(d, t). data_addrs t m (dst + d)) fs)) \<inter> set (concat (map (\<lambda>(d, t). pointer_addrs t m (dst + d)) fs)) = {} \<Longrightarrow>
    \<exists>m'. run_fields (map2 (\<lambda>(d, t) off. (deserialize_copy t, d, off)) fs (field_places x (map snd fs))) acc dst src m
        = (Inr (acc + length (fields_offsets x (map snd fs))), m')
      \<and> stored m m' (concat (map (\<lambda>(d, t). data_addrs t m (dst + d)) fs)) (map (\<lambda>off. m (src + off)) (fields_offsets x (map snd fs)))"
proof (induction fs arbitrary: x acc m)
  case (Cons f fs)
  obtain d t where f: "f = (d, t)" by fastforce
  let ?x = "round_up (alignment (flat t)) x" and ?ts = "map snd fs"
  let ?e = "fields_end (?x + ser_size t) ?ts" and ?here = "data_addrs t m (dst + d)"
    and ?rest = "\<lambda>m. concat (map (\<lambda>(d, t). data_addrs t m (dst + d)) fs)" and ?ptrs = "\<lambda>m. concat (map (\<lambda>(d, t). pointer_addrs t m (dst + d)) fs)"
  have g: "scatters_type t" using Cons.prems(1) f by auto
  have le: "x \<le> ?x" "?x + ser_size t \<le> ?e" by (simp_all add: round_up_ge fields_end_ge)
  have ap: "apart (src + x) (src + ?e) ?here" "apart (src + x) (src + ?e) (?rest m)"
    using Cons.prems(3) f by (simp_all add: ball_Un)
  have dis: "distinct ?here" "distinct (?rest m)" "set ?here \<inter> set (?rest m) = {}" using Cons.prems(4) f by simp_all
  have ptr: "set ?here \<inter> set (pointer_addrs t m (dst + d)) = {}" "set (?rest m) \<inter> set (?ptrs m) = {}" "set ?here \<inter> set (?ptrs m) = {}"
    using Cons.prems(5) unfolding f by (simp_all only: list.map concat.simps prod.case set_append, blast+)
  have "apart (src + ?x) (src + ?x + ser_size t) ?here" using le by (intro apart_mono [OF ap(1)]) auto
  with g dis(1) ptr(1) obtain m1 where m1: "deserialize_copy t (dst + d) (src + ?x) m = (Inr (length (ser_offsets t)), m1)"
      "stored m m1 ?here (map (\<lambda>off. m (src + ?x + off)) (ser_offsets t))"
    unfolding scatters_def by meson
  have st: "data_addrs u m1 (dst + c) = data_addrs u m (dst + c)" "pointer_addrs u m1 (dst + c) = pointer_addrs u m (dst + c)"
    if "(c, u) \<in> set fs" for c u
  proof -
    have "set (pointer_addrs u m (dst + c)) \<subseteq> set (?ptrs m)" using that by force
    then have "set ?here \<inter> set (pointer_addrs u m (dst + c)) = {}" using ptr(3) by blast
    then show "data_addrs u m1 (dst + c) = data_addrs u m (dst + c)" "pointer_addrs u m1 (dst + c) = pointer_addrs u m (dst + c)"
      by (rule data.stored_stable [OF m1(2)])+
  qed
  have eq: "?rest m1 = ?rest m" "?ptrs m1 = ?ptrs m"
    using st by (auto intro!: arg_cong [where f = concat] map_cong)
  have ap': "apart (src + (?x + ser_size t)) (src + ?e) (?rest m)" using le by (intro apart_mono [OF ap(2)]) auto
  have sz: "sz_add acc (length (ser_offsets t)) = acc + length (ser_offsets t)"
    and fits: "acc + length (ser_offsets t) + length (fields_offsets (?x + ser_size t) ?ts) < size_max"
    using Cons.prems(2) f by (simp_all add: sz_add_eq)
  have g': "scatters_type u" if "(c, u) \<in> set fs" for c u using Cons.prems(1) [of c u] that by simp
  have "\<exists>m2. run_fields (map2 (\<lambda>(d, t) off. (deserialize_copy t, d, off)) fs (field_places (?x + ser_size t) ?ts))
        (acc + length (ser_offsets t)) dst src m1 = (Inr (acc + length (ser_offsets t) + length (fields_offsets (?x + ser_size t) ?ts)), m2)
      \<and> stored m1 m2 (?rest m) (map (\<lambda>off. m1 (src + off)) (fields_offsets (?x + ser_size t) ?ts))"
    by (rule Cons.IH [where acc = "acc + length (ser_offsets t)" and x = "?x + ser_size t" and m = m1, unfolded eq, OF g' fits ap' dis(2) ptr(2)])
  then obtain m2 where m2: "run_fields (map2 (\<lambda>(d, t) off. (deserialize_copy t, d, off)) fs (field_places (?x + ser_size t) ?ts))
        (acc + length (ser_offsets t)) dst src m1 = (Inr (acc + length (ser_offsets t) + length (fields_offsets (?x + ser_size t) ?ts)), m2)"
      "stored m1 m2 (?rest m) (map (\<lambda>off. m1 (src + off)) (fields_offsets (?x + ser_size t) ?ts))" by blast
  have same: "map (\<lambda>off. m1 (src + off)) (fields_offsets (?x + ser_size t) ?ts) = map (\<lambda>off. m (src + off)) (fields_offsets (?x + ser_size t) ?ts)"
  proof (rule map_cong [OF refl])
    fix off assume "off \<in> set (fields_offsets (?x + ser_size t) ?ts)"
    then have "?x + ser_size t \<le> off" "off < ?e" using fields_offsets_bound by blast+
    then have "src + off \<notin> set ?here" using ap(1) le by fastforce
    then show "m1 (src + off) = m (src + off)" using m1(2) by (simp add: stored_def)
  qed
  have "stored m m2 (?here @ ?rest m) (map (\<lambda>off. m (src + ?x + off)) (ser_offsets t) @ map (\<lambda>off. m (src + off)) (fields_offsets (?x + ser_size t) ?ts))"
    by (rule stored_append [OF m1(2) m2(2) [unfolded same] dis(3)])
  then show ?case using m1(1) m2(1) by (simp add: f sz o_def add.assoc)
qed (simp add: stored_def)

lemma scatters_record:
  assumes "\<And>d t. (d, t) \<in> set fs \<Longrightarrow> scatters_type t"
    and "length (fields_offsets 0 (map snd fs)) < size_max" and "fields_end 0 (map snd fs) \<le> n"
    and "\<And>dst src m. copy dst src m = run_fields (map2 (\<lambda>(d, t) off. (deserialize_copy t, d, off)) fs (field_places 0 (map snd fs))) 0 dst src m"
    and "\<And>m p. addrs m p = concat (map (\<lambda>(d, t). data_addrs t m (p + d)) fs)"
    and "\<And>m p. pointers m p = concat (map (\<lambda>(d, t). pointer_addrs t m (p + d)) fs)"
  shows "scatters copy n (fields_offsets 0 (map snd fs)) addrs pointers"
  unfolding scatters_def assms(4,5,6)
proof (intro allI impI)
  fix dst src m
  assume ap: "apart src (src + n) (concat (map (\<lambda>(d, t). data_addrs t m (dst + d)) fs))"
    and "distinct (concat (map (\<lambda>(d, t). data_addrs t m (dst + d)) fs))"
    and "set (concat (map (\<lambda>(d, t). data_addrs t m (dst + d)) fs)) \<inter> set (concat (map (\<lambda>(d, t). pointer_addrs t m (dst + d)) fs)) = {}"
  moreover have "apart (src + 0) (src + fields_end 0 (map snd fs)) (concat (map (\<lambda>(d, t). data_addrs t m (dst + d)) fs))"
    using assms(3) by (intro apart_mono [OF ap]) auto
  moreover have "0 + length (fields_offsets 0 (map snd fs)) < size_max" using assms(2) by simp
  ultimately have "\<exists>m'. run_fields (map2 (\<lambda>(d, t) off. (deserialize_copy t, d, off)) fs (field_places 0 (map snd fs))) 0 dst src m
      = (Inr (0 + length (fields_offsets 0 (map snd fs))), m')
    \<and> stored m m' (concat (map (\<lambda>(d, t). data_addrs t m (dst + d)) fs)) (map (\<lambda>off. m (src + off)) (fields_offsets 0 (map snd fs)))"
    by (intro scatters_fields assms(1))
  then show "\<exists>m'. run_fields (map2 (\<lambda>(d, t) off. (deserialize_copy t, d, off)) fs (field_places 0 (map snd fs))) 0 dst src m
      = (Inr (length (fields_offsets 0 (map snd fs))), m')
    \<and> stored m m' (concat (map (\<lambda>(d, t). data_addrs t m (dst + d)) fs)) (map (\<lambda>off. m (src + off)) (fields_offsets 0 (map snd fs)))"
    by simp
qed

lemma scatters_deserialize: "serializable t \<Longrightarrow> scatters_type t"
proof (induction t rule: serializable.induct)
  case (1 d a)
  then show ?case using stored_memcpy by (auto simp: scatters_def size_query_defs simp del: map_add_upt)
next
  case (2 sub sz st n a)
  then have g: "scatters_type sub" and len: "length (ser_offsets sub) = ser_size sub"
    and fits: "st * buffersize sub < size_max" "0 + n \<le> int_max" "0 + n * ser_size sub < size_max" by auto
  obtain sub' where s: "serialize_type sub = Inr sub'"
    using serialize_type_layout(1) [of sub] "2.prems" by auto
  have len': "length (strided (ser_size sub) (ser_offsets sub) n) = n * ser_size sub"
    using len by (simp add: strided_def length_concat o_def sum_list_triv)
  show ?case unfolding scatters_def
  proof (intro allI impI)
    fix dst src m
    assume "apart src (src + ser_size (Array sub sz st n a)) (data_addrs (Array sub sz st n a) m dst)"
      "distinct (data_addrs (Array sub sz st n a) m dst)"
      "set (data_addrs (Array sub sz st n a) m dst) \<inter> set (pointer_addrs (Array sub sz st n a) m dst) = {}"
    from data.scatters_loop [OF g len packed_offsets_bound(1) fits(2,3) this [unfolded data_addrs.simps pointer_addrs.simps flat.simps packed_size.simps]]
    obtain m' where
      "deserialize_loop (deserialize_copy sub) (buffersize sub) n 0 0 (dst + st * buffersize sub) src m = (Inr (n * ser_size sub), m')"
      "stored m m' (data_addrs (Array sub sz st n a) m dst) (map (\<lambda>off. m (src + off)) (strided (ser_size sub) (ser_offsets sub) n))"
      by auto
    then show "\<exists>m'. deserialize_copy (Array sub sz st n a) dst src m = (Inr (length (ser_offsets (Array sub sz st n a))), m')
        \<and> stored m m' (data_addrs (Array sub sz st n a) m dst) (map (\<lambda>off. m (src + off)) (ser_offsets (Array sub sz st n a)))"
      using s fits(1) len' by (simp add: offsets_Array(1) sz_mul_eq del: packed_offsets.simps data_addrs.simps)
  qed
next
  case (3 ms b a)
  let ?fs = "map (\<lambda>f. (displacement f, mtype f)) ms"
  have ts: "map snd ?fs = map mtype ms" by simp
  have "length (fields_offsets 0 (map snd ?fs)) < size_max" "fields_end 0 (map snd ?fs) \<le> ser_size (Record ms b a)"
    unfolding ts using fields_fit(1) [OF "3.prems"] by blast+
  moreover have "scatters_type t" if "(d, t) \<in> set ?fs" for d t using that 3 by auto
  ultimately have "scatters (deserialize_copy (Record ms b a)) (ser_size (Record ms b a))
      (fields_offsets 0 (map snd ?fs)) (data_addrs (Record ms b a)) (pointer_addrs (Record ms b a))"
    by (intro scatters_record) (auto simp: field_offsets_eq(1) [OF "3.prems"] field_loops_Record(2) o_def)
  moreover have "fields_offsets 0 (map snd ?fs) = ser_offsets (Record ms b a)" by (simp add: o_def)
  ultimately show ?case by (simp only:)
next
  case (4 es b a)
  let ?fs = "map (\<lambda>f. (offset f, etype f)) es"
  have ts: "map snd ?fs = map etype es" by simp
  have "length (fields_offsets 0 (map snd ?fs)) < size_max" "fields_end 0 (map snd ?fs) \<le> ser_size (Tuple es b a)"
    unfolding ts using fields_fit(2) [OF "4.prems"] by blast+
  moreover have "scatters_type t" if "(d, t) \<in> set ?fs" for d t using that 4 by auto
  ultimately have "scatters (deserialize_copy (Tuple es b a)) (ser_size (Tuple es b a))
      (fields_offsets 0 (map snd ?fs)) (data_addrs (Tuple es b a)) (pointer_addrs (Tuple es b a))"
    by (intro scatters_record) (auto simp: field_offsets_eq(2) [OF "4.prems"] field_loops_Tuple(2) o_def)
  moreover have "fields_offsets 0 (map snd ?fs) = ser_offsets (Tuple es b a)" by (simp add: o_def)
  ultimately show ?case by (simp only:)
next
  case (5 sub c d a)
  then have g: "scatters_type sub" by simp
  have "\<exists>m'. deserialize_copy (Pointer sub c d a) dst src m = (Inr (length (ser_offsets sub)), m')
      \<and> stored m m' (data_addrs (Pointer sub c d a) m dst) (map (\<lambda>off. m (src + off)) (ser_offsets sub))"
    if "apart src (src + ser_size sub) (data_addrs (Pointer sub c d a) m dst)" "distinct (data_addrs (Pointer sub c d a) m dst)"
      "set (data_addrs (Pointer sub c d a) m dst) \<inter> set (pointer_addrs (Pointer sub c d a) m dst) = {}"
    for dst src m
  proof -
    have "set (data_addrs sub m (read_uint m dst 8)) \<inter> set (pointer_addrs sub m (read_uint m dst 8)) = {}"
      using that(3) unfolding data_addrs.simps pointer_addrs.simps set_append by blast
    with g that(1,2) show ?thesis unfolding scatters_def deserialize_copy.simps data_addrs.simps by meson
  qed
  then show ?case unfolding scatters_def flat.simps by blast
qed

section \<open>Properties\<close>

text \<open>
  (C9) The copy of \<open>share_serialized\<close>: for a serializable type, an aligned buffer and a value away from it, the serialized type exists,
  the number of bytes copied is its data size, the value read from the buffer with the serialized type consists of the data
  that the original reaches through its pointers, and nothing outside the buffer changes.
\<close>

theorem serialize_copy_correct:
  assumes "serializable t" "serialize_type t = Inr t'" "alignment t' dvd dst"
    and "apart dst (dst + buffersize t') (data_addrs t m src @ pointer_addrs t m src)"
  shows "\<exists>m'. serialize_copy t dst src m = (Inr (datasize t'), m') \<and> read_data t' m' dst = map m (data_addrs t m src)
    \<and> (\<forall>a. a < dst \<or> dst + buffersize t' \<le> a \<longrightarrow> m' a = m a)"
proof -
  have t': "serialized_as t t'" using serialize_type_layout(1) [OF assms(1)] assms(2) by auto
  with assms(3,4) have "alignment (flat t) dvd dst" "apart dst (dst + ser_size t) (data_addrs t m src @ pointer_addrs t m src)"
    by (simp_all add: serialized_as_def)
  with gathers_serialize [OF assms(1)] obtain m' where m': "serialize_copy t dst src m = (Inr (length (ser_offsets t)), m')"
      "copied m m' dst (dst + ser_size t) (map ((+) dst) (ser_offsets t)) (data_addrs t m src)"
    unfolding gathers_def by meson
  have "read_data t' m' dst = map m (data_addrs t m src)"
    using t' m'(2) by (simp add: read_data_def serialized_as_def copied_def o_def)
  with m' t' show ?thesis by (auto simp: serialized_as_def copied_def)
qed


section \<open>Examples\<close>

text \<open>A count and a pointer to two shorts: the record at 16 points to 200, the one at 64 to 240.\<close>

definition sample_linked :: dt where
  "sample_linked = Record [Member 0 (sample_scalar 4) ''n'', Member 8 (Pointer (Array (sample_scalar 2) 2 0 2 []) None None []) ''p''] 16 []"

definition linked_memory :: mem where
  "linked_memory a = (if a = 24 then 200 else if a = 72 then 240 else if 24 < a \<and> a < 32 \<or> 72 < a \<and> a < 80 then 0 else of_nat a)"

definition sample_serialized :: dt where
  "sample_serialized = Record [Member 0 (sample_scalar 4) ''n'', Member 4 (Array (sample_scalar 2) 2 0 2 []) ''p''] 8 []"

lemma sample_scalar_serialized [simp]:
  "serialize_type (sample_scalar n) = Inr (sample_scalar n)" "buffersize (sample_scalar n) = n"
  by (simp_all add: sample_scalar_def size_query_defs)

lemma Record_serialize_Cons:
  assumes "serialize_type t = Inr t'" "alignment t' = a" "buffersize t' = k" "serialize_spacing a off = Inr s" "sz_add off s = off'"
    and "sz_add b s = b'" "sz_add off' k = e" "sz_add b' k = e'" "Record_serialize e (max al a) e' ms = Inr (ms', r)"
  shows "Record_serialize off al b (Member d t n # ms) = Inr (Member off' t' n # ms', r)"
  using assms by simp

lemma sample_serialized_type: "serialize_type sample_linked = Inr sample_serialized"
proof -
  let ?arr = "Array (sample_scalar 2) 2 0 2 []"
  have arr: "serialize_type (Pointer ?arr None None []) = Inr ?arr" "alignment ?arr = 2" "buffersize ?arr = 4"
    by (simp_all add: Array_make_def Array_alignment_def Array_buffersize_def sz_mul_def)
  have last: "Record_serialize 4 4 4 [Member 8 (Pointer ?arr None None []) ''p''] = Inr ([Member 4 ?arr ''p''], 8, 4, 8)"
    by (rule Record_serialize_Cons [where s = 0 and b' = 4 and e = 8 and e' = 8, OF arr]) (simp_all add: serialize_spacing_def sz_add_def)
  have "Record_serialize 0 0 0 [Member 0 (sample_scalar 4) ''n'', Member 8 (Pointer ?arr None None []) ''p'']
      = Inr ([Member 0 (sample_scalar 4) ''n'', Member 4 ?arr ''p''], 8, 4, 8)"
    by (rule Record_serialize_Cons [where k = 4 and a = 4 and s = 0 and b' = 0 and e = 4 and e' = 4])
      (simp_all add: last serialize_spacing_def sz_add_def del: Record_serialize.simps)
  then show ?thesis
    by (simp add: sample_linked_def sample_serialized_def serialize_spacing_def sz_add_def del: Record_serialize.simps)
qed

lemma sample_linked_facts:
  "serializable sample_linked" "alignment sample_serialized = 4" "buffersize sample_serialized = 8" "datasize sample_serialized = 8"
  by (simp_all add: sample_linked_def sample_serialized_def sample_scalar_def size_query_defs Record_alignment_def Record_datasize_def
      round_up_def ispow2_def sz_add_def sz_mul_def upt_conv_Cons)

lemma read_uint_0: "(\<And>i. i < n \<Longrightarrow> m (p + i) = 0) \<Longrightarrow> read_uint m p n = 0"
proof (induction n arbitrary: p)
  case (Suc n)
  have "read_uint m (Suc p) n = 0" using Suc.prems [of "Suc _"] by (intro Suc.IH) simp
  then show ?case using Suc.prems [of 0] by simp
qed simp

lemma linked_pointers: "read_uint linked_memory 24 8 = 200" "read_uint linked_memory 72 8 = 240"
proof -
  have "read_uint linked_memory 25 7 = 0" "read_uint linked_memory 73 7 = 0"
    by (auto intro!: read_uint_0 simp: linked_memory_def)
  moreover have "read_uint m p 8 = unat (m p) + 256 * read_uint m (Suc p) 7" for m p
    using read_uint.simps(2) [of m p 7] by (simp del: read_uint.simps)
  ultimately show "read_uint linked_memory 24 8 = 200" "read_uint linked_memory 72 8 = 240" by (simp_all add: linked_memory_def)
qed

lemma sample_linked_addrs:
  "data_addrs sample_linked linked_memory 16 = [16, 17, 18, 19, 200, 201, 202, 203]"
  "pointer_addrs sample_linked linked_memory 16 = [24, 25, 26, 27, 28, 29, 30, 31]"
  "data_addrs sample_linked linked_memory 64 = [64, 65, 66, 67, 240, 241, 242, 243]"
  "pointer_addrs sample_linked linked_memory 64 = [72, 73, 74, 75, 76, 77, 78, 79]"
  by (simp_all add: sample_linked_def linked_pointers sample_scalar_def size_query_defs upt_conv_Cons)

lemma sample_linked_data: "map linked_memory (data_addrs sample_linked linked_memory 16) = [16, 17, 18, 19, 200, 201, 202, 203]"
  by (simp add: sample_linked_addrs) (simp add: linked_memory_def)

theorem serialize_copy_correct_witness:
  "\<exists>m'. serialize_copy sample_linked 128 16 linked_memory = (Inr 8, m')
    \<and> read_data sample_serialized m' 128 = [16, 17, 18, 19, 200, 201, 202, 203]"
  using serialize_copy_correct [OF sample_linked_facts(1) sample_serialized_type, of 128 linked_memory 16]
  unfolding sample_linked_data by (auto simp: sample_linked_facts sample_linked_addrs)


text \<open>
  The loops over the elements of an array advance by the number of bytes copied, which does not count the padding of the elements: the
  second of two records of a character and an integer overwrites a byte of the first. The number of bytes is the expected one.
\<close>

definition sample_char_int :: dt where
  "sample_char_int = Record [Member 0 (sample_scalar 1) ''c'', Member 4 (sample_scalar 4) ''i''] 8 []"

definition sample_char_int_pair :: dt where
  "sample_char_int_pair = Array sample_char_int 2 0 2 []"

lemma sample_char_int_type: "serialize_type sample_char_int = Inr sample_char_int"
proof -
  have last: "Record_serialize 1 1 1 [Member 4 (sample_scalar 4) ''i''] = Inr ([Member 4 (sample_scalar 4) ''i''], 8, 4, 8)"
    by (rule Record_serialize_Cons [where k = 4 and a = 4 and s = 3 and b' = 4 and e = 8 and e' = 8]) (simp_all add: serialize_spacing_def sz_add_def)
  have "Record_serialize 0 0 0 [Member 0 (sample_scalar 1) ''c'', Member 4 (sample_scalar 4) ''i'']
      = Inr ([Member 0 (sample_scalar 1) ''c'', Member 4 (sample_scalar 4) ''i''], 8, 4, 8)"
    by (rule Record_serialize_Cons [where k = 1 and a = 1 and s = 0 and b' = 0 and e = 1 and e' = 1])
      (simp_all add: last [unfolded One_nat_def] serialize_spacing_def sz_add_def del: Record_serialize.simps)
  then show ?thesis
    by (simp add: sample_char_int_def serialize_spacing_def sz_add_def del: Record_serialize.simps)
qed

lemma sample_char_int_layout: "alignment sample_char_int = 4" "buffersize sample_char_int = 8" "datasize sample_char_int = 5"
  by (simp_all add: sample_char_int_def size_query_defs Record_alignment_def Record_datasize_def sz_add_def)

lemma sample_char_int_copy: "serialize_copy sample_char_int dst src m = (Inr 5, memcpy (dst + 4) (src + 4) 4 (memcpy dst src 1 m))"
  using sample_char_int_type unfolding sample_char_int_def
  by (simp add: field_offsets_def sz_add_def del: serialize_type.simps) (simp add: sample_scalar_def size_query_defs)

lemma serialize_loop_2:
  "serialize_loop copy bs 2 acc dst src = sx_bind (copy dst src) (\<lambda>n. sx_bind (copy (dst + n) (src + bs)) (\<lambda>k. sx_return (sz_add (sz_add acc n) k)))"
  by (simp add: numeral_2_eq_2)

lemma padded_elements_overlap:
  "serialize_type sample_char_int_pair = Inr sample_char_int_pair \<and> data_offsets sample_char_int_pair = [0, 4, 5, 6, 7, 8, 12, 13, 14, 15]
    \<and> (\<exists>m'. serialize_copy sample_char_int_pair 64 16 sample_memory = (Inr (datasize sample_char_int_pair), m')
      \<and> map m' [68, 69, 70, 71] = [20, 24, 22, 23] \<and> m' 72 \<noteq> 24)"
proof -
  have "data_offsets sample_char_int_pair = [0, 4, 5, 6, 7, 8, 12, 13, 14, 15]" by code_simp
  moreover have "serialize_type sample_char_int_pair = Inr sample_char_int_pair"
    by (simp add: sample_char_int_pair_def sample_char_int_type Array_make_def)
  moreover have "serialize_copy sample_char_int_pair 64 16 sample_memory =
      (Inr 10, memcpy 73 28 4 (memcpy 69 24 1 (memcpy 68 20 4 (memcpy 64 16 1 sample_memory))))"
    by (simp add: sample_char_int_pair_def sample_char_int_type sample_char_int_layout sample_char_int_copy std_align_def ispow2_def sz_mul_def sz_add_def
        serialize_loop_2)
  ultimately show ?thesis
    by (simp add: sample_char_int_pair_def sample_char_int_layout size_query_defs sz_mul_def memcpy_def sample_memory_def)
qed

end
