(* ===== verification/Set_Value_Plugin.thy ===== *)
theory Set_Value_Plugin
  imports Global_Context
begin

text \<open>
  The plugin \<open>set_value\<close>: triggers made of a list of operations, which set, share, expose or release data, call events or
  configure the logger, at the initialisation, on events, on data and at the finalisation.
\<close>

section \<open>Operations\<close>

text \<open>
  One constructor per subclass of \<open>Operation\<close>, with its members. The names that a \<open>Share_operation\<close> notes after sharing are
  never read and are left out.
\<close>

datatype operation =
    Set_operation "(string \<times> pc_tree) list"
  | Share_operation "(string \<times> pc_tree) list"
  | Expose_operation "(string \<times> pc_tree) list"
  | Event_operation string
  | Release_operation "string list"
  | Logger_operation expression string bool

text \<open>The names and values of the first entries of the maps in a list.\<close>

definition list_of_values :: "pc_tree \<Rightarrow> (string \<times> pc_tree) list res" where
  "list_of_values t =
     rbind (len t) (\<lambda>list_size.
     res_list (\<lambda>i.
       let value_element = PC_get t [Idx (int i)] in
       rbind (tree_to_string (PC_get value_element [Map_key 0])) (\<lambda>data_name.
       Inr (data_name, PC_get value_element [Map_val 0]))) [0 ..< nat list_size])"

definition list_of_names :: "pc_tree \<Rightarrow> string list res" where
  "list_of_names t =
     rbind (len t) (\<lambda>list_size. res_list (\<lambda>i. tree_to_string (PC_get t [Idx (int i)])) [0 ..< nat list_size])"

definition Logger_operation_ctor :: "'x env \<Rightarrow> nat \<Rightarrow> pc_tree \<Rightarrow> ('x, operation) world_op" where
  "Logger_operation_ctor env ctx logger_node =
     (let level_node = PC_get logger_node [Key ''level'']; pattern_node = PC_get logger_node [Key ''pattern''];
          evaluate_node = PC_get logger_node [Key ''evaluate''] in
      sx_bind (if PC_status level_node then sx_return None
        else sx_bind (sx_lift (Impl_parse_tree level_node)) (\<lambda>e. sx_return (Some e))) (\<lambda>m_level.
      sx_bind (if PC_status pattern_node then sx_return [] else sx_lift (tree_to_string pattern_node)) (\<lambda>m_pattern.
      sx_bind (if PC_status evaluate_node then sx_return False
        else sx_bind (sx_lift (Impl_parse_tree evaluate_node)) (\<lambda>e.
          sx_bind (to_long env (Some e) ctx) (\<lambda>v. sx_return (v \<noteq> 0)))) (\<lambda>m_evaluate.
      sx_return (Logger_operation m_level m_pattern m_evaluate)))))"

section \<open>Triggers\<close>

definition trigger_operation :: "'x env \<Rightarrow> nat \<Rightarrow> pc_tree \<Rightarrow> nat \<Rightarrow> ('x, operation) world_op" where
  "trigger_operation env ctx operation_list_node i =
     (let value_map = PC_get operation_list_node [Idx (int i)]; operation_value = PC_get value_map [Map_val 0] in
      sx_bind (sx_lift (tree_to_string (PC_get value_map [Map_key 0]))) (\<lambda>operation.
      if operation = ''set'' then sx_lift (rbind (list_of_values operation_value) (\<lambda>vs. Inr (Set_operation vs)))
      else if operation = ''share'' then sx_lift (rbind (list_of_values operation_value) (\<lambda>vs. Inr (Share_operation vs)))
      else if operation = ''expose'' then sx_lift (rbind (list_of_values operation_value) (\<lambda>vs. Inr (Expose_operation vs)))
      else if operation = ''event'' then sx_lift (rbind (tree_to_string operation_value) (\<lambda>e. Inr (Event_operation e)))
      else if operation = ''release'' then sx_lift (rbind (list_of_names operation_value) (\<lambda>ns. Inr (Release_operation ns)))
      else if operation = ''logger'' then Logger_operation_ctor env ctx operation_value
      else sx_fail (Throw (spectree_error (PC_get value_map [Map_key 0]) (''Unknown operation: '' @ operation)))))"

fun trigger_operations :: "'x env \<Rightarrow> nat \<Rightarrow> pc_tree \<Rightarrow> nat list \<Rightarrow> ('x, operation list) world_op" where
  "trigger_operations env ctx node [] = sx_return []"
| "trigger_operations env ctx node (i # is) =
     sx_bind (trigger_operation env ctx node i) (\<lambda>op.
     sx_bind (trigger_operations env ctx node is) (\<lambda>ops. sx_return (op # ops)))"

definition Trigger :: "'x env \<Rightarrow> nat \<Rightarrow> pc_tree \<Rightarrow> ('x, operation list) world_op" where
  "Trigger env ctx operation_list_node =
     sx_bind (sx_lift (is_list operation_list_node)) (\<lambda>b.
     if \<not> b then sx_fail (Throw (spectree_error operation_list_node ''Operations must be defined as a list''))
     else
       sx_bind (sx_lift (len operation_list_node)) (\<lambda>operations_count.
       trigger_operations env ctx operation_list_node [0 ..< nat operations_count]))"

section \<open>Execution\<close>

text \<open>The reference that holds the value is taken before write access is asked for.\<close>

definition set_data :: "'x env \<Rightarrow> nat \<Rightarrow> string \<times> pc_tree \<Rightarrow> ('x, unit) world_op" where
  "set_data env ctx data_to_set =
     sx_bind (desc ctx (fst data_to_set)) (\<lambda>d.
     with_ref (desc_ref env ctx d) (\<lambda>existing_ref.
       sx_bind (sx_lift (Impl_parse_tree (snd data_to_set))) (\<lambda>e.
       sx_bind (sx_get (ref_type existing_ref)) (\<lambda>t.
       with_ref (ref_as True False (to_ref_typed env (Some e) ctx t)) (\<lambda>value_ref.
         with_ref (copy_ref False True existing_ref) (\<lambda>existing_ref_w.
           sx_bind (is_null existing_ref_w) (\<lambda>null.
           if null then sx_fail (Throw (Permission_error (''Cannot get write access for `'' @ fst data_to_set @ [CHR 0x27] @ '' to set values'')))
           else
             sx_bind (sx_get (\<lambda>s. (buffersize (ref_type existing_ref_w s), buffersize (ref_type value_ref s)))) (\<lambda>(n, k).
             if n \<noteq> k then
               sx_fail (Throw (Value_error (''Cannot set value to exisitng reference. Existing buffersize = '' @ fmt_nat n
                 @ '', value buffersize = '' @ fmt_nat k)))
             else
               sx_bind (ref_get existing_ref_w) (\<lambda>to.
               sx_bind (ref_get value_ref) (\<lambda>from.
               on_memory (sx_modify (memcpy to from n))))))))))))"

definition share_value :: "'x env \<Rightarrow> nat \<Rightarrow> string \<times> pc_tree \<Rightarrow> ('x, unit) world_op" where
  "share_value env ctx data_to_share =
     sx_bind (desc ctx (fst data_to_share)) (\<lambda>d.
     sx_bind (sx_lift (Impl_parse_tree (snd data_to_share))) (\<lambda>e.
     sx_bind (default_type ctx d) (\<lambda>type.
     sx_bind (evaluate env type ctx) (\<lambda>t.
     with_ref (to_ref_typed env (Some e) ctx t) (\<lambda>value_ref.
       sx_bind (with_ref (copy_ref False False value_ref) (\<lambda>r. share env ctx d r False False)) (\<lambda>_. sx_return ()))))))"

definition release_value :: "'x env \<Rightarrow> nat \<Rightarrow> string \<Rightarrow> ('x, unit) world_op" where
  "release_value env ctx data_to_release = sx_bind (desc ctx data_to_release) (\<lambda>d. desc_release env ctx d)"

text \<open>
  The value is released while the reference to it is alive; its destruction comes after.
\<close>

definition expose_value :: "'x env \<Rightarrow> nat \<Rightarrow> string \<times> pc_tree \<Rightarrow> ('x, unit) world_op" where
  "expose_value env ctx data_to_expose =
     sx_bind (desc ctx (fst data_to_expose)) (\<lambda>d.
     sx_bind (sx_lift (Impl_parse_tree (snd data_to_expose))) (\<lambda>e.
     sx_bind (default_type ctx d) (\<lambda>type.
     sx_bind (evaluate env type ctx) (\<lambda>t.
     with_ref (to_ref_typed env (Some e) ctx t) (\<lambda>value_ref.
       sx_bind (with_ref (copy_ref False False value_ref) (\<lambda>r. share env ctx d r False False)) (\<lambda>_.
       release_value env ctx (fst data_to_expose)))))))"

text \<open>The logger of the plugin is \<open>logger\<close>; the logger of the core is the one of the context.\<close>

definition Logger_execute :: "'x env \<Rightarrow> nat \<Rightarrow> nat \<Rightarrow> expression \<Rightarrow> string \<Rightarrow> bool \<Rightarrow> ('x, unit) world_op" where
  "Logger_execute env ctx logger m_level m_pattern m_evaluate =
     sx_bind (if m_level = None then sx_return ()
       else sx_bind (to_string env m_level ctx) (\<lambda>level_str.
         case map_of level_map level_str of
           Some level \<Rightarrow> sx_modify (\<lambda>s. upd_logger (m_logger (the_context ctx s)) (\<lambda>l. l\<lparr>l_level := level\<rparr>) s)
         | None \<Rightarrow> sx_return ())) (\<lambda>_.
     sx_bind (if m_pattern = [] then sx_return ()
       else sx_bind (global_pattern env logger m_pattern) (\<lambda>_. evaluate_global_pattern env logger ctx)) (\<lambda>_.
     if m_evaluate then evaluate_global_pattern env logger ctx else sx_return ()))"

fun execute :: "'x env \<Rightarrow> nat \<Rightarrow> nat \<Rightarrow> operation \<Rightarrow> ('x, unit) world_op" where
  "execute env ctx logger (Set_operation vs) = sx_each (set_data env ctx) vs"
| "execute env ctx logger (Share_operation vs) = sx_each (share_value env ctx) vs"
| "execute env ctx logger (Expose_operation vs) = sx_each (expose_value env ctx) vs"
| "execute env ctx logger (Event_operation e) = event env ctx e"
| "execute env ctx logger (Release_operation ns) = sx_each (release_value env ctx) ns"
| "execute env ctx logger (Logger_operation l p e) = Logger_execute env ctx logger l p e"

definition Trigger_execute :: "'x env \<Rightarrow> nat \<Rightarrow> nat \<Rightarrow> operation list \<Rightarrow> ('x, unit) world_op" where
  "Trigger_execute env ctx logger ops = sx_each (execute env ctx logger) ops"

section \<open>The plugin\<close>

text \<open>
  The members of the plugin extend the state. The function registered for the trigger at a position of the list has the
  identifier that \<open>cb\<close> gives to the position; it executes the trigger there.
\<close>

record set_value_world = world +
  m_triggers_list :: "operation list list"
  m_trigger_on_finalize :: "operation list list"

type_synonym ('x, 'a) set_value_op = "('x set_value_world_scheme, exn, 'a) sx"
type_synonym 'x set_value_env = "'x set_value_world_ext env"

definition execute_trigger :: "'x set_value_env \<Rightarrow> nat \<Rightarrow> nat \<Rightarrow> nat \<Rightarrow> ('x, unit) set_value_op" where
  "execute_trigger env ctx logger k =
     sx_bind (sx_get m_triggers_list) (\<lambda>ts.
     if k < length ts then Trigger_execute env ctx logger (ts ! k) else sx_fail UB)"

text \<open>Adds a trigger; its position is returned.\<close>

definition add_trigger :: "'x set_value_env \<Rightarrow> nat \<Rightarrow> pc_tree \<Rightarrow> ('x, nat) set_value_op" where
  "add_trigger env ctx node =
     sx_bind (Trigger env ctx node) (\<lambda>ops.
     sx_bind (sx_get (\<lambda>s. length (m_triggers_list s))) (\<lambda>k.
     sx_bind (sx_modify (\<lambda>s. s\<lparr>m_triggers_list := m_triggers_list s @ [ops]\<rparr>)) (\<lambda>_. sx_return k)))"

definition load_triggers ::
    "'x set_value_env \<Rightarrow> nat \<Rightarrow> (nat \<Rightarrow> string \<Rightarrow> ('x, nat) set_value_op) \<Rightarrow> (nat \<Rightarrow> nat) \<Rightarrow> pc_tree \<Rightarrow> ('x, unit) set_value_op" where
  "load_triggers env ctx register cb node =
     (if PC_status node then sx_return ()
      else
        sx_bind (sx_lift (len node)) (\<lambda>map_len.
        sx_each (\<lambda>i.
          sx_bind (sx_lift (tree_to_string (PC_get node [Map_key (int i)]))) (\<lambda>name.
          sx_bind (add_trigger env ctx (PC_get node [Map_val (int i)])) (\<lambda>k.
          sx_bind (register (cb k) name) (\<lambda>_. sx_return ())))) [0 ..< nat map_len]))"

definition set_value_load_config :: "'x set_value_env \<Rightarrow> nat \<Rightarrow> nat \<Rightarrow> (nat \<Rightarrow> nat) \<Rightarrow> pc_tree \<Rightarrow> ('x, unit) set_value_op" where
  "set_value_load_config env ctx logger cb config =
     (let on_init_node = PC_get config [Key ''on_init'']; on_finalize = PC_get config [Key ''on_finalize''] in
      sx_bind (if PC_status on_init_node then sx_return ()
        else sx_bind (add_trigger env ctx on_init_node) (\<lambda>k. execute_trigger env ctx logger k)) (\<lambda>_.
      sx_bind (load_triggers env ctx (on_event ctx) cb (PC_get config [Key ''on_event''])) (\<lambda>_.
      sx_bind (load_triggers env ctx (on_data ctx) cb (PC_get config [Key ''on_data''])) (\<lambda>_.
      if PC_status on_finalize then sx_return ()
      else sx_bind (Trigger env ctx on_finalize) (\<lambda>ops.
        sx_modify (\<lambda>s. s\<lparr>m_trigger_on_finalize := m_trigger_on_finalize s @ [ops]\<rparr>))))))"

text \<open>
  The constructor registers the function \<open>init_cb\<close>, which loads the configuration; an exception in the destructor ends the process.
\<close>

definition set_value_ctor :: "nat \<Rightarrow> nat \<Rightarrow> ('x, unit) set_value_op" where
  "set_value_ctor ctx init_cb = sx_bind (on_init ctx init_cb) (\<lambda>_. sx_return ())"

definition set_value_dtor :: "'x set_value_env \<Rightarrow> nat \<Rightarrow> nat \<Rightarrow> ('x, unit) set_value_op" where
  "set_value_dtor env ctx logger =
     sx_bind (sx_get m_trigger_on_finalize) (\<lambda>ts. sx_noexcept (sx_each (Trigger_execute env ctx logger) ts))"

end
