(* ===== verification/Stack_Balance.thy ===== *)
theory Stack_Balance
  imports Descriptor_Correct "HOL-Library.Multiset"
begin

text \<open>
  Sequences of shares and releases: how far the stacks of the descriptors have grown since a state, as the multiset of the names that
  were shared and not released. A metadata keeps its height but not its reference.
\<close>

definition grown :: "nat \<Rightarrow> string multiset \<Rightarrow> 'x world_scheme \<Rightarrow> 'x world_scheme \<Rightarrow> bool" where
  "grown ctx M s s' \<longleftrightarrow> length (contexts s') = length (contexts s) \<and> (\<forall>c n.
     (known c n s \<longrightarrow> known c n s') \<and> is_metadata c n s' = is_metadata c n s
     \<and> length (stack c n s') = length (stack c n s) + (if c = ctx then count M n else 0)
     \<and> (\<not> is_metadata c n s \<longrightarrow> (\<exists>qs. stack c n s' = qs @ stack c n s)))"

lemma grown_refl [simp]: "grown ctx {#} s s"
  by (simp add: grown_def)

lemma grown_same:
  assumes "grown ctx M s s1" "same_stacks s1 s2"
  shows "grown ctx M s s2"
  using assms by (auto simp: grown_def same_stacks_def)

lemma known_same: "known c n s1 \<Longrightarrow> same_stacks s1 s2 \<Longrightarrow> known c n s2"
  by (simp add: same_stacks_def)

text \<open>The invariant: the growth, and descriptors that exist.\<close>

definition shared :: "nat \<Rightarrow> string set \<Rightarrow> string multiset \<Rightarrow> 'x world_scheme \<Rightarrow> 'x world_scheme \<Rightarrow> bool" where
  "shared ctx ds M s s' \<longleftrightarrow> grown ctx M s s' \<and> ctx < length (contexts s) \<and> (\<forall>d \<in> ds. known ctx d s')"

lemma shared_same: "shared ctx ds M s s1 \<Longrightarrow> same_stacks s1 s2 \<Longrightarrow> shared ctx ds M s s2"
  by (auto simp: shared_def intro: grown_same known_same)

lemma hoare_same_stacks:
  assumes "kept same_stacks f" "\<And>s s'. same_stacks s s' \<Longrightarrow> P s \<Longrightarrow> P s'"
  shows "sx_hoare P f (\<lambda>_. P) P"
  unfolding sx_hoare_def
proof (intro allI impI)
  fix s assume "P s"
  then have "P (snd (f s))" using assms unfolding kept_def by blast
  then show "case f s of (Inr _, s') \<Rightarrow> P s' | (Inl (Throw e), s') \<Rightarrow> P s' | (Inl UB, s') \<Rightarrow> True"
    by (auto split: prod.splits sum.splits fault.splits)
qed

lemma hoare_shared_kept:
  assumes "kept same_stacks f"
  shows "sx_hoare (shared ctx ds M s0) f (\<lambda>_. shared ctx ds M s0) (shared ctx ds M s0)"
  by (rule hoare_same_stacks [OF assms]) (rule shared_same)

lemma hoare_shared_desc:
  "sx_hoare (shared ctx ds M s0) (desc ctx name) (\<lambda>d s. d = c_str name \<and> shared ctx (insert (c_str name) ds) M s0 s) E"
  unfolding sx_hoare_def
proof (intro allI impI)
  fix s assume s: "shared ctx ds M s0 s"
  obtain s' where s': "desc ctx name s = (Inr (c_str name), s')" by (simp add: desc_def Let_def sx_bind_def)
  have "shared ctx ds M s0 s'" using shared_same [OF s stacks.K_desc [of s ctx name]] s' by simp
  moreover have "known ctx (c_str name) s'"
  proof -
    have "ctx < length (contexts s)" using s by (simp add: shared_def grown_def)
    moreover have "length (contexts s') = length (contexts s)" using stacks.K_desc [of s ctx name] s' by (simp add: same_stacks_def)
    ultimately show ?thesis using find_desc_desc [of ctx "c_str name" ctx name s] s' by (auto simp: known_def)
  qed
  ultimately show "case desc ctx name s of (Inr d, s') \<Rightarrow> d = c_str name \<and> shared ctx (insert (c_str name) ds) M s0 s'
      | (Inl (Throw e), s') \<Rightarrow> E s' | (Inl UB, s') \<Rightarrow> True"
    using s' by (simp add: shared_def)
qed

lemma stacks_but_grown:
  assumes s: "shared ctx ds M s0 s" and d: "d \<in> ds" and but: "stacks_but ctx d rs s s'"
    and len: "length rs = length (stack ctx d s0) + count N d" and other: "\<And>n. n \<noteq> d \<Longrightarrow> count N n = count M n"
    and rs: "\<not> is_metadata ctx d s0 \<Longrightarrow> \<exists>qs. rs = qs @ stack ctx d s0"
  shows "shared ctx ds N s0 s'"
proof -
  have k: "known ctx d s" using s d by (simp add: shared_def)
  have st: "stack c n s' = (if c = ctx \<and> n = d then rs else stack c n s)" "is_metadata c n s' = is_metadata c n s"
    "known c n s \<longrightarrow> known c n s'" "length (contexts s') = length (contexts s)" for c n
    using but k by (auto simp: stacks_but_def same_stacks_def)
  have g: "grown ctx M s0 s" using s by (simp add: shared_def)
  have "length (stack c n s') = length (stack c n s0) + (if c = ctx then count N n else 0)" for c n
    using g st(1) [of c n] len other [of n] by (auto simp: grown_def)
  moreover have "\<exists>qs. stack c n s' = qs @ stack c n s0" if "\<not> is_metadata c n s0" for c n
    using g st(1) [of c n] rs that by (auto simp: grown_def)
  ultimately have "grown ctx N s0 s'" using g st(2-4) by (simp add: grown_def)
  then show ?thesis using s st(3) by (auto simp: shared_def)
qed

lemma hoare_shared_share:
  assumes env: "callbacks_keep same_stacks env" and d: "d \<in> ds"
  shows "sx_hoare (shared ctx ds M s0) (share env ctx d r R W) (\<lambda>_. shared ctx ds (add_mset d M) s0) (shared ctx ds M s0)"
proof (rule hoare_state)
  fix s assume s: "shared ctx ds M s0 s"
  then have k: "known ctx d s" and g: "grown ctx M s0 s" using d by (simp_all add: shared_def)
  have "shared ctx ds (add_mset d M) s0 s'" if "stacks_but ctx d (q # stack ctx d s) s s'" for q s'
    by (rule stacks_but_grown [OF s d that]) (use g in \<open>auto simp: grown_def\<close>, metis append_Cons)
  moreover have "shared ctx ds M s0 s'" if "stacks_but ctx d (stack ctx d s) s s'" for s'
    using that shared_same [OF s] by (simp add: stacks_but_same [OF k])
  ultimately show "sx_hoare (\<lambda>s'. s' = s) (share env ctx d r R W) (\<lambda>_. shared ctx ds (add_mset d M) s0) (shared ctx ds M s0)"
    by (intro hoare_conseq [OF hoare_share [OF env k, of "stack ctx d s" r R W]])
      (auto simp: stacks_but_same [OF k] stacks.K_refl)
qed

lemma hoare_shared_release:
  assumes env: "callbacks_keep same_stacks env" and d: "d \<in> ds"
  shows "sx_hoare (shared ctx ds (add_mset d M) s0) (desc_release env ctx d) (\<lambda>_. shared ctx ds M s0) (shared ctx ds (add_mset d M) s0)"
proof (rule hoare_state)
  fix s assume s: "shared ctx ds (add_mset d M) s0 s"
  then have k: "known ctx d s" and g: "grown ctx (add_mset d M) s0 s" using d by (simp_all add: shared_def)
  have len: "length (stack ctx d s) = Suc (length (stack ctx d s0) + count M d)" and md: "is_metadata ctx d s = is_metadata ctx d s0"
    using g by (auto simp: grown_def)
  have "shared ctx ds M s0 s'" if p: "popped ctx d (stack ctx d s) s s'" for s'
  proof (cases "is_metadata ctx d s \<and> length (stack ctx d s) = 2")
    case True
    with p obtain q where "stacks_but ctx d [q] s s'" by (auto simp: popped_def)
    then show ?thesis by (rule stacks_but_grown [OF s d]) (use True len md in auto)
  next
    case False
    with p have "stacks_but ctx d (tl (stack ctx d s)) s s'" by (auto simp: popped_def)
    then show ?thesis
    proof (rule stacks_but_grown [OF s d])
      assume "\<not> is_metadata ctx d s0"
      then obtain qs where qs: "stack ctx d s = qs @ stack ctx d s0" using g by (auto simp: grown_def)
      with len have "qs \<noteq> []" by auto
      with qs show "\<exists>qs. tl (stack ctx d s) = qs @ stack ctx d s0" by auto
    qed (use len in auto)
  qed
  moreover have "shared ctx ds (add_mset d M) s0 s'" if "stacks_but ctx d (stack ctx d s) s s'" for s'
    using that shared_same [OF s] by (simp add: stacks_but_same [OF k])
  ultimately show "sx_hoare (\<lambda>s'. s' = s) (desc_release env ctx d) (\<lambda>_. shared ctx ds M s0) (shared ctx ds (add_mset d M) s0)"
    by (intro hoare_conseq [OF hoare_release [OF env k, of "stack ctx d s"]])
      (auto simp: stacks_but_same [OF k] stacks.K_refl)
qed

text \<open>The operations on temporaries keep the stacks.\<close>

lemma hoare_shared_with_ref:
  assumes "kept same_stacks mk"
    and "\<And>t. sx_hoare (shared ctx ds M s0) (f t) (\<lambda>_. shared ctx ds N s0) (\<lambda>s. shared ctx ds M s0 s \<or> shared ctx ds L s0 s)"
  shows "sx_hoare (shared ctx ds M s0) (with_ref mk f) (\<lambda>_. shared ctx ds N s0) (\<lambda>s. shared ctx ds M s0 s \<or> shared ctx ds L s0 s)"
    (is "sx_hoare _ _ _ ?E")
proof (rule hoare_with_ref)
  show "sx_hoare (shared ctx ds M s0) mk (\<lambda>_. shared ctx ds M s0) ?E"
    by (rule hoare_conseq [OF hoare_shared_kept [OF assms(1)]]) auto
  show "sx_hoare (shared ctx ds N s0) (destroy_ref t) (\<lambda>_. shared ctx ds N s0) ?E" for t
    by (rule hoare_nothrow [OF nothrow_linking(3) hoare_shared_kept]) (intro kept_intros)
  show "sx_hoare ?E (destroy_ref t) (\<lambda>_. ?E) ?E" for t
    by (rule hoare_same_stacks, intro kept_intros) (auto intro: shared_same)
qed (rule assms(2))

lemma shared_mono: "shared ctx ds M s0 s \<Longrightarrow> ds' \<subseteq> ds \<Longrightarrow> shared ctx ds' M s0 s"
  by (auto simp: shared_def)

lemma shared_start: "ctx < length (contexts s) \<Longrightarrow> shared ctx {} {#} s s"
  by (simp add: shared_def)

text \<open>Releases of everything that was shared, in any order.\<close>

lemma hoare_release_all:
  assumes env: "callbacks_keep same_stacks env"
  shows "set ds \<subseteq> D \<Longrightarrow> sx_hoare (shared ctx D (mset ds + M) s0) (sx_each (desc_release env ctx) ds) (\<lambda>_. shared ctx D M s0) (\<lambda>_. True)"
proof (induction ds)
  case Nil
  then show ?case by (auto simp: sx_hoare_def)
next
  case (Cons d ds)
  have "sx_hoare (shared ctx D (mset (d # ds) + M) s0) (desc_release env ctx d) (\<lambda>_. shared ctx D (mset ds + M) s0) (\<lambda>_. True)"
    using Cons.prems by (intro hoare_conseq [OF hoare_shared_release [OF env, of d D ctx "mset ds + M" s0]]) auto
  then show ?case using Cons by (simp add: hoare_bind)
qed

end
