(* ===== verification/Set_Value_Correct.thy ===== *)
theory Set_Value_Correct
  imports Set_Value_Plugin Stack_Balance Context_Correct
begin

text \<open>
  Correctness of the plugin \<open>set_value\<close>: what the operations of a trigger do to the stacks of the descriptors, and how a trigger
  implements the multiset of names that it has shared and not released.
\<close>

section \<open>Operations that keep the stacks\<close>

lemma stacks_upd_logger: "same_stacks s (upd_logger i f s)"
  by (simp add: same_stacks_def stack_def is_metadata_def known_def descriptor_of_def find_desc_def the_context_def upd_logger_def)

lemma kept_upd_logger [kept_intros]: "kept same_stacks (sx_modify (upd_logger i f))"
  by (simp add: kept_def stacks_upd_logger)

lemma kept_show_pattern [kept_intros]: "kept same_stacks (show_pattern i)"
  unfolding show_pattern_def by (intro kept_intros)

lemma kept_default_pattern [kept_intros]: "kept same_stacks (default_pattern n i p)"
proof (induction n arbitrary: i p)
  case 0
  show ?case by (simp only: default_pattern.simps, intro kept_intros)
next
  case (Suc n)
  show ?case by (simp only: default_pattern.simps, intro kept_intros Suc)
qed

lemma kept_root_logger [kept_intros]: "kept same_stacks (root_logger n i)"
proof (induction n arbitrary: i)
  case 0
  show ?case by (simp only: root_logger.simps, intro kept_intros)
next
  case (Suc n)
  show ?case by (simp only: root_logger.simps, rule stacks.frame_bind, intro kept_intros) (auto intro: Suc kept_intros split: option.split)
qed

lemma kept_evaluate_refs [kept_intros]:
  assumes "callbacks_keep same_stacks env"
  shows "kept same_stacks (evaluate_refs n env ctx p)"
proof (induction n arbitrary: p)
  case 0
  show ?case by (subst evaluate_refs.simps) (auto intro!: kept_intros split: option.split)
next
  case (Suc n)
  show ?case by (subst evaluate_refs.simps) (auto intro!: kept_intros assms Suc split: option.split)
qed

lemma kept_evaluate_pattern:
  assumes "callbacks_keep same_stacks env"
  shows "kept same_stacks (evaluate_pattern_fuel n env i ctx)"
proof (induction n arbitrary: i)
  case 0
  show ?case by (simp only: evaluate_pattern_fuel.simps, intro kept_intros)
next
  case (Suc n)
  show ?case by (simp only: evaluate_pattern_fuel.simps, intro kept_intros Suc assms)
qed

lemma kept_global_pattern [kept_intros]:
  assumes "callbacks_keep same_stacks env"
  shows "kept same_stacks (global_pattern env i p)" "kept same_stacks (evaluate_global_pattern env i ctx)"
  unfolding global_pattern_def set_pattern_def evaluate_global_pattern_def evaluate_pattern_def
  by (intro kept_intros kept_evaluate_pattern assms)+

lemma kept_Logger_execute:
  assumes "callbacks_keep same_stacks env"
  shows "kept same_stacks (Logger_execute env ctx logger l p e)"
proof -
  have "kept same_stacks (case map_of level_map str of
      Some level \<Rightarrow> sx_modify (\<lambda>s. upd_logger (m_logger (the_context ctx s)) (\<lambda>l. l\<lparr>l_level := level\<rparr>) s) | None \<Rightarrow> sx_return ())" for str
    by (cases "map_of level_map str") (simp_all add: kept_def stacks_upd_logger stacks.K_refl)
  then show ?thesis unfolding Logger_execute_def by (intro kept_intros assms)
qed

lemma kept_set_data:
  assumes "callbacks_keep same_stacks env"
  shows "kept same_stacks (set_data env ctx v)"
  unfolding set_data_def by (intro kept_intros assms) (auto intro!: kept_intros)

section \<open>Operations that share and release\<close>

lemma kept_default_type: "kept same_stacks (default_type ctx d)"
  unfolding default_type_def by (intro kept_intros)

lemma hoare_value:
  assumes env: "callbacks_keep same_stacks env"
    and f: "\<And>r. sx_hoare (shared ctx (insert (c_str name) D) M s0) (f (c_str name) r) (\<lambda>_. shared ctx (insert (c_str name) D) N s0)
      (\<lambda>s. shared ctx (insert (c_str name) D) M s0 s \<or> shared ctx (insert (c_str name) D) L s0 s)"
  shows "sx_hoare (shared ctx D M s0) (sx_bind (desc ctx name) (\<lambda>d. sx_bind (sx_lift (Impl_parse_tree tree)) (\<lambda>e.
      sx_bind (default_type ctx d) (\<lambda>type. sx_bind (evaluate env type ctx) (\<lambda>t. with_ref (to_ref_typed env (Some e) ctx t) (f d))))))
    (\<lambda>_. shared ctx D N s0) (\<lambda>s. shared ctx D M s0 s \<or> shared ctx D L s0 s)" (is "sx_hoare _ _ _ ?E")
proof (rule hoare_bind [OF hoare_shared_desc])
  fix d
  let ?I = "\<lambda>M. shared ctx (insert (c_str name) D) M s0"
  have "sx_hoare (?I M) (sx_bind (sx_lift (Impl_parse_tree tree)) (\<lambda>e. sx_bind (default_type ctx (c_str name)) (\<lambda>type.
      sx_bind (evaluate env type ctx) (\<lambda>t. with_ref (to_ref_typed env (Some e) ctx t) (f (c_str name))))))
      (\<lambda>_. ?I N) (\<lambda>s. ?I M s \<or> ?I L s)"
    by (rule hoare_bind, rule hoare_conseq [OF hoare_shared_kept], intro kept_intros, assumption, assumption, simp,
      rule hoare_bind, rule hoare_conseq [OF hoare_shared_kept [OF kept_default_type]], assumption, assumption, simp,
      rule hoare_bind, rule hoare_conseq [OF hoare_shared_kept], intro kept_intros env, assumption, assumption, simp,
      rule hoare_shared_with_ref, intro kept_intros env, rule f)
  then have "sx_hoare (?I M) (sx_bind (sx_lift (Impl_parse_tree tree)) (\<lambda>e. sx_bind (default_type ctx (c_str name)) (\<lambda>type.
      sx_bind (evaluate env type ctx) (\<lambda>t. with_ref (to_ref_typed env (Some e) ctx t) (f (c_str name))))))
      (\<lambda>_. shared ctx D N s0) ?E"
    by (rule hoare_conseq) (auto intro: shared_mono)
  then show "sx_hoare (\<lambda>s. d = c_str name \<and> ?I M s) (sx_bind (sx_lift (Impl_parse_tree tree)) (\<lambda>e. sx_bind (default_type ctx d) (\<lambda>type.
      sx_bind (evaluate env type ctx) (\<lambda>t. with_ref (to_ref_typed env (Some e) ctx t) (f d)))))
      (\<lambda>_. shared ctx D N s0) ?E"
    by (cases "d = c_str name") (simp_all add: sx_hoare_def)
qed

lemma hoare_share_copy:
  assumes env: "callbacks_keep same_stacks env" and d: "d \<in> D"
  shows "sx_hoare (shared ctx D M s0) (with_ref (copy_ref False False v) (\<lambda>r. share env ctx d r False False))
    (\<lambda>_. shared ctx D (add_mset d M) s0) (shared ctx D M s0)"
proof -
  have "sx_hoare (shared ctx D M s0) (with_ref (copy_ref False False v) (\<lambda>r. share env ctx d r False False))
    (\<lambda>_. shared ctx D (add_mset d M) s0) (\<lambda>s. shared ctx D M s0 s \<or> shared ctx D M s0 s)"
    by (rule hoare_shared_with_ref, intro kept_intros, rule hoare_conseq [OF hoare_shared_share [OF env d]]) auto
  then show ?thesis by simp
qed

abbreviation value_name :: "string \<times> pc_tree \<Rightarrow> string" where
  "value_name v \<equiv> c_str (fst v)"

lemma hoare_share_value:
  assumes env: "callbacks_keep same_stacks env"
  shows "sx_hoare (shared ctx D M s0) (share_value env ctx v) (\<lambda>_. shared ctx D (add_mset (value_name v) M) s0) (shared ctx D M s0)"
proof -
  let ?f = "\<lambda>d r. sx_bind (with_ref (copy_ref False False r) (\<lambda>r. share env ctx d r False False)) (\<lambda>_. sx_return ())"
  let ?I = "\<lambda>M. shared ctx (insert (value_name v) D) M s0"
  have "sx_hoare (?I M) (?f (value_name v) r) (\<lambda>_. ?I (add_mset (value_name v) M)) (\<lambda>s. ?I M s \<or> ?I M s)" for r
    by (rule hoare_bind, rule hoare_conseq [OF hoare_share_copy [OF env insertI1]]) (assumption | rule hoare_return | simp)+
  from hoare_value [where f = ?f, OF env this] show ?thesis unfolding share_value_def by (rule hoare_conseq) auto
qed

lemma hoare_release_value:
  assumes env: "callbacks_keep same_stacks env"
  shows "sx_hoare (shared ctx D (add_mset (c_str n) M) s0) (release_value env ctx n) (\<lambda>_. shared ctx D M s0) (shared ctx D (add_mset (c_str n) M) s0)"
  unfolding release_value_def
proof (rule hoare_bind [OF hoare_shared_desc])
  fix d
  have "sx_hoare (shared ctx (insert (c_str n) D) (add_mset (c_str n) M) s0) (desc_release env ctx (c_str n))
      (\<lambda>_. shared ctx D M s0) (shared ctx D (add_mset (c_str n) M) s0)"
    by (rule hoare_conseq [OF hoare_shared_release [OF env insertI1]]) (auto intro: shared_mono)
  then show "sx_hoare (\<lambda>s. d = c_str n \<and> shared ctx (insert (c_str n) D) (add_mset (c_str n) M) s0 s) (desc_release env ctx d)
      (\<lambda>_. shared ctx D M s0) (shared ctx D (add_mset (c_str n) M) s0)"
    by (cases "d = c_str n") (simp_all add: sx_hoare_def)
qed

lemma hoare_expose_value:
  assumes env: "callbacks_keep same_stacks env"
  shows "sx_hoare (shared ctx D M s0) (expose_value env ctx v) (\<lambda>_. shared ctx D M s0)
    (\<lambda>s. shared ctx D M s0 s \<or> shared ctx D (add_mset (value_name v) M) s0 s)"
proof -
  let ?f = "\<lambda>d r. sx_bind (with_ref (copy_ref False False r) (\<lambda>r. share env ctx d r False False)) (\<lambda>_. release_value env ctx (fst v))"
  let ?I = "\<lambda>M. shared ctx (insert (value_name v) D) M s0"
  have "sx_hoare (?I M) (?f (value_name v) r) (\<lambda>_. ?I M) (\<lambda>s. ?I M s \<or> ?I (add_mset (value_name v) M) s)" for r
    by (rule hoare_bind, rule hoare_conseq [OF hoare_share_copy [OF env insertI1]], assumption, assumption, simp,
      rule hoare_conseq [OF hoare_release_value [OF env]]) auto
  from hoare_value [where f = ?f, OF env this] show ?thesis unfolding expose_value_def by (rule hoare_conseq) auto
qed

section \<open>Triggers\<close>

text \<open>The abstract state of a trigger: the names that it has shared and not released. It may only release what it has shared.\<close>

fun abs_execute :: "operation \<Rightarrow> string multiset \<Rightarrow> string multiset option" where
  "abs_execute (Share_operation vs) M = Some (mset (map value_name vs) + M)"
| "abs_execute (Release_operation ns) M =
     (if mset (map c_str ns) \<subseteq># M then Some (M - mset (map c_str ns)) else None)"
| "abs_execute _ M = Some M"

fun abs_trigger :: "operation list \<Rightarrow> string multiset \<Rightarrow> string multiset option" where
  "abs_trigger [] M = Some M"
| "abs_trigger (op # ops) M = Option.bind (abs_execute op M) (abs_trigger ops)"

lemma hoare_share_values:
  assumes env: "callbacks_keep same_stacks env"
  shows "sx_hoare (shared ctx D M s0) (sx_each (share_value env ctx) vs) (\<lambda>_. shared ctx D (mset (map value_name vs) + M) s0)
    (\<lambda>s. \<exists>k < length vs. shared ctx D (mset (map value_name (take k vs)) + M) s0 s)"
proof (induction vs arbitrary: M)
  case Nil
  show ?case by (simp add: sx_hoare_def)
next
  case (Cons v vs)
  let ?E = "\<lambda>s. \<exists>k < length (v # vs). shared ctx D (mset (map value_name (take k (v # vs))) + M) s0 s"
  have "sx_hoare (shared ctx D M s0) (share_value env ctx v) (\<lambda>_. shared ctx D (add_mset (value_name v) M) s0) ?E"
    by (rule hoare_conseq [OF hoare_share_value [OF env]]) (auto intro: exI [of _ 0])
  moreover have "sx_hoare (shared ctx D (add_mset (value_name v) M) s0) (sx_each (share_value env ctx) vs)
      (\<lambda>_. shared ctx D (mset (map value_name (v # vs)) + M) s0) ?E"
    by (rule hoare_conseq [OF Cons.IH]) (auto intro: exI [of _ "Suc _"])
  ultimately show ?case by (simp add: hoare_bind)
qed

lemma hoare_expose_values:
  assumes env: "callbacks_keep same_stacks env"
  shows "sx_hoare (shared ctx D M s0) (sx_each (expose_value env ctx) vs) (\<lambda>_. shared ctx D M s0)
    (\<lambda>s. shared ctx D M s0 s \<or> (\<exists>v \<in> set vs. shared ctx D (add_mset (value_name v) M) s0 s))"
proof (induction vs)
  case Nil
  show ?case by (simp add: sx_hoare_def)
next
  case (Cons v vs)
  let ?E = "\<lambda>s. shared ctx D M s0 s \<or> (\<exists>v \<in> set (v # vs). shared ctx D (add_mset (value_name v) M) s0 s)"
  have "sx_hoare (shared ctx D M s0) (expose_value env ctx v) (\<lambda>_. shared ctx D M s0) ?E"
    by (rule hoare_conseq [OF hoare_expose_value [OF env]]) auto
  moreover have "sx_hoare (shared ctx D M s0) (sx_each (expose_value env ctx) vs) (\<lambda>_. shared ctx D M s0) ?E"
    by (rule hoare_conseq [OF Cons.IH]) auto
  ultimately show ?case by (simp add: hoare_bind)
qed

lemma hoare_release_values:
  assumes env: "callbacks_keep same_stacks env"
  shows "sx_hoare (shared ctx D (mset (map c_str ns) + M) s0) (sx_each (release_value env ctx) ns) (\<lambda>_. shared ctx D M s0) (\<lambda>_. True)"
proof (induction ns)
  case Nil
  show ?case by (simp add: sx_hoare_def)
next
  case (Cons n ns)
  have "sx_hoare (shared ctx D (mset (map c_str (n # ns)) + M) s0) (release_value env ctx n)
      (\<lambda>_. shared ctx D (mset (map c_str ns) + M) s0) (\<lambda>_. True)"
    by (rule hoare_conseq [OF hoare_release_value [OF env, of ctx D n "mset (map c_str ns) + M" s0]]) auto
  then show ?case using Cons.IH by (simp add: hoare_bind)
qed

lemma hoare_execute:
  assumes env: "callbacks_keep same_stacks env" and abs: "abs_execute op M = Some N"
  shows "sx_hoare (shared ctx D M s0) (execute env ctx logger op) (\<lambda>_. shared ctx D N s0) (\<lambda>_. True)"
proof (cases op)
  case (Share_operation vs)
  then show ?thesis using abs by (auto intro: hoare_conseq [OF hoare_share_values [OF env]])
next
  case (Release_operation ns)
  with abs have "mset (map c_str ns) + N = M" by (auto split: if_splits simp: subset_mset.add_diff_inverse)
  then show ?thesis using Release_operation hoare_release_values [OF env, of ctx D ns N s0] by simp
next
  case (Expose_operation vs)
  then show ?thesis using abs by (auto intro: hoare_conseq [OF hoare_expose_values [OF env]])
next
  case (Set_operation vs)
  have "kept same_stacks (sx_each (set_data env ctx) vs)" by (intro kept_intros kept_set_data env)
  then show ?thesis using abs Set_operation by (auto intro: hoare_conseq [OF hoare_shared_kept])
next
  case (Event_operation e)
  have "kept same_stacks (event env ctx e)" by (intro kept_intros env)
  then show ?thesis using abs Event_operation by (auto intro: hoare_conseq [OF hoare_shared_kept])
next
  case (Logger_operation l p e)
  have "kept same_stacks (Logger_execute env ctx logger l p e)" by (rule kept_Logger_execute [OF env])
  then show ?thesis using abs Logger_operation by (auto intro: hoare_conseq [OF hoare_shared_kept])
qed

lemma hoare_trigger:
  assumes env: "callbacks_keep same_stacks env"
  shows "abs_trigger ops M = Some N \<Longrightarrow> sx_hoare (shared ctx D M s0) (Trigger_execute env ctx logger ops) (\<lambda>_. shared ctx D N s0) (\<lambda>_. True)"
  unfolding Trigger_execute_def
proof (induction ops arbitrary: M)
  case Nil
  then show ?case by (simp add: sx_hoare_def)
next
  case (Cons op ops)
  then obtain L where L: "abs_execute op M = Some L" "abs_trigger ops L = Some N" by (auto simp: bind_eq_Some_conv)
  then show ?case using hoare_bind [OF hoare_execute [OF env L(1)]] Cons.IH [OF L(2)] by simp
qed

section \<open>Properties\<close>


text \<open>Two values are shared, one is exposed and one is released.\<close>

definition sample_value :: "string \<Rightarrow> string \<times> pc_tree" where
  "sample_value v = (''d'', pc_ok (Y_scalar sample_region v))"

definition sample_typed :: world where
  "sample_typed = snd (set_default_type 0 ''d'' (Evaluated sample_int) (sample_world False))"

definition sample_operations :: "operation list" where
  "sample_operations = [Share_operation [sample_value ''5'', sample_value ''6''], Expose_operation [sample_value ''7''], Release_operation [''d'']]"

lemma sample_operations_return:
  "(case Trigger_execute null_env 0 0 sample_operations sample_typed of (Inr u, s') \<Rightarrow> True | _ \<Rightarrow> False)"
  by code_simp




end
