(* ===== verification/User_Code_Plugin.thy ===== *)
theory User_Code_Plugin
  imports Global_Context
begin

text \<open>
  The plugin \<open>user_code\<close> (\<open>user_code.cxx\<close>): functions of the user that are called on events and on data, with aliases that are
  shared before the call and released after it.
\<close>

section \<open>Paths with a name\<close>

text \<open>\<open>PC_get\<close> with the format \<open>".%s"\<close>: the name becomes part of the path, which may then have several steps.\<close>

definition PC_get_path :: "pc_tree \<Rightarrow> string \<Rightarrow> pc_tree" where
  "PC_get_path t p =
     (case path_steps (length p) p of (steps, ok) \<Rightarrow>
        let r = PC_get t steps in if ok \<or> PC_status r then r else r\<lparr>pc_err := Some (''Invalid path'' @ newline)\<rparr>)"

definition PC_get_name :: "pc_tree \<Rightarrow> string \<Rightarrow> pc_tree" where
  "PC_get_name t name = PC_get_path t (CHR ''.'' # c_str name)"

lemma PC_get_text_path: "PC_get_text t path = (case printf_text path of None \<Rightarrow> Inl UB | Some p \<Rightarrow> Inr (PC_get_path t p))"
  by (simp add: PC_get_text_def PC_get_path_def Let_def split: option.split prod.split)

section \<open>Aliases\<close>

text \<open>An \<open>Alias\<close>: the name it is exposed as, and the value.\<close>

record uc_alias =
  a_name :: string
  a_value :: expression

definition Alias :: "string \<Rightarrow> string \<Rightarrow> uc_alias res" where
  "Alias name var = rbind (Impl_parse var) (\<lambda>e. Inr \<lparr>a_name = name, a_value = Some e\<rparr>)"

text \<open>The constructor of an \<open>ExposedAlias\<close>; the descriptor it releases later is returned.\<close>

definition ExposedAlias :: "'x env \<Rightarrow> nat \<Rightarrow> uc_alias \<Rightarrow> ('x, string) world_op" where
  "ExposedAlias env ctx a =
     sx_bind (desc ctx (c_str (a_name a))) (\<lambda>m_desc.
     sx_bind (sx_catch (with_ref (to_ref env (a_value a) ctx) (\<lambda>r. share env ctx m_desc r False False))
       (\<lambda>e. sx_fail (Throw (rethrow_with_simple_context e
          (''Could not alias `'' @ a_name a @ [CHR 0x27] @ '' because ''))))) (\<lambda>_.
     sx_return m_desc))"

text \<open>
  The destructor of the vector of exposed aliases releases them in an order that the language leaves open; an exception there ends the process.
\<close>

definition unexpose :: "'x env \<Rightarrow> nat \<Rightarrow> (string list \<Rightarrow> string list) \<Rightarrow> string list \<Rightarrow> ('x, unit) world_op" where
  "unexpose env ctx order exposed = sx_noexcept (sx_each (desc_release env ctx) (order exposed))"

text \<open>The aliases are exposed one after the other; when one throws, those before it are released.\<close>

fun expose_all :: "'x env \<Rightarrow> nat \<Rightarrow> (string list \<Rightarrow> string list) \<Rightarrow> string list \<Rightarrow> uc_alias list \<Rightarrow> ('x, string list) world_op" where
  "expose_all env ctx order exposed [] = sx_return exposed"
| "expose_all env ctx order exposed (a # as) =
     sx_bind (sx_catch (ExposedAlias env ctx a)
       (\<lambda>e. sx_bind (unexpose env ctx order exposed) (\<lambda>_. sx_fail (Throw e)))) (\<lambda>d.
     expose_all env ctx order (exposed @ [d]) as)"

section \<open>Triggers\<close>

text \<open>
  The dynamic loader as a trigger sees it: the symbols of the default search, the handle of the executable or the failure to open it, the symbols of
  the executable, the text of the last error, and the functions themselves.
\<close>

record 'x loader =
  d_default :: "string \<Rightarrow> nat option"
  d_exe :: bool
  d_exe_symbol :: "string \<Rightarrow> nat option"
  d_error :: string
  d_call :: "nat \<Rightarrow> ('x, unit) world_op"

record trigger =
  m_fct :: nat
  m_aliases :: "uc_alias list"
  m_when :: expression

definition load_function :: "'x loader \<Rightarrow> string \<Rightarrow> nat res" where
  "load_function dl funcname =
     (case d_default dl (c_str funcname) of
        Some f \<Rightarrow> Inr f
      | None \<Rightarrow>
          if \<not> d_exe dl then throw (System_error (''Unable to dlopen the main executable: '' @ d_error dl))
          else
            (case d_exe_symbol dl (c_str funcname) of
               Some f \<Rightarrow> Inr f
             | None \<Rightarrow> throw (System_error (''Unable to load user function `'' @ funcname @ [CHR 0x27] @ '': '' @ d_error dl))))"

fun read_aliases :: "pc_tree \<Rightarrow> nat list \<Rightarrow> uc_alias list res" where
  "read_aliases params [] = Inr []"
| "read_aliases params (i # is) =
     rbind (tree_to_string (PC_get params [Map_key (int i)])) (\<lambda>name.
     rbind (tree_to_string (PC_get params [Map_val (int i)])) (\<lambda>var.
     rbind (Alias name var) (\<lambda>a.
     rbind (read_aliases params is) (\<lambda>as. Inr (a # as)))))"

definition Trigger_ctor :: "'x loader \<Rightarrow> string \<Rightarrow> pc_tree \<Rightarrow> expression \<Rightarrow> trigger res" where
  "Trigger_ctor dl funcname params when_exp =
     rbind (load_function dl funcname) (\<lambda>f.
     rbind (if PC_status (PC_get params [Map_key 0]) then Inr []
       else rbind (len params) (\<lambda>n. read_aliases params [0 ..< nat n])) (\<lambda>aliases.
     Inr \<lparr>m_fct = f, m_aliases = aliases, m_when = when_exp\<rparr>))"

text \<open>Whatever the condition or the function of the user throws is logged and goes no further.\<close>

definition Trigger_call :: "'x loader \<Rightarrow> (string list \<Rightarrow> string list) \<Rightarrow> 'x env \<Rightarrow> nat \<Rightarrow> trigger \<Rightarrow> ('x, unit) world_op" where
  "Trigger_call dl order env ctx tr =
     with_timer env ctx ''user_code''
       (sx_bind (expose_all env ctx order [] (m_aliases tr)) (\<lambda>exposed_aliases.
        sx_bind (sx_catch
          (sx_bind (to_long env (m_when tr) ctx) (\<lambda>w. if w \<noteq> 0 then d_call dl (m_fct tr) else sx_return ()))
          (\<lambda>e. sx_return ())) (\<lambda>_.
        unexpose env ctx order exposed_aliases)))"

section \<open>The plugin\<close>

text \<open>
  The registered functions hold a copy of their trigger. These copies extend the state, in the order of registration; the function with the
  trigger at a position has the identifier that \<open>cb\<close> gives to it.
\<close>

record user_code_world = world +
  uc_triggers :: "trigger list"

type_synonym ('x, 'a) user_code_op = "('x user_code_world_scheme, exn, 'a) sx"
type_synonym 'x user_code_env = "'x user_code_world_ext env"

definition call_trigger ::
    "'x user_code_world_ext loader \<Rightarrow> (string list \<Rightarrow> string list) \<Rightarrow> 'x user_code_env \<Rightarrow> nat \<Rightarrow> nat \<Rightarrow> ('x, unit) user_code_op" where
  "call_trigger dl order env ctx k =
     sx_bind (sx_get uc_triggers) (\<lambda>ts. if k < length ts then Trigger_call dl order env ctx (ts ! k) else sx_fail UB)"

definition register_function ::
    "'x user_code_world_ext loader \<Rightarrow> (nat \<Rightarrow> string \<Rightarrow> ('x, nat) user_code_op) \<Rightarrow> (nat \<Rightarrow> nat) \<Rightarrow> pc_tree \<Rightarrow> pc_tree \<Rightarrow> expression \<Rightarrow> nat
      \<Rightarrow> ('x, unit) user_code_op" where
  "register_function dl register cb name one when_exp i =
     sx_bind (sx_lift (tree_to_string (PC_get one [Map_key (int i)]))) (\<lambda>function_name.
     if function_name = ''when'' then sx_return ()
     else
       sx_bind (sx_lift (Trigger_ctor dl function_name (PC_get_name one function_name) when_exp)) (\<lambda>tr.
       sx_bind (sx_lift (tree_to_string name)) (\<lambda>n.
       sx_bind (sx_get (\<lambda>s. length (uc_triggers s))) (\<lambda>k.
       sx_bind (sx_modify (\<lambda>s. s\<lparr>uc_triggers := uc_triggers s @ [tr]\<rparr>)) (\<lambda>_.
       sx_bind (register (cb k) n) (\<lambda>_. sx_return ()))))))"

text \<open>The body of the four loops over the functions for one event or data.\<close>

definition register_one ::
    "'x user_code_world_ext loader \<Rightarrow> (nat \<Rightarrow> string \<Rightarrow> ('x, nat) user_code_op) \<Rightarrow> (nat \<Rightarrow> nat) \<Rightarrow> pc_tree \<Rightarrow> pc_tree
      \<Rightarrow> ('x, unit) user_code_op" where
  "register_one dl register cb name one =
     (let when_tree = PC_get one [Key ''when''] in
      sx_bind (if PC_status when_tree then sx_return (Some (Int_literal 1))
        else sx_bind (sx_lift (Impl_parse_tree when_tree)) (\<lambda>e.
          sx_bind (sx_lift (tree_to_string when_tree)) (\<lambda>_. sx_return (Some e)))) (\<lambda>when_exp.
      sx_each (register_function dl register cb name one when_exp) [0 ..< nat (len_dflt one 0)]))"

definition register_all ::
    "'x user_code_world_ext loader \<Rightarrow> (nat \<Rightarrow> string \<Rightarrow> ('x, nat) user_code_op) \<Rightarrow> (nat \<Rightarrow> nat) \<Rightarrow> pc_tree \<Rightarrow> ('x, unit) user_code_op" where
  "register_all dl register cb node =
     (if PC_status node then sx_return ()
      else
        sx_bind (sx_lift (is_list node)) (\<lambda>l.
        if l then
          sx_each (\<lambda>i.
            let item = PC_get node [Idx (int i)]; name = PC_get item [Map_key 0] in
            sx_bind (sx_lift (tree_to_string name)) (\<lambda>n.
            opt_each (PC_get_name item n) (register_one dl register cb name))) [0 ..< nat (len_dflt node 0)]
        else
          sx_bind (sx_lift (is_map node)) (\<lambda>m.
          if m then each_pair node (\<lambda>name items. opt_each items (register_one dl register cb name))
          else sx_return ())))"

definition user_code_ctor ::
    "'x user_code_world_ext loader \<Rightarrow> nat \<Rightarrow> (nat \<Rightarrow> nat) \<Rightarrow> pc_tree \<Rightarrow> ('x, unit) user_code_op" where
  "user_code_ctor dl ctx cb conf =
     sx_bind (register_all dl (on_event ctx) cb (PC_get conf [Key ''on_event''])) (\<lambda>_.
     register_all dl (on_data ctx) cb (PC_get conf [Key ''on_data'']))"

end
