(* ===== verification/User_Code_Correct.thy ===== *)
theory User_Code_Correct
  imports User_Code_Plugin Stack_Balance
begin

text \<open>
  Correctness of the plugin \<open>user_code\<close>: the function of the user runs while every alias is shared, and whatever it does and
  whatever fails, the aliases are released.
\<close>

section \<open>The timer around a call\<close>

definition stable :: "('x world_scheme \<Rightarrow> bool) \<Rightarrow> bool" where
  "stable P \<longleftrightarrow> (\<forall>s s'. P s \<longrightarrow> same_stacks s s' \<longrightarrow> P s')"

lemma stable_shared: "stable (shared ctx ds M s0)"
  by (auto simp: stable_def intro: shared_same)

lemma hoare_stable: "stable P \<Longrightarrow> kept same_stacks f \<Longrightarrow> sx_hoare P f (\<lambda>_. P) P"
  unfolding sx_hoare_def stable_def kept_def
  by (auto split: prod.splits sum.splits fault.splits) (metis snd_conv)+

lemma hoare_with_timer:
  assumes env: "callbacks_keep same_stacks env" and P: "stable P" and Q: "\<And>x. stable (Q x)" and E: "stable E"
    and f: "sx_hoare P f Q E" and PE: "\<And>s. P s \<Longrightarrow> E s"
  shows "sx_hoare P (with_timer env ctx name f) Q E"
  unfolding with_timer_def
proof (rule hoare_bind)
  show "sx_hoare P (event env ctx (name @ ''_start_timer'')) (\<lambda>_. P) E"
    using PE by (intro hoare_conseq [OF hoare_stable [OF P]] kept_intros env) auto
  have stop: "sx_hoare R (sx_noexcept (event env ctx (name @ ''_stop_timer''))) (\<lambda>_. R) E'" if "stable R" for R E'
    by (rule hoare_noexcept [OF hoare_stable [OF that]]) (intro kept_intros env)
  show "sx_hoare P (sx_bind (sx_catch f (\<lambda>e. sx_bind (sx_noexcept (event env ctx (name @ ''_stop_timer''))) (\<lambda>_. sx_fail (Throw e))))
      (\<lambda>x. sx_bind (sx_noexcept (event env ctx (name @ ''_stop_timer''))) (\<lambda>_. sx_return x))) Q E"
  proof (rule hoare_bind)
    show "sx_hoare P (sx_catch f (\<lambda>e. sx_bind (sx_noexcept (event env ctx (name @ ''_stop_timer''))) (\<lambda>_. sx_fail (Throw e)))) Q E"
      by (rule hoare_catch [OF f], rule hoare_bind [OF stop [OF E]]) auto
    show "sx_hoare (Q x) (sx_bind (sx_noexcept (event env ctx (name @ ''_stop_timer''))) (\<lambda>_. sx_return x)) Q E" for x
      by (rule hoare_bind [OF stop [OF Q]]) auto
  qed
qed

section \<open>Aliases\<close>

abbreviation alias_desc :: "uc_alias \<Rightarrow> string" where
  "alias_desc a \<equiv> c_str (a_name a)"

lemma c_str_idem [simp]: "c_str (c_str s) = c_str s"
  by (simp add: c_str_def)

lemma hoare_ExposedAlias:
  assumes env: "callbacks_keep same_stacks env"
  shows "sx_hoare (shared ctx D M s0) (ExposedAlias env ctx a)
    (\<lambda>d s. d = alias_desc a \<and> shared ctx (insert d D) (add_mset d M) s0 s) (shared ctx D M s0)"
  unfolding ExposedAlias_def
proof (rule hoare_bind [OF hoare_shared_desc])
  let ?d = "alias_desc a"
  fix d
  have "sx_hoare (shared ctx (insert ?d D) M s0) (with_ref (to_ref env (a_value a) ctx) (\<lambda>r. share env ctx ?d r False False))
      (\<lambda>_. shared ctx (insert ?d D) (add_mset ?d M) s0) (\<lambda>s. shared ctx (insert ?d D) M s0 s \<or> shared ctx (insert ?d D) M s0 s)"
    by (rule hoare_shared_with_ref, intro kept_intros env, rule hoare_conseq [OF hoare_shared_share [OF env]]) auto
  then have "sx_hoare (shared ctx (insert ?d D) M s0) (sx_bind (sx_catch (with_ref (to_ref env (a_value a) ctx) (\<lambda>r. share env ctx ?d r False False))
      (\<lambda>e. sx_fail (h e))) (\<lambda>_. sx_return ?d))
      (\<lambda>d s. d = ?d \<and> shared ctx (insert d D) (add_mset d M) s0 s) (shared ctx D M s0)" for h
    by (intro hoare_bind [OF hoare_catch]) (assumption | auto intro: shared_mono)+
  then show "sx_hoare (\<lambda>s. d = c_str (c_str (a_name a)) \<and> shared ctx (insert (c_str (c_str (a_name a))) D) M s0 s)
      (sx_bind (sx_catch (with_ref (to_ref env (a_value a) ctx)
      (\<lambda>r. share env ctx d r False False)) (\<lambda>e. sx_fail (Throw (rethrow_with_simple_context e
        (''Could not alias `'' @ a_name a @ [CHR 0x27] @ '' because ''))))) (\<lambda>_. sx_return d))
      (\<lambda>d s. d = ?d \<and> shared ctx (insert d D) (add_mset d M) s0 s) (shared ctx D M s0)"
    by (cases "d = ?d") (simp_all add: sx_hoare_def)
qed

lemma hoare_unexpose:
  assumes env: "callbacks_keep same_stacks env" and order: "mset (order ds) = mset ds" and "set ds \<subseteq> D"
  shows "sx_hoare (shared ctx D (mset ds) s0) (unexpose env ctx order ds) (\<lambda>_. shared ctx D {#} s0) E"
proof -
  have "set (order ds) \<subseteq> D" using assms(3) order mset_eq_setD by blast
  from hoare_release_all [OF env this, of ctx "{#}" s0] show ?thesis
    unfolding unexpose_def using order by (intro hoare_noexcept) simp
qed

lemma hoare_expose_all:
  assumes env: "callbacks_keep same_stacks env" and order: "\<And>xs. mset (order xs) = mset xs"
  shows "sx_hoare (shared ctx (set ds) (mset ds) s0) (expose_all env ctx order ds as)
    (\<lambda>ds' s. ds' = ds @ map alias_desc as \<and> shared ctx (set ds') (mset ds') s0 s) (shared ctx {} {#} s0)"
proof (induction as arbitrary: ds)
  case Nil
  show ?case by (simp add: sx_hoare_def)
next
  case (Cons a as)
  let ?d = "alias_desc a"
  have "sx_hoare (shared ctx (set ds) (mset ds) s0) (sx_catch (ExposedAlias env ctx a) (\<lambda>e. sx_bind (unexpose env ctx order ds) (\<lambda>_. sx_fail (Throw e))))
      (\<lambda>d s. d = ?d \<and> shared ctx (insert d (set ds)) (add_mset d (mset ds)) s0 s) (shared ctx {} {#} s0)"
    by (rule hoare_catch [OF hoare_ExposedAlias [OF env]], rule hoare_bind [OF hoare_unexpose [OF env order subset_refl]])
      (auto intro: shared_mono)
  moreover have "sx_hoare (\<lambda>s. d = ?d \<and> shared ctx (insert d (set ds)) (add_mset d (mset ds)) s0 s) (expose_all env ctx order (ds @ [d]) as)
      (\<lambda>ds' s. ds' = ds @ map alias_desc (a # as) \<and> shared ctx (set ds') (mset ds') s0 s) (shared ctx {} {#} s0)" for d
    by (cases "d = ?d") (use Cons.IH [of "ds @ [?d]"] in \<open>auto intro: hoare_conseq simp: sx_hoare_def\<close>)
  ultimately show ?case unfolding expose_all.simps by (rule hoare_bind)
qed

lemma grown_known: "grown ctx M s s' \<Longrightarrow> d \<in># M \<Longrightarrow> ctx < length (contexts s) \<Longrightarrow> known ctx d s'"
proof -
  assume g: "grown ctx M s s'" "d \<in># M" "ctx < length (contexts s)"
  then have "stack ctx d s' \<noteq> []" unfolding grown_def by (metis add_is_0 count_eq_zero_iff length_0_conv)
  then have "find_desc ctx d s' \<noteq> None" by (auto simp: stack_def descriptor_of_def Data_descriptor_impl_def split: option.splits)
  then show ?thesis using g by (simp add: known_def grown_def)
qed

lemma shared_grown: "ctx < length (contexts s0) \<Longrightarrow> shared ctx (set_mset M) M s0 s \<longleftrightarrow> grown ctx M s0 s"
  by (auto simp: shared_def intro: grown_known)

section \<open>Properties\<close>


text \<open>A trigger with an alias for the integer 5 and a function that does nothing.\<close>

definition sample_loader :: "unit loader" where
  "sample_loader = \<lparr>d_default = (\<lambda>_. Some 0), d_exe = True, d_exe_symbol = (\<lambda>_. None), d_error = [], d_call = (\<lambda>_. sx_return ())\<rparr>"

definition sample_trigger :: trigger where
  "sample_trigger = \<lparr>m_fct = 0, m_aliases = [\<lparr>a_name = ''five'', a_value = Some (Int_literal 5)\<rparr>], m_when = Some (Int_literal 1)\<rparr>"

lemma sample_trigger_returns:
  "(case Trigger_call sample_loader rev null_env 0 sample_trigger (sample_world False) of (Inr u, s') \<Rightarrow> True | _ \<Rightarrow> False)"
  by code_simp


end
