(* ===== verification/Json_Dump.thy ===== *)
theory Json_Dump
  imports PDI_Error Float_Model "HOL-Library.Char_ord" "HOL-Library.List_Lexorder"
begin

text \<open>
  JSON values and their text, as the library \<open>nlohmann::json\<close> that comes with the sources makes them: the values that the plugin \<open>json\<close> builds, the changes
  that \<open>emplace_back\<close> and \<open>operator[]\<close> make (\<open>json.hpp\<close>) and the serializer with indentation (\<open>serializer.hpp\<close>). The digits of a floating
  point number (\<open>to_chars\<close>) are a parameter. The buffers of the serializer only gather its output and are left out.
\<close>

unbundle bit_operations_syntax

section \<open>Values\<close>

text \<open>The members of an object are in the order of their keys, as in a \<open>std::map\<close>.\<close>

datatype json =
    J_null
  | J_string string
  | J_integer int
  | J_unsigned nat
  | J_float "64 word"
  | J_array "json list"
  | J_object "(string \<times> json) list"

fun type_name :: "json \<Rightarrow> string" where
  "type_name J_null = ''null''"
| "type_name (J_string _) = ''string''"
| "type_name (J_integer _) = ''number''"
| "type_name (J_unsigned _) = ''number''"
| "type_name (J_float _) = ''number''"
| "type_name (J_array _) = ''array''"
| "type_name (J_object _) = ''object''"

definition json_type_error :: "nat \<Rightarrow> string \<Rightarrow> 'a res" where
  "json_type_error n w = throw (Std_exception (''[json.exception.type_error.'' @ fmt_nat n @ ''] '' @ w))"

definition emplace_back :: "json \<Rightarrow> json \<Rightarrow> json res" where
  "emplace_back j v =
     (case j of
        J_null \<Rightarrow> Inr (J_array [v])
      | J_array xs \<Rightarrow> Inr (J_array (xs @ [v]))
      | _ \<Rightarrow> json_type_error 311 (''cannot use emplace_back() with '' @ type_name j))"

fun map_assign :: "string \<Rightarrow> 'a \<Rightarrow> (string \<times> 'a) list \<Rightarrow> (string \<times> 'a) list" where
  "map_assign k v [] = [(k, v)]"
| "map_assign k v ((k', v') # m) =
     (if k < k' then (k, v) # (k', v') # m else if k = k' then (k, v) # m else (k', v') # map_assign k v m)"

text \<open>\<open>j[key] = v\<close>.\<close>

definition object_assign :: "json \<Rightarrow> string \<Rightarrow> json \<Rightarrow> json res" where
  "object_assign j key v =
     (case j of
        J_null \<Rightarrow> Inr (J_object [(key, v)])
      | J_object m \<Rightarrow> Inr (J_object (map_assign key v m))
      | _ \<Rightarrow> json_type_error 305 (''cannot use operator[] with a string argument with '' @ type_name j))"

section \<open>Strings\<close>

definition utf8d :: "nat list" where
  "utf8d = replicate 128 0 @ replicate 16 1 @ replicate 16 9 @ replicate 32 7
     @ [8, 8] @ replicate 30 2
     @ [10, 3, 3, 3, 3, 3, 3, 3, 3, 3, 3, 3, 3, 4, 3, 3]
     @ [11, 6, 6, 6, 5, 8, 8, 8, 8, 8, 8, 8, 8, 8, 8, 8]
     @ [0, 1, 2, 3, 5, 8, 7, 1, 1, 1, 4, 6, 1, 1, 1, 1]
     @ [1, 1, 1, 1, 1, 1, 1, 1, 1, 1, 1, 1, 1, 1, 1, 1, 1, 0, 1, 1, 1, 1, 1, 0, 1, 0, 1, 1, 1, 1, 1, 1]
     @ [1, 2, 1, 1, 1, 1, 1, 2, 1, 2, 1, 1, 1, 1, 1, 1, 1, 1, 1, 1, 1, 1, 1, 2, 1, 1, 1, 1, 1, 1, 1, 1]
     @ [1, 2, 1, 1, 1, 1, 1, 1, 1, 2, 1, 1, 1, 1, 1, 1, 1, 1, 1, 1, 1, 1, 1, 3, 1, 3, 1, 1, 1, 1, 1, 1]
     @ [1, 3, 1, 1, 1, 1, 1, 3, 1, 3, 1, 1, 1, 1, 1, 1, 1, 3, 1, 1, 1, 1, 1, 1, 1, 1, 1, 1, 1, 1, 1, 1]"

definition UTF8_ACCEPT :: nat where [simp]: "UTF8_ACCEPT = 0"
definition UTF8_REJECT :: nat where [simp]: "UTF8_REJECT = 1"

definition decode :: "nat \<Rightarrow> 32 word \<Rightarrow> nat \<Rightarrow> nat \<times> 32 word" where
  "decode state codep byte =
     (let type = utf8d ! byte;
          codep = (if state \<noteq> UTF8_ACCEPT then (of_nat byte AND 0x3F) OR push_bit 6 codep
                   else drop_bit type 0xFF AND of_nat byte)
      in (utf8d ! (256 + state * 16 + type), codep))"

definition hex_digit :: "bool \<Rightarrow> nat \<Rightarrow> char" where
  "hex_digit upper n = char_of (if n < 10 then 48 + n else (if upper then 55 else 87) + n)"

definition hex_bytes :: "nat \<Rightarrow> string" where
  "hex_bytes byte = [hex_digit True (byte div 16), hex_digit True (byte mod 16)]"

text \<open>The text of a code point whose last byte is \<open>c\<close>; the bytes before it have been written.\<close>

definition escaped :: "32 word \<Rightarrow> char \<Rightarrow> string" where
  "escaped codepoint c =
     (let bs = CHR 0x5C in
      if codepoint = 0x08 then [bs, CHR ''b'']
      else if codepoint = 0x09 then [bs, CHR ''t'']
      else if codepoint = 0x0A then [bs, CHR ''n'']
      else if codepoint = 0x0C then [bs, CHR ''f'']
      else if codepoint = 0x0D then [bs, CHR ''r'']
      else if codepoint = 0x22 then [bs, CHR 0x22]
      else if codepoint = 0x5C then [bs, bs]
      else if codepoint \<le> 0x1F then
        bs # CHR ''u'' # map (\<lambda>k. hex_digit False (unat codepoint div 16 ^ k mod 16)) [3, 2, 1, 0]
      else [c])"

fun dump_escaped_from :: "nat \<Rightarrow> nat \<Rightarrow> 32 word \<Rightarrow> nat \<Rightarrow> string \<Rightarrow> string res" where
  "dump_escaped_from i state codepoint byte [] =
     (if state = UTF8_ACCEPT then Inr []
      else json_type_error 316 (''incomplete UTF-8 string; last byte: 0x'' @ hex_bytes byte))"
| "dump_escaped_from i state codepoint _ (c # cs) =
     (let byte = of_char c; (state, codepoint) = decode state codepoint byte in
      if state = UTF8_ACCEPT then
        rbind (dump_escaped_from (Suc i) state codepoint byte cs) (\<lambda>out. Inr (escaped codepoint c @ out))
      else if state = UTF8_REJECT then
        json_type_error 316 (''invalid UTF-8 byte at index '' @ fmt_nat i @ '': 0x'' @ hex_bytes byte)
      else rbind (dump_escaped_from (Suc i) state codepoint byte cs) (\<lambda>out. Inr (c # out)))"

definition dump_escaped :: "string \<Rightarrow> string res" where
  "dump_escaped s = dump_escaped_from 0 UTF8_ACCEPT 0 0 s"

section \<open>Numbers\<close>

fun count_digits_from :: "nat \<Rightarrow> nat \<Rightarrow> nat" where
  "count_digits_from n_digits x =
     (if x < 10 then n_digits
      else if x < 100 then n_digits + 1
      else if x < 1000 then n_digits + 2
      else if x < 10000 then n_digits + 3
      else count_digits_from (n_digits + 4) (x div 10000))"

declare count_digits_from.simps [simp del]

definition count_digits :: "nat \<Rightarrow> nat" where
  "count_digits x = count_digits_from 1 x"

definition digits_to_99 :: "nat \<Rightarrow> nat \<Rightarrow> char" where
  "digits_to_99 i k = char_of (48 + (if k = 0 then i div 10 else i mod 10))"

text \<open>The digits are written from the end of the number to its start; the result is the buffer and the position of the first digit.\<close>

fun write_digits :: "string \<Rightarrow> nat \<Rightarrow> nat \<Rightarrow> string \<times> nat" where
  "write_digits buf ptr abs_value =
     (if abs_value \<ge> 100 then
        let i = abs_value mod 100 in
        write_digits (buf[ptr - 1 := digits_to_99 i 1, ptr - 2 := digits_to_99 i 0]) (ptr - 2) (abs_value div 100)
      else if abs_value \<ge> 10 then
        (buf[ptr - 1 := digits_to_99 abs_value 1, ptr - 2 := digits_to_99 abs_value 0], ptr - 2)
      else (buf[ptr - 1 := char_of (48 + abs_value)], ptr - 1))"

declare write_digits.simps [simp del]

definition remove_sign :: "int \<Rightarrow> nat" where
  "remove_sign x = nat (- (x + 1)) + 1"

definition dump_integer :: "int \<Rightarrow> string" where
  "dump_integer x =
     (if x = 0 then ''0''
      else
        let number_buffer = replicate 64 (CHR 0x00);
            abs_value = (if x < 0 then remove_sign x else nat x);
            n_chars = (if x < 0 then 1 + count_digits abs_value else count_digits abs_value);
            number_buffer = (if x < 0 then number_buffer[0 := CHR ''-''] else number_buffer)
        in take n_chars (fst (write_digits number_buffer n_chars abs_value)))"

definition dump_float :: "(64 word \<Rightarrow> string) \<Rightarrow> 64 word \<Rightarrow> string" where
  "dump_float to_chars x = (case val64 x of F_fin _ _ _ \<Rightarrow> to_chars x | _ \<Rightarrow> ''null'')"

section \<open>The serializer\<close>

abbreviation indentation :: "nat \<Rightarrow> string" where
  "indentation n \<equiv> replicate n (CHR '' '')"

fun dump :: "(64 word \<Rightarrow> string) \<Rightarrow> nat \<Rightarrow> nat \<Rightarrow> json \<Rightarrow> string res"
  and dump_members :: "(64 word \<Rightarrow> string) \<Rightarrow> nat \<Rightarrow> nat \<Rightarrow> (string \<times> json) list \<Rightarrow> string res"
  and dump_elements :: "(64 word \<Rightarrow> string) \<Rightarrow> nat \<Rightarrow> nat \<Rightarrow> json list \<Rightarrow> string res" where
  "dump to_chars indent_step current_indent (J_object m) =
     (if m = [] then Inr ''{}''
      else
        let new_indent = current_indent + indent_step in
        rbind (dump_members to_chars indent_step new_indent m) (\<lambda>out.
        Inr (''{'' @ [CHR 0x0A] @ out @ [CHR 0x0A] @ indentation current_indent @ ''}'')))"
| "dump to_chars indent_step current_indent (J_array xs) =
     (if xs = [] then Inr ''[]''
      else
        let new_indent = current_indent + indent_step in
        rbind (dump_elements to_chars indent_step new_indent xs) (\<lambda>out.
        Inr (''['' @ [CHR 0x0A] @ out @ [CHR 0x0A] @ indentation current_indent @ '']'')))"
| "dump to_chars indent_step current_indent (J_string s) =
     rbind (dump_escaped s) (\<lambda>out. Inr ([CHR 0x22] @ out @ [CHR 0x22]))"
| "dump to_chars indent_step current_indent (J_integer x) = Inr (dump_integer x)"
| "dump to_chars indent_step current_indent (J_unsigned x) = Inr (dump_integer (int x))"
| "dump to_chars indent_step current_indent (J_float x) = Inr (dump_float to_chars x)"
| "dump to_chars indent_step current_indent J_null = Inr ''null''"
| "dump_members to_chars indent_step new_indent [] = Inr []"
| "dump_members to_chars indent_step new_indent ((key, v) # m) =
     rbind (dump_escaped key) (\<lambda>key.
     rbind (dump to_chars indent_step new_indent v) (\<lambda>out.
     rbind (dump_members to_chars indent_step new_indent m) (\<lambda>rest.
     Inr (indentation new_indent @ [CHR 0x22] @ key @ [CHR 0x22] @ '': '' @ out
       @ (if m = [] then [] else '','' @ [CHR 0x0A]) @ rest))))"
| "dump_elements to_chars indent_step new_indent [] = Inr []"
| "dump_elements to_chars indent_step new_indent (x # xs) =
     rbind (dump to_chars indent_step new_indent x) (\<lambda>out.
     rbind (dump_elements to_chars indent_step new_indent xs) (\<lambda>rest.
     Inr (indentation new_indent @ out @ (if xs = [] then [] else '','' @ [CHR 0x0A]) @ rest)))"

text \<open>\<open>dump(4)\<close>.\<close>

definition json_text :: "(64 word \<Rightarrow> string) \<Rightarrow> json \<Rightarrow> string res" where
  "json_text to_chars j = dump to_chars 4 0 j"

end
