(* ===== verification/Json_Plugin.thy ===== *)
theory Json_Plugin
  imports Global_Context Json_Dump
begin

text \<open>
  The plugin \<open>json\<close> (\<open>json.cxx\<close>): data that become available are read through references into a JSON value, which is written to a file, or appended to
  the array that the file holds.
\<close>

section \<open>Scalars\<close>

definition scalar_to_json :: "dt \<Rightarrow> scalar_val \<Rightarrow> json" where
  "scalar_to_json t v =
     (case v of
        Int_val z \<Rightarrow> (case t of
            Scalar d _ \<Rightarrow> if sc_kind d = UNSIGNED then if buffersize t = 1 then J_string [char_of (nat z)] else J_unsigned (nat z) else J_integer z
          | _ \<Rightarrow> J_null)
      | F32_val x \<Rightarrow> J_float (bits64 (val32 x))
      | F64_val x \<Rightarrow> J_float x)"

text \<open>A reference that is null has the undefined type, which is a scalar. The messages differ from those of \<open>scalar_value\<close>.\<close>

definition write_scalar_to_json :: "nat \<Rightarrow> ('x, json) store_op" where
  "write_scalar_to_json r =
     sx_bind (sx_get (ref_type r)) (\<lambda>t.
     case t of
       Scalar d a \<Rightarrow>
         if sc_kind d = UNSIGNED \<and> buffersize t \<notin> {1, 2, 4, 8} then sx_fail (Throw (Type_error ''Unknown size of unsigned integer datatype''))
         else if sc_kind d = SIGNED \<and> buffersize t \<notin> {1, 2, 4, 8} then sx_fail (Throw (Type_error ''Unknown size of signed integer datatype''))
         else if sc_kind d = FLOAT \<and> buffersize t \<notin> {4, 8} then sx_fail (Throw (Type_error ''Unknown size of float datatype''))
         else if sc_kind d \<notin> {UNSIGNED, SIGNED, FLOAT} then sx_fail (Throw (Type_error ''Unknown datatype to get value''))
         else sx_bind (scalar_value r) (\<lambda>v. sx_return (scalar_to_json t v))
     | _ \<Rightarrow> sx_fail UB)"

section \<open>Loops\<close>

text \<open>A \<open>Ref_r\<close> made from a temporary \<open>Ref\<close>; both live until the end of the expression.\<close>

definition with_element :: "('x, nat) store_op \<Rightarrow> (nat \<Rightarrow> ('x, 'a) store_op) \<Rightarrow> ('x, 'a) store_op" where
  "with_element mk f = with_ref mk (\<lambda>sub. with_ref (copy_ref True False sub) f)"

fun json_loop :: "(nat \<Rightarrow> ('s, exn, json) sx) \<Rightarrow> nat list \<Rightarrow> json \<Rightarrow> ('s, exn, json) sx" where
  "json_loop f [] json_data = sx_return json_data"
| "json_loop f (i # is) json_data =
     sx_bind (f i) (\<lambda>v. sx_bind (sx_lift (emplace_back json_data v)) (\<lambda>json_data. json_loop f is json_data))"

text \<open>The counter is an \<open>int\<close>.\<close>

definition int_for :: "(nat \<Rightarrow> ('s, exn, json) sx) \<Rightarrow> nat \<Rightarrow> ('s, exn, json) sx" where
  "int_for f n =
     (if int n \<le> 2 ^ 31 then json_loop f [0 ..< n] J_null
      else sx_bind (json_loop f [0 ..< 2 ^ 31] J_null) (\<lambda>_. sx_fail UB))"

fun member_loop :: "(dt member \<Rightarrow> ('s, exn, json) sx) \<Rightarrow> dt member list \<Rightarrow> json \<Rightarrow> ('s, exn, json) sx" where
  "member_loop f [] json_data = sx_return json_data"
| "member_loop f (m # ms) json_data =
     sx_bind (f m) (\<lambda>v. sx_bind (sx_lift (object_assign json_data (mname m) v)) (\<lambda>json_data. member_loop f ms json_data))"

fun char_loop :: "nat \<Rightarrow> nat list \<Rightarrow> string \<Rightarrow> ('x, string) store_op" where
  "char_loop r [] str = sx_return str"
| "char_loop r (i # is) str =
     sx_bind (with_element (ref_index r (int i)) (\<lambda>e.
       sx_bind (ref_get e) (\<lambda>p. sx_get (\<lambda>s. char_of (unat (memory s p)) :: char)))) (\<lambda>c.
     char_loop r is (str @ [c]))"

section \<open>Data\<close>

text \<open>
  The functions call each other along the type of the data; the fuel is a bound on its depth. A cast of a type to the wrong class gives a null pointer, which
  is followed.
\<close>

definition is_char :: "dt \<Rightarrow> bool" where
  "is_char t = (case t of Scalar d _ \<Rightarrow> sc_kind d = UNSIGNED \<and> buffersize t = 1 | _ \<Rightarrow> False)"

fun write_array_to_json :: "nat \<Rightarrow> nat \<Rightarrow> ('x, json) store_op"
  and write_record_to_json :: "nat \<Rightarrow> nat \<Rightarrow> ('x, json) store_op"
  and write_tuple_to_json :: "nat \<Rightarrow> nat \<Rightarrow> ('x, json) store_op"
  and write_pointer_to_json :: "nat \<Rightarrow> nat \<Rightarrow> ('x, json) store_op"
  and choose_type_and_dump_to_json :: "nat \<Rightarrow> nat \<Rightarrow> ('x, json) store_op" where
  "write_array_to_json 0 r = sx_fail UB"
| "write_array_to_json (Suc n) r =
     sx_bind (sx_get (ref_type r)) (\<lambda>t.
     case t of
       Array sub m_size start subsize _ \<Rightarrow>
         if is_char sub then
           sx_bind (if int m_size \<le> 2 ^ 31 then char_loop r [0 ..< m_size] []
             else sx_bind (char_loop r [0 ..< 2 ^ 31] []) (\<lambda>_. sx_fail UB)) (\<lambda>str.
           sx_lift (emplace_back J_null (J_string str)))
         else
           int_for (\<lambda>i. with_element (ref_index r (int i)) (\<lambda>e.
             case sub of
               Scalar _ _ \<Rightarrow> write_scalar_to_json e
             | Array _ _ _ _ _ \<Rightarrow> write_array_to_json n e
             | Record _ _ _ \<Rightarrow> write_record_to_json n e
             | Pointer _ _ _ _ \<Rightarrow> write_pointer_to_json n e
             | Tuple _ _ _ \<Rightarrow> write_tuple_to_json n e)) m_size
     | _ \<Rightarrow> sx_fail UB)"
| "write_record_to_json 0 r = sx_fail UB"
| "write_record_to_json (Suc n) r =
     sx_bind (sx_get (ref_type r)) (\<lambda>t.
     case t of
       Record ms _ _ \<Rightarrow>
         member_loop (\<lambda>m.
           case mtype m of
             Scalar _ _ \<Rightarrow> with_element (ref_member r (c_str (mname m))) write_scalar_to_json
           | Array _ _ _ _ _ \<Rightarrow> with_element (ref_member r (c_str (mname m))) (\<lambda>e. write_array_to_json n e)
           | Pointer _ _ _ _ \<Rightarrow> with_element (ref_member r (c_str (mname m))) (\<lambda>e. write_pointer_to_json n e)
           | Tuple _ _ _ \<Rightarrow> with_element (ref_member r (c_str (mname m))) (\<lambda>e. write_tuple_to_json n e)
           | _ \<Rightarrow> sx_fail (Throw (Type_error ''Unknown member datatype passed to json''))) ms J_null
     | _ \<Rightarrow> sx_fail UB)"
| "write_tuple_to_json 0 r = sx_fail UB"
| "write_tuple_to_json (Suc n) r =
     sx_bind (sx_get (ref_type r)) (\<lambda>t.
     case t of
       Tuple es _ _ \<Rightarrow>
         int_for (\<lambda>i.
           case etype (es ! i) of
             Scalar _ _ \<Rightarrow> with_element (ref_index r (int i)) write_scalar_to_json
           | Array _ _ _ _ _ \<Rightarrow> with_element (ref_index r (int i)) (\<lambda>e. write_array_to_json n e)
           | Pointer _ _ _ _ \<Rightarrow> with_element (ref_index r (int i)) (\<lambda>e. write_pointer_to_json n e)
           | Record _ _ _ \<Rightarrow> with_element (ref_index r (int i)) (\<lambda>e. write_record_to_json n e)
           | _ \<Rightarrow> sx_fail (Throw (Type_error
               ''Unknown tuple subtype passed to json, currently supprting scalar and array subtypes.''))) (length es)
     | _ \<Rightarrow> sx_fail UB)"
| "write_pointer_to_json 0 r = sx_fail UB"
| "write_pointer_to_json (Suc n) r =
     with_ref (ref_dereference r) (\<lambda>dereferenced_ref.
       sx_bind (is_null dereferenced_ref) (\<lambda>null.
       if null then sx_fail (Throw (Value_error (''Can'' @ [CHR 0x27] @ ''t dereference with read permissions'')))
       else with_ref (copy_ref True False dereferenced_ref) (\<lambda>e. choose_type_and_dump_to_json n e)))"
| "choose_type_and_dump_to_json 0 r = sx_fail UB"
| "choose_type_and_dump_to_json (Suc n) r =
     sx_bind (sx_get (ref_type r)) (\<lambda>t.
     case t of
       Scalar _ _ \<Rightarrow> write_scalar_to_json r
     | Array _ _ _ _ _ \<Rightarrow> write_array_to_json n r
     | Record _ _ _ \<Rightarrow> write_record_to_json n r
     | Tuple _ _ _ \<Rightarrow> write_tuple_to_json n r
     | Pointer _ _ _ _ \<Rightarrow> write_pointer_to_json n r)"

definition json_fuel :: "dt \<Rightarrow> nat" where
  "json_fuel t = 2 * size t + 2"

section \<open>Files\<close>

text \<open>
  The environment of the plugin: whether a file that exists may be opened for reading and writing, whether a file may be created or written, and the text of floating
  point numbers. The files and the table of the plugin extend the state.
\<close>

record json_env =
  j_open :: "string \<Rightarrow> bool"
  j_create :: "string \<Rightarrow> bool"
  j_to_chars :: "64 word \<Rightarrow> string"

record json_world = world +
  m_data_to_path_map :: "(string \<times> (expression \<times> expression) list) list"
  files :: "string \<Rightarrow> string option"

type_synonym ('x, 'a) json_op = "('x json_world_scheme, exn, 'a) sx"
type_synonym 'x json_plugin_env = "'x json_world_ext env"

definition put_file :: "string \<Rightarrow> string \<Rightarrow> ('x, unit) json_op" where
  "put_file path text = sx_modify (\<lambda>s. s\<lparr>files := (files s)(path := Some text)\<rparr>)"

text \<open>
  The operators \<open><<\<close> are evaluated from left to right: what stands before the text of the value is in the file when the text is made, which may throw.
  A stream whose last operation failed writes nothing. An empty file has no last character: the variable that should hold it is not set.
\<close>

definition write_document :: "json_env \<Rightarrow> string \<Rightarrow> json \<Rightarrow> ('x, unit) json_op" where
  "write_document jenv path json_data =
     sx_bind (sx_get files) (\<lambda>fs.
     case (if j_open jenv path then fs path else None) of
       None \<Rightarrow>
         if j_create jenv path then
           sx_bind (put_file path (''['' @ [CHR 0x0A])) (\<lambda>_.
           sx_bind (sx_lift (json_text (j_to_chars jenv) json_data)) (\<lambda>text.
           put_file path (''['' @ [CHR 0x0A] @ text @ [CHR 0x0A] @ '']'')))
         else sx_bind (sx_lift (json_text (j_to_chars jenv) json_data)) (\<lambda>_. sx_return ())
     | Some content \<Rightarrow>
         if content = [] then sx_fail UB
         else if last content = CHR '']'' then
           if length content < 2 then sx_bind (sx_lift (json_text (j_to_chars jenv) json_data)) (\<lambda>_. sx_return ())
           else
             let kept = take (length content - 2) content in
             sx_bind (put_file path (kept @ '','' @ [CHR 0x0A])) (\<lambda>_.
             sx_bind (sx_lift (json_text (j_to_chars jenv) json_data)) (\<lambda>text.
             put_file path (kept @ '','' @ [CHR 0x0A] @ text @ [CHR 0x0A] @ '']'')))
         else sx_return ())"

section \<open>The plugin\<close>

definition paths_of :: "string \<Rightarrow> 'x json_world_scheme \<Rightarrow> (expression \<times> expression) list" where
  "paths_of name s = (case map_of (m_data_to_path_map s) name of Some ps \<Rightarrow> ps | None \<Rightarrow> [])"

text \<open>\<open>m_data_to_path_map[data_name]\<close> adds an entry for a name that has none.\<close>

definition write_data :: "'x json_plugin_env \<Rightarrow> json_env \<Rightarrow> nat \<Rightarrow> string \<Rightarrow> nat \<Rightarrow> ('x, unit) json_op" where
  "write_data env jenv ctx data_name reference =
     with_timer env ctx ''json''
       (sx_bind (sx_modify (\<lambda>s. if map_of (m_data_to_path_map s) data_name = None
          then s\<lparr>m_data_to_path_map := m_data_to_path_map s @ [(data_name, [])]\<rparr> else s)) (\<lambda>_.
        sx_bind (sx_get (paths_of data_name)) (\<lambda>paths.
        sx_each (\<lambda>(condition, fpath).
          sx_bind (to_long env condition ctx) (\<lambda>c.
          if c = 0 then sx_return ()
          else
            sx_bind (to_string env fpath ctx) (\<lambda>filepath.
            sx_bind (is_null reference) (\<lambda>_.
            sx_bind (sx_get (ref_type reference)) (\<lambda>t.
            sx_bind (choose_type_and_dump_to_json (json_fuel t) reference) (\<lambda>v.
            sx_bind (sx_lift (object_assign J_null data_name v)) (\<lambda>json_data.
            write_document jenv filepath json_data))))))) paths)))"

definition on_data_callback :: "'x json_plugin_env \<Rightarrow> json_env \<Rightarrow> nat \<Rightarrow> string \<Rightarrow> nat \<Rightarrow> ('x, unit) json_op" where
  "on_data_callback env jenv ctx data_name ref = with_ref (copy_ref True False ref) (write_data env jenv ctx data_name)"

definition add_path :: "string \<Rightarrow> expression \<Rightarrow> expression \<Rightarrow> ('x, unit) json_op" where
  "add_path name condition path =
     sx_modify (\<lambda>s. s\<lparr>m_data_to_path_map :=
       (if map_of (m_data_to_path_map s) name = None then m_data_to_path_map s @ [(name, [(condition, path)])]
        else map (\<lambda>(n, ps). if n = name then (n, ps @ [(condition, path)]) else (n, ps)) (m_data_to_path_map s))\<rparr>)"

text \<open>The condition of an entry, which is the last \<open>when\<close>; other keywords are errors.\<close>

fun read_when :: "pc_tree \<Rightarrow> nat list \<Rightarrow> expression \<Rightarrow> expression res" where
  "read_when elem_tree [] default_when = Inr default_when"
| "read_when elem_tree (i # is) default_when =
     (let key_tree = PC_get elem_tree [Map_key (int i)]; value_tree = PC_get elem_tree [Map_val (int i)] in
      rbind (tree_to_string key_tree) (\<lambda>key.
      if key = ''when'' then rbind (tree_to_string value_tree) (\<lambda>v. rbind (Impl_parse v) (\<lambda>e. read_when elem_tree is (Some e)))
      else if key \<noteq> ''file'' \<and> key \<noteq> ''write'' then
        throw (spectree_error key_tree (''Unknown keyword '' @ [CHR 0x27] @ key @ [CHR 0x27] @ '' encountered while expecting file, when, or write''))
      else read_when elem_tree is default_when))"

definition read_entry :: "pc_tree \<Rightarrow> ('x, unit) json_op" where
  "read_entry elem_tree =
     sx_bind (sx_lift (tree_to_string (PC_get elem_tree [Map_key 0]))) (\<lambda>first.
     if first = ''file'' then
       sx_bind (sx_lift (rbind (tree_to_string (PC_get elem_tree [Key ''file''])) Impl_parse)) (\<lambda>filepath.
       sx_bind (sx_lift (rbind (len elem_tree) (\<lambda>n. read_when elem_tree [0 ..< nat n] (Some (Int_literal 1))))) (\<lambda>default_when.
       each_pair elem_tree (\<lambda>key_tree value_tree.
         sx_bind (sx_lift (tree_to_string key_tree)) (\<lambda>key.
         if key \<noteq> ''write'' then sx_return ()
         else
           let write_tree = PC_get elem_tree [Key ''write''] in
           if \<not> PC_status (PC_get write_tree [Idx 0]) then
             each write_tree (\<lambda>tree. sx_bind (sx_lift (tree_to_string tree)) (\<lambda>name. add_path name default_when (Some filepath)))
           else sx_fail (Throw (spectree_error key_tree ''Unknown write method. Please use [var1, var2, ...]''))))))
     else
       sx_bind (sx_lift (rbind (tree_to_string (PC_get elem_tree [Map_val 0])) Impl_parse)) (\<lambda>filepath.
       add_path first (Some (Int_literal 1)) (Some filepath)))"

definition read_config_tree :: "pc_tree \<Rightarrow> ('x, unit) json_op" where
  "read_config_tree spec_tree = (if PC_status spec_tree then sx_return () else opt_each spec_tree read_entry)"

text \<open>The order in which the table is gone through is left open by the language.\<close>

definition json_ctor :: "nat \<Rightarrow> nat \<Rightarrow> (string list \<Rightarrow> string list) \<Rightarrow> pc_tree \<Rightarrow> ('x, unit) json_op" where
  "json_ctor ctx cb order spec_tree =
     sx_bind (read_config_tree spec_tree) (\<lambda>_.
     sx_bind (sx_get (\<lambda>s. map fst (m_data_to_path_map s))) (\<lambda>names.
     sx_each (\<lambda>name. sx_bind (on_data ctx cb name) (\<lambda>_. sx_return ())) (order names)))"

end
