(* ===== verification/Json_Correct.thy ===== *)
theory Json_Correct
  imports Json_Plugin Ref_Correct Descriptor_Correct Datatype_Access_Correct
begin

text \<open>
  Correctness of the plugin \<open>json\<close>: integers are printed in decimal, a file holds the values written to it one after the other, and the value that is read through
  temporary references is the one in memory.
\<close>

section \<open>Integers\<close>

lemma fmt_nat_two: "100 \<le> n \<Longrightarrow> fmt_nat n = fmt_nat (n div 100) @ [digits_to_99 (n mod 100) 0, digits_to_99 (n mod 100) 1]"
proof -
  assume n: "100 \<le> n"
  then have n10: "10 \<le> n div 10" by linarith
  have "fmt_nat n = fmt_nat (n div 10) @ [char_of (48 + n mod 10)]" using n by (subst fmt_nat.simps) simp
  moreover have "fmt_nat (n div 10) = fmt_nat (n div 10 div 10) @ [char_of (48 + n div 10 mod 10)]" using n10 by (subst fmt_nat.simps) simp
  moreover have "n div 10 div 10 = n div 100" "n div 10 mod 10 = n mod 100 div 10" "n mod 10 = n mod 100 mod 10"
    by (simp_all add: div_mult2_eq [symmetric] mod_mult2_eq [of n 10 10, simplified] mod_mod_cancel)
  ultimately show ?thesis by (simp add: digits_to_99_def)
qed

lemma length_fmt_nat_step: "10 \<le> n \<Longrightarrow> length (fmt_nat n) = Suc (length (fmt_nat (n div 10)))"
  by (subst fmt_nat.simps) simp

lemma length_fmt_digit: "n < 10 \<Longrightarrow> length (fmt_nat n) = 1"
  by (subst fmt_nat.simps) simp

lemma count_digits_fmt: "count_digits_from k x + 1 = k + length (fmt_nat x)"
proof (induction k x rule: count_digits_from.induct)
  case (1 k x)
  consider "x < 10" | "10 \<le> x" "x < 100" | "100 \<le> x" "x < 1000" | "1000 \<le> x" "x < 10000" | "10000 \<le> x" by linarith
  then show ?case
  proof cases
    case 5
    have "x div 10 div 10 div 10 div 10 = x div 10000" by (simp add: div_mult2_eq [symmetric])
    moreover have "10 \<le> x div 10" "10 \<le> x div 10 div 10" "10 \<le> x div 10 div 10 div 10" using 5 by linarith+
    ultimately have "length (fmt_nat x) = 4 + length (fmt_nat (x div 10000))" using 5 by (simp add: length_fmt_nat_step)
    then show ?thesis using 5 1 by (subst count_digits_from.simps) simp
  next
    case 4
    then have "10 \<le> x div 10" "10 \<le> x div 10 div 10" "x div 10 div 10 div 10 < 10" by linarith+
    then show ?thesis using 4 by (subst count_digits_from.simps) (simp add: length_fmt_nat_step length_fmt_digit)
  next
    case 3
    then have "10 \<le> x div 10" "x div 10 div 10 < 10" by linarith+
    then show ?thesis using 3 by (subst count_digits_from.simps) (simp add: length_fmt_nat_step length_fmt_digit)
  qed (subst count_digits_from.simps, simp add: length_fmt_nat_step length_fmt_digit)+
qed

lemma write_digits_fmt:
  "ptr = k + length (fmt_nat v) \<Longrightarrow> ptr \<le> length buf \<Longrightarrow> fst (write_digits buf ptr v) = take k buf @ fmt_nat v @ drop ptr buf"
proof (induction buf ptr v rule: write_digits.induct)
  case (1 buf ptr v)
  have set2: "buf[q - 1 := b, q - 2 := a] = take (q - 2) buf @ [a, b] @ drop q buf" if "2 \<le> q" "q \<le> length buf" for q a b
    by (rule nth_equalityI) (use that in \<open>auto simp: nth_append nth_list_update nth_Cons' not_less\<close>)
  consider "100 \<le> v" | "10 \<le> v" "v < 100" | "v < 10" by linarith
  then show ?case
  proof cases
    case 1
    let ?i = "v mod 100" and ?buf = "buf[ptr - 1 := digits_to_99 (v mod 100) 1, ptr - 2 := digits_to_99 (v mod 100) 0]"
    have ptr: "ptr - 2 = k + length (fmt_nat (v div 100))" "2 \<le> ptr" using "1.prems" fmt_nat_two [OF 1] by simp_all
    have "fst (write_digits ?buf (ptr - 2) (v div 100)) = take k ?buf @ fmt_nat (v div 100) @ drop (ptr - 2) ?buf"
      using "1.IH" 1 ptr "1.prems" by simp
    moreover have "take k ?buf = take k buf" "drop (ptr - 2) ?buf = [digits_to_99 ?i 0, digits_to_99 ?i 1] @ drop ptr buf"
      unfolding set2 [OF ptr(2) "1.prems"(2)] using ptr "1.prems" by (simp_all add: min_def)
    ultimately show ?thesis using 1 fmt_nat_two [OF 1] by (subst write_digits.simps) (simp add: Let_def)
  next
    case 2
    then have "v div 10 < 10" by linarith
    with 2 have "fmt_nat v = [digits_to_99 v 0, digits_to_99 v 1]" by (subst fmt_nat.simps, subst fmt_nat.simps) (simp add: digits_to_99_def)
    with 2 "1.prems" set2 [of "k + 2"] show ?thesis by (subst write_digits.simps) (simp add: numeral_2_eq_2)
  next
    case 3
    then have "fmt_nat v = [char_of (48 + v)]" by (subst fmt_nat.simps) simp
    with 3 "1.prems" show ?thesis by (subst write_digits.simps) (simp add: upd_conv_take_nth_drop)
  qed
qed

lemma length_fmt_nat: "n < 10 ^ Suc k \<Longrightarrow> length (fmt_nat n) \<le> Suc k"
proof (induction k arbitrary: n)
  case 0
  then show ?case by (simp add: length_fmt_digit)
next
  case (Suc k)
  then have "n div 10 < 10 ^ Suc k" by (simp add: less_mult_imp_div_less)
  from Suc.IH [OF this] show ?case by (cases "n < 10") (simp_all add: length_fmt_digit length_fmt_nat_step)
qed

text \<open>
  The serializer prints every integer of 64 bits, signed or unsigned, in decimal notation: counting its digits four at a time and writing them
  two at a time from the end gives the text of the usual algorithm.
\<close>

lemma dump_integer_decimal:
  assumes "- (2 ^ 63) \<le> x" "x < 2 ^ 64"
  shows "dump_integer x = fmt_int x"
proof (cases "x = 0")
  case True
  have "fmt_nat 0 = ''0''" by code_simp
  with True show ?thesis by (simp add: dump_integer_def fmt_int_def)
next
  case False
  define v where "v = (if x < 0 then nat (- x) else nat x)"
  have v: "(if x < 0 then remove_sign x else nat x) = v" by (auto simp: v_def remove_sign_def)
  have "v < 10 ^ Suc 19" using assms by (auto simp: v_def)
  then have len: "length (fmt_nat v) \<le> 20" using length_fmt_nat by fastforce
  have count: "count_digits v = length (fmt_nat v)" using count_digits_fmt [of 1 v] by (simp add: count_digits_def)
  show ?thesis
  proof (cases "x < 0")
    case True
    have "fst (write_digits ((replicate 64 (CHR 0x00))[0 := CHR ''-'']) (1 + length (fmt_nat v)) v)
      = take 1 ((replicate 64 (CHR 0x00))[0 := CHR ''-'']) @ fmt_nat v @ drop (1 + length (fmt_nat v)) ((replicate 64 (CHR 0x00))[0 := CHR ''-''])"
      by (rule write_digits_fmt) (use len in auto)
    moreover have "(replicate 64 (CHR 0x00))[0 := CHR ''-''] = CHR ''-'' # replicate 63 (CHR 0x00)" by (simp add: numeral_eq_Suc)
    ultimately show ?thesis using True False v count by (simp add: dump_integer_def fmt_int_def v_def Let_def)
  next
    case pos: False
    have "fst (write_digits (replicate 64 (CHR 0x00)) (0 + length (fmt_nat v)) v)
      = take 0 (replicate 64 (CHR 0x00)) @ fmt_nat v @ drop (0 + length (fmt_nat v)) (replicate 64 (CHR 0x00))"
      by (rule write_digits_fmt) (use len in auto)
    then show ?thesis using pos False v count by (simp add: dump_integer_def fmt_int_def v_def Let_def)
  qed
qed

section \<open>Files\<close>

text \<open>The file after the texts of some values have been written.\<close>

fun joined :: "string list \<Rightarrow> string" where
  "joined [] = []"
| "joined [d] = d"
| "joined (d # ds) = d @ '','' @ [CHR 0x0A] @ joined ds"

definition file_of :: "string list \<Rightarrow> string" where
  "file_of docs = ''['' @ [CHR 0x0A] @ joined docs @ [CHR 0x0A] @ '']''"

lemma joined_snoc: "ds \<noteq> [] \<Longrightarrow> joined (ds @ [d]) = joined ds @ '','' @ [CHR 0x0A] @ d"
  by (induction ds rule: joined.induct) auto

lemma file_of_snoc:
  "docs \<noteq> [] \<Longrightarrow> file_of (docs @ [d]) = take (length (file_of docs) - 2) (file_of docs) @ '','' @ [CHR 0x0A] @ d @ [CHR 0x0A] @ '']''"
  by (simp add: file_of_def joined_snoc)

lemma write_document_first:
  assumes "j_create jenv path" "j_open jenv path \<Longrightarrow> files s path = None" "json_text (j_to_chars jenv) j = Inr d"
  shows "write_document jenv path j s = (Inr (), s\<lparr>files := (files s)(path := Some (file_of [d]))\<rparr>)"
  using assms by (cases "j_open jenv path") (simp_all add: write_document_def put_file_def file_of_def)

lemma write_document_next:
  assumes "j_open jenv path" "files s path = Some (file_of docs)" "docs \<noteq> []" "json_text (j_to_chars jenv) j = Inr d"
  shows "write_document jenv path j s = (Inr (), s\<lparr>files := (files s)(path := Some (file_of (docs @ [d])))\<rparr>)"
proof -
  have "file_of docs \<noteq> []" "last (file_of docs) = CHR '']''" "\<not> length (file_of docs) < 2" by (simp_all add: file_of_def)
  then show ?thesis unfolding file_of_snoc [OF assms(3)] using assms by (simp add: write_document_def put_file_def Let_def)
qed

lemma write_documents_next:
  assumes "j_open jenv path"
  shows "files s path = Some (file_of docs) \<Longrightarrow> docs \<noteq> [] \<Longrightarrow> map (json_text (j_to_chars jenv)) js = map Inr ds \<Longrightarrow>
    sx_each (write_document jenv path) js s = (Inr (), s\<lparr>files := (files s)(path := Some (file_of (docs @ ds)))\<rparr>)"
proof (induction js arbitrary: s docs ds)
  case Nil
  then show ?case by (simp add: fun_upd_idem)
next
  case (Cons j js)
  then obtain d ds' where t: "ds = d # ds'" "json_text (j_to_chars jenv) j = Inr d" "map (json_text (j_to_chars jenv)) js = map Inr ds'"
    by (cases ds) auto
  show ?case
    using write_document_next [OF assms Cons.prems(1,2) t(2)] Cons.IH [of "s\<lparr>files := (files s)(path := Some (file_of (docs @ [d])))\<rparr>" "docs @ [d]" ds'] t
    by (simp cong: if_cong)
qed


text \<open>Two values in a file, and what an invalid string leaves behind.\<close>

definition sample_json_env :: json_env where
  "sample_json_env = \<lparr>j_open = (\<lambda>_. True), j_create = (\<lambda>_. True), j_to_chars = (\<lambda>_. [])\<rparr>"

definition sample_json_world :: json_world where
  "sample_json_world = world.extend (null_world null_context) \<lparr>m_data_to_path_map = [], files = Map.empty\<rparr>"


lemma invalid_text_breaks_file:
  "(case write_document sample_json_env ''f'' (J_string [CHR 0xFF]) (sample_json_world\<lparr>files := [''f'' \<mapsto> file_of [''null'']]\<rparr>) of
     (Inl (Throw (Std_exception _)), s') \<Rightarrow> files s' ''f'' = Some (''['' @ [CHR 0x0A] @ ''null,'' @ [CHR 0x0A]) | _ \<Rightarrow> False)"
  by code_simp

section \<open>Reading\<close>

text \<open>The state but for references that are dead and contents that nothing refers to.\<close>

definition scratch :: "'x store_scheme \<Rightarrow> 'x store_scheme \<Rightarrow> bool" where
  "scratch s s' \<longleftrightarrow> (\<exists>rs cs. s' = s\<lparr>refs := refs s @ rs, contents := contents s @ cs\<rparr> \<and> (\<forall>r \<in> set rs. r_content r = None))"

lemma scratch_refl: "scratch s s"
proof -
  have "s = s\<lparr>refs := refs s @ [], contents := contents s @ []\<rparr>" by simp
  then show ?thesis unfolding scratch_def by (metis empty_iff empty_set)
qed

lemma scratch_trans: "scratch s t \<Longrightarrow> scratch t u \<Longrightarrow> scratch s u"
proof -
  assume "scratch s t" "scratch t u"
  then obtain rs cs rs' cs' where "t = s\<lparr>refs := refs s @ rs, contents := contents s @ cs\<rparr>" "\<forall>r \<in> set rs. r_content r = None"
      "u = t\<lparr>refs := refs t @ rs', contents := contents t @ cs'\<rparr>" "\<forall>r \<in> set rs'. r_content r = None"
    unfolding scratch_def by blast
  then have "u = s\<lparr>refs := refs s @ (rs @ rs'), contents := contents s @ (cs @ cs')\<rparr> \<and> (\<forall>r \<in> set (rs @ rs'). r_content r = None)" by auto
  then show ?thesis unfolding scratch_def by blast
qed

text \<open>A reference with the right to read data of a type at an address; new references have no notifications yet.\<close>

definition reads :: "nat \<Rightarrow> dt \<Rightarrow> addr \<Rightarrow> 'x store_scheme \<Rightarrow> bool" where
  "reads r t p s \<longleftrightarrow> r < length (refs s) \<and> r_R (refs s ! r) \<and> p \<noteq> 0
     \<and> (\<exists>c. r_content (refs s ! r) = Some c \<and> c < length (contents s) \<and> c_data (contents s ! c) = p \<and> c_type (contents s ! c) = t
        \<and> c_buffer (contents s ! c) < length (buffers s) \<and> b_read_locks (buffers s ! c_buffer (contents s ! c)) = 0
        \<and> (\<forall>kv \<in> set (b_notifications (buffers s ! c_buffer (contents s ! c))). fst kv < length (refs s)))"

lemma reads_scratch: "reads r t p s \<Longrightarrow> scratch s s' \<Longrightarrow> reads r t p s' \<and> memory s' = memory s"
  by (fastforce simp: reads_def scratch_def nth_append)

lemma reads_type: "reads r t p s \<Longrightarrow> ref_type r s = t"
  by (auto simp: reads_def ref_type_def)

lemma reads_not_null: "reads r t p s \<Longrightarrow> is_null r s = (Inr False, s)"
  by (auto simp: reads_def is_null_def)

text \<open>A reference that is not the last one to its buffer goes away.\<close>

lemma destroy_shared:
  assumes "i < length (refs s)" "r_content (refs s ! i) = Some c" "b = c_buffer (contents s ! c)"
    and "j < length (refs s)" "j \<noteq> i" "r_content (refs s ! j) = Some d" "c_buffer (contents s ! d) = b"
    and "\<forall>kv \<in> set (b_notifications (buffers s ! b)). fst kv \<noteq> i" "B = buffers s ! b" "r = refs s ! i"
  shows "destroy_ref i s = (Inr (), s\<lparr>buffers := (buffers s)[b := B\<lparr>b_write_locks := b_write_locks B - (if r_R r \<or> r_W r then 1 else 0),
      b_read_locks := b_read_locks B - (if r_W r then 1 else 0)\<rparr>], refs := (refs s)[i := r\<lparr>r_content := None\<rparr>]\<rparr>)"
proof -
  let ?s = "s\<lparr>buffers := (buffers s)[b := B\<lparr>b_write_locks := b_write_locks B - (if r_R r \<or> r_W r then 1 else 0),
      b_read_locks := b_read_locks B - (if r_W r then 1 else 0)\<rparr>], refs := (refs s)[i := r\<lparr>r_content := None\<rparr>]\<rparr>"
  have "filter (\<lambda>kv. fst kv \<noteq> i) (b_notifications B) = b_notifications B" using assms(8,9) by (simp add: filter_id_conv)
  then have "B\<lparr>b_notifications := filter (\<lambda>kv. fst kv \<noteq> i) (b_notifications B), b_write_locks := w, b_read_locks := x\<rparr>
      = B\<lparr>b_write_locks := w, b_read_locks := x\<rparr>" for w x by (cases B) simp
  then have "destroy_ref i s = collect b ?s"
    using assms by (simp add: destroy_ref_def reset_def unlink_def Let_def upd_ref_def upd_buffer_def)
  moreover have "refs ?s ! j \<in> set (refs ?s)" by (rule nth_mem) (use assms in simp)
  moreover have "linked_to ?s b (refs ?s ! j)" using assms by (simp add: linked_to_def)
  ultimately show ?thesis unfolding collect_def by auto
qed

text \<open>A sub-reference, and a reader made from it; both are gone at the end.\<close>

lemma with_subref:
  assumes r: "reads r t p s" and acc: "acc t (memory s) p = Inr (q, u)" and q: "q \<noteq> 0"
    and f: "\<And>e s1. reads e u q s1 \<Longrightarrow> memory s1 = memory s \<Longrightarrow> \<exists>s2. f e s1 = (Inr v, s2) \<and> scratch s1 s2"
    and g: "\<And>sub s1 c. r_content (refs s1 ! sub) = Some c \<Longrightarrow> c_data (contents s1 ! c) \<noteq> 0 \<Longrightarrow> g sub s1 = with_ref (copy_ref True False sub) f s1"
  shows "\<exists>s'. with_ref (make_subref r acc) g s = (Inr v, s') \<and> scratch s s'"
proof -
  obtain c where c: "r < length (refs s)" "r_content (refs s ! r) = Some c" "c < length (contents s)" "c_data (contents s ! c) = p" "p \<noteq> 0"
      "c_type (contents s ! c) = t"
    using r by (auto simp: reads_def)
  define b where "b = c_buffer (contents s ! c)"
  have b: "b < length (buffers s)" "b_read_locks (buffers s ! b) = 0" "\<forall>kv \<in> set (b_notifications (buffers s ! b)). fst kv < length (refs s)"
    using r c by (auto simp: reads_def b_def)
  let ?k = "length (refs s)" and ?n = "length (contents s)" and ?d = "\<lparr>c_buffer = b, c_data = q, c_type = u\<rparr>" and ?B = "buffers s ! b"
  let ?sub = "\<lparr>r_R = False, r_W = False, r_content = Some ?n\<rparr>" and ?e = "\<lparr>r_R = True, r_W = False, r_content = Some ?n\<rparr>"
  define s1 where "s1 = s\<lparr>refs := refs s @ [?sub], contents := contents s @ [?d]\<rparr>"
  define s2 where "s2 = s1\<lparr>refs := refs s @ [?sub, ?e], buffers := (buffers s)[b := ?B\<lparr>b_write_locks := b_write_locks ?B + 1\<rparr>]\<rparr>"
  have B: "(buffers s)[b := ?B\<lparr>b_write_locks := b_write_locks ?B, b_read_locks := b_read_locks ?B\<rparr>] = buffers s" by simp
  have mk: "make_subref r acc s = (Inr ?k, s1)"
    using c acc q b B by (simp add: make_subref_def reads_type [OF r] null_ref_def new_rdata_def link_def upd_ref_def upd_buffer_def nth_append
      b_def [symmetric] s1_def)
  have Br: "?B\<lparr>b_write_locks := w, b_read_locks := 0\<rparr> = ?B\<lparr>b_write_locks := w\<rparr>" for w using b by (cases ?B) simp
  have copy: "copy_ref True False ?k s1 = (Inr (Suc ?k), s2)"
    using q b by (simp add: copy_ref_def null_ref_def get_content_def link_def upd_ref_def upd_buffer_def nth_append list_update_append Br s1_def s2_def)
  have "reads (Suc ?k) u q s2" using q b by (fastforce simp: reads_def s2_def s1_def nth_append)
  moreover have "memory s2 = memory s" by (simp add: s2_def s1_def)
  ultimately obtain s3 rs cs where s3: "f (Suc ?k) s2 = (Inr v, s3)" "s3 = s2\<lparr>refs := refs s2 @ rs, contents := contents s2 @ cs\<rparr>"
      "\<forall>r \<in> set rs. r_content r = None"
    using f unfolding scratch_def by blast
  define s4 where "s4 = s\<lparr>refs := refs s @ [?sub, ?e\<lparr>r_content := None\<rparr>] @ rs, contents := contents s @ [?d] @ cs\<rparr>"
  have d3: "destroy_ref (Suc ?k) s3 = (Inr (), s4)"
    using c b by (subst destroy_shared [where j = r and d = c and c = ?n and b = b])
      (auto simp: s3(2) s2_def s1_def s4_def nth_append b_def [symmetric] list_update_append Br)
  have d4: "destroy_ref ?k s4 = (Inr (), s\<lparr>refs := refs s @ [?sub\<lparr>r_content := None\<rparr>, ?e\<lparr>r_content := None\<rparr>] @ rs, contents := contents s @ [?d] @ cs\<rparr>)"
    using c b by (subst destroy_shared [where j = r and d = c and c = ?n and b = b])
      (auto simp: s4_def nth_append b_def [symmetric] list_update_append)
  have "g ?k s1 = with_ref (copy_ref True False ?k) f s1" by (rule g [of _ _ ?n]) (use q in \<open>simp_all add: s1_def\<close>)
  moreover have "with_ref (copy_ref True False ?k) f s1 = (Inr v, s4)"
    using copy s3(1) d3 by (simp add: with_ref_def sx_bind_def sx_catch_def)
  ultimately have "with_ref (make_subref r acc) g s
      = (Inr v, s\<lparr>refs := refs s @ [?sub\<lparr>r_content := None\<rparr>, ?e\<lparr>r_content := None\<rparr>] @ rs, contents := contents s @ [?d] @ cs\<rparr>)"
    using mk d4 by (simp add: with_ref_def [of "make_subref r acc"] sx_bind_def sx_catch_def)
  moreover have "scratch s (s\<lparr>refs := refs s @ [?sub\<lparr>r_content := None\<rparr>, ?e\<lparr>r_content := None\<rparr>] @ rs, contents := contents s @ [?d] @ cs\<rparr>)"
    unfolding scratch_def using s3(3)
    by (intro exI [of _ "[?sub\<lparr>r_content := None\<rparr>, ?e\<lparr>r_content := None\<rparr>] @ rs"] exI [of _ "[?d] @ cs"]) simp
  ultimately show ?thesis by blast
qed

lemma with_element_index:
  assumes r: "reads r t p s" and acc: "index_data t i (memory s) p = Inr (q, u)" and "q \<noteq> 0" and i: "int i \<le> 2 ^ 31"
    and f: "\<And>e s1. reads e u q s1 \<Longrightarrow> memory s1 = memory s \<Longrightarrow> \<exists>s2. f e s1 = (Inr v, s2) \<and> scratch s1 s2"
  shows "\<exists>s'. with_element (ref_index r (int i)) f s = (Inr v, s') \<and> scratch s s'"
proof -
  have "size_of_long (int i) = i" using i by (simp add: size_of_long_def)
  then have "ref_index r (int i) s = make_subref r (\<lambda>t m data. index_data t i m data) s"
    using reads_not_null [OF r] by (simp add: ref_index_def sx_bind_def)
  then have "with_element (ref_index r (int i)) f s = with_ref (make_subref r (\<lambda>t m data. index_data t i m data)) (\<lambda>sub. with_ref (copy_ref True False sub) f) s"
    by (simp add: with_element_def with_ref_def [of "ref_index _ _"] with_ref_def [of "make_subref _ _"] sx_bind_def)
  moreover have "\<exists>s'. with_ref (make_subref r (\<lambda>t m data. index_data t i m data)) (\<lambda>sub. with_ref (copy_ref True False sub) f) s = (Inr v, s') \<and> scratch s s'"
    by (rule with_subref [OF r _ assms(3) f]) (simp_all add: acc)
  ultimately show ?thesis by simp
qed

lemma with_element_member:
  assumes r: "reads r t p s" and acc: "member_data t name (memory s) p = Inr (q, u)" and "q \<noteq> 0"
    and f: "\<And>e s1. reads e u q s1 \<Longrightarrow> memory s1 = memory s \<Longrightarrow> \<exists>s2. f e s1 = (Inr v, s2) \<and> scratch s1 s2"
  shows "\<exists>s'. with_element (ref_member r name) f s = (Inr v, s') \<and> scratch s s'"
proof -
  have "ref_member r name s = make_subref r (\<lambda>t m data. member_data t name m data) s"
    using reads_not_null [OF r] by (simp add: ref_member_def sx_bind_def)
  then have "with_element (ref_member r name) f s
      = with_ref (make_subref r (\<lambda>t m data. member_data t name m data)) (\<lambda>sub. with_ref (copy_ref True False sub) f) s"
    by (simp add: with_element_def with_ref_def [of "ref_member _ _"] with_ref_def [of "make_subref _ _"] sx_bind_def)
  moreover have "\<exists>s'. with_ref (make_subref r (\<lambda>t m data. member_data t name m data)) (\<lambda>sub. with_ref (copy_ref True False sub) f) s = (Inr v, s') \<and> scratch s s'"
    by (rule with_subref [OF r _ assms(3) f]) (simp_all add: acc)
  ultimately show ?thesis by simp
qed

section \<open>The value of data in memory\<close>

definition json_array :: "json list \<Rightarrow> json" where
  "json_array xs = (if xs = [] then J_null else J_array xs)"

definition json_object :: "(string \<times> json) list \<Rightarrow> json" where
  "json_object kvs = (if kvs = [] then J_null else J_object (fold (\<lambda>(k, v). map_assign k v) kvs []))"

fun scalar_at :: "scalar_kind \<Rightarrow> nat \<Rightarrow> mem \<Rightarrow> addr \<Rightarrow> json" where
  "scalar_at UNSIGNED n m p = (if n = 1 then J_string [char_of (unat (m p))] else J_unsigned (read_uint m p n))"
| "scalar_at SIGNED n m p = J_integer (read_sint m p n)"
| "scalar_at FLOAT n m p = J_float (if n = 4 then bits64 (val32 (of_nat (read_uint m p 4))) else of_nat (read_uint m p 8))"
| "scalar_at _ n m p = J_null"

fun json_at :: "mem \<Rightarrow> dt \<Rightarrow> addr \<Rightarrow> json" where
  "json_at m (Scalar d _) p = scalar_at (sc_kind d) (sc_dense_size d) m p"
| "json_at m (Array sub n start _ _) p =
     (if is_char sub then J_array [J_string (map (\<lambda>i. char_of (unat (m (p + (start + i))))) [0 ..< n])]
      else json_array (map (\<lambda>i. json_at m sub (p + buffersize sub * (start + i))) [0 ..< n]))"
| "json_at m (Record ms _ _) p = json_object (map (\<lambda>f. (mname f, json_at m (mtype f) (p + displacement f))) ms)"
| "json_at m (Tuple es _ _) p = json_array (map (\<lambda>e. json_at m (etype e) (p + offset e)) es)"
| "json_at m (Pointer sub _ _ _) p = json_at m sub (read_ptr m p)"

text \<open>
  What the plugin can write: scalars of the usual sizes, arrays without sparse parts and of a length and an extent that the counters can hold, records without records as members and
  with distinct names, tuples without tuples as elements.
\<close>

fun scalar_size_ok :: "scalar_kind \<Rightarrow> nat \<Rightarrow> bool" where
  "scalar_size_ok UNSIGNED n \<longleftrightarrow> n \<in> {1, 2, 4, 8}"
| "scalar_size_ok SIGNED n \<longleftrightarrow> n \<in> {1, 2, 4, 8}"
| "scalar_size_ok FLOAT n \<longleftrightarrow> n \<in> {4, 8}"
| "scalar_size_ok _ n \<longleftrightarrow> False"

fun writable :: "dt \<Rightarrow> bool" where
  "writable (Scalar d _) \<longleftrightarrow> scalar_size_ok (sc_kind d) (sc_dense_size d)"
| "writable (Array sub n start k _) \<longleftrightarrow> n \<le> k \<and> int n \<le> 2 ^ 31 \<and> start + n < size_max \<and> buffersize sub * (start + n) < size_max \<and> writable sub"
| "writable (Record ms _ _) \<longleftrightarrow> distinct (map mname ms)
     \<and> (\<forall>f \<in> set ms. c_str (mname f) = mname f \<and> writable (mtype f) \<and> (case mtype f of Record _ _ _ \<Rightarrow> False | _ \<Rightarrow> True))"
| "writable (Tuple es _ _) \<longleftrightarrow> int (length es) \<le> 2 ^ 31 \<and> (\<forall>e \<in> set es. writable (etype e) \<and> (case etype e of Tuple _ _ _ \<Rightarrow> False | _ \<Rightarrow> True))"
| "writable (Pointer sub _ _ _) \<longleftrightarrow> writable sub"

text \<open>No pointer in the data is null.\<close>

fun pointers_set :: "mem \<Rightarrow> dt \<Rightarrow> addr \<Rightarrow> bool" where
  "pointers_set m (Scalar _ _) p \<longleftrightarrow> True"
| "pointers_set m (Array sub n start _ _) p \<longleftrightarrow> (\<forall>i < n. pointers_set m sub (p + buffersize sub * (start + i)))"
| "pointers_set m (Record ms _ _) p \<longleftrightarrow> (\<forall>f \<in> set ms. pointers_set m (mtype f) (p + displacement f))"
| "pointers_set m (Tuple es _ _) p \<longleftrightarrow> (\<forall>e \<in> set es. pointers_set m (etype e) (p + offset e))"
| "pointers_set m (Pointer sub _ _ _) p \<longleftrightarrow> read_ptr m p \<noteq> 0 \<and> pointers_set m sub (read_ptr m p)"

section \<open>The loops\<close>

lemma emplace_json_array [simp]: "emplace_back (json_array xs) v = Inr (json_array (xs @ [v]))"
  by (simp add: emplace_back_def json_array_def)

lemma assign_json_object [simp]: "object_assign (json_object kvs) k v = Inr (json_object (kvs @ [(k, v)]))"
  by (simp add: object_assign_def json_object_def)

lemma json_loop_reads:
  assumes "\<And>i s1. i \<in> set is \<Longrightarrow> scratch s s1 \<Longrightarrow> \<exists>s2. f i s1 = (Inr (v i), s2) \<and> scratch s1 s2"
  shows "scratch s s0 \<Longrightarrow> \<exists>s'. json_loop f is (json_array xs) s0 = (Inr (json_array (xs @ map v is)), s') \<and> scratch s s'"
  using assms
proof (induction "is" arbitrary: xs s0)
  case (Cons i js)
  then obtain s1 where s1: "f i s0 = (Inr (v i), s1)" "scratch s0 s1" by force
  then show ?case using Cons.IH [of s1 "xs @ [v i]", OF scratch_trans [OF Cons.prems(1) s1(2)]] Cons.prems(2) by (auto simp: sx_bind_def)
qed simp

lemma int_for_reads:
  assumes "int n \<le> 2 ^ 31" "\<And>i s1. i < n \<Longrightarrow> scratch s s1 \<Longrightarrow> \<exists>s2. f i s1 = (Inr (v i), s2) \<and> scratch s1 s2"
  shows "\<exists>s'. int_for f n s = (Inr (json_array (map v [0 ..< n])), s') \<and> scratch s s'"
  using json_loop_reads [of "[0 ..< n]" s f v s "[]"] assms scratch_refl [of s] by (simp add: int_for_def json_array_def)

lemma member_loop_reads:
  assumes "\<And>m s1. m \<in> set ms \<Longrightarrow> scratch s s1 \<Longrightarrow> \<exists>s2. f m s1 = (Inr (v m), s2) \<and> scratch s1 s2"
  shows "scratch s s0 \<Longrightarrow> \<exists>s'. member_loop f ms (json_object kvs) s0 = (Inr (json_object (kvs @ map (\<lambda>m. (mname m, v m)) ms)), s') \<and> scratch s s'"
  using assms
proof (induction ms arbitrary: kvs s0)
  case (Cons m ms)
  then obtain s1 where s1: "f m s0 = (Inr (v m), s1)" "scratch s0 s1" by force
  then show ?case using Cons.IH [of s1 "kvs @ [(mname m, v m)]", OF scratch_trans [OF Cons.prems(1) s1(2)]] Cons.prems(2) by (auto simp: sx_bind_def)
qed simp

lemma char_loop_reads:
  assumes r: "reads r (Array sub n start k a) p s" and ok: "writable (Array sub n start k a)" "is_char sub"
  shows "scratch s s0 \<Longrightarrow> set is \<subseteq> {..<n} \<Longrightarrow>
    \<exists>s'. char_loop r is str s0 = (Inr (str @ map (\<lambda>i. char_of (unat (memory s (p + (start + i))))) is), s') \<and> scratch s s'"
proof (induction "is" arbitrary: str s0)
  case (Cons i js)
  have sub: "buffersize sub = 1" using ok(2) by (auto simp: is_char_def split: dt.splits)
  let ?c = "char_of (unat (memory s (p + (start + i))))" and ?f = "\<lambda>e. sx_bind (ref_get e) (\<lambda>p. sx_get (\<lambda>s. char_of (unat (memory s p)) :: char))"
  have r0: "reads r (Array sub n start k a) p s0" "memory s0 = memory s" using reads_scratch [OF r Cons.prems(1)] by simp_all
  have i: "i < n" "int i \<le> 2 ^ 31" using Cons.prems(2) ok by auto
  have "index_data (Array sub n start k a) i (memory s0) p = Inr (p + (start + i), sub)"
    using i ok sub by (simp add: Array_index_data_def sz_mul_def sz_add_def)
  moreover have "p + (start + i) \<noteq> 0" using r by (simp add: reads_def)
  moreover have "\<exists>s2. ?f e s1 = (Inr ?c, s2) \<and> scratch s1 s2" if "reads e sub (p + (start + i)) s1" "memory s1 = memory s0" for e s1
    using that r0(2) reads_not_null [OF that(1)] scratch_refl by (auto simp: ref_get_def sx_bind_def reads_def)
  ultimately obtain s1 where s1: "with_element (ref_index r (int i)) ?f s0 = (Inr ?c, s1)" "scratch s0 s1"
    using with_element_index [OF r0(1) _ _ i(2), of _ sub ?f ?c] by blast
  then show ?case using Cons.IH [of s1 "str @ [?c]", OF scratch_trans [OF Cons.prems(1) s1(2)]] Cons.prems(2) by (auto simp: sx_bind_def)
qed simp

section \<open>Reading is right\<close>

lemma write_scalar_reads:
  assumes r: "reads r (Scalar d a) p s" and ok: "writable (Scalar d a)"
  shows "write_scalar_to_json r s = (Inr (json_at (memory s) (Scalar d a) p), s)"
proof -
  obtain c where c: "r_content (refs s ! r) = Some c" "c_data (contents s ! c) = p" using r by (auto simp: reads_def)
  have "scalar_value r s = (scalar_read d (Scalar d a) (memory s) p, s)"
    using c by (simp add: scalar_value_def reads_type [OF r])
  then show ?thesis using ok
    by (cases "sc_kind d") (auto simp: write_scalar_to_json_def reads_type [OF r] sx_bind_def scalar_read_def scalar_to_json_def Scalar_buffersize_def)
qed

definition write_value :: "nat \<Rightarrow> dt \<Rightarrow> nat \<Rightarrow> ('x, json) store_op" where
  "write_value n t r =
     (case t of Scalar _ _ \<Rightarrow> write_scalar_to_json r | Array _ _ _ _ _ \<Rightarrow> write_array_to_json n r | Record _ _ _ \<Rightarrow> write_record_to_json n r
      | Tuple _ _ _ \<Rightarrow> write_tuple_to_json n r | Pointer _ _ _ _ \<Rightarrow> write_pointer_to_json n r)"

lemma choose_write_value: "reads r t p s \<Longrightarrow> choose_type_and_dump_to_json (Suc n) r s = write_value n t r s"
  by (simp add: reads_type write_value_def sx_bind_def split: dt.split)

definition reads_right :: "'x itself \<Rightarrow> dt \<Rightarrow> bool" where
  "reads_right _ t \<longleftrightarrow> (\<forall>n r p (s :: 'x store_scheme). reads r t p s \<longrightarrow> writable t \<longrightarrow> pointers_set (memory s) t p \<longrightarrow> 2 * size t \<le> n \<longrightarrow>
     (\<exists>s'. write_value n t r s = (Inr (json_at (memory s) t p), s') \<and> scratch s s'))"

lemma reads_rightD:
  assumes "reads_right TYPE('x) t" "reads r t p s" "writable t" "pointers_set (memory s) t p" "2 * size t \<le> n"
  shows "\<exists>s'. write_value n t r (s :: 'x store_scheme) = (Inr (json_at (memory s) t p), s') \<and> scratch s s'"
  using assms by (simp add: reads_right_def)

lemma array_right:
  assumes sub: "reads_right TYPE('x) sub"
  shows "reads_right TYPE('x) (Array sub m start k a)"
  unfolding reads_right_def
proof (intro allI impI)
  fix n r p and s :: "'x store_scheme"
  let ?t = "Array sub m start k a"
  assume r: "reads r ?t p s" and ok: "writable ?t" and ptr: "pointers_set (memory s) ?t p" and n: "2 * size ?t \<le> n"
  then obtain n' where n': "n = Suc n'" "2 * size sub \<le> n'" by (cases n) auto
  show "\<exists>s'. write_value n ?t r s = (Inr (json_at (memory s) ?t p), s') \<and> scratch s s'"
  proof (cases "is_char sub")
    case True
    obtain s' where "char_loop r [0 ..< m] [] s = (Inr (map (\<lambda>i. char_of (unat (memory s (p + (start + i))))) [0 ..< m]), s')" "scratch s s'"
      using char_loop_reads [OF r ok True scratch_refl, of "[0 ..< m]" "[]"] by (auto simp: atLeast0LessThan)
    then show ?thesis using True ok n' by (simp add: write_value_def reads_type [OF r] sx_bind_def emplace_back_def)
  next
    case False
    let ?f = "\<lambda>i. with_element (ref_index r (int i)) (\<lambda>e. write_value n' sub e)"
    have "\<exists>s2. ?f i s1 = (Inr (json_at (memory s) sub (p + buffersize sub * (start + i))), s2) \<and> scratch s1 s2" if i: "i < m" and s1: "scratch s s1" for i and s1 :: "'x store_scheme"
    proof (rule with_element_index)
      have r1: "reads r ?t p s1" "memory s1 = memory s" using reads_scratch [OF r s1] by simp_all
      then show "reads r ?t p s1" by simp
      have "buffersize sub * (start + i) \<le> buffersize sub * (start + m)" using i by simp
      also have "\<dots> < size_max" using ok by simp
      finally have "buffersize sub * (start + i) < size_max" .
      then show "index_data ?t i (memory s1) p = Inr (p + buffersize sub * (start + i), sub)"
        using i ok by (simp add: Array_index_data_def sz_mul_def sz_add_def)
      show "p + buffersize sub * (start + i) \<noteq> 0" using r by (simp add: reads_def)
      show "int i \<le> 2 ^ 31" using i ok by simp
      show "\<exists>s3. write_value n' sub e s2 = (Inr (json_at (memory s) sub (p + buffersize sub * (start + i))), s3) \<and> scratch s2 s3"
        if "reads e sub (p + buffersize sub * (start + i)) s2" "memory s2 = memory s1" for e and s2 :: "'x store_scheme"
        using reads_rightD [OF sub that(1) _ _ n'(2)] that(2) r1(2) ok ptr i by simp
    qed
    then obtain s' where "int_for ?f m s = (Inr (json_array (map (\<lambda>i. json_at (memory s) sub (p + buffersize sub * (start + i))) [0 ..< m])), s')" "scratch s s'"
      using int_for_reads [of m s ?f "\<lambda>i. json_at (memory s) sub (p + buffersize sub * (start + i))"] ok by auto
    moreover have "write_value n ?t r s = int_for ?f m s"
      using False n' by (simp add: write_value_def [of _ ?t] reads_type [OF r] sx_bind_def) (cases sub; simp add: write_value_def)
    ultimately show ?thesis using False by simp
  qed
qed

lemma record_right:
  assumes sub: "\<And>f. f \<in> set ms \<Longrightarrow> reads_right TYPE('x) (mtype f)"
  shows "reads_right TYPE('x) (Record ms b a)"
  unfolding reads_right_def
proof (intro allI impI)
  fix n r p and s :: "'x store_scheme"
  let ?t = "Record ms b a"
  assume r: "reads r ?t p s" and ok: "writable ?t" and ptr: "pointers_set (memory s) ?t p" and n: "2 * size ?t \<le> n"
  then obtain n' where n': "n = Suc n'" "2 * members_size ms \<le> n'" by (cases n) auto
  let ?f = "\<lambda>m. case mtype m of
      Scalar _ _ \<Rightarrow> with_element (ref_member r (c_str (mname m))) write_scalar_to_json
    | Array _ _ _ _ _ \<Rightarrow> with_element (ref_member r (c_str (mname m))) (\<lambda>e. write_array_to_json n' e)
    | Pointer _ _ _ _ \<Rightarrow> with_element (ref_member r (c_str (mname m))) (\<lambda>e. write_pointer_to_json n' e)
    | Tuple _ _ _ \<Rightarrow> with_element (ref_member r (c_str (mname m))) (\<lambda>e. write_tuple_to_json n' e)
    | _ \<Rightarrow> sx_fail (Throw (Type_error ''Unknown member datatype passed to json''))"
  have "\<exists>s2. ?f m s1 = (Inr (json_at (memory s) (mtype m) (p + displacement m)), s2) \<and> scratch s1 s2" if m: "m \<in> set ms" and s1: "scratch s s1" for m and s1 :: "'x store_scheme"
  proof -
    have r1: "reads r ?t p s1" "memory s1 = memory s" using reads_scratch [OF r s1] by simp_all
    have mo: "c_str (mname m) = mname m" "writable (mtype m)" "pointers_set (memory s) (mtype m) (p + displacement m)" "2 * size (mtype m) \<le> n'"
      using m ok ptr n'(2) size_mtype [OF m] by auto
    have "find (\<lambda>f. mname m = mname f) ms = Some m" using ok m by (simp add: find_name)
    then have acc: "member_data ?t (mname m) (memory s1) p = Inr (p + displacement m, mtype m)" by (simp add: Record_member_data_def)
    have "\<exists>s2. with_element (ref_member r (mname m)) (\<lambda>e. write_value n' (mtype m) e) s1
        = (Inr (json_at (memory s) (mtype m) (p + displacement m)), s2) \<and> scratch s1 s2"
    proof (rule with_element_member [OF r1(1) acc])
      show "p + displacement m \<noteq> 0" using r by (simp add: reads_def)
      show "\<exists>s3. write_value n' (mtype m) e s2 = (Inr (json_at (memory s) (mtype m) (p + displacement m)), s3) \<and> scratch s2 s3"
        if "reads e (mtype m) (p + displacement m) s2" "memory s2 = memory s1" for e and s2 :: "'x store_scheme"
        using reads_rightD [OF sub [OF m] that(1) mo(2) _ mo(4)] that(2) r1(2) mo(3) by simp
    qed
    then show ?thesis using ok m mo(1) by (cases "mtype m") (auto simp: write_value_def)
  qed
  then have "\<exists>s'. member_loop ?f ms (json_object []) s = (Inr (json_object ([] @ map (\<lambda>m. (mname m, json_at (memory s) (mtype m) (p + displacement m))) ms)), s') \<and> scratch s s'"
    by (intro member_loop_reads scratch_refl)
  then show "\<exists>s'. write_value n ?t r s = (Inr (json_at (memory s) ?t p), s') \<and> scratch s s'"
    using n' by (simp add: write_value_def reads_type [OF r] sx_bind_def json_object_def)
qed

lemma tuple_right:
  assumes sub: "\<And>e. e \<in> set es \<Longrightarrow> reads_right TYPE('x) (etype e)"
  shows "reads_right TYPE('x) (Tuple es b a)"
  unfolding reads_right_def
proof (intro allI impI)
  fix n r p and s :: "'x store_scheme"
  let ?t = "Tuple es b a"
  assume r: "reads r ?t p s" and ok: "writable ?t" and ptr: "pointers_set (memory s) ?t p" and n: "2 * size ?t \<le> n"
  then obtain n' where n': "n = Suc n'" "2 * elements_size es \<le> n'" by (cases n) auto
  let ?v = "\<lambda>i. json_at (memory s) (etype (es ! i)) (p + offset (es ! i))"
  let ?f = "\<lambda>i. case etype (es ! i) of
      Scalar _ _ \<Rightarrow> with_element (ref_index r (int i)) write_scalar_to_json
    | Array _ _ _ _ _ \<Rightarrow> with_element (ref_index r (int i)) (\<lambda>e. write_array_to_json n' e)
    | Pointer _ _ _ _ \<Rightarrow> with_element (ref_index r (int i)) (\<lambda>e. write_pointer_to_json n' e)
    | Record _ _ _ \<Rightarrow> with_element (ref_index r (int i)) (\<lambda>e. write_record_to_json n' e)
    | _ \<Rightarrow> sx_fail (Throw (Type_error ''Unknown tuple subtype passed to json, currently supprting scalar and array subtypes.''))"
  have "\<exists>s2. ?f i s1 = (Inr (?v i), s2) \<and> scratch s1 s2" if i: "i < length es" and s1: "scratch s s1" for i and s1 :: "'x store_scheme"
  proof -
    let ?e = "es ! i"
    have r1: "reads r ?t p s1" "memory s1 = memory s" using reads_scratch [OF r s1] by simp_all
    have eo: "?e \<in> set es" "writable (etype ?e)" "pointers_set (memory s) (etype ?e) (p + offset ?e)" "2 * size (etype ?e) \<le> n'"
      using i ok ptr n'(2) size_etype [of ?e es] by auto
    have "\<exists>s2. with_element (ref_index r (int i)) (\<lambda>e. write_value n' (etype ?e) e) s1 = (Inr (?v i), s2) \<and> scratch s1 s2"
    proof (rule with_element_index [OF r1(1)])
      show "index_data ?t i (memory s1) p = Inr (p + offset ?e, etype ?e)" using i by (simp add: Tuple_index_data_def)
      show "p + offset ?e \<noteq> 0" using r by (simp add: reads_def)
      show "int i \<le> 2 ^ 31" using i ok by simp
      show "\<exists>s3. write_value n' (etype ?e) e s2 = (Inr (?v i), s3) \<and> scratch s2 s3"
        if "reads e (etype ?e) (p + offset ?e) s2" "memory s2 = memory s1" for e and s2 :: "'x store_scheme"
        using reads_rightD [OF sub [OF eo(1)] that(1) eo(2) _ eo(4)] that(2) r1(2) eo(3) by simp
    qed
    then show ?thesis using ok eo(1) by (cases "etype ?e") (auto simp: write_value_def)
  qed
  then have "\<exists>s'. int_for ?f (length es) s = (Inr (json_array (map ?v [0 ..< length es])), s') \<and> scratch s s'"
    using int_for_reads [of "length es" s ?f ?v] ok by auto
  moreover have "map ?v [0 ..< length es] = map (\<lambda>e. json_at (memory s) (etype e) (p + offset e)) es"
    by (rule nth_equalityI) simp_all
  ultimately show "\<exists>s'. write_value n ?t r s = (Inr (json_at (memory s) ?t p), s') \<and> scratch s s'"
    using n' by (simp add: write_value_def reads_type [OF r] sx_bind_def)
qed

lemma pointer_right:
  assumes sub: "reads_right TYPE('x) sub"
  shows "reads_right TYPE('x) (Pointer sub cp ds a)"
  unfolding reads_right_def
proof (intro allI impI)
  fix n r p and s :: "'x store_scheme"
  let ?t = "Pointer sub cp ds a"
  assume r: "reads r ?t p s" and ok: "writable ?t" and ptr: "pointers_set (memory s) ?t p" and n: "2 * size ?t \<le> n"
  then obtain n' where n': "n = Suc (Suc n')" "2 * size sub \<le> n'" by (cases n; cases "n - 1") auto
  let ?v = "json_at (memory s) sub (read_ptr (memory s) p)"
  let ?g = "\<lambda>d. sx_bind (is_null d) (\<lambda>null.
    if null then sx_fail (Throw (Value_error (''Can'' @ [CHR 0x27] @ ''t dereference with read permissions'')))
    else with_ref (copy_ref True False d) (\<lambda>e. choose_type_and_dump_to_json (Suc n') e))"
  have "\<exists>s'. with_ref (make_subref r (\<lambda>t m data. dereference_data t m data)) ?g s = (Inr ?v, s') \<and> scratch s s'"
  proof (rule with_subref [OF r])
    show "dereference_data ?t (memory s) p = Inr (read_ptr (memory s) p, sub)" by (simp add: Pointer_dereference_data_def)
    show "read_ptr (memory s) p \<noteq> 0" using ptr by simp
    show "\<exists>s2. choose_type_and_dump_to_json (Suc n') e s1 = (Inr ?v, s2) \<and> scratch s1 s2"
      if "reads e sub (read_ptr (memory s) p) s1" "memory s1 = memory s" for e and s1 :: "'x store_scheme"
      unfolding choose_write_value [OF that(1)] using reads_rightD [OF sub that(1) _ _ n'(2)] that(2) ok ptr by simp
    show "?g d s1 = with_ref (copy_ref True False d) (\<lambda>e. choose_type_and_dump_to_json (Suc n') e) s1"
      if "r_content (refs s1 ! d) = Some c" "c_data (contents s1 ! c) \<noteq> 0" for d c and s1 :: "'x store_scheme"
      using that by (simp add: is_null_def sx_bind_def del: choose_type_and_dump_to_json.simps)
  qed
  moreover have "ref_dereference r s = make_subref r (\<lambda>t m data. dereference_data t m data) s"
    using reads_not_null [OF r] r by (simp add: ref_dereference_def sx_bind_def reads_type [OF r]) (simp add: reads_def)
  ultimately show "\<exists>s'. write_value n ?t r s = (Inr (json_at (memory s) ?t p), s') \<and> scratch s s'"
    using n'(1) by (simp add: write_value_def with_ref_def [of "ref_dereference _"] with_ref_def [of "make_subref _ _"] sx_bind_def
      del: choose_type_and_dump_to_json.simps)
qed

lemma reads_right: "reads_right TYPE('x) t"
proof (induction "size t" arbitrary: t rule: less_induct)
  case less
  show ?case
  proof (cases t)
    case (Scalar d a)
    then show ?thesis
      using write_scalar_reads scratch_refl by (fastforce simp: reads_right_def write_value_def simp del: json_at.simps writable.simps)
  next
    case (Record ms b a)
    then show ?thesis using less size_mtype by (auto intro!: record_right)
  next
    case (Tuple es b a)
    then show ?thesis using less size_etype by (auto intro!: tuple_right)
  qed (use less in \<open>auto intro!: array_right pointer_right\<close>)
qed

lemma write_value_total:
  assumes "reads r t p s" "writable t" "pointers_set (memory s) t p"
  shows "\<exists>s'. choose_type_and_dump_to_json (json_fuel t) r s = (Inr (json_at (memory s) t p), s') \<and> scratch s s'"
proof -
  have "json_fuel t = Suc (2 * size t + 1)" by (simp add: json_fuel_def)
  then show ?thesis
    using choose_write_value [OF assms(1), of "2 * size t + 1"] reads_rightD [OF reads_right assms, of "2 * size t + 1"]
    by (simp del: choose_type_and_dump_to_json.simps)
qed

text \<open>
  (C20) Reading is right: with a reference that may read, the plugin makes of every type that it can write exactly the value of the data in memory, through all sub-references and
  pointers. The bound on the depth is enough, memory and locks are as before, and what is left are dead references.
\<close>

theorem json_reads_data:
  assumes "reads r t p s" "writable t" "pointers_set (memory s) t p"
  shows "\<exists>s'. choose_type_and_dump_to_json (json_fuel t) r s = (Inr (json_at (memory s) t p), s') \<and> scratch s s'"
  by (rule write_value_total [OF assms])

text \<open>A record with an integer and a pointer to two characters.\<close>

definition sample_json_type :: dt where
  "sample_json_type = Record
     [Member 0 (Scalar \<lparr>sc_size = 4, sc_dense_size = 4, sc_align = 4, sc_kind = SIGNED, sc_copy = None, sc_destroy = None\<rparr> []) ''z'',
      Member 8 (Pointer (Array (Scalar \<lparr>sc_size = 1, sc_dense_size = 1, sc_align = 1, sc_kind = UNSIGNED, sc_copy = None, sc_destroy = None\<rparr> []) 2 0 2 [])
        None None []) ''a''] 16 []"

definition sample_json_memory :: mem where
  "sample_json_memory a = (if a = 16 then 5 else if a = 24 then 40 else if a = 40 then 104 else if a = 41 then 105 else 0)"

definition sample_json_store :: store where
  "sample_json_store = snd (make_ref True False 16 Keep sample_json_type True True (sample_store\<lparr>memory := sample_json_memory\<rparr>))"

lemma read_uint_unfold: "read_uint m p (n + 1) = unat (m p) + 256 * read_uint m (Suc p) n"
  by simp

lemma sample_json_five: "read_sint sample_json_memory 16 4 = 5"
proof -
  have "read_uint sample_json_memory 17 3 = 0" by (simp add: numeral_3_eq_3 sample_json_memory_def)
  then show ?thesis using read_uint_unfold [of sample_json_memory 16 3] by (simp add: read_sint_def sample_json_memory_def)
qed

lemma sample_json_reads: "reads 0 sample_json_type 16 sample_json_store"
  by (simp add: reads_def sample_json_store_def make_ref_def sample_store_def null_ref_def new_rdata_buffer_def new_rdata_def link_def upd_ref_def
    upd_buffer_def Referenced_buffer_def)

theorem json_reads_data_witness:
  "\<exists>s'. choose_type_and_dump_to_json (json_fuel sample_json_type) 0 sample_json_store
      = (Inr (J_object [(''a'', J_array [J_string ''hi'']), (''z'', J_integer 5)]), s') \<and> scratch sample_json_store s'"
proof -
  have m: "memory sample_json_store = sample_json_memory"
    by (simp add: sample_json_store_def make_ref_def sample_store_def null_ref_def new_rdata_buffer_def new_rdata_def link_def upd_ref_def upd_buffer_def
      Referenced_buffer_def)
  have "writable sample_json_type" by (simp add: sample_json_type_def c_str_def Scalar_buffersize_def)
  moreover have ptr: "read_ptr sample_json_memory 24 = 40" by (simp add: read_ptr_def sample_json_memory_def upt_rec)
  moreover from ptr have "pointers_set sample_json_memory sample_json_type 16" by (simp add: sample_json_type_def)
  moreover have "json_at sample_json_memory sample_json_type 16 = J_object [(''a'', J_array [J_string ''hi'']), (''z'', J_integer 5)]"
  proof -
    have "char_of (104 :: nat) = CHR ''h''" "char_of (105 :: nat) = CHR ''i''" by code_simp+
    moreover have "\<not> ''z'' < ''a''" "''a'' < ''z''" by code_simp+
    ultimately show ?thesis
      using ptr sample_json_five by (simp add: sample_json_type_def is_char_def Scalar_buffersize_def json_object_def sample_json_memory_def upt_rec)
  qed
  ultimately show ?thesis using json_reads_data [OF sample_json_reads] m by simp
qed

section \<open>Data in files\<close>

text \<open>No function is registered for events.\<close>

definition quiet :: "nat \<Rightarrow> 'x world_scheme \<Rightarrow> bool" where
  "quiet ctx s \<longleftrightarrow> m_event_callbacks (the_context ctx s) = [] \<and> m_named_event_callbacks (the_context ctx s) = []"

lemma quiet_event: "quiet ctx s \<Longrightarrow> event env ctx name s = (Inr (), s)"
  by (simp add: quiet_def event_def notify_event_def gather_def sx_bind_def rethrow_errors_def)

lemma write_document_docs:
  assumes "j_open jenv f" "j_create jenv f" "files s f = (if docs = [] then None else Some (file_of docs))" "json_text (j_to_chars jenv) j = Inr d"
  shows "write_document jenv f j s = (Inr (), s\<lparr>files := (files s)(f := Some (file_of (docs @ [d])))\<rparr>)"
  using assms write_document_first [OF assms(2) _ assms(4), of s] write_document_next [OF assms(1) _ _ assms(4), of s docs] by (cases "docs = []") simp_all

section \<open>Types that are refused\<close>

text \<open>A record inside a record, a tuple inside a tuple and a sparse array end with an exception.\<close>

lemma nested_types_refused:
  "map (\<lambda>t. case fst (sx_bind (make_ref True False 16 Keep t True True) (choose_type_and_dump_to_json (json_fuel t)) sample_store) of
      Inl (Throw (Error_impl st _)) \<Rightarrow> Some st | _ \<Rightarrow> None)
    [Record [Member 0 (Record [Member 0 (sample_scalar 4) ''y''] 4 []) ''x''] 4 [],
     Tuple [Element 0 (Tuple [Element 0 (sample_scalar 4)] 4 [])] 4 [],
     Array (sample_scalar 4) 1 0 0 []]
    = [Some PDI_ERR_TYPE, Some PDI_ERR_TYPE, Some PDI_ERR_VALUE]"
  by code_simp

end
