(* ===== verification/Timer_Plugin.thy ===== *)
theory Timer_Plugin
  imports User_Code_Plugin C_Arith "HOL-Library.AList"
begin

text \<open>
  The plugins \<open>timer\<close> (\<open>timer.cxx\<close>), with timers that events start and stop, and \<open>trace\<close> (\<open>trace.cxx\<close>), which only registers functions that log. The
  readings of the clock are a parameter, in nanoseconds; the lemmas show that a timer accumulates the intervals between a start and the stop
  that follows it.
\<close>

section \<open>Timers\<close>

record timer_info =
  accumulated_time :: f64
  start_time :: "int option"

text \<open>
  The registered functions start or stop a timer; they are kept in the order of registration. The number of readings of the clock so far and the
  files are part of the state.
\<close>

record timer_world = world +
  m_timers :: "(string \<times> timer_info) list"
  m_output_path :: string
  timer_functions :: "(bool \<times> string) list"
  clock_reads :: nat
  timer_files :: "string \<Rightarrow> string option"

type_synonym ('x, 'a) timer_op = "('x timer_world_scheme, exn, 'a) sx"

definition clock_now :: "(nat \<Rightarrow> int) \<Rightarrow> ('x, int) timer_op" where
  "clock_now clock =
     sx_bind (sx_get clock_reads) (\<lambda>k. sx_bind (sx_modify (\<lambda>s. s\<lparr>clock_reads := Suc k\<rparr>)) (\<lambda>_. sx_return (clock k)))"

definition put_timer :: "string \<Rightarrow> timer_info \<Rightarrow> 'x timer_world_scheme \<Rightarrow> 'x timer_world_scheme" where
  "put_timer name info s = s\<lparr>m_timers := AList.update name info (m_timers s)\<rparr>"

text \<open>\<open>duration<double>\<close> of a number of nanoseconds.\<close>

definition seconds :: "int \<Rightarrow> f64" where
  "seconds ns = of_int (fp_div 53 11 (fp_encode 53 11 (f_of_int ns)) (fp_encode 53 11 (f_of_int 1000000000)))"

definition add_time :: "f64 \<Rightarrow> f64 \<Rightarrow> f64" where
  "add_time x y = of_int (fp_add 53 11 (uint x) (uint y))"

definition startTimer :: "(nat \<Rightarrow> int) \<Rightarrow> string \<Rightarrow> ('x, unit) timer_op" where
  "startTimer clock name =
     sx_bind (sx_modify (\<lambda>s. if map_of (m_timers s) name = None then put_timer name \<lparr>accumulated_time = 0, start_time = None\<rparr> s else s)) (\<lambda>_.
     sx_bind (sx_get (\<lambda>s. the (map_of (m_timers s) name))) (\<lambda>timer.
     if start_time timer \<noteq> None then sx_return ()
     else sx_bind (clock_now clock) (\<lambda>t. sx_modify (put_timer name (timer\<lparr>start_time := Some t\<rparr>)))))"

definition stopTimer :: "(nat \<Rightarrow> int) \<Rightarrow> string \<Rightarrow> ('x, unit) timer_op" where
  "stopTimer clock name =
     sx_bind (sx_get (\<lambda>s. map_of (m_timers s) name)) (\<lambda>it.
     case it of
       None \<Rightarrow> sx_return ()
     | Some timer \<Rightarrow>
         (case start_time timer of
            None \<Rightarrow> sx_return ()
          | Some start \<Rightarrow>
              sx_bind (clock_now clock) (\<lambda>end_time.
              sx_modify (put_timer name (timer\<lparr>accumulated_time := add_time (accumulated_time timer) (seconds (end_time - start)),
                start_time := None\<rparr>)))))"

definition run_timer :: "(nat \<Rightarrow> int) \<Rightarrow> nat \<Rightarrow> ('x, unit) timer_op" where
  "run_timer clock k =
     sx_bind (sx_get timer_functions) (\<lambda>fs.
     if k < length fs then (if fst (fs ! k) then startTimer clock (snd (fs ! k)) else stopTimer clock (snd (fs ! k))) else sx_fail UB)"

section \<open>Output\<close>

text \<open>Whether a file can be opened and locked, the text of \<open>%f\<close>, and the order of the table.\<close>

record timer_env =
  t_open :: "string \<Rightarrow> bool"
  t_lock :: "string \<Rightarrow> bool"
  t_fixed :: "f64 \<Rightarrow> string"
  t_order :: "(string \<times> timer_info) list \<Rightarrow> (string \<times> timer_info) list"

definition timer_lines :: "timer_env \<Rightarrow> (string \<times> timer_info) list \<Rightarrow> string" where
  "timer_lines tenv ts = concat (map (\<lambda>(name, info). c_str name @ '','' @ t_fixed tenv (accumulated_time info) @ [CHR 0x0A]) (t_order tenv ts))"

definition output_timer :: "timer_env \<Rightarrow> ('x, unit) timer_op" where
  "output_timer tenv =
     sx_bind (sx_get m_output_path) (\<lambda>path.
     if path = ''cout'' then sx_return ()
     else
       let filename = c_str path in
       if \<not> t_open tenv filename then sx_return ()
       else
         sx_modify (\<lambda>s.
           let old = (case timer_files s filename of Some t \<Rightarrow> t | None \<Rightarrow> []);
               new = (if t_lock tenv filename then timer_lines tenv (m_timers s) else [])
           in s\<lparr>timer_files := (timer_files s)(filename := Some (old @ new))\<rparr>))"

definition timer_dtor :: "timer_env \<Rightarrow> ('x, unit) timer_op" where
  "timer_dtor tenv = output_timer tenv"

section \<open>Configuration\<close>

definition register_timer :: "nat \<Rightarrow> (nat \<Rightarrow> nat) \<Rightarrow> bool \<Rightarrow> string \<Rightarrow> string \<Rightarrow> ('x, unit) timer_op" where
  "register_timer ctx cb start timer_name ev =
     sx_bind (sx_get (\<lambda>s. length (timer_functions s))) (\<lambda>k.
     sx_bind (sx_modify (\<lambda>s. s\<lparr>timer_functions := timer_functions s @ [(start, timer_name)]\<rparr>)) (\<lambda>_.
     sx_bind (on_event ctx (cb k) ev) (\<lambda>_. sx_return ())))"

definition define_timer :: "nat \<Rightarrow> (nat \<Rightarrow> nat) \<Rightarrow> string \<Rightarrow> pc_tree \<Rightarrow> ('x, unit) timer_op" where
  "define_timer ctx cb timer_name val =
     sx_bind (sx_lift (is_map val)) (\<lambda>m.
     if m then
       sx_bind (sx_lift (tree_to_string (PC_get val [Key ''start'']))) (\<lambda>start_ev.
       sx_bind (register_timer ctx cb True timer_name start_ev) (\<lambda>_.
       sx_bind (sx_lift (tree_to_string (PC_get val [Key ''stop'']))) (\<lambda>stop_ev.
       register_timer ctx cb False timer_name stop_ev)))
     else
       opt_each val (\<lambda>sub_elem.
         sx_bind (sx_lift (tree_to_string sub_elem)) (\<lambda>name.
         sx_bind (register_timer ctx cb True timer_name (name @ ''_start_timer'')) (\<lambda>_.
         register_timer ctx cb False timer_name (name @ ''_stop_timer'')))))"

definition timer_entry :: "nat \<Rightarrow> (nat \<Rightarrow> nat) \<Rightarrow> pc_tree \<Rightarrow> nat \<Rightarrow> ('x, unit) timer_op" where
  "timer_entry ctx cb timer_item i =
     sx_bind (sx_lift (tree_to_string (PC_get timer_item [Map_key (int i)]))) (\<lambda>timer_name.
     if timer_name = ''output_to'' then
       sx_bind (sx_lift (tree_to_string (PC_get timer_item [Key ''output_to'']))) (\<lambda>p. sx_modify (\<lambda>s. s\<lparr>m_output_path := p\<rparr>))
     else define_timer ctx cb timer_name (PC_get_name timer_item timer_name))"

definition timer_ctor :: "nat \<Rightarrow> (nat \<Rightarrow> nat) \<Rightarrow> pc_tree \<Rightarrow> ('x, unit) timer_op" where
  "timer_ctor ctx cb spec_tree =
     (if PC_status spec_tree then sx_return ()
      else
        sx_bind (sx_lift (is_list spec_tree)) (\<lambda>l.
        if l then sx_each (\<lambda>i. timer_entry ctx cb (PC_get spec_tree [Idx (int i)]) 0) [0 ..< nat (len_dflt spec_tree 0)]
        else
          sx_bind (sx_lift (is_map spec_tree)) (\<lambda>m.
          if m then opt_each spec_tree (\<lambda>timer_item. sx_each (timer_entry ctx cb timer_item) [0 ..< nat (len_dflt timer_item 0)])
          else sx_return ())))"

section \<open>The plugin trace\<close>

definition trace_ctor :: "nat \<Rightarrow> nat \<Rightarrow> nat \<Rightarrow> nat \<Rightarrow> ('x, unit) world_op" where
  "trace_ctor ctx data_cb remove_cb event_cb =
     sx_bind (on_data ctx data_cb []) (\<lambda>_.
     sx_bind (on_data_remove ctx remove_cb []) (\<lambda>_.
     sx_bind (on_event ctx event_cb []) (\<lambda>_. sx_return ())))"

section \<open>What a timer accumulates\<close>

text \<open>The lengths of the intervals that calls of start (true) and stop (false) measure, from a number of readings of the clock.\<close>

fun intervals :: "(nat \<Rightarrow> int) \<Rightarrow> nat \<Rightarrow> int option \<Rightarrow> bool list \<Rightarrow> int list" where
  "intervals clock k running [] = []"
| "intervals clock k None (True # cs) = intervals clock (Suc k) (Some (clock k)) cs"
| "intervals clock k (Some t) (True # cs) = intervals clock k (Some t) cs"
| "intervals clock k None (False # cs) = intervals clock k None cs"
| "intervals clock k (Some t) (False # cs) = (clock k - t) # intervals clock (Suc k) None cs"

definition timer_of :: "string \<Rightarrow> 'x timer_world_scheme \<Rightarrow> timer_info" where
  "timer_of name s = (case map_of (m_timers s) name of Some i \<Rightarrow> i | None \<Rightarrow> \<lparr>accumulated_time = 0, start_time = None\<rparr>)"

definition call_timer :: "(nat \<Rightarrow> int) \<Rightarrow> string \<Rightarrow> bool \<Rightarrow> ('x, unit) timer_op" where
  "call_timer clock name start = (if start then startTimer clock name else stopTimer clock name)"

lemma timer_accumulates:
  "\<exists>s'. sx_each (call_timer clock name) calls s = (Inr (), s')
    \<and> accumulated_time (timer_of name s') = fold (\<lambda>d x. add_time x (seconds d)) (intervals clock (clock_reads s) (start_time (timer_of name s)) calls) (accumulated_time (timer_of name s))
    \<and> (\<forall>n. n \<noteq> name \<longrightarrow> timer_of n s' = timer_of n s)"
proof (induction calls arbitrary: s)
  case Nil
  show ?case by simp
next
  case (Cons c calls)
  define s1 where "s1 = snd (call_timer clock name c s)"
  have step: "call_timer clock name c s = (Inr (), s1)"
    by (auto simp: s1_def call_timer_def startTimer_def stopTimer_def clock_now_def sx_bind_def split: option.split)
  have upd: "timer_of n (put_timer m i t) = (if n = m then i else timer_of n t)" "clock_reads (put_timer m i t) = clock_reads t"
      "timer_of n (t\<lparr>clock_reads := k\<rparr>) = timer_of n t" for n m i k and t :: "'x timer_world_scheme"
    by (simp_all add: timer_of_def put_timer_def update_conv)
  have other: "n \<noteq> name \<Longrightarrow> timer_of n s1 = timer_of n s" for n
    by (auto simp: s1_def call_timer_def startTimer_def stopTimer_def clock_now_def sx_bind_def upd split: option.split)
  have same: "fold (\<lambda>d x. add_time x (seconds d)) (intervals clock (clock_reads s1) (start_time (timer_of name s1)) calls) (accumulated_time (timer_of name s1))
      = fold (\<lambda>d x. add_time x (seconds d)) (intervals clock (clock_reads s) (start_time (timer_of name s)) (c # calls)) (accumulated_time (timer_of name s))"
  proof (cases c)
    case True
    then show ?thesis
      by (cases "map_of (m_timers s) name"; cases "start_time (timer_of name s)")
        (auto simp: s1_def call_timer_def startTimer_def clock_now_def sx_bind_def upd update_conv put_timer_def timer_of_def)
  next
    case False
    then show ?thesis
      by (cases "map_of (m_timers s) name"; cases "start_time (timer_of name s)")
        (auto simp: s1_def call_timer_def stopTimer_def clock_now_def sx_bind_def upd timer_of_def update_conv put_timer_def)
  qed
  from Cons.IH [of s1] obtain s' where s': "sx_each (call_timer clock name) calls s1 = (Inr (), s')"
      "accumulated_time (timer_of name s') = fold (\<lambda>d x. add_time x (seconds d)) (intervals clock (clock_reads s1) (start_time (timer_of name s1)) calls)
         (accumulated_time (timer_of name s1))" "\<forall>n. n \<noteq> name \<longrightarrow> timer_of n s' = timer_of n s1" by blast
  show ?case using s' step other unfolding same by (auto simp: sx_bind_def)
qed

end
