(* ===== verification/Spec2Isabelle.thy ===== *)
theory Spec2Isabelle
  imports Datatype_Access_Correct Ref_Correct Expr_Print PDI_API Plugin_Correct Context_Correct API_Correct Expr_Bounds
    Serialize_Correct Set_Value_Correct User_Code_Correct Json_Correct Timer_Plugin
begin

text \<open>
  \<^bold>\<open>Verification of the PDI data interface\<close>

  PDI decouples a simulation code from the libraries that treat its data. The code shares buffers under a name and signals events; a YAML
  specification gives the types of the buffers; plugins are notified and read or write the data. This development models the C++ sources of
  the library (\<open>src/pdi\<close>) and of its plugins without foreign libraries (\<open>src/plugins\<close>), function by function, and proves what the parts promise.

  \<^bold>\<open>Conventions\<close> (\<open>PDI_Prelude\<close>, \<open>PDI_Error\<close>). A function that may throw returns a \<open>res\<close>: a value, an exception (\<open>Throw\<close>) or undefined behaviour
  (\<open>UB\<close>). A function that also changes state is an \<open>sx\<close>, a function from the state to an outcome and a state; \<open>sx_bind\<close>, \<open>sx_catch\<close>, \<open>sx_each\<close> and
  \<open>sx_noexcept\<close> are the sequence, the handler, the loop over a list and the end of the process on an exception. \<open>UB\<close> also stands for a process that ends, a
  failed assertion and a loop whose fuel is used up. \<open>size_t\<close> and addresses are natural numbers whose wrap-around is written out (\<open>sz_add\<close>, \<open>sz_sub\<close>,
  \<open>sz_mul\<close>); memory is a function from addresses to bytes. \<open>sx_hoare\<close> states a postcondition for the return and one for the exceptions. The exception
  classes and statuses are those of \<open>pdi.h\<close>, \<open>error.h\<close> and \<open>error.cxx\<close>.

  \<^bold>\<open>Datatypes\<close>. \<open>Datatype_Model\<close> has the classes \<open>Scalar\<close>, \<open>Array\<close>, \<open>Record\<close>, \<open>Tuple\<close> and \<open>Pointer\<close> (\<open>*_datatype.cxx\<close>) with sizes, alignment, \<open>dense\<close> and
  \<open>densify\<close>; \<open>Datatype_Copy\<close> the copies to and from the dense layout and the destruction; \<open>Datatype_Access\<close> the comparison, the printing and the accesses by
  index, slice, member and pointer. \<open>Datatype_Layout\<close> proves that \<open>densify\<close> yields a dense type with the packed layout of a specification;
  \<open>Datatype_Copy_Correct\<close>, \<open>Datatype_To_Dense\<close> and \<open>Datatype_From_Dense\<close> that the copies move exactly the data bytes, write nowhere else and
  undo each other; \<open>Datatype_Access_Correct\<close> that comparison is an equivalence on types with the same data, and that accesses stay in bounds, agree with their
  typed form and reach the data. Lemmas about small examples record where the code departs from this.

  \<^bold>\<open>References\<close> (\<open>ref_any.h\<close>, \<open>ref_any.cxx\<close>). In \<open>Ref_Store\<close> a reference is an index into a table; a content has a buffer, an address and a type; a buffer has
  its lock counters, notifications and deallocator. The shared pointers are modelled by reachability: a buffer is freed when no reference is linked to it.
  The locale of \<open>Ref_Invariant\<close> says which changes of the store a predicate must survive to be kept by every operation; \<open>Ref_Locks\<close> and
  \<open>Ref_Steps\<close> interpret it with the store invariant and follow programs as sequences of operations. \<open>Ref_Correct\<close> has the exclusion of readers and
  writers, the lifetime of buffers, release with its notifications, deep copies and scalar access.

  \<^bold>\<open>Expressions\<close> (\<open>expression.cxx\<close>, \<open>expression/\<close>). \<open>Expr_Syntax\<close> and \<open>Expr_Parse\<close> are the classes and the parser, \<open>C_Strings\<close> and \<open>C_Arith\<close> the functions of C
  and the arithmetic of C++ they use, \<open>Float_Model\<close> the IEEE formats, \<open>Expr_Eval\<close> the evaluation in a context. \<open>Expr_Parse_Correct\<close> shows that the parser
  always returns, \<open>Expr_Print\<close> that it reads back what is printed, \<open>Expr_Bounds\<close> that values stay within their C++ types.

  \<^bold>\<open>Specification tree\<close> (\<open>Spec_Tree\<close>): the accesses of the library paraconf, which is part of the sources, and their wrappers (\<open>paraconf_wrapper.cxx\<close>) over a YAML tree.
  \<^bold>\<open>Templates\<close> (\<open>Datatype_Template\<close>): the parsers of types and their evaluation (\<open>datatype_template.cxx\<close>).

  \<^bold>\<open>Context\<close>. \<open>Context_State\<close> has the state beside the store: contexts with descriptors and callbacks, loggers, and the globals of the C interface; the record \<open>env\<close>
  holds what is not in the sources (functions of users and plugins, the dynamic loader, files, the environment). \<open>Data_Descriptor\<close> is the stack of references of
  a data (\<open>data_descriptor_impl.cxx\<close>), \<open>Logger_Model\<close> the configuration of loggers, \<open>Plugin_Store\<close> the search and loading of plugins, \<open>Global_Context\<close> includes,
  metadata, data and callbacks (\<open>global_context.cxx\<close>), \<open>PDI_API\<close> the C interface (\<open>pdi.cxx\<close>). \<open>World_Frame\<close> has the locale of the relations that
  operations keep, with the session and the stacks as instances. \<open>Descriptor_Correct\<close> shows what share, release and reclaim do to the
  stacks; \<open>Plugin_Correct\<close> that plugins load behind what they need; \<open>Context_Correct\<close> that every callback is called and includes are ordered;
  \<open>API_Correct\<close> that no exception crosses the C interface and that transactions and multi-expose implement an abstract program.

  \<^bold>\<open>Plugins\<close>. \<open>Serialize_Plugin\<close>, \<open>Set_Value_Plugin\<close>, \<open>User_Code_Plugin\<close>, \<open>Json_Plugin\<close> and \<open>Timer_Plugin\<close>, which also has \<open>trace\<close>, model
  their sources whole; \<open>Json_Dump\<close> is the part of the library \<open>nlohmann::json\<close> that writes text. \<open>Serialize_Correct\<close> proves the serialized copy against a
  packed layout and its round trip. \<open>Stack_Balance\<close> counts the names that a sequence of shares and releases leaves shared;
  with it \<open>User_Code_Correct\<close> shows that a call of user code leaves the stacks balanced on every path, and \<open>Set_Value_Correct\<close> that a trigger implements
  a program on a multiset of names. \<open>Json_Correct\<close> shows that integers are printed in decimal, that the value read through temporary references is the one in
  memory for every type that the plugin can write, and that a file gathers the values written to it; \<open>Timer_Plugin\<close> that a timer accumulates its
  intervals. The last section of this theory follows data from a reference to the file.

  \<^bold>\<open>Fuel\<close>. The parser of expressions has a fuel that grows with the text, and the conversion to JSON one that grows with the type; both are proved to be enough. Patterns of loggers, parents of loggers, included files,
  the rounds of notifications and evaluation that comes back through callbacks are bounded by a fuel of the environment; properties hold for every fuel, and the
  witnesses show runs that return.

  \<^bold>\<open>Parameters and hypotheses\<close>. What callbacks, plugins and functions of the user do is in the environment. Hypotheses about them are named: \<open>callbacks_keep\<close> (they
  leave a relation of the state intact), \<open>handlers_return\<close> (an error handler is a C function and returns), \<open>reporting\<close> (a notification tells that it was called).
  Each property with such a hypothesis has a witness.

  \<^bold>\<open>Not modelled\<close>. The text of log messages and its formatting; the YAML reader; the Python, Fortran and mock interfaces, which only forward. The plugins
  \<open>decl_hdf5\<close>, \<open>decl_netcdf\<close>, \<open>mpi\<close> and \<open>pycall\<close> consist of calls of the HDF5, NetCDF, MPI and Python libraries, whose state is where their effect is.
\<close>

section \<open>From a reference to a file\<close>


text \<open>The integer at an address, written under the name \<open>n\<close> to a new file.\<close>

definition sample_write :: json_world where
  "sample_write = snd (make_ref True False 16 Keep (sample_scalar 4) True True
     (sample_json_world\<lparr>memory := sample_json_memory, m_data_to_path_map := [(''n'', [(Some (Int_literal 1), Some (String_literal ''f'' []))])]\<rparr>))"


end
